(* ===== verification/Prelude.thy ===== *)
theory Prelude
  imports Complex_Main "HOL-Library.List_Lexorder" "HOL-Library.Char_ord"
    "HOL-Library.Product_Lexorder" "HOL-Library.Multiset"
begin

section \<open>Shared types, combinators and lemmas\<close>

text \<open>
  What every component uses: the state-and-exception form of a Python method, Python's list and
  dict idioms (\<open>dict.fromkeys\<close>, insertion-ordered dicts, \<open>str(int)\<close>), and the rules
  that carry the component proofs. A Python \<open>str\<close> is a HOL \<open>string\<close>, a list
  of code points below 256; the identifiers of the program are ASCII by their patterns.
\<close>


subsection \<open>Methods that mutate and may raise\<close>

text \<open>
  A method of an object with state \<open>'s\<close> that returns \<open>'a\<close> or raises \<open>'e\<close> is a function
  of type \<open>'s \<Rightarrow> ('e + 'a) \<times> 's\<close>: an exception keeps the mutations made before it, as
  Python does.
\<close>

type_synonym ('s, 'e, 'a) meth = "'s \<Rightarrow> ('e + 'a) \<times> 's"

definition ret :: "'a \<Rightarrow> ('s, 'e, 'a) meth" where
  "ret x = (\<lambda>s. (Inr x, s))"

definition raise :: "'e \<Rightarrow> ('s, 'e, 'a) meth" where
  "raise e = (\<lambda>s. (Inl e, s))"

definition andthen :: "('s, 'e, 'a) meth \<Rightarrow> ('a \<Rightarrow> ('s, 'e, 'b) meth) \<Rightarrow> ('s, 'e, 'b) meth" where
  "andthen m f = (\<lambda>s. case m s of (Inl e, s') \<Rightarrow> (Inl e, s') | (Inr x, s') \<Rightarrow> f x s')"

definition modify :: "('s \<Rightarrow> 's) \<Rightarrow> ('s, 'e, unit) meth" where
  "modify f = (\<lambda>s. (Inr (), f s))"

text \<open>\<open>if cond(state): raise e\<close>.\<close>

definition raise_if :: "('s \<Rightarrow> bool) \<Rightarrow> 'e \<Rightarrow> ('s, 'e, unit) meth" where
  "raise_if b e = (\<lambda>s. if b s then (Inl e, s) else (Inr (), s))"

text \<open>Run the statements of a body in order.\<close>

fun in_order :: "('s, 'e, unit) meth list \<Rightarrow> ('s, 'e, unit) meth" where
  "in_order [] = ret ()"
| "in_order (m # ms) = andthen m (\<lambda>_. in_order ms)"

lemmas meth_defs = ret_def raise_def andthen_def modify_def raise_if_def

lemma andthen_split:
  "P (andthen m f s) \<longleftrightarrow>
     (\<forall>e s'. m s = (Inl e, s') \<longrightarrow> P (Inl e, s')) \<and> (\<forall>x s'. m s = (Inr x, s') \<longrightarrow> P (f x s'))"
  by (cases "m s"; cases "fst (m s)") (auto simp: andthen_def)

text \<open>A method keeps a property of the state, whether it returns or raises.\<close>

definition keeps :: "('s \<Rightarrow> bool) \<Rightarrow> ('s, 'e, 'a) meth \<Rightarrow> bool" where
  "keeps Q m \<longleftrightarrow> (\<forall>s. Q s \<longrightarrow> Q (snd (m s)))"

lemma keepsD: "keeps Q m \<Longrightarrow> Q s \<Longrightarrow> Q (snd (m s))"
  by (simp add: keeps_def)

lemma keeps_ret [simp]: "keeps Q (ret x)" and keeps_raise [simp]: "keeps Q (raise e)"
  and keeps_raise_if [simp]: "keeps Q (raise_if b e)"
  by (simp_all add: keeps_def meth_defs)

lemma keeps_andthen: "keeps Q m \<Longrightarrow> (\<And>x. keeps Q (f x)) \<Longrightarrow> keeps Q (andthen m f)"
  by (auto simp: keeps_def andthen_def split: prod.splits sum.splits)

lemma keeps_in_order [intro]: "list_all (keeps Q) ms \<Longrightarrow> keeps Q (in_order ms)"
  by (induction ms) (auto intro: keeps_andthen)

text \<open>A Hoare triple with a postcondition for the value and one for the exception.\<close>

definition triple :: "('s \<Rightarrow> bool) \<Rightarrow> ('s, 'e, 'a) meth \<Rightarrow> ('a \<Rightarrow> 's \<Rightarrow> bool) \<Rightarrow> ('e \<Rightarrow> 's \<Rightarrow> bool) \<Rightarrow> bool" where
  "triple P m Q E \<longleftrightarrow> (\<forall>s. P s \<longrightarrow> (case m s of (Inl e, s') \<Rightarrow> E e s' | (Inr x, s') \<Rightarrow> Q x s'))"

lemma triple_andthen:
  "triple P m R E \<Longrightarrow> (\<And>x. triple (R x) (f x) Q E) \<Longrightarrow> triple P (andthen m f) Q E"
  by (fastforce simp: triple_def andthen_def split: prod.splits sum.splits)

lemma triple_ret [intro]: "(\<And>s. P s \<Longrightarrow> Q x s) \<Longrightarrow> triple P (ret x) Q E"
  by (simp add: triple_def meth_defs)

lemma triple_raise [intro]: "(\<And>s. P s \<Longrightarrow> E e s) \<Longrightarrow> triple P (raise e) Q E"
  by (simp add: triple_def meth_defs)

lemma triple_modify [intro]: "(\<And>s. P s \<Longrightarrow> Q () (f s)) \<Longrightarrow> triple P (modify f) Q E"
  by (simp add: triple_def meth_defs)

lemma triple_snd: "triple P m (\<lambda>_. R) (\<lambda>_. R) \<Longrightarrow> P s \<Longrightarrow> R (snd (m s))"
  by (cases "m s"; cases "fst (m s)") (auto simp: triple_def)

lemma triple_if: "(b \<Longrightarrow> triple P m Q E) \<Longrightarrow> (\<not> b \<Longrightarrow> triple P m' Q E) \<Longrightarrow> triple P (if b then m else m') Q E"
  by simp

lemma triple_conseq:
  "triple P m Q E \<Longrightarrow> (\<And>s. P' s \<Longrightarrow> P s) \<Longrightarrow> (\<And>x s. Q x s \<Longrightarrow> Q' x s) \<Longrightarrow> (\<And>e s. E e s \<Longrightarrow> E' e s)
   \<Longrightarrow> triple P' m Q' E'"
  by (fastforce simp: triple_def split: prod.splits sum.splits)

lemma tripleI:
  "(\<And>s e s'. P s \<Longrightarrow> m s = (Inl e, s') \<Longrightarrow> E e s') \<Longrightarrow> (\<And>s x s'. P s \<Longrightarrow> m s = (Inr x, s') \<Longrightarrow> Q x s')
   \<Longrightarrow> triple P m Q E"
  by (auto simp: triple_def split: prod.splits sum.splits)

lemma triple_Inr: "triple P m Q E \<Longrightarrow> P s \<Longrightarrow> m s = (Inr x, s') \<Longrightarrow> Q x s'"
  and triple_Inl: "triple P m Q E \<Longrightarrow> P s \<Longrightarrow> m s = (Inl e, s') \<Longrightarrow> E e s'"
  by (auto simp: triple_def dest!: spec)

lemma triple_keeps: "triple Q m (\<lambda>_. Q) (\<lambda>_. Q) \<longleftrightarrow> keeps Q m"
  by (simp add: triple_def keeps_def case_prod_beta sum.case_eq_if)

lemma triple_of_keeps:
  "keeps I m \<Longrightarrow> (\<And>s. P s \<Longrightarrow> I s) \<Longrightarrow> (\<And>x s. I s \<Longrightarrow> Q x s) \<Longrightarrow> (\<And>e s. I s \<Longrightarrow> E e s) \<Longrightarrow> triple P m Q E"
  by (rule triple_conseq [OF triple_keeps [THEN iffD2]])

lemma triple_pure: "(b \<Longrightarrow> triple P m Q E) \<Longrightarrow> triple (\<lambda>s. P s \<and> b) m Q E"
  by (auto simp: triple_def)

subsection \<open>Python's dict and list idioms\<close>

text \<open>\<open>tuple(dict.fromkeys(xs))\<close>: the first occurrence of each element, in order.\<close>

fun fromkeys :: "'a list \<Rightarrow> 'a list" where
  "fromkeys [] = []"
| "fromkeys (x # xs) = x # filter (\<lambda>y. y \<noteq> x) (fromkeys xs)"

lemma set_fromkeys [simp]: "set (fromkeys xs) = set xs"
  by (induction xs) auto

lemma distinct_fromkeys [simp]: "distinct (fromkeys xs)"
  by (induction xs) auto

lemma fromkeys_Nil_iff [simp]: "fromkeys xs = [] \<longleftrightarrow> xs = []"
  by (cases xs) auto

lemma fromkeys_distinct: "distinct xs \<Longrightarrow> fromkeys xs = xs"
proof (induction xs)
  case (Cons x xs)
  then have "filter (\<lambda>y. y \<noteq> x) xs = xs" by (auto simp: filter_id_conv)
  with Cons show ?case by simp
qed simp

text \<open>\<open>max(xs, default=0)\<close> over natural numbers.\<close>

fun max_list :: "nat list \<Rightarrow> nat" where
  "max_list [] = 0"
| "max_list (x # xs) = max x (max_list xs)"

lemma max_list_ge: "x \<in> set xs \<Longrightarrow> x \<le> max_list xs"
  by (induction xs) auto

lemma max_list_le: "max_list xs \<le> b \<longleftrightarrow> (\<forall>x \<in> set xs. x \<le> b)"
  by (induction xs) auto

lemma max_list_in: "xs \<noteq> [] \<Longrightarrow> max_list xs \<in> set xs"
proof (induction xs)
  case (Cons x xs)
  then show ?case by (cases xs) (auto simp: max_def)
qed simp

text \<open>A dict built from pairs: the last value of a key wins.\<close>

definition dict_of :: "('k \<times> 'v) list \<Rightarrow> 'k \<rightharpoonup> 'v" where
  "dict_of kvs = map_of (rev kvs)"

lemma dom_dict_of: "dom (dict_of kvs) = fst ` set kvs"
  by (simp add: dict_of_def dom_map_of_conv_image_fst)

lemma dict_of_distinct:
  assumes "distinct (map fst kvs)" and "(k, v) \<in> set kvs"
  shows "dict_of kvs k = Some v"
proof -
  have "distinct (map fst (rev kvs))" using assms(1) by (simp add: rev_map[symmetric])
  with assms(2) show ?thesis by (simp add: dict_of_def)
qed

text \<open>A dict whose insertion order is used: assignment keeps a key's position or appends it.\<close>

fun dict_set :: "'k \<Rightarrow> 'v \<Rightarrow> ('k \<times> 'v) list \<Rightarrow> ('k \<times> 'v) list" where
  "dict_set k v [] = [(k, v)]"
| "dict_set k v ((k', v') # d) = (if k' = k then (k, v) # d else (k', v') # dict_set k v d)"

lemma map_of_dict_set [simp]: "map_of (dict_set k v d) = (map_of d)(k \<mapsto> v)"
  by (induction k v d rule: dict_set.induct) (auto simp: fun_eq_iff)

lemma set_map_fst_dict_set [simp]: "fst ` set (dict_set k v d) = insert k (fst ` set d)"
  by (induction k v d rule: dict_set.induct) auto

lemma distinct_dict_set: "distinct (map fst d) \<Longrightarrow> distinct (map fst (dict_set k v d))"
  by (induction k v d rule: dict_set.induct) auto

text \<open>\<open>str(n)\<close> of a Python integer.\<close>

fun digits :: "nat \<Rightarrow> string" where
  "digits n = (if n < 10 then [char_of (48 + n)] else digits (n div 10) @ [char_of (48 + n mod 10)])"

declare digits.simps [simp del]

definition str_int :: "int \<Rightarrow> string" where
  "str_int i = (if i < 0 then ''-'' @ digits (nat (- i)) else digits (nat i))"

lemma digits_code_simps:
  "n < 10 \<Longrightarrow> digits n = [char_of (48 + n)]"
  "\<not> n < 10 \<Longrightarrow> digits n = digits (n div 10) @ [char_of (48 + n mod 10)]"
  by (simp_all add: digits.simps [of n])

lemma digits_not_Nil [simp]: "digits n \<noteq> []"
  by (subst digits.simps) simp

subsection \<open>Generic list facts\<close>

lemma sum_list_mem_le: "(x :: nat) \<in> set xs \<Longrightarrow> x \<le> sum_list xs"
  by (induction xs) auto

lemma count_list_append [simp]: "count_list (xs @ ys) a = count_list xs a + count_list ys a"
  by (induction xs) auto

lemma count_list_mset: "count_list xs a = count (mset xs) a"
  by (induction xs) auto

lemma count_list_sort [simp]: "count_list (sort xs) a = count_list xs a"
  by (simp add: count_list_mset)

lemma length_filter_snoc_count:
  "c \<notin> A \<Longrightarrow> length (filter (\<lambda>d. d \<notin> A) xs) = length (filter (\<lambda>d. d \<notin> insert c A) xs) + count_list xs c"
  by (induction xs) auto

text \<open>The index of the first occurrence of an element.\<close>

lemma index_less: "x \<in> set xs \<Longrightarrow> length (takeWhile (\<lambda>y. y \<noteq> x) xs) < length xs"
  by (induction xs) auto

lemma index_nth: "x \<in> set xs \<Longrightarrow> xs ! length (takeWhile (\<lambda>y. y \<noteq> x) xs) = x"
  by (induction xs) auto

lemma index_take: "x \<in> set (take k xs) \<Longrightarrow> length (takeWhile (\<lambda>y. y \<noteq> x) xs) < k"
proof (induction xs arbitrary: k)
  case (Cons a xs)
  then show ?case by (cases k) (auto split: if_splits)
qed simp

lemma distinct_map_filter_card:
  "distinct xs \<Longrightarrow> length (filter P xs) = card {x \<in> set xs. P x}"
  by (metis distinct_card distinct_filter set_filter)

subsection \<open>Invariants of transition systems\<close>

inductive reachable :: "('s \<Rightarrow> bool) \<Rightarrow> ('s \<Rightarrow> 's \<Rightarrow> bool) \<Rightarrow> 's \<Rightarrow> bool" for start move where
  reach_start: "start s \<Longrightarrow> reachable start move s"
| reach_move: "reachable start move s \<Longrightarrow> move s t \<Longrightarrow> reachable start move t"

text \<open>What a component with state promises: its invariant holds initially and every move keeps it.\<close>

locale invariant_system =
  fixes start :: "'s \<Rightarrow> bool" and move :: "'s \<Rightarrow> 's \<Rightarrow> bool" and inv :: "'s \<Rightarrow> bool"
  assumes inv_start: "start s \<Longrightarrow> inv s"
    and inv_move: "inv s \<Longrightarrow> move s t \<Longrightarrow> inv t"
begin

lemma reachable_inv: "reachable start move s \<Longrightarrow> inv s"
  by (induction rule: reachable.induct) (auto intro: inv_start inv_move)

lemma inv_moves: "move\<^sup>*\<^sup>* s t \<Longrightarrow> inv s \<Longrightarrow> inv t"
  by (induction rule: rtranclp_induct) (auto intro: inv_move)

end

end
