(* ===== verification/Json.thy ===== *)
theory Json
  imports Prelude
begin

section \<open>Canonical JSON\<close>

text \<open>
  The serialisation every hash of the program is taken over:
  \<open>json.dumps(data, sort_keys=True, separators=(",", ":")).encode()\<close>, with
  \<open>ensure_ascii\<close> true for a planning DAG (\<open>canonical_dag_bytes\<close>) and false everywhere else
  (\<open>canonical_json_bytes\<close>, \<open>_canonical\<close>). The main lemma is that the encoding is injective on
  values with distinct keys, so two different payloads never share their bytes.
\<close>

datatype json =
    JNull
  | JBool bool
  | JInt int
  | JStr string
  | JArr "json list"
  | JObj "(string \<times> json) list"

subsection \<open>Strings and integers\<close>

definition hex_digit :: "nat \<Rightarrow> char" where
  "hex_digit n = char_of (if n < 10 then 48 + n else 87 + n)"

definition unicode_escape :: "nat \<Rightarrow> string" where
  "unicode_escape n = [CHR 0x5C, CHR ''u'', CHR ''0'', CHR ''0'', hex_digit (n div 16), hex_digit (n mod 16)]"

text \<open>\<open>json.encoder\<close>: the two-character escapes, then \<open>\u00XX\<close> for the other control characters
  and, with \<open>ensure_ascii\<close>, for everything outside the printable ASCII range.\<close>

definition escape_char :: "bool \<Rightarrow> char \<Rightarrow> string" where
  "escape_char ensure_ascii c =
     (let n = (of_char c :: nat) in
      if n = 34 then [CHR 0x5C, CHR 0x22]
      else if n = 92 then [CHR 0x5C, CHR 0x5C]
      else if n = 10 then [CHR 0x5C, CHR ''n'']
      else if n = 13 then [CHR 0x5C, CHR ''r'']
      else if n = 9 then [CHR 0x5C, CHR ''t'']
      else if n = 12 then [CHR 0x5C, CHR ''f'']
      else if n = 8 then [CHR 0x5C, CHR ''b'']
      else if n < 32 \<or> (ensure_ascii \<and> 126 < n) then unicode_escape n
      else [c])"

definition quote :: "bool \<Rightarrow> string \<Rightarrow> string" where
  "quote ensure_ascii s = CHR 0x22 # concat (map (escape_char ensure_ascii) s) @ [CHR 0x22]"

fun comma_join :: "string list \<Rightarrow> string" where
  "comma_join [] = []"
| "comma_join [x] = x"
| "comma_join (x # y # xs) = x @ CHR '','' # comma_join (y # xs)"

subsection \<open>Rendering\<close>

fun sort_keys :: "json \<Rightarrow> json" where
  "sort_keys (JArr xs) = JArr (map sort_keys xs)"
| "sort_keys (JObj kvs) = JObj (sort_key fst (map (\<lambda>(k, v). (k, sort_keys v)) kvs))"
| "sort_keys j = j"

fun render :: "bool \<Rightarrow> json \<Rightarrow> string" where
  "render a JNull = ''null''"
| "render a (JBool b) = (if b then ''true'' else ''false'')"
| "render a (JInt i) = str_int i"
| "render a (JStr s) = quote a s"
| "render a (JArr xs) = CHR ''['' # comma_join (map (render a) xs) @ '']''"
| "render a (JObj kvs) =
     CHR ''{'' # comma_join (map (\<lambda>(k, v). quote a k @ CHR '':'' # render a v) kvs) @ ''}''"

text \<open>\<open>str.encode()\<close>: UTF-8 of code points below 256.\<close>

definition utf8_char :: "char \<Rightarrow> string" where
  "utf8_char c = (let n = (of_char c :: nat) in
     if n < 128 then [c] else [char_of (192 + n div 64), char_of (128 + n mod 64)])"

definition utf8 :: "string \<Rightarrow> string" where
  "utf8 s = concat (map utf8_char s)"

definition canonical_json_bytes :: "json \<Rightarrow> string" where
  "canonical_json_bytes j = utf8 (render False (sort_keys j))"

definition canonical_ascii_json_bytes :: "json \<Rightarrow> string" where
  "canonical_ascii_json_bytes j = utf8 (render True (sort_keys j))"

subsection \<open>Escapes and UTF-8 are prefix codes\<close>

definition unhex :: "char \<Rightarrow> nat" where
  "unhex c = (let n = of_char c in if n < 58 then n - 48 else n - 87)"

fun unescape :: "string \<Rightarrow> (char \<times> string) option" where
  "unescape [] = None"
| "unescape (c # r) =
     (if c \<noteq> CHR 0x5C then Some (c, r)
      else case r of
          [] \<Rightarrow> None
        | d # r' \<Rightarrow>
            if d = CHR ''n'' then Some (CHR 0x0A, r')
            else if d = CHR ''r'' then Some (CHR 0x0D, r')
            else if d = CHR ''t'' then Some (CHR 0x09, r')
            else if d = CHR ''f'' then Some (CHR 0x0C, r')
            else if d = CHR ''b'' then Some (CHR 0x08, r')
            else if d = CHR ''u'' then
              (case r' of
                 z1 # z2 # h1 # h2 # r'' \<Rightarrow> Some (char_of (16 * unhex h1 + unhex h2), r'')
               | _ \<Rightarrow> None)
            else Some (d, r'))"

lemma char_eq_code: "c = d \<longleftrightarrow> (of_char c :: nat) = of_char d"
  by simp

lemmas char_code_simps = char_eq_code of_char_of

lemma unhex_hex_digit: "n < 16 \<Longrightarrow> unhex (hex_digit n) = n"
  by (auto simp: unhex_def hex_digit_def Let_def)

lemma unescape_escape: "unescape (escape_char a c @ r) = Some (c, r)"
proof -
  define n where "n = (of_char c :: nat)"
  have lt: "n < 256" by (simp add: n_def)
  have "16 * (n div 16) + n mod 16 = n" by simp
  then have hex: "16 * unhex (hex_digit (n div 16)) + unhex (hex_digit (n mod 16)) = n"
    using lt by (simp add: unhex_hex_digit)
  show ?thesis
    using lt hex unfolding n_def
    by (auto simp: escape_char_def unicode_escape_def Let_def char_eq_code simp del: of_char_eq_iff)
qed

lemma escape_not_quote: "escape_char a c = d # r \<Longrightarrow> d \<noteq> CHR 0x22"
  by (auto simp: escape_char_def unicode_escape_def Let_def split: if_splits)

lemma escape_not_Nil [simp]: "escape_char a c \<noteq> []"
  by (simp add: escape_char_def unicode_escape_def Let_def)

lemma escape_prefix_code:
  assumes "escape_char a c @ r = escape_char a c' @ r'"
  shows "c = c' \<and> r = r'"
  using assms unescape_escape [of a c r] unescape_escape [of a c' r'] by (metis Pair_inject option.inject)

lemma escaped_prefix_code:
  "concat (map (escape_char a) s) @ CHR 0x22 # r = concat (map (escape_char a) s') @ CHR 0x22 # r'
     \<Longrightarrow> s = s' \<and> r = r'"
proof (induction s arbitrary: s')
  case Nil
  show ?case
  proof (cases s')
    case (Cons c' t')
    then show ?thesis using Nil escape_not_quote [of a c']
      by (cases "escape_char a c'") auto
  qed (use Nil in simp)
next
  case (Cons c t)
  show ?case
  proof (cases s')
    case Nil
    then show ?thesis using Cons.prems escape_not_quote [of a c]
      by (cases "escape_char a c") auto
  next
    case (Cons c' t')
    have "escape_char a c @ concat (map (escape_char a) t) @ CHR 0x22 # r
        = escape_char a c' @ concat (map (escape_char a) t') @ CHR 0x22 # r'"
      using Cons.prems Cons by simp
    then have "c = c'" and "concat (map (escape_char a) t) @ CHR 0x22 # r
        = concat (map (escape_char a) t') @ CHR 0x22 # r'"
      using escape_prefix_code by blast+
    with Cons.IH Cons show ?thesis by blast
  qed
qed

lemma quote_prefix_code: "quote a s @ r = quote a s' @ r' \<Longrightarrow> s = s' \<and> r = r'"
  unfolding quote_def by (rule escaped_prefix_code [of a]) (simp add: append_assoc)

definition utf8_decode :: "string \<Rightarrow> char \<times> string" where
  "utf8_decode bs = (case bs of
       b # r \<Rightarrow> (let n = (of_char b :: nat) in
          if n < 128 then (b, r)
          else (char_of (64 * (n - 192) + ((of_char (hd r) :: nat) - 128)), tl r))
     | [] \<Rightarrow> (CHR 0x00, []))"

lemma utf8_decode_char: "utf8_decode (utf8_char c @ r) = (c, r)"
proof -
  define n where "n = (of_char c :: nat)"
  have c: "c = char_of n" and lt: "n < 256" by (simp_all add: n_def)
  have "n div 64 < 4" and "n mod 64 < 64" and val: "64 * (n div 64) + n mod 64 = n"
    using lt by (simp_all add: less_mult_imp_div_less)
  then have b: "(of_char (char_of (192 + n div 64) :: char) :: nat) = 192 + n div 64"
    "(of_char (char_of (128 + n mod 64) :: char) :: nat) = 128 + n mod 64"
    by simp_all
  show ?thesis
  proof (cases "n < 128")
    case True
    then show ?thesis by (simp add: utf8_decode_def utf8_char_def Let_def n_def)
  next
    case False
    then have "utf8_char c = [char_of (192 + n div 64), char_of (128 + n mod 64)]"
      by (simp add: utf8_char_def Let_def n_def)
    then show ?thesis
      using b val c by (simp add: utf8_decode_def Let_def del: of_char_of)
  qed
qed

lemma utf8_char_not_Nil [simp]: "utf8_char c \<noteq> []"
  by (simp add: utf8_char_def Let_def)

lemma utf8_inj: "utf8 s = utf8 s' \<Longrightarrow> s = s'"
proof (induction s arbitrary: s')
  case Nil
  then show ?case by (cases s') (auto simp: utf8_def)
next
  case (Cons c t)
  then obtain c' t' where s': "s' = c' # t'" by (cases s') (auto simp: utf8_def)
  with Cons.prems have "utf8_char c @ utf8 t = utf8_char c' @ utf8 t'" by (simp add: utf8_def)
  then have "c = c' \<and> utf8 t = utf8 t'"
    by (metis Pair_inject utf8_decode_char)
  with Cons.IH s' show ?case by blast
qed

subsection \<open>Integers are delimited\<close>

definition is_digit :: "char \<Rightarrow> bool" where
  "is_digit c = (48 \<le> (of_char c :: nat) \<and> (of_char c :: nat) \<le> 57)"

definition digits_val :: "string \<Rightarrow> nat" where
  "digits_val = foldl (\<lambda>v c. 10 * v + ((of_char c :: nat) - 48)) 0"

lemma digits_are_digits: "c \<in> set (digits n) \<Longrightarrow> is_digit c"
proof (induction n rule: digits.induct)
  case (1 n)
  show ?case
  proof (cases "n < 10")
    case True
    with 1 show ?thesis by (simp add: digits_code_simps is_digit_def)
  next
    case False
    then have "c \<in> set (digits (n div 10)) \<or> c = char_of (48 + n mod 10)"
      using 1(2) by (auto simp: digits_code_simps)
    moreover have "n mod 10 < 10" by simp
    ultimately show ?thesis
      using 1(1) [OF False] by (auto simp: is_digit_def)
  qed
qed

lemma digits_val_digits: "digits_val (digits n) = n"
proof (induction n rule: digits.induct)
  case (1 n)
  have d: "n mod 10 < 10" by simp
  show ?case
  proof (cases "n < 10")
    case True
    then show ?thesis by (simp add: digits_code_simps digits_val_def)
  next
    case False
    have "digits_val (digits n) = 10 * digits_val (digits (n div 10)) + n mod 10"
      using False d by (simp add: digits_code_simps digits_val_def)
    then show ?thesis using "1" [OF False] by simp
  qed
qed

definition delimited :: "string \<Rightarrow> bool" where
  "delimited r \<longleftrightarrow> r = [] \<or> hd r \<in> {CHR '','', CHR '']'', CHR ''}''}"

lemma delimited_not_digit: "delimited r \<Longrightarrow> takeWhile is_digit r = []"
  by (cases r) (auto simp: delimited_def is_digit_def)

lemma digits_prefix_code:
  assumes "digits m @ r = digits n @ r'" and "delimited r" and "delimited r'"
  shows "m = n \<and> r = r'"
proof -
  have "takeWhile is_digit (digits k @ t) = digits k" if "delimited t" for k t
    using that by (simp add: takeWhile_append2 digits_are_digits delimited_not_digit)
  with assms have "digits m = digits n" by metis
  with assms(1) show ?thesis by (metis digits_val_digits same_append_eq)
qed

lemma hd_digits: "is_digit (hd (digits n))"
  using digits_are_digits [of "hd (digits n)" n] by simp

lemma str_int_prefix_code:
  assumes "str_int i @ r = str_int k @ r'" and "delimited r" and "delimited r'"
  shows "i = k \<and> r = r'"
proof -
  have h: "digits n @ t \<noteq> CHR ''-'' # u" for n t u
    using hd_digits [of n] by (cases "digits n") (auto simp: is_digit_def)
  consider "i < 0" "k < 0" | "\<not> i < 0" "\<not> k < 0"
    using assms(1) h h [symmetric] by (auto simp: str_int_def split: if_splits)
  then show ?thesis
  proof cases
    case 1
    with assms digits_prefix_code [of "nat (- i)" r "nat (- k)" r'] show ?thesis
      by (auto simp: str_int_def)
  next
    case 2
    with assms digits_prefix_code [of "nat i" r "nat k" r'] show ?thesis
      by (auto simp: str_int_def)
  qed
qed

subsection \<open>Rendering is injective\<close>

lemma comma_join_Cons:
  "comma_join (x # xs) = x @ (if xs = [] then [] else CHR '','' # comma_join xs)"
  by (cases xs) auto

definition list_code :: "('a \<Rightarrow> string) \<Rightarrow> char \<Rightarrow> 'a list \<Rightarrow> string" where
  "list_code f e xs = comma_join (map f xs) @ [e]"

definition code_upto :: "('a \<Rightarrow> string) \<Rightarrow> 'a \<Rightarrow> bool" where
  "code_upto f x \<longleftrightarrow>
     (\<forall>y r r'. f x @ r = f y @ r' \<longrightarrow> delimited r \<longrightarrow> delimited r' \<longrightarrow> x = y \<and> r = r')"

lemma code_uptoD:
  "code_upto f x \<Longrightarrow> f x @ r = f y @ r' \<Longrightarrow> delimited r \<Longrightarrow> delimited r' \<Longrightarrow> x = y \<and> r = r'"
  by (simp add: code_upto_def)

text \<open>An item never starts with a closing bracket, so the end of a list is recognised.\<close>

lemma list_prefix_code:
  assumes "comma_join (map f xs) @ e # r = comma_join (map f ys) @ e # r'"
    and "\<And>x. x \<in> set xs \<Longrightarrow> code_upto f x"
    and "\<And>x t. f x \<noteq> [] \<and> hd (f x @ t) \<noteq> e" and "e = CHR '']'' \<or> e = CHR ''}''"
  shows "xs = ys \<and> r = r'"
  using assms(1,2)
proof (induction xs arbitrary: ys)
  case Nil
  show ?case
  proof (cases ys)
    case (Cons y zs)
    then have "e # r = f y @ (if map f zs = [] then [] else CHR '','' # comma_join (map f zs)) @ e # r'"
      using Nil by (simp add: comma_join_Cons)
    then show ?thesis using assms(3) by (metis list.sel(1))
  qed (use Nil in simp)
next
  case (Cons x xs)
  define rest where "rest zs = (if map f zs = [] then [] else CHR '','' # comma_join (map f zs))" for zs
  show ?case
  proof (cases ys)
    case Nil
    then have "f x @ rest xs @ e # r = e # r'"
      using Cons.prems by (simp add: comma_join_Cons rest_def)
    then show ?thesis using assms(3) by (metis list.sel(1))
  next
    case (Cons y zs)
    have del: "delimited (rest ws @ e # t)" for ws t
      using assms(4) by (auto simp: rest_def delimited_def)
    have "f x @ rest xs @ e # r = f y @ rest zs @ e # r'"
      using Cons.prems Cons by (simp add: comma_join_Cons rest_def)
    then have eq: "x = y" "rest xs @ e # r = rest zs @ e # r'"
      using code_uptoD [OF Cons.prems(2) [of x]] del by auto
    have "e \<noteq> CHR '',''" using assms(4) by auto
    then have "(xs = []) = (zs = [])" and
      "comma_join (map f xs) @ e # r = comma_join (map f zs) @ e # r'"
      using eq(2) by (auto simp: rest_def split: if_splits)
    with Cons.IH [of zs] Cons.prems(2) Cons eq(1) show ?thesis by simp
  qed
qed

definition render_item :: "bool \<Rightarrow> string \<times> json \<Rightarrow> string" where
  "render_item a = (\<lambda>(k, v). quote a k @ CHR '':'' # render a v)"

definition head_kind :: "json \<Rightarrow> nat" where
  "head_kind j = (case j of JNull \<Rightarrow> 0 | JBool True \<Rightarrow> 1 | JBool False \<Rightarrow> 2 | JInt _ \<Rightarrow> 3
     | JStr _ \<Rightarrow> 4 | JArr _ \<Rightarrow> 5 | JObj _ \<Rightarrow> 6)"

definition char_kind :: "char \<Rightarrow> nat" where
  "char_kind c = (if c = CHR ''n'' then 0 else if c = CHR ''t'' then 1 else if c = CHR ''f'' then 2
     else if c = CHR ''-'' \<or> is_digit c then 3 else if c = CHR 0x22 then 4
     else if c = CHR ''['' then 5 else if c = CHR ''{'' then 6 else 7)"

lemma hd_str_int: "hd (str_int i) = CHR ''-'' \<or> is_digit (hd (str_int i))"
  using hd_digits by (auto simp: str_int_def)

lemma str_int_not_Nil [simp]: "str_int i \<noteq> []"
  by (simp add: str_int_def)

lemma render_not_Nil [simp]: "render a j \<noteq> []"
  by (cases j) (auto simp: quote_def)

lemma render_kind: "char_kind (hd (render a j)) = head_kind j"
proof (cases j)
  case (JInt i)
  have "char_kind c = 3" if "c = CHR ''-'' \<or> is_digit c" for c
    using that by (auto simp: char_kind_def is_digit_def)
  with JInt hd_str_int show ?thesis by (simp add: head_kind_def)
qed (auto simp: char_kind_def head_kind_def quote_def is_digit_def split: bool.splits)

lemma head_kind_less: "head_kind j < 7"
  by (auto simp: head_kind_def split: json.splits bool.splits)

lemma render_not_bracket: "hd (render a j @ t) \<noteq> CHR '']''"
  using render_kind [of a j] head_kind_less [of j]
  by (auto simp: char_kind_def is_digit_def split: if_splits)

lemma render_item_shape: "render_item a p \<noteq> [] \<and> hd (render_item a p @ t) \<noteq> CHR ''}''"
  by (auto simp: render_item_def quote_def split: prod.splits)

lemma render_kind_eq:
  assumes "render a j @ r = render a j' @ r'"
  shows "head_kind j = head_kind j'"
  by (metis assms hd_append2 render_kind render_not_Nil)

lemma render_JObj: "render a (JObj kvs) = CHR ''{'' # comma_join (map (render_item a) kvs) @ ''}''"
  by (simp add: render_item_def)

lemma render_prefix_code: "code_upto (render a) j"
proof (induction j)
  case JNull
  show ?case unfolding code_upto_def
  proof (intro allI impI)
    fix y r r' assume eq: "render a JNull @ r = render a y @ r'"
    from render_kind_eq [OF eq] have "y = JNull"
      by (auto simp: head_kind_def split: json.splits bool.splits)
    with eq show "JNull = y \<and> r = r'" by simp
  qed
next
  case (JBool b)
  show ?case unfolding code_upto_def
  proof (intro allI impI)
    fix y r r' assume eq: "render a (JBool b) @ r = render a y @ r'"
    from render_kind_eq [OF eq] have "y = JBool b"
      by (cases b) (auto simp: head_kind_def split: json.splits bool.splits)
    with eq show "JBool b = y \<and> r = r'" by simp
  qed
next
  case (JInt i)
  show ?case unfolding code_upto_def
  proof (intro allI impI)
    fix y r r' assume eq: "render a (JInt i) @ r = render a y @ r'"
      and d: "delimited r" "delimited r'"
    from render_kind_eq [OF eq] obtain k where y: "y = JInt k"
      by (auto simp: head_kind_def split: json.splits bool.splits)
    with eq str_int_prefix_code [OF _ d] show "JInt i = y \<and> r = r'" by simp
  qed
next
  case (JStr s)
  show ?case unfolding code_upto_def
  proof (intro allI impI)
    fix y r r' assume eq: "render a (JStr s) @ r = render a y @ r'"
    from render_kind_eq [OF eq] obtain k where y: "y = JStr k"
      by (auto simp: head_kind_def split: json.splits bool.splits)
    with eq quote_prefix_code [of a s r k r'] show "JStr s = y \<and> r = r'" by simp
  qed
next
  case (JArr xs)
  show ?case unfolding code_upto_def
  proof (intro allI impI)
    fix y r r' assume eq: "render a (JArr xs) @ r = render a y @ r'"
    from render_kind_eq [OF eq] obtain ys where y: "y = JArr ys"
      by (auto simp: head_kind_def split: json.splits bool.splits)
    with eq have "comma_join (map (render a) xs) @ CHR '']'' # r
        = comma_join (map (render a) ys) @ CHR '']'' # r'" by simp
    then have "xs = ys \<and> r = r'"
      by (rule list_prefix_code) (use JArr render_not_bracket in auto)
    with y show "JArr xs = y \<and> r = r'" by simp
  qed
next
  case (JObj kvs)
  have item: "code_upto (render_item a) p" if "p \<in> set kvs" for p
    unfolding code_upto_def
  proof (intro allI impI)
    fix q r r' assume eq: "render_item a p @ r = render_item a q @ r'"
      and d: "delimited r" "delimited r'"
    obtain k v l w where p: "p = (k, v)" and q: "q = (l, w)" by (cases p, cases q) auto
    from eq have "quote a k @ (CHR '':'' # render a v @ r) = quote a l @ (CHR '':'' # render a w @ r')"
      by (simp add: p q render_item_def)
    then have kl: "k = l" and vw: "render a v @ r = render a w @ r'"
      using quote_prefix_code by blast+
    have "code_upto (render a) v" using JObj that p by (auto intro: prod_set_simps)
    from code_uptoD [OF this vw d] kl p q show "p = q \<and> r = r'" by simp
  qed
  show ?case unfolding code_upto_def
  proof (intro allI impI)
    fix y r r' assume eq: "render a (JObj kvs) @ r = render a y @ r'"
    from render_kind_eq [OF eq] obtain ys where y: "y = JObj ys"
      by (auto simp: head_kind_def split: json.splits bool.splits)
    with eq have "comma_join (map (render_item a) kvs) @ CHR ''}'' # r
        = comma_join (map (render_item a) ys) @ CHR ''}'' # r'"
      by (simp only: render_JObj) simp
    then have "kvs = ys \<and> r = r'"
      by (rule list_prefix_code) (rule item, assumption, rule render_item_shape, simp)
    with y show "JObj kvs = y \<and> r = r'" by simp
  qed
qed

lemma render_inj: "render a j = render a j' \<Longrightarrow> j = j'"
  using code_uptoD [OF render_prefix_code, of a j "[]" j' "[]"] by (simp add: delimited_def)

text \<open>Equal bytes mean equal values, up to the order of the keys.\<close>

lemma canonical_json_bytes_inj:
  "canonical_json_bytes j = canonical_json_bytes j' \<Longrightarrow> sort_keys j = sort_keys j'"
  unfolding canonical_json_bytes_def by (blast dest: utf8_inj render_inj)

lemma canonical_ascii_json_bytes_inj:
  "canonical_ascii_json_bytes j = canonical_ascii_json_bytes j' \<Longrightarrow> sort_keys j = sort_keys j'"
  unfolding canonical_ascii_json_bytes_def by (blast dest: utf8_inj render_inj)

subsection \<open>A bound on the encoded length\<close>

text \<open>An escape takes at most six bytes, so the length is bounded without encoding the value.\<close>

fun json_bound :: "json \<Rightarrow> nat" where
  "json_bound JNull = 4"
| "json_bound (JBool b) = 5"
| "json_bound (JInt i) = length (str_int i)"
| "json_bound (JStr s) = 6 * length s + 2"
| "json_bound (JArr xs) = 2 + sum_list (map (\<lambda>x. json_bound x + 1) xs)"
| "json_bound (JObj kvs) = 2 + sum_list (map (\<lambda>(k, v). 6 * length k + json_bound v + 4) kvs)"

lemma escape_length: "length (escape_char a c) \<le> 6"
  by (simp add: escape_char_def unicode_escape_def Let_def)

lemma quote_length: "length (quote a s) \<le> 6 * length s + 2"
proof -
  have "length (concat (map (escape_char a) s)) \<le> 6 * length s"
    by (induction s) (use escape_length [of a] in \<open>auto intro: add_mono\<close>)
  then show ?thesis by (simp add: quote_def)
qed

lemma comma_join_length: "length (comma_join xs) \<le> sum_list (map (\<lambda>x. length x + 1) xs)"
  by (induction xs rule: comma_join.induct) auto

lemma sum_list_le: "(\<And>x. x \<in> set xs \<Longrightarrow> f x \<le> (g x :: nat)) \<Longrightarrow> sum_list (map f xs) \<le> sum_list (map g xs)"
  by (rule sum_list_mono)

lemma render_length: "length (render a j) \<le> json_bound j"
proof (induction j)
  case (JArr xs)
  have "length (comma_join (map (render a) xs)) \<le> sum_list (map (\<lambda>x. length (render a x) + 1) xs)"
    using comma_join_length [of "map (render a) xs"] by (simp add: comp_def)
  also have "\<dots> \<le> sum_list (map (\<lambda>x. json_bound x + 1) xs)"
    by (rule sum_list_le) (use JArr in auto)
  finally show ?case by simp
next
  case (JObj kvs)
  have "length (comma_join (map (render_item a) kvs)) \<le> sum_list (map (\<lambda>x. length (render_item a x) + 1) kvs)"
    using comma_join_length [of "map (render_item a) kvs"] by (simp add: comp_def)
  also have "\<dots> \<le> sum_list (map (\<lambda>(k, v). 6 * length k + json_bound v + 4) kvs)"
  proof (rule sum_list_le, clarify)
    fix k v assume "(k, v) \<in> set kvs"
    then have "length (render a v) \<le> json_bound v" using JObj by force
    then show "length (render_item a (k, v)) + 1 \<le> 6 * length k + json_bound v + 4"
      using quote_length [of a k] by (simp add: render_item_def)
  qed
  finally show ?case by (simp only: render_JObj) simp
qed (use quote_length in auto)

lemma sum_list_sort_key: "sum_list (map (f :: _ \<Rightarrow> nat) (sort_key k xs)) = sum_list (map f xs)"
  by (metis mset_map mset_sort sum_mset_sum_list)

lemma json_bound_sort_keys: "json_bound (sort_keys j) = json_bound j"
proof (induction j)
  case (JArr xs)
  have "map (\<lambda>x. json_bound (sort_keys x) + 1) xs = map (\<lambda>x. json_bound x + 1) xs"
    using JArr by simp
  then show ?case by (simp only: sort_keys.simps json_bound.simps map_map comp_def)
next
  case (JObj kvs)
  have "map ((\<lambda>(k, v). 6 * length k + json_bound v + 4) \<circ> (\<lambda>(k, v). (k, sort_keys v))) kvs
      = map (\<lambda>(k, v). 6 * length k + json_bound v + 4) kvs"
    using JObj by (auto intro!: map_cong split: prod.splits)
  then show ?case by (simp only: sort_keys.simps json_bound.simps sum_list_sort_key map_map)
qed simp_all

definition is_ascii :: "string \<Rightarrow> bool" where
  "is_ascii s \<longleftrightarrow> (\<forall>c \<in> set s. (of_char c :: nat) < 128)"

lemma utf8_ascii: "is_ascii s \<Longrightarrow> utf8 s = s"
  by (induction s) (auto simp: is_ascii_def utf8_def utf8_char_def)

lemma escape_ascii: "is_ascii (escape_char True c)"
proof -
  have h: "(of_char (hex_digit n) :: nat) < 128" if "n < 16" for n
    using that by (auto simp: hex_digit_def)
  have "n div 16 < 16" if "n < 256" for n :: nat using that by simp
  then show ?thesis
    by (auto simp: escape_char_def unicode_escape_def Let_def is_ascii_def h not_less)
qed

lemma is_ascii_append [simp]: "is_ascii (s @ t) \<longleftrightarrow> is_ascii s \<and> is_ascii t"
  and is_ascii_Cons: "is_ascii (c # t) \<longleftrightarrow> (of_char c :: nat) < 128 \<and> is_ascii t"
  and is_ascii_Nil [simp]: "is_ascii []"
  by (auto simp: is_ascii_def)

lemma is_ascii_concat: "(\<And>x. x \<in> set xs \<Longrightarrow> is_ascii x) \<Longrightarrow> is_ascii (concat xs)"
  by (induction xs) auto

lemma is_ascii_comma_join: "(\<And>x. x \<in> set xs \<Longrightarrow> is_ascii x) \<Longrightarrow> is_ascii (comma_join xs)"
  by (induction xs rule: comma_join.induct) (auto simp: is_ascii_Cons)

lemma quote_ascii: "is_ascii (quote True s)"
  by (auto simp: quote_def is_ascii_Cons intro!: is_ascii_concat escape_ascii)

lemma str_int_ascii: "is_ascii (str_int i)"
  using digits_are_digits by (fastforce simp: str_int_def is_ascii_def is_digit_def)

lemma render_ascii: "is_ascii (render True j)"
proof (induction j)
  case (JArr xs)
  then show ?case by (auto simp: is_ascii_Cons intro!: is_ascii_comma_join)
next
  case (JObj kvs)
  have "is_ascii (render_item True p)" if "p \<in> set kvs" for p
    using JObj [OF that, of "snd p"] by (cases p) (auto simp: render_item_def is_ascii_Cons quote_ascii)
  then show ?case by (simp only: render_JObj) (auto simp: is_ascii_Cons intro!: is_ascii_comma_join)
qed (auto simp: is_ascii_Cons quote_ascii str_int_ascii)

lemma canonical_ascii_length: "length (canonical_ascii_json_bytes j) \<le> json_bound j"
  using render_length [of True "sort_keys j"]
  by (simp add: canonical_ascii_json_bytes_def utf8_ascii render_ascii json_bound_sort_keys)

end
