(* ===== verification/PlanTypes.thy ===== *)
theory PlanTypes
  imports Json
begin

section \<open>The planning agent's schemas\<close>

text \<open>
  The closed vocabularies and frozen models of
  \<open>apps/planning_agent/src/flowpilot_planning_agent/schemas.py\<close>. A \<open>Literal\<close> alias is a
  datatype, a \<open>StrictModel\<close> is a record, and the field constraints a model checks when it is
  constructed are a predicate \<open>*_ok\<close>.
\<close>

datatype business_process = Joiner | Mover | Leaver
datatype process_category = StandardJoiner | StandardMover | StandardLeaver
datatype page = Hris | Itsm | Iam | Assets | Mail
datatype modality = Dom | Vision

datatype operation =
    InspectEmployee | CreateTicket | CreateAccount | AssignAsset | CreateMailbox
  | TransferEmployee | DisableEmployee | CloseTicket | RevokeAccount | ReleaseAsset
  | DisableMailbox | Finalize

datatype required_context = HumanBrief | SuppliedValuesCtx | CurrentObservation | CurrentActionResult

datatype allowed_action = Navigate | Click | Fill | Select | Read | Scroll | Wait | Finish | Fail

datatype condition =
    DependenciesVerified | BudgetAvailable | CurrentSession | ActionSucceeded | ExpectedPageObserved

datatype risk_level = Low | Medium | High
datatype retry_policy = NoRetry
datatype fallback = Stop | Escalate
datatype step_state = Pending | Ready | Executing | Verified | Blocked | Failed | Escalated
datatype verifier_status = VVerified | VNotVerified | VInconclusive

datatype verifier_reason =
    ConditionsSatisfied | ActionFailed | PageMismatch | ObservationMissing | ForcedInconclusive
  | VBudgetExhausted

datatype tool_rejection_reason =
    UnknownTool | StepDisallowed | PageDisallowed | ModalityDisallowed | ToolBudgetExhausted

datatype plan_validation_reason =
    DuplicateStepId | SelfDependency | UnknownDependency | MultipleRoots | Cycle | UnreachableNode
  | NodeLimit | EdgeLimit | DepthLimit | WidthLimit | DependencyLimit | ByteLimit
  | OperationPageMismatch | OperationActionMismatch

subsection \<open>Plan steps and DAGs\<close>

type_synonym step_id = string

record plan_step =
  step_id :: step_id
  objective :: string
  dependencies :: "step_id list"
  operation :: operation
  expected_page :: page
  required_contexts :: "required_context list"
  allowed_actions :: "allowed_action list"
  preconditions :: "condition list"
  postconditions :: "condition list"
  step_risk :: risk_level
  retry :: retry_policy
  step_fallback :: fallback

record planning_dag =
  process :: business_process
  category :: process_category
  steps :: "plan_step list"

definition is_lower :: "char \<Rightarrow> bool" where
  "is_lower c = (97 \<le> (of_char c :: nat) \<and> (of_char c :: nat) \<le> 122)"

text \<open>\<open>StepId\<close>: the pattern \<open>^[a-z][a-z0-9_]{1,39}$\<close>.\<close>

definition step_id_ok :: "step_id \<Rightarrow> bool" where
  "step_id_ok s = (2 \<le> length s \<and> length s \<le> 40 \<and> is_lower (hd s) \<and>
     list_all (\<lambda>c. is_lower c \<or> is_digit c \<or> c = CHR ''_'') (tl s))"

definition plan_step_ok :: "plan_step \<Rightarrow> bool" where
  "plan_step_ok s = (
     step_id_ok (step_id s) \<and>
     1 \<le> length (objective s) \<and> length (objective s) \<le> 240 \<and>
     length (dependencies s) \<le> 8 \<and> list_all step_id_ok (dependencies s) \<and>
     1 \<le> length (required_contexts s) \<and> length (required_contexts s) \<le> 8 \<and>
     1 \<le> length (allowed_actions s) \<and> length (allowed_actions s) \<le> 9 \<and>
     1 \<le> length (preconditions s) \<and> length (preconditions s) \<le> 8 \<and>
     1 \<le> length (postconditions s) \<and> length (postconditions s) \<le> 8)"

definition planning_dag_ok :: "planning_dag \<Rightarrow> bool" where
  "planning_dag_ok d = (1 \<le> length (steps d) \<and> length (steps d) \<le> 32 \<and> list_all plan_step_ok (steps d))"

subsection \<open>Supplied values and plan requests\<close>

record joiner_supplied_values =
  jn_employee_id :: int
  ticket_title :: string
  username :: string
  asset_tag :: string
  laptop_model :: string
  mailbox :: string

record mover_supplied_values =
  mv_employee_id :: int
  new_department :: string
  new_job_title :: string
  new_location :: string

record leaver_supplied_values =
  lv_employee_id :: int

datatype supplied_values =
    JoinerValues joiner_supplied_values
  | MoverValues mover_supplied_values
  | LeaverValues leaver_supplied_values

definition values_process :: "supplied_values \<Rightarrow> business_process" where
  "values_process v = (case v of JoinerValues _ \<Rightarrow> Joiner | MoverValues _ \<Rightarrow> Mover | LeaverValues _ \<Rightarrow> Leaver)"

definition employee_id :: "supplied_values \<Rightarrow> int" where
  "employee_id v = (case v of JoinerValues j \<Rightarrow> jn_employee_id j | MoverValues m \<Rightarrow> mv_employee_id m
     | LeaverValues l \<Rightarrow> lv_employee_id l)"

definition standard_category :: "business_process \<Rightarrow> process_category" where
  "standard_category p = (case p of Joiner \<Rightarrow> StandardJoiner | Mover \<Rightarrow> StandardMover | Leaver \<Rightarrow> StandardLeaver)"

record plan_request =
  pr_process :: business_process
  pr_category :: process_category
  human_brief :: string
  supplied :: supplied_values

text \<open>\<open>PlanRequest.validate_process\<close>.\<close>

definition plan_request_ok :: "plan_request \<Rightarrow> bool" where
  "plan_request_ok r = (1 \<le> length (human_brief r) \<and> length (human_brief r) \<le> 4000 \<and>
     values_process (supplied r) = pr_process r \<and> pr_category r = standard_category (pr_process r))"

subsection \<open>Results\<close>

record plan_validation_result =
  valid :: bool
  reason_codes :: "plan_validation_reason list"
  vplan_id :: "string option"
  node_count :: nat
  edge_count :: nat
  depth :: nat
  width :: nat
  serialized_bytes :: nat
  topology :: "step_id list"

record tool_match_result =
  matched :: bool
  match_action :: "allowed_action option"
  rejection_reason :: "tool_rejection_reason option"

text \<open>\<open>ToolMatchResult.validate_outcome\<close>.\<close>

definition tool_match_result_ok :: "tool_match_result \<Rightarrow> bool" where
  "tool_match_result_ok r = (matched r = (match_action r \<noteq> None \<and> rejection_reason r = None))"

record verifier_request =
  vr_step_id :: step_id
  vr_expected_page :: page
  vr_current_page :: "page option"
  observation_generation :: "nat option"
  action_success :: bool
  vr_postconditions :: "condition list"
  force_inconclusive :: bool

record verifier_result =
  vres_step_id :: step_id
  vstatus :: verifier_status
  vreason :: verifier_reason

record step_execution_result =
  ser_step_id :: step_id
  ser_state :: step_state
  action_count :: nat
  verifier :: "verifier_result option"

subsection \<open>The names of the vocabularies\<close>

text \<open>The strings \<open>model_dump(mode="json")\<close> writes.\<close>

primrec process_name :: "business_process \<Rightarrow> string" where
  "process_name Joiner = ''joiner''"
| "process_name Mover = ''mover''"
| "process_name Leaver = ''leaver''"

primrec category_name :: "process_category \<Rightarrow> string" where
  "category_name StandardJoiner = ''standard_joiner''"
| "category_name StandardMover = ''standard_mover''"
| "category_name StandardLeaver = ''standard_leaver''"

primrec page_name :: "page \<Rightarrow> string" where
  "page_name Hris = ''hris''"
| "page_name Itsm = ''itsm''"
| "page_name Iam = ''iam''"
| "page_name Assets = ''assets''"
| "page_name Mail = ''mail''"

primrec operation_name :: "operation \<Rightarrow> string" where
  "operation_name InspectEmployee = ''inspect_employee''"
| "operation_name CreateTicket = ''create_ticket''"
| "operation_name CreateAccount = ''create_account''"
| "operation_name AssignAsset = ''assign_asset''"
| "operation_name CreateMailbox = ''create_mailbox''"
| "operation_name TransferEmployee = ''transfer_employee''"
| "operation_name DisableEmployee = ''disable_employee''"
| "operation_name CloseTicket = ''close_ticket''"
| "operation_name RevokeAccount = ''revoke_account''"
| "operation_name ReleaseAsset = ''release_asset''"
| "operation_name DisableMailbox = ''disable_mailbox''"
| "operation_name Finalize = ''finalize''"

primrec context_name :: "required_context \<Rightarrow> string" where
  "context_name HumanBrief = ''human_brief''"
| "context_name SuppliedValuesCtx = ''supplied_values''"
| "context_name CurrentObservation = ''current_observation''"
| "context_name CurrentActionResult = ''current_action_result''"

primrec action_name :: "allowed_action \<Rightarrow> string" where
  "action_name Navigate = ''navigate''"
| "action_name Click = ''click''"
| "action_name Fill = ''fill''"
| "action_name Select = ''select''"
| "action_name Read = ''read''"
| "action_name Scroll = ''scroll''"
| "action_name Wait = ''wait''"
| "action_name Finish = ''finish''"
| "action_name Fail = ''fail''"

primrec condition_name :: "condition \<Rightarrow> string" where
  "condition_name DependenciesVerified = ''dependencies_verified''"
| "condition_name BudgetAvailable = ''budget_available''"
| "condition_name CurrentSession = ''current_session''"
| "condition_name ActionSucceeded = ''action_succeeded''"
| "condition_name ExpectedPageObserved = ''expected_page_observed''"

primrec risk_name :: "risk_level \<Rightarrow> string" where
  "risk_name Low = ''low''"
| "risk_name Medium = ''medium''"
| "risk_name High = ''high''"

primrec fallback_name :: "fallback \<Rightarrow> string" where
  "fallback_name Stop = ''stop''"
| "fallback_name Escalate = ''escalate''"

lemma process_name_inj: "process_name a = process_name b \<longleftrightarrow> a = b"
  by (cases a; cases b) simp_all

lemma category_name_inj: "category_name a = category_name b \<longleftrightarrow> a = b"
  by (cases a; cases b) simp_all

lemma page_name_inj: "page_name a = page_name b \<longleftrightarrow> a = b"
  by (cases a; cases b) simp_all

lemma operation_name_inj: "operation_name a = operation_name b \<longleftrightarrow> a = b"
  by (cases a; cases b) simp_all

lemma context_name_inj: "context_name a = context_name b \<longleftrightarrow> a = b"
  by (cases a; cases b) simp_all

lemma action_name_inj: "action_name a = action_name b \<longleftrightarrow> a = b"
  by (cases a; cases b) simp_all

lemma condition_name_inj: "condition_name a = condition_name b \<longleftrightarrow> a = b"
  by (cases a; cases b) simp_all

lemma risk_name_inj: "risk_name a = risk_name b \<longleftrightarrow> a = b"
  by (cases a; cases b) simp_all

lemma fallback_name_inj: "fallback_name a = fallback_name b \<longleftrightarrow> a = b"
  by (cases a; cases b) simp_all

lemmas name_inj = process_name_inj category_name_inj page_name_inj operation_name_inj
  context_name_inj action_name_inj condition_name_inj risk_name_inj fallback_name_inj

end
