(* ===== verification/Dag.thy ===== *)
theory Dag
  imports PlanTypes
begin

section \<open>Plan validation and the step state machine\<close>

text \<open>
  \<open>apps/planning_agent/src/flowpilot_planning_agent/dag.py\<close>: \<open>validate_dag\<close> (limits, the
  operation contract, Kahn's algorithm with a sorted ready list, depth and width, reachability
  from the single root) and \<open>StepStateMachine\<close>. SHA-256 is the parameter \<open>sha\<close>.
\<close>

subsection \<open>Limits and the operation contract\<close>

abbreviation "MAX_NODES \<equiv> (16 :: nat)"
abbreviation "MAX_EDGES \<equiv> (24 :: nat)"
abbreviation "MAX_DEPTH \<equiv> (8 :: nat)"
abbreviation "MAX_WIDTH \<equiv> (8 :: nat)"
abbreviation "MAX_DEPENDENCIES \<equiv> (4 :: nat)"
abbreviation "MAX_SERIALIZED_BYTES \<equiv> (32768 :: nat)"

primrec operation_contract :: "operation \<Rightarrow> page \<times> allowed_action list" where
  "operation_contract InspectEmployee = (Hris, [Navigate, Read])"
| "operation_contract CreateTicket = (Itsm, [Navigate, Fill, Click])"
| "operation_contract CreateAccount = (Iam, [Navigate, Fill, Click])"
| "operation_contract AssignAsset = (Assets, [Navigate, Fill, Click])"
| "operation_contract CreateMailbox = (Mail, [Navigate, Fill, Click])"
| "operation_contract TransferEmployee = (Hris, [Navigate, Fill, Click])"
| "operation_contract DisableEmployee = (Hris, [Navigate, Fill, Click])"
| "operation_contract CloseTicket = (Itsm, [Navigate, Fill, Click])"
| "operation_contract RevokeAccount = (Iam, [Navigate, Fill, Click])"
| "operation_contract ReleaseAsset = (Assets, [Navigate, Fill, Click])"
| "operation_contract DisableMailbox = (Mail, [Navigate, Fill, Click])"
| "operation_contract Finalize = (Hris, [Navigate, Read, Finish])"

subsection \<open>Canonical bytes\<close>

definition json_strs :: "string list \<Rightarrow> json" where
  "json_strs xs = JArr (map JStr xs)"

definition plan_step_json :: "plan_step \<Rightarrow> json" where
  "plan_step_json s = JObj [
     (''step_id'', JStr (step_id s)),
     (''objective'', JStr (objective s)),
     (''dependencies'', json_strs (dependencies s)),
     (''operation'', JStr (operation_name (operation s))),
     (''expected_page'', JStr (page_name (expected_page s))),
     (''required_context'', json_strs (map context_name (required_contexts s))),
     (''allowed_actions'', json_strs (map action_name (allowed_actions s))),
     (''preconditions'', json_strs (map condition_name (preconditions s))),
     (''postconditions'', json_strs (map condition_name (postconditions s))),
     (''risk_level'', JStr (risk_name (step_risk s))),
     (''retry_policy'', JStr (case retry s of NoRetry \<Rightarrow> ''no_retry'')),
     (''fallback'', JStr (fallback_name (step_fallback s)))]"

definition planning_dag_json :: "planning_dag \<Rightarrow> json" where
  "planning_dag_json d = JObj [
     (''schema_version'', JStr ''w7-planning-dag/1.0''),
     (''process'', JStr (process_name (process d))),
     (''category'', JStr (category_name (category d))),
     (''steps'', JArr (map plan_step_json (steps d)))]"

definition canonical_dag_bytes :: "planning_dag \<Rightarrow> string" where
  "canonical_dag_bytes d = canonical_ascii_json_bytes (planning_dag_json d)"

subsection \<open>The per-step checks\<close>

definition step_ids :: "plan_step list \<Rightarrow> step_id list" where
  "step_ids ss = map step_id ss"

definition by_id :: "plan_step list \<Rightarrow> step_id \<rightharpoonup> plan_step" where
  "by_id ss = dict_of (map (\<lambda>s. (step_id s, s)) ss)"

text \<open>The reasons one iteration of the loop over \<open>dag.steps\<close> appends, in order.\<close>

definition step_reasons :: "plan_step list \<Rightarrow> plan_step \<Rightarrow> plan_validation_reason list" where
  "step_reasons ss s =
     (if MAX_DEPENDENCIES < length (dependencies s) then [DependencyLimit] else []) @
     (if step_id s \<in> set (dependencies s) then [SelfDependency] else []) @
     (if list_ex (\<lambda>d. d \<notin> set (step_ids ss)) (dependencies s) then [UnknownDependency] else []) @
     (if expected_page s \<noteq> fst (operation_contract (operation s)) then [OperationPageMismatch] else []) @
     (if set (allowed_actions s) \<noteq> set (snd (operation_contract (operation s)))
      then [OperationActionMismatch] else [])"

definition roots_of :: "plan_step list \<Rightarrow> step_id list" where
  "roots_of ss = map step_id (filter (\<lambda>s. dependencies s = []) ss)"

text \<open>The reasons collected before the topology is computed.\<close>

definition initial_reasons :: "planning_dag \<Rightarrow> plan_validation_reason list" where
  "initial_reasons d = (let ss = steps d in
     (if distinct (step_ids ss) then [] else [DuplicateStepId]) @
     (if MAX_NODES < length ss then [NodeLimit] else []) @
     (if MAX_EDGES < sum_list (map (length \<circ> dependencies) ss) then [EdgeLimit] else []) @
     (if MAX_SERIALIZED_BYTES < length (canonical_dag_bytes d) then [ByteLimit] else []) @
     concat (map (step_reasons ss) ss) @
     (if length (roots_of ss) \<noteq> 1 then [MultipleRoots] else []))"

subsection \<open>Kahn's algorithm\<close>

text \<open>\<open>dependents[c]\<close>: one entry for every occurrence of \<open>c\<close> among a step's dependencies.\<close>

definition dependents :: "plan_step list \<Rightarrow> step_id \<Rightarrow> step_id list" where
  "dependents ss c = concat (map (\<lambda>s. map (\<lambda>_. step_id s) (filter (\<lambda>d. d = c) (dependencies s))) ss)"

definition indegree0 :: "plan_step list \<Rightarrow> step_id \<Rightarrow> int" where
  "indegree0 ss i = (case by_id ss i of None \<Rightarrow> 0 | Some s \<Rightarrow> int (length (dependencies s)))"

text \<open>The inner loop: decrement, and put a step whose count reaches zero on the ready list.\<close>

fun relax :: "step_id list \<Rightarrow> (step_id \<Rightarrow> int) \<Rightarrow> step_id list \<Rightarrow> (step_id \<Rightarrow> int) \<times> step_id list" where
  "relax [] indegree ready = (indegree, ready)"
| "relax (d # ds) indegree ready =
     (let n = indegree d - 1
      in relax ds (indegree(d := n)) (if n = 0 then sort (ready @ [d]) else ready))"

definition waiting :: "plan_step list \<Rightarrow> (step_id \<Rightarrow> int) \<Rightarrow> step_id set" where
  "waiting ss indegree = {i \<in> set (step_ids ss). 0 < indegree i}"

lemma finite_waiting [simp]: "finite (waiting ss indegree)"
  by (simp add: waiting_def)

lemma set_dependents: "set (dependents ss c) \<subseteq> set (step_ids ss)"
  by (auto simp: dependents_def step_ids_def)

text \<open>Every entry that joins the ready list leaves the waiting set.\<close>

lemma relax_measure:
  assumes "set ds \<subseteq> set (step_ids ss)" and "relax ds ind ready = (ind', ready')"
  shows "length ready' + card (waiting ss ind') \<le> length ready + card (waiting ss ind)"
  using assms
proof (induction ds ind ready rule: relax.induct)
  case (2 d ds ind ready)
  define n where "n = ind d - 1"
  define r where "r = (if n = 0 then sort (ready @ [d]) else ready)"
  have "length ready' + card (waiting ss ind') \<le> length r + card (waiting ss (ind(d := n)))"
    unfolding n_def r_def by (rule "2.IH") (use "2.prems" in \<open>simp_all add: Let_def fun_upd_def\<close>)
  also have "length r + card (waiting ss (ind(d := n))) \<le> length ready + card (waiting ss ind)"
  proof (cases "n = 0")
    case True
    then have "waiting ss (ind(d := n)) = waiting ss ind - {d}" and "d \<in> waiting ss ind"
      using 2(2) by (auto simp: waiting_def n_def)
    then have "Suc (card (waiting ss (ind(d := n)))) = card (waiting ss ind)"
      using card_Suc_Diff1 [OF finite_waiting] by metis
    then show ?thesis using True by (simp add: r_def)
  next
    case False
    have "waiting ss (ind(d := n)) \<subseteq> waiting ss ind"
      by (auto simp: waiting_def n_def split: if_splits)
    then show ?thesis using False by (simp add: r_def card_mono)
  qed
  finally show ?case .
qed simp

function kahn :: "plan_step list \<Rightarrow> (step_id \<Rightarrow> int) \<Rightarrow> step_id list \<Rightarrow> step_id list \<Rightarrow> step_id list" where
  "kahn ss indegree [] topo = topo"
| "kahn ss indegree (current # ready) topo =
     (case relax (sort (dependents ss current)) indegree ready of
        (indegree', ready') \<Rightarrow> kahn ss indegree' ready' (topo @ [current]))"
  by pat_completeness auto
termination
proof (relation "measure (\<lambda>(ss, ind, ready, topo). length ready + card (waiting ss ind))")
  fix ss :: "plan_step list" and ind current ready and topo :: "step_id list" and ind' ready'
  assume "(ind', ready') = relax (sort (dependents ss current)) ind ready"
  then have "length ready' + card (waiting ss ind') \<le> length ready + card (waiting ss ind)"
    using relax_measure [of "sort (dependents ss current)" ss ind ready ind' ready'] set_dependents
    by simp
  then show "((ss, ind', ready', topo @ [current]), ss, ind, current # ready, topo)
      \<in> measure (\<lambda>(ss, ind, ready, topo). length ready + card (waiting ss ind))"
    by simp
qed simp

definition kahn_topology :: "plan_step list \<Rightarrow> step_id list" where
  "kahn_topology ss =
     kahn ss (indegree0 ss) (sort (filter (\<lambda>i. indegree0 ss i = 0) (fromkeys (step_ids ss)))) []"

subsection \<open>Depth, width and reachability\<close>

text \<open>The loop that fills \<open>depths\<close> along the topology.\<close>

fun fill_depths :: "plan_step list \<Rightarrow> step_id list \<Rightarrow> (step_id \<times> nat) list \<Rightarrow> (step_id \<times> nat) list" where
  "fill_depths ss [] depths = depths"
| "fill_depths ss (i # is) depths =
     (let deps = (case by_id ss i of None \<Rightarrow> [] | Some s \<Rightarrow> dependencies s);
          k = (if deps = [] then 1
               else 1 + max_list (map (\<lambda>d. case map_of depths d of None \<Rightarrow> 0 | Some m \<Rightarrow> m) deps))
      in fill_depths ss is (dict_set i k depths))"

definition depth_table :: "plan_step list \<Rightarrow> (step_id \<times> nat) list" where
  "depth_table ss = fill_depths ss (kahn_topology ss) []"

definition depth_of_table :: "(step_id \<times> nat) list \<Rightarrow> nat" where
  "depth_of_table depths = max_list (map snd depths)"

definition width_of_table :: "(step_id \<times> nat) list \<Rightarrow> nat" where
  "width_of_table depths = max_list (map (count_list (map snd depths)) (map snd depths))"

text \<open>\<open>adjacency[c]\<close> holds the same entries as \<open>dependents[c]\<close>.\<close>

function reach :: "plan_step list \<Rightarrow> step_id list \<Rightarrow> step_id list \<Rightarrow> step_id list" where
  "reach ss [] seen = seen"
| "reach ss (current # queue) seen =
     (if current \<in> set seen then reach ss queue seen
      else reach ss (queue @ dependents ss current) (current # seen))"
  by pat_completeness auto
termination
proof (relation "measures [\<lambda>(ss, q, seen). card ((set (step_ids ss) \<union> set q) - set seen),
                           \<lambda>(ss, q, seen). length q]")
  fix ss current queue seen
  assume "current \<in> set (seen :: step_id list)"
  then have "set (step_ids ss) \<union> set (current # queue) - set seen = set (step_ids ss) \<union> set queue - set seen"
    by auto
  then show "((ss, queue, seen), ss, current # queue, seen)
      \<in> measures [\<lambda>(ss, q, seen). card ((set (step_ids ss) \<union> set q) - set seen), \<lambda>(ss, q, seen). length q]"
    by simp
next
  fix ss current queue seen
  assume new: "current \<notin> set (seen :: step_id list)"
  have "set (step_ids ss) \<union> set (queue @ dependents ss current) - set (current # seen)
      \<subset> set (step_ids ss) \<union> set (current # queue) - set seen"
    using new set_dependents [of ss current] by auto
  then have "card (set (step_ids ss) \<union> set (queue @ dependents ss current) - set (current # seen))
      < card (set (step_ids ss) \<union> set (current # queue) - set seen)"
    by (intro psubset_card_mono) auto
  then show "((ss, queue @ dependents ss current, current # seen), ss, current # queue, seen)
      \<in> measures [\<lambda>(ss, q, seen). card ((set (step_ids ss) \<union> set q) - set seen), \<lambda>(ss, q, seen). length q]"
    by simp
qed simp

subsection \<open>validate_dag\<close>

definition validate_dag :: "(string \<Rightarrow> string) \<Rightarrow> planning_dag \<Rightarrow> plan_validation_result" where
  "validate_dag sha d =
     (let ss = steps d;
          serialized = canonical_dag_bytes d;
          reasons0 = initial_reasons d;
          ordered = (DuplicateStepId \<notin> set reasons0 \<and> UnknownDependency \<notin> set reasons0);
          topo = (if ordered then kahn_topology ss else []);
          complete = (ordered \<and> length topo = length ss);
          dep = (if complete then depth_of_table (depth_table ss) else 0);
          wid = (if complete then width_of_table (depth_table ss) else 0);
          reasons1 = reasons0 @
            (if ordered then
               (if length topo \<noteq> length ss then [Cycle]
                else (if MAX_DEPTH < dep then [DepthLimit] else []) @
                     (if MAX_WIDTH < wid then [WidthLimit] else []))
             else []);
          reasons2 = reasons1 @
            (if length (roots_of ss) = 1 \<and> UnknownDependency \<notin> set reasons1 \<and>
                length (reach ss (roots_of ss) []) \<noteq> length ss
             then [UnreachableNode] else []);
          codes = fromkeys reasons2;
          ok = (codes = [])
      in \<lparr>valid = ok, reason_codes = codes,
          vplan_id = (if ok then Some (sha serialized) else None),
          node_count = length ss,
          edge_count = sum_list (map (length \<circ> dependencies) ss),
          depth = dep, width = wid, serialized_bytes = length serialized,
          topology = (if ok then topo else [])\<rparr>)"

end
