(* ===== verification/Dag_Correct.thy ===== *)
theory Dag_Correct
  imports Dag
begin

section \<open>Correctness of plan validation\<close>

text \<open>
  What \<open>validate_dag\<close> decides, stated without its algorithms: a plan is accepted exactly when
  its step identifiers are distinct, its dependencies are known and acyclic, it has one root, it
  respects the operation contract and the frozen limits, and every dependency chain is short.
  For an accepted plan the topology lists every step once, each after all its dependencies.
\<close>

subsection \<open>Declarative vocabulary\<close>

definition well_scoped :: "plan_step list \<Rightarrow> bool" where
  "well_scoped ss \<longleftrightarrow> distinct (step_ids ss) \<and>
     (\<forall>s \<in> set ss. set (dependencies s) \<subseteq> set (step_ids ss))"

definition dep_rel :: "plan_step list \<Rightarrow> (step_id \<times> step_id) set" where
  "dep_rel ss = {(d, step_id s) |s d. s \<in> set ss \<and> d \<in> set (dependencies s)}"

definition topological_order :: "plan_step list \<Rightarrow> step_id list \<Rightarrow> bool" where
  "topological_order ss topo \<longleftrightarrow>
     (\<forall>k < length topo. \<forall>s \<in> set ss. step_id s = topo ! k \<longrightarrow> set (dependencies s) \<subseteq> set (take k topo))"

lemma set_step_ids: "set (step_ids ss) = step_id ` set ss"
  by (simp add: step_ids_def)

lemma length_step_ids [simp]: "length (step_ids ss) = length ss"
  by (simp add: step_ids_def)

lemma by_id_Some: "distinct (step_ids ss) \<Longrightarrow> s \<in> set ss \<Longrightarrow> by_id ss (step_id s) = Some s"
  unfolding by_id_def by (rule dict_of_distinct) (auto simp: step_ids_def comp_def)

lemma step_id_inj: "distinct (step_ids ss) \<Longrightarrow> s \<in> set ss \<Longrightarrow> t \<in> set ss \<Longrightarrow> step_id s = step_id t \<Longrightarrow> s = t"
  using by_id_Some by (metis option.inject)

lemma topological_order_snoc:
  assumes "topological_order ss topo"
    and "\<And>s. s \<in> set ss \<Longrightarrow> step_id s = c \<Longrightarrow> set (dependencies s) \<subseteq> set topo"
  shows "topological_order ss (topo @ [c])"
  unfolding topological_order_def
proof (intro allI impI ballI)
  fix k s
  assume "k < length (topo @ [c])" "s \<in> set ss" "step_id s = (topo @ [c]) ! k"
  then show "set (dependencies s) \<subseteq> set (take k (topo @ [c]))"
    using assms by (cases "k < length topo") (auto simp: topological_order_def nth_append)
qed

subsection \<open>One pass of the inner loop\<close>

lemma relax_indegree:
  "relax ds ind ready = (ind', ready') \<Longrightarrow> ind' x = ind x - int (count_list ds x)"
  by (induction ds ind ready rule: relax.induct) (auto simp: Let_def split: if_splits)

lemma relax_ready:
  "relax ds ind ready = (ind', ready') \<Longrightarrow>
     set ready' = set ready \<union> {x \<in> set ds. 0 < ind x \<and> ind x \<le> int (count_list ds x)}"
proof (induction ds ind ready rule: relax.induct)
  case (2 d ds ind ready)
  have "count_list ds x = 0 \<longleftrightarrow> x \<notin> set ds" for x by (rule count_list_0_iff)
  moreover have "set ready' = set (if ind d - 1 = 0 then sort (ready @ [d]) else ready) \<union>
      {x \<in> set ds. 0 < (ind(d := ind d - 1)) x \<and> (ind(d := ind d - 1)) x \<le> int (count_list ds x)}"
    by (rule "2.IH") (use "2.prems" in \<open>simp_all add: Let_def fun_upd_def\<close>)
  ultimately show ?case
    by (auto split: if_splits)
qed simp

lemma relax_distinct:
  "relax ds ind ready = (ind', ready') \<Longrightarrow> distinct ready \<Longrightarrow> \<forall>x \<in> set ready. ind x \<le> 0 \<Longrightarrow> distinct ready'"
proof (induction ds ind ready rule: relax.induct)
  case (2 d ds ind ready)
  show ?case
    by (rule "2.IH" [OF refl]) (use "2.prems" in \<open>auto simp: Let_def fun_upd_def split: if_splits\<close>)
qed simp

lemma count_dependents_notin: "x \<notin> set (step_ids ss) \<Longrightarrow> count_list (dependents ss c) x = 0"
  using set_dependents [of ss c] by (auto simp: count_list_0_iff)

lemma count_dependents:
  "distinct (step_ids ss) \<Longrightarrow> s \<in> set ss \<Longrightarrow>
     count_list (dependents ss c) (step_id s) = count_list (dependencies s) c"
proof (induction ss)
  case (Cons t ss)
  have one: "count_list (map (\<lambda>_. i) (filter (\<lambda>d. d = c) ds)) i = count_list ds c" for i :: step_id and ds
    by (induction ds) auto
  have other: "i \<noteq> j \<Longrightarrow> count_list (map (\<lambda>_. i) zs) j = 0" for i j :: step_id and zs :: "step_id list"
    by (induction zs) auto
  have split: "dependents (t # ss) c = map (\<lambda>_. step_id t) (filter (\<lambda>d. d = c) (dependencies t)) @ dependents ss c"
    by (simp add: dependents_def)
  show ?case
  proof (cases "s = t")
    case True
    then have "step_id s \<notin> set (step_ids ss)" using Cons.prems by (simp add: step_ids_def)
    then show ?thesis using True by (simp add: split one count_dependents_notin)
  next
    case False
    then have "s \<in> set ss" and "step_id t \<noteq> step_id s"
      using Cons.prems by (auto simp: step_ids_def)
    then show ?thesis using Cons by (simp add: split other step_ids_def)
  qed
qed simp

subsection \<open>The invariant of Kahn's loop\<close>

definition kahn_inv :: "plan_step list \<Rightarrow> (step_id \<Rightarrow> int) \<Rightarrow> step_id list \<Rightarrow> step_id list \<Rightarrow> bool" where
  "kahn_inv ss indegree ready topo \<longleftrightarrow>
     distinct (topo @ ready) \<and> set (topo @ ready) \<subseteq> set (step_ids ss) \<and>
     (\<forall>s \<in> set ss. indegree (step_id s) = int (length (filter (\<lambda>d. d \<notin> set topo) (dependencies s)))) \<and>
     (\<forall>s \<in> set ss. step_id s \<in> set (topo @ ready) \<longleftrightarrow> set (dependencies s) \<subseteq> set topo) \<and>
     topological_order ss topo"

lemma kahn_invD:
  assumes "kahn_inv ss ind ready topo"
  shows "distinct (topo @ ready)" and "set (topo @ ready) \<subseteq> set (step_ids ss)"
    and "s \<in> set ss \<Longrightarrow> ind (step_id s) = int (length (filter (\<lambda>d. d \<notin> set topo) (dependencies s)))"
    and "s \<in> set ss \<Longrightarrow> step_id s \<in> set (topo @ ready) \<longleftrightarrow> set (dependencies s) \<subseteq> set topo"
    and "topological_order ss topo"
  using assms by (auto simp: kahn_inv_def)

lemma missing_zero_iff: "length (filter (\<lambda>d. d \<notin> A) ds) = 0 \<longleftrightarrow> set ds \<subseteq> A"
  by (auto simp: filter_empty_conv)

lemma kahn_inv_start:
  assumes "well_scoped ss"
  shows "kahn_inv ss (indegree0 ss) (sort (filter (\<lambda>i. indegree0 ss i = 0) (fromkeys (step_ids ss)))) []"
proof -
  have ind: "indegree0 ss (step_id s) = int (length (dependencies s))" if "s \<in> set ss" for s
    using that assms by (simp add: indegree0_def by_id_Some well_scoped_def)
  then show ?thesis
    by (auto simp: kahn_inv_def topological_order_def set_step_ids)
qed

lemma kahn_inv_step:
  assumes ws: "well_scoped ss" and inv: "kahn_inv ss ind (c # ready) topo"
    and rel: "relax (sort (dependents ss c)) ind ready = (ind', ready')"
  shows "kahn_inv ss ind' ready' (topo @ [c])"
proof -
  have dist: "distinct (step_ids ss)" using ws by (simp add: well_scoped_def)
  have fresh: "c \<notin> set topo" and cin: "c \<in> set (step_ids ss)"
    using kahn_invD(1,2) [OF inv] by auto
  have cnt: "count_list (dependents ss c) (step_id s) = count_list (dependencies s) c" if "s \<in> set ss" for s
    using count_dependents [OF dist that] .
  have ind': "ind' (step_id s) = int (length (filter (\<lambda>d. d \<notin> set (topo @ [c])) (dependencies s)))"
    if s: "s \<in> set ss" for s
    using relax_indegree [OF rel, of "step_id s"] kahn_invD(3) [OF inv s] cnt [OF s]
      length_filter_snoc_count [OF fresh, of "dependencies s"] by simp
  have low: "\<forall>x \<in> set ready. ind x \<le> 0"
  proof
    fix x assume x: "x \<in> set ready"
    then obtain s where s: "s \<in> set ss" "x = step_id s"
      using kahn_invD(2) [OF inv] by (auto simp: set_step_ids)
    then show "ind x \<le> 0"
      using kahn_invD(3,4) [OF inv s(1)] x missing_zero_iff [of "set topo" "dependencies s"] by simp
  qed
  define new where "new = {x \<in> set (dependents ss c). 0 < ind x \<and> ind x \<le> int (count_list (dependents ss c) x)}"
  have rset: "set ready' = set ready \<union> new"
    using relax_ready [OF rel] by (simp add: new_def)
  have newD: "x \<in> set (step_ids ss) \<and> x \<notin> set topo \<and> x \<noteq> c" if "x \<in> new" for x
  proof -
    have x: "x \<in> set (step_ids ss)" "0 < ind x" using that set_dependents by (auto simp: new_def)
    then obtain s where s: "s \<in> set ss" "x = step_id s" by (auto simp: set_step_ids)
    with x(2) kahn_invD(3) [OF inv s(1)] have "\<not> set (dependencies s) \<subseteq> set topo"
      using missing_zero_iff [of "set topo" "dependencies s"] by simp
    with kahn_invD(4) [OF inv s(1)] s show ?thesis using x(1) by auto
  qed
  have "distinct ready'"
    using relax_distinct [OF rel _ low] kahn_invD(1) [OF inv] by simp
  then have d: "distinct ((topo @ [c]) @ ready')"
    using kahn_invD(1) [OF inv] newD rset by auto
  have sub: "set ((topo @ [c]) @ ready') \<subseteq> set (step_ids ss)"
    using kahn_invD(2) [OF inv] newD rset by auto
  have closed: "step_id s \<in> set ((topo @ [c]) @ ready') \<longleftrightarrow> set (dependencies s) \<subseteq> set (topo @ [c])"
    if s: "s \<in> set ss" for s
  proof -
    have isnew: "step_id s \<in> new \<longleftrightarrow> \<not> set (dependencies s) \<subseteq> set topo \<and> set (dependencies s) \<subseteq> set (topo @ [c])"
    proof -
      define m where "m = length (filter (\<lambda>d. d \<notin> set topo) (dependencies s))"
      define m' where "m' = length (filter (\<lambda>d. d \<notin> set (topo @ [c])) (dependencies s))"
      have "m = m' + count_list (dependencies s) c"
        using length_filter_snoc_count [OF fresh, of "dependencies s"] by (simp add: m_def m'_def)
      moreover have "ind (step_id s) = int m" using kahn_invD(3) [OF inv s] by (simp add: m_def)
      moreover have "step_id s \<in> set (dependents ss c) \<longleftrightarrow> 0 < count_list (dependencies s) c"
        using cnt [OF s] count_list_0_iff [of "dependents ss c" "step_id s"] by (metis gr0I less_numeral_extra(3))
      ultimately have "step_id s \<in> new \<longleftrightarrow> 0 < m \<and> m' = 0"
        using cnt [OF s] by (auto simp: new_def)
      then show ?thesis
        using missing_zero_iff [of "set topo" "dependencies s"] missing_zero_iff [of "set (topo @ [c])" "dependencies s"]
        by (simp add: m_def m'_def)
    qed
    have "step_id s \<in> set (topo @ c # ready) \<longleftrightarrow> set (dependencies s) \<subseteq> set topo"
      using kahn_invD(4) [OF inv s] .
    moreover have "set ((topo @ [c]) @ ready') = set (topo @ c # ready) \<union> new" using rset by auto
    ultimately show ?thesis using isnew by auto
  qed
  have "topological_order ss (topo @ [c])"
    by (rule topological_order_snoc [OF kahn_invD(5) [OF inv]]) (use kahn_invD(4) [OF inv] in auto)
  with d sub ind' closed show ?thesis by (auto simp: kahn_inv_def)
qed

lemma kahn_inv_result:
  assumes "well_scoped ss" and "kahn_inv ss ind ready topo"
  shows "\<exists>ind'. kahn_inv ss ind' [] (kahn ss ind ready topo)"
  using assms
proof (induction ss ind ready topo rule: kahn.induct)
  case (2 ss ind c ready topo)
  obtain ind' ready' where rel: "relax (sort (dependents ss c)) ind ready = (ind', ready')"
    by (cases "relax (sort (dependents ss c)) ind ready")
  have "kahn_inv ss ind' ready' (topo @ [c])"
    by (rule kahn_inv_step [OF 2(2,3) rel])
  with 2(1) [OF rel [symmetric]] 2(2) rel show ?case by simp
qed auto

lemma kahn_topology_facts:
  assumes "well_scoped ss"
  shows "distinct (kahn_topology ss)" and "set (kahn_topology ss) \<subseteq> set (step_ids ss)"
    and "topological_order ss (kahn_topology ss)"
    and "s \<in> set ss \<Longrightarrow> step_id s \<in> set (kahn_topology ss) \<longleftrightarrow> set (dependencies s) \<subseteq> set (kahn_topology ss)"
proof -
  obtain ind where "kahn_inv ss ind [] (kahn_topology ss)"
    using kahn_inv_result [OF assms kahn_inv_start [OF assms]] by (auto simp: kahn_topology_def)
  then show "distinct (kahn_topology ss)" "set (kahn_topology ss) \<subseteq> set (step_ids ss)"
    "topological_order ss (kahn_topology ss)"
    "s \<in> set ss \<Longrightarrow> step_id s \<in> set (kahn_topology ss) \<longleftrightarrow> set (dependencies s) \<subseteq> set (kahn_topology ss)"
    by (auto simp: kahn_inv_def)
qed

subsection \<open>The loop orders every step exactly when there is no cycle\<close>

lemma no_minimum_not_acyclic:
  assumes "finite R" "R \<noteq> {}" "\<And>x. x \<in> R \<Longrightarrow> \<exists>y \<in> R. (y, x) \<in> r"
  shows "\<not> acyclic r"
proof
  assume "acyclic r"
  then have "acyclic (r \<inter> R \<times> R)" by (rule acyclic_subset) auto
  then have "wf (r \<inter> R \<times> R)" using assms(1) by (intro finite_acyclic_wf) auto
  then obtain x where "x \<in> R" "\<And>y. (y, x) \<in> r \<inter> R \<times> R \<Longrightarrow> y \<notin> R"
    using assms(2) by (metis wf_eq_minimal ex_in_conv)
  with assms(3) show False by blast
qed

lemma topological_order_rank:
  assumes "topological_order ss topo" "distinct topo" "set topo = set (step_ids ss)" "(a, b) \<in> dep_rel ss"
  shows "length (takeWhile (\<lambda>x. x \<noteq> a) topo) < length (takeWhile (\<lambda>x. x \<noteq> b) topo)"
proof -
  obtain s where s: "s \<in> set ss" "b = step_id s" "a \<in> set (dependencies s)"
    using assms(4) by (auto simp: dep_rel_def)
  define k where "k = length (takeWhile (\<lambda>x. x \<noteq> b) topo)"
  have "b \<in> set topo" using s assms(3) by (simp add: set_step_ids)
  then have "k < length topo" "step_id s = topo ! k"
    using s(2) index_less [of b topo] index_nth [of b topo] by (simp_all add: k_def)
  then have "set (dependencies s) \<subseteq> set (take k topo)"
    using assms(1) s(1) by (simp add: topological_order_def)
  then have "a \<in> set (take k topo)" using s(3) by (rule subsetD)
  then show ?thesis unfolding k_def by (rule index_take)
qed

lemma topological_order_acyclic:
  assumes "topological_order ss topo" "distinct topo" "set topo = set (step_ids ss)"
  shows "acyclic (dep_rel ss)"
proof -
  have "dep_rel ss \<subseteq> measure (\<lambda>x. length (takeWhile (\<lambda>y. y \<noteq> x) topo))"
    using topological_order_rank [OF assms] by auto
  then show ?thesis by (rule acyclic_subset [OF wf_acyclic [OF wf_measure]])
qed

lemma kahn_complete_iff_acyclic:
  assumes ws: "well_scoped ss"
  shows "length (kahn_topology ss) = length ss \<longleftrightarrow> acyclic (dep_rel ss)"
proof
  assume len: "length (kahn_topology ss) = length ss"
  have "card (set (kahn_topology ss)) = card (set (step_ids ss))"
    using len ws kahn_topology_facts(1) [OF ws] by (simp add: distinct_card well_scoped_def)
  then have "set (kahn_topology ss) = set (step_ids ss)"
    using kahn_topology_facts(2) [OF ws] by (simp add: card_subset_eq)
  then show "acyclic (dep_rel ss)"
    using topological_order_acyclic kahn_topology_facts(1,3) [OF ws] by blast
next
  assume acyc: "acyclic (dep_rel ss)"
  let ?R = "set (step_ids ss) - set (kahn_topology ss)"
  have "\<exists>y \<in> ?R. (y, x) \<in> dep_rel ss" if x: "x \<in> ?R" for x
  proof -
    obtain s where s: "s \<in> set ss" "x = step_id s" using x by (auto simp: set_step_ids)
    with x kahn_topology_facts(4) [OF ws s(1)] obtain d
      where d: "d \<in> set (dependencies s)" "d \<notin> set (kahn_topology ss)" by auto
    moreover have "d \<in> set (step_ids ss)" using ws s d by (auto simp: well_scoped_def)
    ultimately show ?thesis using s by (auto simp: dep_rel_def)
  qed
  with acyc have "?R = {}" using no_minimum_not_acyclic [of ?R] by auto
  then have "set (kahn_topology ss) = set (step_ids ss)"
    using kahn_topology_facts(2) [OF ws] by auto
  then show "length (kahn_topology ss) = length ss"
    using ws kahn_topology_facts(1) [OF ws]
    by (metis distinct_card length_step_ids well_scoped_def)
qed

subsection \<open>The depth table holds longest dependency chains\<close>

inductive chain_to :: "plan_step list \<Rightarrow> step_id \<Rightarrow> nat \<Rightarrow> bool" for ss where
  chain_one: "i \<in> set (step_ids ss) \<Longrightarrow> chain_to ss i 1"
| chain_dep: "chain_to ss d n \<Longrightarrow> (d, i) \<in> dep_rel ss \<Longrightarrow> chain_to ss i (Suc n)"

definition is_depth :: "plan_step list \<Rightarrow> step_id \<Rightarrow> nat \<Rightarrow> bool" where
  "is_depth ss i k \<longleftrightarrow> chain_to ss i k \<and> (\<forall>n. chain_to ss i n \<longrightarrow> n \<le> k)"

lemma dict_set_fresh: "k \<notin> fst ` set d \<Longrightarrow> dict_set k v d = d @ [(k, v)]"
  by (induction k v d rule: dict_set.induct) auto

lemma is_depth_step:
  assumes dist: "distinct (step_ids ss)" and s: "s \<in> set ss"
    and known: "\<And>d. d \<in> set (dependencies s) \<Longrightarrow> is_depth ss d (f d)"
  shows "is_depth ss (step_id s)
    (if dependencies s = [] then 1 else 1 + max_list (map f (dependencies s)))"
    (is "is_depth ss _ ?k")
proof -
  have dep: "(d, step_id s) \<in> dep_rel ss \<longleftrightarrow> d \<in> set (dependencies s)" for d
    using s step_id_inj [OF dist] by (auto simp: dep_rel_def)
  have "chain_to ss (step_id s) ?k"
  proof (cases "dependencies s = []")
    case True
    then show ?thesis using s chain_one [of "step_id s" ss] by (simp add: set_step_ids)
  next
    case False
    then have "max_list (map f (dependencies s)) \<in> set (map f (dependencies s))"
      by (intro max_list_in) simp
    then obtain d where d: "d \<in> set (dependencies s)" "f d = max_list (map f (dependencies s))" by auto
    then have "chain_to ss d (max_list (map f (dependencies s)))"
      using known [OF d(1)] by (simp add: is_depth_def)
    then show ?thesis using chain_dep dep d(1) False by fastforce
  qed
  moreover have "n \<le> ?k" if "chain_to ss (step_id s) n" for n
    using that
  proof (cases rule: chain_to.cases)
    case (chain_dep d m)
    then have d: "d \<in> set (dependencies s)" using dep by simp
    then have "m \<le> f d" using known chain_dep(2) by (simp add: is_depth_def)
    also have "f d \<le> max_list (map f (dependencies s))" using d by (intro max_list_ge) simp
    finally show ?thesis using chain_dep(1) d by auto
  qed simp
  ultimately show ?thesis by (simp add: is_depth_def)
qed

lemma fill_depths_facts:
  assumes dist: "distinct (step_ids ss)" and order: "topological_order ss (map fst tbl @ todo)"
    and "distinct (map fst tbl @ todo)" and "set todo \<subseteq> set (step_ids ss)"
    and "\<forall>(i, k) \<in> set tbl. is_depth ss i k"
  shows "map fst (fill_depths ss todo tbl) = map fst tbl @ todo \<and>
     (\<forall>(i, k) \<in> set (fill_depths ss todo tbl). is_depth ss i k)"
  using assms
proof (induction ss todo tbl rule: fill_depths.induct)
  case (2 ss i todo tbl)
  obtain s where s: "s \<in> set ss" "i = step_id s" using "2.prems"(4) by (auto simp: set_step_ids)
  have bi: "by_id ss i = Some s" using s by_id_Some [OF "2.prems"(1)] by simp
  define f where "f = (\<lambda>d. case map_of tbl d of None \<Rightarrow> 0 | Some m \<Rightarrow> m)"
  define k where "k = (if dependencies s = [] then 1 else 1 + max_list (map f (dependencies s)))"
  have before: "set (dependencies s) \<subseteq> fst ` set tbl"
  proof -
    have "length tbl < length (map fst tbl @ i # todo)" "step_id s = (map fst tbl @ i # todo) ! length tbl"
      "take (length tbl) (map fst tbl @ i # todo) = map fst tbl"
      using s(2) by (simp_all add: nth_append)
    then show ?thesis using "2.prems"(2) s(1) unfolding topological_order_def by (metis list.set_map)
  qed
  have "is_depth ss d (f d)" if "d \<in> set (dependencies s)" for d
  proof -
    have "d \<in> dom (map_of tbl)" using before that by (auto simp: dom_map_of_conv_image_fst)
    then obtain m where "map_of tbl d = Some m" by auto
    then show ?thesis using "2.prems"(5) by (auto simp: f_def dest: map_of_SomeD)
  qed
  then have depth: "is_depth ss i k"
    unfolding k_def s(2) by (rule is_depth_step [OF "2.prems"(1) s(1)])
  have set: "dict_set i k tbl = tbl @ [(i, k)]"
    using "2.prems"(3) by (intro dict_set_fresh) auto
  have unfold: "fill_depths ss (i # todo) tbl = fill_depths ss todo (dict_set i k tbl)"
    by (simp add: bi k_def f_def Let_def)
  have "map fst (fill_depths ss todo (dict_set i k tbl)) = map fst (dict_set i k tbl) @ todo \<and>
     (\<forall>(i, k) \<in> set (fill_depths ss todo (dict_set i k tbl)). is_depth ss i k)"
    unfolding set
    by (rule "2.IH" [OF refl, of k, unfolded set])
      (use "2.prems" depth bi in \<open>auto simp: k_def f_def\<close>)
  then show ?case unfolding unfold by (simp add: set)
qed auto

lemma depth_table_facts:
  assumes "well_scoped ss" and "length (kahn_topology ss) = length ss"
  shows "map fst (depth_table ss) = kahn_topology ss" and "set (kahn_topology ss) = set (step_ids ss)"
    and "(i, k) \<in> set (depth_table ss) \<Longrightarrow> is_depth ss i k"
proof -
  have dist: "distinct (step_ids ss)" using assms(1) by (simp add: well_scoped_def)
  note facts = kahn_topology_facts [OF assms(1)]
  show "set (kahn_topology ss) = set (step_ids ss)"
    using facts(1,2) dist assms(2) by (metis card_subset_eq distinct_card length_step_ids List.finite_set)
  show "map fst (depth_table ss) = kahn_topology ss"
    and "(i, k) \<in> set (depth_table ss) \<Longrightarrow> is_depth ss i k"
    using fill_depths_facts [OF dist, of "[]" "kahn_topology ss"] facts by (auto simp: depth_table_def)
qed

lemma depth_le_iff:
  assumes "well_scoped ss" and "length (kahn_topology ss) = length ss"
  shows "depth_of_table (depth_table ss) \<le> b \<longleftrightarrow> (\<forall>i n. chain_to ss i n \<longrightarrow> n \<le> b)"
proof -
  note facts = depth_table_facts [OF assms]
  have id: "i \<in> set (step_ids ss)" if "chain_to ss i n" for i n
    using that by cases (auto simp: dep_rel_def set_step_ids)
  show ?thesis
  proof
    assume le: "depth_of_table (depth_table ss) \<le> b"
    show "\<forall>i n. chain_to ss i n \<longrightarrow> n \<le> b"
    proof (intro allI impI)
      fix i n assume c: "chain_to ss i n"
      then have "i \<in> fst ` set (depth_table ss)"
        using id [OF c] facts(1,2) by (metis list.set_map)
      then obtain k where k: "(i, k) \<in> set (depth_table ss)" by auto
      then have "n \<le> k" using facts(3) c by (auto simp: is_depth_def)
      moreover have "k \<le> b" using k le by (auto simp: depth_of_table_def max_list_le)
      ultimately show "n \<le> b" by simp
    qed
  next
    assume "\<forall>i n. chain_to ss i n \<longrightarrow> n \<le> b"
    then show "depth_of_table (depth_table ss) \<le> b"
      using facts(3) by (fastforce simp: depth_of_table_def max_list_le is_depth_def)
  qed
qed

subsection \<open>A single root reaches every step of an acyclic plan\<close>

lemma set_dependents_dep_rel: "set (dependents ss c) = {i. (c, i) \<in> dep_rel ss}"
  by (auto simp: dependents_def dep_rel_def)

lemma reach_facts:
  assumes "\<forall>x \<in> set seen. set (dependents ss x) \<subseteq> set seen \<union> set queue"
    and "distinct seen" and "set seen \<union> set queue \<subseteq> set (step_ids ss)"
  shows "set queue \<union> set seen \<subseteq> set (reach ss queue seen) \<and>
     (\<forall>x \<in> set (reach ss queue seen). set (dependents ss x) \<subseteq> set (reach ss queue seen)) \<and>
     distinct (reach ss queue seen) \<and> set (reach ss queue seen) \<subseteq> set (step_ids ss)"
  using assms
proof (induction ss queue seen rule: reach.induct)
  case (2 ss current queue seen)
  show ?case
  proof (cases "current \<in> set seen")
    case True
    have "\<forall>x \<in> set seen. set (dependents ss x) \<subseteq> set seen \<union> set queue"
      using 2(3) True by auto
    from 2(1) [OF True this 2(4)] 2(5) True show ?thesis by auto
  next
    case False
    let ?r = "reach ss (queue @ dependents ss current) (current # seen)"
    have "\<forall>x \<in> set (current # seen). set (dependents ss x) \<subseteq> set (current # seen) \<union> set (queue @ dependents ss current)"
      using 2(3) by auto
    moreover have "distinct (current # seen)" using 2(4) False by simp
    moreover have "set (current # seen) \<union> set (queue @ dependents ss current) \<subseteq> set (step_ids ss)"
      using 2(5) set_dependents [of ss current] by auto
    ultimately have "set (queue @ dependents ss current) \<union> set (current # seen) \<subseteq> set ?r \<and>
       (\<forall>x \<in> set ?r. set (dependents ss x) \<subseteq> set ?r) \<and> distinct ?r \<and> set ?r \<subseteq> set (step_ids ss)"
      using 2(2) [OF False] by blast
    moreover have "reach ss (current # queue) seen = ?r" using False by simp
    ultimately show ?thesis by auto
  qed
qed simp

lemma reach_all:
  assumes ws: "well_scoped ss" and "acyclic (dep_rel ss)"
  shows "length (reach ss (roots_of ss) []) = length ss"
proof -
  let ?r = "reach ss (roots_of ss) []"
  have roots: "set (roots_of ss) \<subseteq> set (step_ids ss)" by (auto simp: roots_of_def set_step_ids)
  with reach_facts [of "[]" ss "roots_of ss"]
  have facts: "set (roots_of ss) \<subseteq> set ?r" "\<And>x. x \<in> set ?r \<Longrightarrow> set (dependents ss x) \<subseteq> set ?r"
    "distinct ?r" "set ?r \<subseteq> set (step_ids ss)" by auto
  have "finite (dep_rel ss)"
  proof (rule finite_subset)
    show "dep_rel ss \<subseteq> (\<Union>s \<in> set ss. set (dependencies s) \<times> {step_id s})" by (auto simp: dep_rel_def)
  qed simp
  with assms(2) have "wf (dep_rel ss)" by (simp add: finite_acyclic_wf)
  then have "i \<in> set (step_ids ss) \<longrightarrow> i \<in> set ?r" for i
  proof (induction i rule: wf_induct_rule)
    case (less i)
    show ?case
    proof
      assume "i \<in> set (step_ids ss)"
      then obtain s where s: "s \<in> set ss" "i = step_id s" by (auto simp: set_step_ids)
      show "i \<in> set ?r"
      proof (cases "dependencies s")
        case Nil
        then show ?thesis using s facts(1) by (force simp: roots_of_def)
      next
        case (Cons d ds)
        then have "(d, i) \<in> dep_rel ss" using s by (force simp: dep_rel_def)
        moreover have "d \<in> set (step_ids ss)" using ws s Cons by (force simp: well_scoped_def)
        ultimately show ?thesis using less facts(2) by (force simp: set_dependents_dep_rel)
      qed
    qed
  qed
  with facts(4) have "set ?r = set (step_ids ss)" by auto
  with facts(3) ws show ?thesis by (metis distinct_card length_step_ids well_scoped_def)
qed

subsection \<open>The contract validate_dag decides\<close>

definition step_contract :: "plan_step \<Rightarrow> bool" where
  "step_contract s \<longleftrightarrow> length (dependencies s) \<le> MAX_DEPENDENCIES \<and>
     expected_page s = fst (operation_contract (operation s)) \<and>
     set (allowed_actions s) = set (snd (operation_contract (operation s)))"

definition plan_contract :: "planning_dag \<Rightarrow> bool" where
  "plan_contract d \<longleftrightarrow>
     well_scoped (steps d) \<and> acyclic (dep_rel (steps d)) \<and>
     (\<exists>!s. s \<in> set (steps d) \<and> dependencies s = []) \<and>
     (\<forall>s \<in> set (steps d). step_contract s) \<and>
     length (steps d) \<le> MAX_NODES \<and>
     sum_list (map (length \<circ> dependencies) (steps d)) \<le> MAX_EDGES \<and>
     length (canonical_dag_bytes d) \<le> MAX_SERIALIZED_BYTES \<and>
     (\<forall>i n. chain_to (steps d) i n \<longrightarrow> n \<le> MAX_DEPTH) \<and>
     (\<forall>n. card {i. is_depth (steps d) i n} \<le> MAX_WIDTH)"

lemma is_depth_unique: "is_depth ss i m \<Longrightarrow> is_depth ss i n \<Longrightarrow> m = n"
  by (meson is_depth_def le_antisym)

lemma is_depth_known: "is_depth ss i n \<Longrightarrow> i \<in> set (step_ids ss)"
proof -
  assume "is_depth ss i n"
  then have "chain_to ss i n" by (simp add: is_depth_def)
  then show ?thesis by cases (auto simp: dep_rel_def set_step_ids)
qed

lemma count_depths:
  assumes "well_scoped ss" and "length (kahn_topology ss) = length ss"
  shows "count_list (map snd (depth_table ss)) n = card {i. is_depth ss i n}"
proof -
  note facts = depth_table_facts [OF assms]
  have dist: "distinct (map fst (depth_table ss))"
    using facts(1) kahn_topology_facts(1) [OF assms(1)] by simp
  have "count_list (map snd tbl) n = length (filter (\<lambda>p. snd p = n) tbl)" for tbl :: "(step_id \<times> nat) list"
    by (induction tbl) auto
  then have "count_list (map snd (depth_table ss)) n = length (map fst (filter (\<lambda>p. snd p = n) (depth_table ss)))"
    by simp
  also have "\<dots> = card (set (map fst (filter (\<lambda>p. snd p = n) (depth_table ss))))"
    using dist by (metis distinct_card distinct_map_filter)
  also have "set (map fst (filter (\<lambda>p. snd p = n) (depth_table ss))) = {i. is_depth ss i n}"
  proof (intro set_eqI iffI)
    fix i assume "i \<in> {i. is_depth ss i n}"
    then have d: "is_depth ss i n" by simp
    then have "i \<in> set (map fst (depth_table ss))" using is_depth_known facts(1,2) by simp
    then obtain k where k: "(i, k) \<in> set (depth_table ss)" by auto
    with facts(3) d have "k = n" using is_depth_unique by blast
    with k show "i \<in> set (map fst (filter (\<lambda>p. snd p = n) (depth_table ss)))" by force
  qed (use facts(3) in auto)
  finally show ?thesis .
qed

lemma width_le_iff:
  assumes "well_scoped ss" and "length (kahn_topology ss) = length ss"
  shows "width_of_table (depth_table ss) \<le> b \<longleftrightarrow> (\<forall>n. card {i. is_depth ss i n} \<le> b)"
proof
  assume le: "width_of_table (depth_table ss) \<le> b"
  show "\<forall>n. card {i. is_depth ss i n} \<le> b"
  proof
    fix n
    show "card {i. is_depth ss i n} \<le> b"
    proof (cases "n \<in> set (map snd (depth_table ss))")
      case True
      then show ?thesis using le count_depths [OF assms, of n] by (auto simp: width_of_table_def max_list_le)
    next
      case False
      then show ?thesis using count_depths [OF assms, of n] by (metis count_list_0_iff le0)
    qed
  qed
next
  assume "\<forall>n. card {i. is_depth ss i n} \<le> b"
  then show "width_of_table (depth_table ss) \<le> b"
    by (auto simp: width_of_table_def max_list_le count_depths [OF assms])
qed

lemma concat_Nil_iff: "concat (map f xs) = [] \<longleftrightarrow> (\<forall>x \<in> set xs. f x = [])"
  by auto

lemma step_reasons_Nil_iff:
  "step_reasons ss s = [] \<longleftrightarrow>
     step_contract s \<and> step_id s \<notin> set (dependencies s) \<and> set (dependencies s) \<subseteq> set (step_ids ss)"
  by (auto simp: step_reasons_def step_contract_def list_ex_iff not_less)

lemma roots_one_iff:
  "distinct (step_ids ss) \<Longrightarrow> length (roots_of ss) = 1 \<longleftrightarrow> (\<exists>!s. s \<in> set ss \<and> dependencies s = [])"
proof -
  assume d: "distinct (step_ids ss)"
  then have "distinct (filter (\<lambda>s. dependencies s = []) ss)"
    by (auto simp: step_ids_def distinct_map)
  then have "length (roots_of ss) = card {s \<in> set ss. dependencies s = []}"
    by (simp add: roots_of_def distinct_card [symmetric] Collect_conj_eq)
  moreover have "card A = 1 \<longleftrightarrow> (\<exists>!x. x \<in> A)" for A :: "plan_step set"
    by (auto simp: card_1_singleton_iff set_eq_iff)
  ultimately show ?thesis by simp
qed

lemma unknown_in_initial:
  "UnknownDependency \<in> set (initial_reasons d) \<longleftrightarrow>
     \<not> (\<forall>s \<in> set (steps d). set (dependencies s) \<subseteq> set (step_ids (steps d)))"
  by (auto simp: initial_reasons_def step_reasons_def Let_def list_ex_iff)

lemma duplicate_in_initial:
  "DuplicateStepId \<in> set (initial_reasons d) \<longleftrightarrow> \<not> distinct (step_ids (steps d))"
  by (auto simp: initial_reasons_def step_reasons_def Let_def)

lemma later_reasons_not_initial:
  "Cycle \<notin> set (initial_reasons d)" "DepthLimit \<notin> set (initial_reasons d)"
  "WidthLimit \<notin> set (initial_reasons d)" "UnreachableNode \<notin> set (initial_reasons d)"
  by (auto simp: initial_reasons_def step_reasons_def Let_def)

lemma well_scoped_reasons:
  "well_scoped (steps d) \<longleftrightarrow>
     DuplicateStepId \<notin> set (initial_reasons d) \<and> UnknownDependency \<notin> set (initial_reasons d)"
  by (auto simp: well_scoped_def unknown_in_initial duplicate_in_initial)

lemma initial_reasons_Nil_iff:
  "initial_reasons d = [] \<longleftrightarrow> well_scoped (steps d) \<and>
     (\<forall>s \<in> set (steps d). step_contract s \<and> step_id s \<notin> set (dependencies s)) \<and>
     (\<exists>!s. s \<in> set (steps d) \<and> dependencies s = []) \<and>
     length (steps d) \<le> MAX_NODES \<and>
     sum_list (map (length \<circ> dependencies) (steps d)) \<le> MAX_EDGES \<and>
     length (canonical_dag_bytes d) \<le> MAX_SERIALIZED_BYTES"
proof (cases "distinct (step_ids (steps d))")
  case True
  then show ?thesis
    using roots_one_iff [OF True]
    by (auto simp: initial_reasons_def Let_def concat_Nil_iff step_reasons_Nil_iff well_scoped_def not_less)
qed (simp add: initial_reasons_def Let_def well_scoped_def)

lemma acyclic_no_self: "acyclic (dep_rel ss) \<Longrightarrow> s \<in> set ss \<Longrightarrow> step_id s \<notin> set (dependencies s)"
  by (force simp: acyclic_def dep_rel_def)

subsection \<open>Properties of validate_dag\<close>

lemma vplan_id_eq:
  "vplan_id (validate_dag sha d) =
     (if valid (validate_dag sha d) then Some (sha (canonical_dag_bytes d)) else None)"
  by (simp only: validate_dag_def Let_def plan_validation_result.simps)

lemma valid_iff_reasons:
  "valid (validate_dag sha d) \<longleftrightarrow>
     initial_reasons d = [] \<and> length (kahn_topology (steps d)) = length (steps d) \<and>
     depth_of_table (depth_table (steps d)) \<le> MAX_DEPTH \<and>
     width_of_table (depth_table (steps d)) \<le> MAX_WIDTH \<and>
     length (reach (steps d) (roots_of (steps d)) []) = length (steps d)"
proof (cases "initial_reasons d = []")
  case True
  then have "length (roots_of (steps d)) = 1"
    by (auto simp: initial_reasons_def Let_def split: if_splits)
  with True show ?thesis by (auto simp: validate_dag_def Let_def not_less)
qed (auto simp: validate_dag_def Let_def)

lemma valid_iff_contract: "valid (validate_dag sha d) \<longleftrightarrow> plan_contract d"
proof (cases "well_scoped (steps d) \<and> acyclic (dep_rel (steps d))")
  case True
  then have ws: "well_scoped (steps d)" and acyc: "acyclic (dep_rel (steps d))" by auto
  have len: "length (kahn_topology (steps d)) = length (steps d)"
    using kahn_complete_iff_acyclic [OF ws] acyc by simp
  show ?thesis
    unfolding valid_iff_reasons initial_reasons_Nil_iff plan_contract_def
      depth_le_iff [OF ws len] width_le_iff [OF ws len]
    using ws acyc len reach_all [OF ws acyc] acyclic_no_self [OF acyc] by blast
next
  case False
  then show ?thesis
    using kahn_complete_iff_acyclic [of "steps d"]
    by (auto simp: valid_iff_reasons initial_reasons_Nil_iff plan_contract_def)
qed

lemmas validate_dag_contract_dest = valid_iff_contract [THEN iffD1]

text \<open>
  C5. The validator decides the contract: a plan is accepted exactly when its identifiers are
  distinct, its dependencies are known and acyclic, exactly one step has no dependency, every step
  fits the operation contract, and the node, edge, dependency, byte, depth and width limits hold,
  where the depth of a step is the length of the longest dependency chain ending in it. In
  particular the reachability check never rejects a plan on its own.
\<close>

theorem validate_dag_decides_contract: "valid (validate_dag sha d) \<longleftrightarrow> plan_contract d"
  by (rule valid_iff_contract)

lemma valid_topology_facts:
  assumes "valid (validate_dag sha d)"
  shows "mset (topology (validate_dag sha d)) = mset (step_ids (steps d)) \<and>
     topological_order (steps d) (topology (validate_dag sha d)) \<and>
     vplan_id (validate_dag sha d) = Some (sha (canonical_dag_bytes d))"
proof -
  from assms have ws: "well_scoped (steps d)" and len: "length (kahn_topology (steps d)) = length (steps d)"
    and init: "initial_reasons d = []" and dep: "depth_of_table (depth_table (steps d)) \<le> MAX_DEPTH"
    and wid: "width_of_table (depth_table (steps d)) \<le> MAX_WIDTH"
    and rch: "length (reach (steps d) (roots_of (steps d)) []) = length (steps d)"
    unfolding valid_iff_reasons by (auto simp: initial_reasons_Nil_iff)
  have t: "topology (validate_dag sha d) = kahn_topology (steps d)"
    using len dep wid rch by (simp add: validate_dag_def Let_def init not_less)
  have "set (kahn_topology (steps d)) = set (step_ids (steps d))"
    by (rule depth_table_facts(2) [OF ws len])
  then have "mset (topology (validate_dag sha d)) = mset (step_ids (steps d))"
    using t kahn_topology_facts(1) [OF ws] ws by (metis set_eq_iff_mset_eq_distinct well_scoped_def)
  moreover have "topological_order (steps d) (topology (validate_dag sha d))"
    using t kahn_topology_facts(3) [OF ws] by simp
  ultimately show ?thesis using assms by (simp add: vplan_id_eq)
qed

text \<open>
  C21. The topology of an accepted plan lists every step exactly once, each after all its
  dependencies, and the plan identifier is the hash of the canonical bytes.
\<close>

theorem validate_dag_topology:
  assumes "valid (validate_dag sha d)"
  shows "mset (topology (validate_dag sha d)) = mset (step_ids (steps d)) \<and>
     topological_order (steps d) (topology (validate_dag sha d)) \<and>
     vplan_id (validate_dag sha d) = Some (sha (canonical_dag_bytes d))"
  using assms by (rule valid_topology_facts)

text \<open>
  Cycle detection is exact: the code \<open>cycle\<close> is reported exactly when the identifiers are
  distinct, all dependencies are known, and the dependency relation has a cycle.
\<close>

lemma validate_dag_cycle:
  "Cycle \<in> set (reason_codes (validate_dag sha d)) \<longleftrightarrow>
     well_scoped (steps d) \<and> \<not> acyclic (dep_rel (steps d))"
proof -
  have "Cycle \<in> set (reason_codes (validate_dag sha d)) \<longleftrightarrow>
      well_scoped (steps d) \<and> length (kahn_topology (steps d)) \<noteq> length (steps d)"
    using later_reasons_not_initial(1) [of d]
    by (auto simp: validate_dag_def Let_def well_scoped_reasons)
  then show ?thesis using kahn_complete_iff_acyclic by blast
qed

subsection \<open>The canonical bytes determine the plan\<close>

lemma sort_keys_plan_step:
  "sort_keys (plan_step_json s) = JObj [
     (''allowed_actions'', json_strs (map action_name (allowed_actions s))),
     (''dependencies'', json_strs (dependencies s)),
     (''expected_page'', JStr (page_name (expected_page s))),
     (''fallback'', JStr (fallback_name (step_fallback s))),
     (''objective'', JStr (objective s)),
     (''operation'', JStr (operation_name (operation s))),
     (''postconditions'', json_strs (map condition_name (postconditions s))),
     (''preconditions'', json_strs (map condition_name (preconditions s))),
     (''required_context'', json_strs (map context_name (required_contexts s))),
     (''retry_policy'', JStr (case retry s of NoRetry \<Rightarrow> ''no_retry'')),
     (''risk_level'', JStr (risk_name (step_risk s))),
     (''step_id'', JStr (step_id s))]"
  by (simp add: plan_step_json_def json_strs_def comp_def less_char_def)

lemma sort_keys_planning_dag:
  "sort_keys (planning_dag_json d) = JObj [
     (''category'', JStr (category_name (category d))),
     (''process'', JStr (process_name (process d))),
     (''schema_version'', JStr ''w7-planning-dag/1.0''),
     (''steps'', JArr (map (sort_keys \<circ> plan_step_json) (steps d)))]"
  by (simp add: planning_dag_json_def less_char_def)

lemma map_inj_eq: "(\<And>x y. f x = f y \<longleftrightarrow> x = y) \<Longrightarrow> map f xs = map f ys \<longleftrightarrow> xs = ys"
  by (metis inj_map_eq_map injI)

lemma sort_keys_plan_step_inj: "sort_keys (plan_step_json s) = sort_keys (plan_step_json t) \<longleftrightarrow> s = t"
proof
  assume "sort_keys (plan_step_json s) = sort_keys (plan_step_json t)"
  then show "s = t"
    by (cases "retry s"; cases "retry t")
      (auto simp: sort_keys_plan_step json_strs_def name_inj map_inj_eq comp_def
        intro!: plan_step.equality)
qed simp

lemma canonical_dag_bytes_inj: "canonical_dag_bytes d = canonical_dag_bytes d' \<longleftrightarrow> d = d'"
proof
  assume "canonical_dag_bytes d = canonical_dag_bytes d'"
  then have "sort_keys (planning_dag_json d) = sort_keys (planning_dag_json d')"
    unfolding canonical_dag_bytes_def by (rule canonical_ascii_json_bytes_inj)
  then show "d = d'"
    by (auto simp: sort_keys_planning_dag name_inj map_inj_eq sort_keys_plan_step_inj comp_def
        intro!: planning_dag.equality)
qed simp

text \<open>
  C27. A plan identifier commits to the whole plan: two accepted plans get the same identifier only
  if they are the same plan or their two different canonical encodings collide under the hash.
\<close>

theorem plan_id_binds_plan:
  assumes "vplan_id (validate_dag sha d) = Some p" and "vplan_id (validate_dag sha d') = Some p"
  shows "d = d' \<or>
     (canonical_dag_bytes d \<noteq> canonical_dag_bytes d' \<and> sha (canonical_dag_bytes d) = sha (canonical_dag_bytes d'))"
  using assms canonical_dag_bytes_inj [of d d']
  by (auto simp: vplan_id_eq split: if_splits)

end
