(* ===== verification/Planner.thy ===== *)
theory Planner
  imports Dag_Correct
begin

section \<open>The deterministic planner and partial replanning\<close>

text \<open>
  \<open>planner.py\<close> (the three fixed plans and \<open>DeterministicPlanner.generate\<close>) and \<open>replan.py\<close>
  (\<open>partial_replan\<close>: rename the failed step and everything that depends on it, keep what is
  completed, and validate the result again).
\<close>

subsection \<open>The fixed plans\<close>

definition mk_step :: "step_id \<Rightarrow> string \<Rightarrow> step_id list \<Rightarrow> operation \<Rightarrow> page \<Rightarrow> allowed_action list
    \<Rightarrow> risk_level \<Rightarrow> fallback \<Rightarrow> plan_step" where
  "mk_step sid obj deps op pg actions risk fb =
     \<lparr>step_id = sid, objective = obj, dependencies = deps, operation = op, expected_page = pg,
      required_contexts = [HumanBrief, SuppliedValuesCtx, CurrentObservation],
      allowed_actions = actions,
      preconditions = [DependenciesVerified, BudgetAvailable, CurrentSession],
      postconditions = [ActionSucceeded, ExpectedPageObserved],
      step_risk = risk, retry = NoRetry, step_fallback = fb\<rparr>"

definition joiner_steps :: "plan_step list" where
  "joiner_steps = [
     mk_step ''s00_inspect'' ''Inspect the current synthetic employee page.'' []
       InspectEmployee Hris [Navigate, Read] Low Stop,
     mk_step ''s10_ticket'' ''Create the bounded onboarding ticket.'' [''s00_inspect'']
       CreateTicket Itsm [Navigate, Fill, Click] Low Stop,
     mk_step ''s20_account'' ''Create the ordinary synthetic IAM account.'' [''s00_inspect'']
       CreateAccount Iam [Navigate, Fill, Click] Low Stop,
     mk_step ''s30_asset'' ''Assign the synthetic laptop.'' [''s00_inspect'']
       AssignAsset Assets [Navigate, Fill, Click] Low Stop,
     mk_step ''s40_mail'' ''Create the non-deliverable synthetic mailbox.'' [''s00_inspect'']
       CreateMailbox Mail [Navigate, Fill, Click] Low Stop,
     mk_step ''s90_finalize'' ''Return to HRIS and end ungraded.''
       [''s10_ticket'', ''s20_account'', ''s30_asset'', ''s40_mail'']
       Finalize Hris [Navigate, Read, Finish] Low Stop]"

definition mover_steps :: "plan_step list" where
  "mover_steps = [
     mk_step ''s10_transfer'' ''Apply the bounded synthetic employee transfer.'' []
       TransferEmployee Hris [Navigate, Fill, Click] Medium Stop,
     mk_step ''s20_close'' ''Close the employee-owned transition ticket.'' [''s10_transfer'']
       CloseTicket Itsm [Navigate, Fill, Click] Medium Stop,
     mk_step ''s90_finalize'' ''Return to HRIS and end ungraded.'' [''s10_transfer'', ''s20_close'']
       Finalize Hris [Navigate, Read, Finish] Low Stop]"

definition leaver_steps :: "plan_step list" where
  "leaver_steps = [
     mk_step ''s10_disable_employee'' ''Disable the synthetic employee profile.'' []
       DisableEmployee Hris [Navigate, Fill, Click] High Escalate,
     mk_step ''s20_close_ticket'' ''Close the employee-owned ticket.'' [''s10_disable_employee'']
       CloseTicket Itsm [Navigate, Fill, Click] High Escalate,
     mk_step ''s30_revoke_account'' ''Revoke the ordinary synthetic account.'' [''s10_disable_employee'']
       RevokeAccount Iam [Navigate, Fill, Click] High Escalate,
     mk_step ''s40_release_asset'' ''Release the synthetic asset assignment.'' [''s10_disable_employee'']
       ReleaseAsset Assets [Navigate, Fill, Click] High Escalate,
     mk_step ''s50_disable_mail'' ''Disable the synthetic mailbox.'' [''s40_release_asset'']
       DisableMailbox Mail [Navigate, Fill, Click] High Escalate,
     mk_step ''s90_finalize'' ''Return to HRIS and end ungraded.''
       [''s20_close_ticket'', ''s30_revoke_account'', ''s40_release_asset'', ''s50_disable_mail'']
       Finalize Hris [Navigate, Read, Finish] Low Stop]"

datatype value_error =
    InvalidDag
  | StepNotEligible
  | IdentifierTooLong
  | ReplanContractViolated

text \<open>\<open>DeterministicPlanner.generate\<close>: the plan with its identifier, or \<open>ValueError\<close>.\<close>

definition generate :: "(string \<Rightarrow> string) \<Rightarrow> plan_request \<Rightarrow> value_error + (string \<times> planning_dag)" where
  "generate sha r =
     (let ss = (case pr_process r of Joiner \<Rightarrow> joiner_steps | Mover \<Rightarrow> mover_steps | Leaver \<Rightarrow> leaver_steps);
          d = \<lparr>process = pr_process r, category = pr_category r, steps = ss\<rparr>;
          v = validate_dag sha d
      in if \<not> valid v then Inl InvalidDag
         else case vplan_id v of None \<Rightarrow> Inl InvalidDag | Some p \<Rightarrow> Inr (p, d))"

subsection \<open>Partial replanning\<close>

text \<open>The breadth-first walk of \<open>partial_replan\<close>; \<open>children[c]\<close> are the entries of \<open>dependents\<close>.\<close>

function replaced_from :: "plan_step list \<Rightarrow> step_id set \<Rightarrow> step_id list \<Rightarrow> step_id list \<Rightarrow> step_id list" where
  "replaced_from ss completed [] replaced = replaced"
| "replaced_from ss completed (current # queue) replaced =
     (if current \<in> completed \<or> current \<in> set replaced then replaced_from ss completed queue replaced
      else replaced_from ss completed (queue @ sort (dependents ss current)) (current # replaced))"
  by pat_completeness auto
termination
proof (relation "measures [\<lambda>(ss, completed, q, seen). card ((set (step_ids ss) \<union> set q) - set seen),
                           \<lambda>(ss, completed, q, seen). length q]")
  fix ss :: "plan_step list" and completed current and queue replaced :: "step_id list"
  have "card (set (step_ids ss) \<union> set queue - set replaced)
      \<le> card (set (step_ids ss) \<union> set (current # queue) - set replaced)"
    by (rule card_mono) auto
  then show "((ss, completed, queue, replaced), ss, completed, current # queue, replaced)
      \<in> measures [\<lambda>(ss, completed, q, seen). card ((set (step_ids ss) \<union> set q) - set seen),
                   \<lambda>(ss, completed, q, seen). length q]"
    by auto
next
  fix ss :: "plan_step list" and completed current and queue replaced :: "step_id list"
  assume "\<not> (current \<in> completed \<or> current \<in> set replaced)"
  then have "set (step_ids ss) \<union> set (queue @ sort (dependents ss current)) - set (current # replaced)
      \<subset> set (step_ids ss) \<union> set (current # queue) - set replaced"
    using set_dependents [of ss current] by auto
  then have "card (set (step_ids ss) \<union> set (queue @ sort (dependents ss current)) - set (current # replaced))
      < card (set (step_ids ss) \<union> set (current # queue) - set replaced)"
    by (intro psubset_card_mono) auto
  then show "((ss, completed, queue @ sort (dependents ss current), current # replaced), ss, completed, current # queue, replaced)
      \<in> measures [\<lambda>(ss, completed, q, seen). card ((set (step_ids ss) \<union> set q) - set seen),
                   \<lambda>(ss, completed, q, seen). length q]"
    by simp
qed simp

definition rename_id :: "step_id list \<Rightarrow> step_id \<Rightarrow> step_id" where
  "rename_id replaced i = (if i \<in> set replaced then ''r2_'' @ i else i)"

text \<open>\<open>step.model_copy(update=...)\<close> for a replaced step, the step itself otherwise.\<close>

definition rename_step :: "step_id list \<Rightarrow> plan_step \<Rightarrow> plan_step" where
  "rename_step replaced s =
     (if step_id s \<in> set replaced
      then s\<lparr>step_id := rename_id replaced (step_id s),
             dependencies := map (rename_id replaced) (dependencies s)\<rparr>
      else s)"

definition partial_replan ::
    "(string \<Rightarrow> string) \<Rightarrow> planning_dag \<Rightarrow> step_id \<Rightarrow> step_id set
     \<Rightarrow> value_error + (planning_dag \<times> step_id list)" where
  "partial_replan sha d failed completed =
     (if failed \<notin> set (step_ids (steps d)) \<or> failed \<in> completed then Inl StepNotEligible
      else let replaced = sort (replaced_from (steps d) completed [failed] []) in
        if list_ex (\<lambda>i. 40 < length (''r2_'' @ i)) replaced then Inl IdentifierTooLong
        else let revised = d\<lparr>steps := map (rename_step replaced) (steps d)\<rparr> in
          if \<not> valid (validate_dag sha revised) then Inl ReplanContractViolated
          else Inr (revised, replaced))"

subsection \<open>The fixed plans satisfy the contract\<close>

lemma dag_bytes_bound: "length (canonical_dag_bytes d) \<le> json_bound (planning_dag_json d)"
  unfolding canonical_dag_bytes_def by (rule canonical_ascii_length)

lemmas plan_text_defs = planning_dag_json_def plan_step_json_def json_strs_def mk_step_def

lemma joiner_bytes: "length (canonical_dag_bytes \<lparr>process = p, category = c, steps = joiner_steps\<rparr>) \<le> MAX_SERIALIZED_BYTES"
  by (rule order_trans [OF dag_bytes_bound])
    (cases p; cases c; simp add: joiner_steps_def plan_text_defs)

lemma mover_bytes: "length (canonical_dag_bytes \<lparr>process = p, category = c, steps = mover_steps\<rparr>) \<le> MAX_SERIALIZED_BYTES"
  by (rule order_trans [OF dag_bytes_bound])
    (cases p; cases c; simp add: mover_steps_def plan_text_defs)

lemma leaver_bytes: "length (canonical_dag_bytes \<lparr>process = p, category = c, steps = leaver_steps\<rparr>) \<le> MAX_SERIALIZED_BYTES"
  by (rule order_trans [OF dag_bytes_bound])
    (cases p; cases c; simp add: leaver_steps_def plan_text_defs)

text \<open>Everything the validator computes besides the encoded length, on a list of steps.\<close>

definition structure_ok :: "plan_step list \<Rightarrow> bool" where
  "structure_ok ss = (distinct (step_ids ss) \<and> length ss \<le> MAX_NODES \<and>
     sum_list (map (length \<circ> dependencies) ss) \<le> MAX_EDGES \<and>
     concat (map (step_reasons ss) ss) = [] \<and> length (roots_of ss) = 1 \<and>
     length (kahn_topology ss) = length ss \<and>
     depth_of_table (depth_table ss) \<le> MAX_DEPTH \<and> width_of_table (depth_table ss) \<le> MAX_WIDTH \<and>
     length (reach ss (roots_of ss) []) = length ss)"

lemma valid_by_structure:
  "length (canonical_dag_bytes d) \<le> MAX_SERIALIZED_BYTES \<Longrightarrow> structure_ok (steps d) \<Longrightarrow> valid (validate_dag sha d)"
  by (simp add: valid_iff_reasons structure_ok_def initial_reasons_def Let_def)

lemma joiner_structure: "structure_ok joiner_steps" by code_simp
lemma mover_structure: "structure_ok mover_steps" by code_simp
lemma leaver_structure: "structure_ok leaver_steps" by code_simp

lemma fixed_steps_ok:
  "list_all plan_step_ok joiner_steps" "list_all plan_step_ok mover_steps" "list_all plan_step_ok leaver_steps"
  by code_simp+

lemma fixed_lengths: "length joiner_steps = 6" "length mover_steps = 3" "length leaver_steps = 6"
  by (simp_all add: joiner_steps_def mover_steps_def leaver_steps_def)

definition fixed_steps :: "business_process \<Rightarrow> plan_step list" where
  "fixed_steps p = (case p of Joiner \<Rightarrow> joiner_steps | Mover \<Rightarrow> mover_steps | Leaver \<Rightarrow> leaver_steps)"

lemma fixed_plan_valid:
  "valid (validate_dag sha \<lparr>process = p, category = c, steps = fixed_steps q\<rparr>)"
  by (cases q)
    (simp_all add: fixed_steps_def valid_by_structure joiner_bytes mover_bytes leaver_bytes
      joiner_structure mover_structure leaver_structure)

lemma generate_eq:
  "generate sha r = Inr (sha (canonical_dag_bytes \<lparr>process = pr_process r, category = pr_category r, steps = fixed_steps (pr_process r)\<rparr>),
     \<lparr>process = pr_process r, category = pr_category r, steps = fixed_steps (pr_process r)\<rparr>)"
proof -
  let ?d = "\<lparr>process = pr_process r, category = pr_category r, steps = fixed_steps (pr_process r)\<rparr>"
  have "valid (validate_dag sha ?d)" by (rule fixed_plan_valid)
  then show ?thesis
    by (simp add: generate_def Let_def vplan_id_eq fixed_steps_def [symmetric])
qed

text \<open>
  The planner always returns a plan, never \<open>ValueError\<close>: for each of the three processes the
  fixed plan passes the model's field constraints and the plan contract.
\<close>

lemma generate_succeeds:
  "\<exists>p d. generate sha r = Inr (p, d) \<and> p = sha (canonical_dag_bytes d) \<and> plan_contract d \<and> planning_dag_ok d"
proof -
  let ?d = "\<lparr>process = pr_process r, category = pr_category r, steps = fixed_steps (pr_process r)\<rparr>"
  have "plan_contract ?d"
    by (rule validate_dag_contract_dest [OF fixed_plan_valid])
  moreover have "planning_dag_ok ?d"
    by (cases "pr_process r") (simp_all add: planning_dag_ok_def fixed_steps_def fixed_steps_ok fixed_lengths)
  ultimately show ?thesis using generate_eq by blast
qed

subsection \<open>What a partial replan replaces\<close>

definition open_rel :: "plan_step list \<Rightarrow> step_id set \<Rightarrow> (step_id \<times> step_id) set" where
  "open_rel ss completed = {(a, b) \<in> dep_rel ss. b \<notin> completed}"

lemma replaced_from_facts:
  assumes "\<forall>x \<in> set replaced. \<forall>y. (x, y) \<in> open_rel ss completed \<longrightarrow> y \<in> set replaced \<union> set queue"
    and "\<forall>x \<in> set replaced. x \<notin> completed \<and> (f, x) \<in> (open_rel ss completed)\<^sup>*"
    and "\<forall>x \<in> set queue. x \<notin> completed \<longrightarrow> (f, x) \<in> (open_rel ss completed)\<^sup>*"
  defines "r \<equiv> replaced_from ss completed queue replaced"
  shows "(\<forall>x \<in> set queue \<union> set replaced. x \<notin> completed \<longrightarrow> x \<in> set r) \<and>
     (\<forall>x \<in> set r. \<forall>y. (x, y) \<in> open_rel ss completed \<longrightarrow> y \<in> set r) \<and>
     (\<forall>x \<in> set r. x \<notin> completed \<and> (f, x) \<in> (open_rel ss completed)\<^sup>*)"
  using assms(1-3) unfolding r_def
proof (induction ss completed queue replaced rule: replaced_from.induct)
  case (1 ss completed replaced)
  then show ?case by simp
next
  case (2 ss completed current queue replaced)
  show ?case
  proof (cases "current \<in> completed \<or> current \<in> set replaced")
    case True
    have "\<forall>x \<in> set replaced. \<forall>y. (x, y) \<in> open_rel ss completed \<longrightarrow> y \<in> set replaced \<union> set queue"
      using 2(3) True by (auto simp: open_rel_def)
    moreover have "\<forall>x \<in> set queue. x \<notin> completed \<longrightarrow> (f, x) \<in> (open_rel ss completed)\<^sup>*"
      using 2(5) by simp
    ultimately have ih: "\<And>x. x \<in> set queue \<union> set replaced \<Longrightarrow> x \<notin> completed \<Longrightarrow> x \<in> set (replaced_from ss completed queue replaced)"
      "\<forall>x \<in> set (replaced_from ss completed queue replaced). \<forall>y. (x, y) \<in> open_rel ss completed \<longrightarrow>
         y \<in> set (replaced_from ss completed queue replaced)"
      "\<forall>x \<in> set (replaced_from ss completed queue replaced). x \<notin> completed \<and> (f, x) \<in> (open_rel ss completed)\<^sup>*"
      using 2(1) [OF True _ 2(4)] by blast+
    have "replaced_from ss completed (current # queue) replaced = replaced_from ss completed queue replaced"
      using True by simp
    with ih True show ?thesis by (metis UnE UnI1 UnI2 set_ConsD)
  next
    case False
    let ?q = "queue @ sort (dependents ss current)"
    have child: "y \<in> set (dependents ss current) \<longleftrightarrow> (current, y) \<in> dep_rel ss" for y
      by (simp add: set_dependents_dep_rel)
    have cur: "(f, current) \<in> (open_rel ss completed)\<^sup>*" using 2(5) False by simp
    have "\<forall>x \<in> set (current # replaced). \<forall>y. (x, y) \<in> open_rel ss completed \<longrightarrow> y \<in> set (current # replaced) \<union> set ?q"
      using 2(3) child by (auto simp: open_rel_def)
    moreover have "\<forall>x \<in> set (current # replaced). x \<notin> completed \<and> (f, x) \<in> (open_rel ss completed)\<^sup>*"
      using 2(4) False cur by simp
    moreover have "\<forall>x \<in> set ?q. x \<notin> completed \<longrightarrow> (f, x) \<in> (open_rel ss completed)\<^sup>*"
    proof (intro ballI impI)
      fix x assume "x \<in> set ?q" "x \<notin> completed"
      then consider "x \<in> set queue" | "(current, x) \<in> open_rel ss completed"
        using child by (auto simp: open_rel_def)
      then show "(f, x) \<in> (open_rel ss completed)\<^sup>*"
        using 2(5) \<open>x \<notin> completed\<close> cur by cases (auto intro: rtrancl_into_rtrancl)
    qed
    ultimately have ih: "\<And>x. x \<in> set ?q \<union> set (current # replaced) \<Longrightarrow> x \<notin> completed \<Longrightarrow>
         x \<in> set (replaced_from ss completed ?q (current # replaced))"
      "\<forall>x \<in> set (replaced_from ss completed ?q (current # replaced)). \<forall>y. (x, y) \<in> open_rel ss completed \<longrightarrow>
         y \<in> set (replaced_from ss completed ?q (current # replaced))"
      "\<forall>x \<in> set (replaced_from ss completed ?q (current # replaced)). x \<notin> completed \<and> (f, x) \<in> (open_rel ss completed)\<^sup>*"
      using 2(2) [OF False] by blast+
    have "replaced_from ss completed (current # queue) replaced = replaced_from ss completed ?q (current # replaced)"
      using False by simp
    moreover have "x \<in> set ?q \<union> set (current # replaced)" if "x \<in> set (current # queue) \<union> set replaced" for x
      using that by auto
    ultimately show ?thesis using ih by metis
  qed
qed

lemma replaced_from_exact:
  assumes "failed \<notin> completed"
  shows "set (replaced_from ss completed [failed] []) = {i. (failed, i) \<in> (open_rel ss completed)\<^sup>*}"
proof -
  let ?r = "replaced_from ss completed [failed] []"
  have facts: "failed \<in> set ?r" "\<And>x y. x \<in> set ?r \<Longrightarrow> (x, y) \<in> open_rel ss completed \<Longrightarrow> y \<in> set ?r"
    "\<And>x. x \<in> set ?r \<Longrightarrow> (failed, x) \<in> (open_rel ss completed)\<^sup>*"
    using replaced_from_facts [of "[]" ss completed "[failed]" failed] assms by auto
  have "i \<in> set ?r" if "(failed, i) \<in> (open_rel ss completed)\<^sup>*" for i
    using that by (induction rule: rtrancl_induct) (use facts in auto)
  with facts(3) show ?thesis by auto
qed

lemma open_rel_not_completed:
  "(failed, i) \<in> (open_rel ss completed)\<^sup>* \<Longrightarrow> failed \<notin> completed \<Longrightarrow> i \<notin> completed"
  by (induction rule: rtrancl_induct) (auto simp: open_rel_def)


subsection \<open>The properties at the fixed plans\<close>

definition mover_dag :: planning_dag where
  "mover_dag = \<lparr>process = Mover, category = StandardMover, steps = mover_steps\<rparr>"

definition leaver_dag :: planning_dag where
  "leaver_dag = \<lparr>process = Leaver, category = StandardLeaver, steps = leaver_steps\<rparr>"

lemma mover_leaver_valid: "valid (validate_dag sha mover_dag)" "valid (validate_dag sha leaver_dag)"
  using fixed_plan_valid [of sha Mover StandardMover Mover] fixed_plan_valid [of sha Leaver StandardLeaver Leaver]
  by (simp_all add: mover_dag_def leaver_dag_def fixed_steps_def)

theorem validate_dag_topology_witness:
  "mset (topology (validate_dag (\<lambda>s. s) mover_dag)) = {#''s10_transfer'', ''s20_close'', ''s90_finalize''#}"
  using validate_dag_topology [OF mover_leaver_valid(1), of "\<lambda>s. s"]
  by (simp add: mover_dag_def mover_steps_def mk_step_def step_ids_def)

theorem plan_id_binds_plan_witness:
  "canonical_dag_bytes mover_dag \<noteq> canonical_dag_bytes leaver_dag"
  using plan_id_binds_plan [of "\<lambda>_. ''h''" mover_dag "''h''" leaver_dag]
  by (simp add: vplan_id_eq mover_leaver_valid) (auto simp: mover_dag_def leaver_dag_def)

lemma mover_replan:
  "partial_replan sha mover_dag ''s20_close'' {''s10_transfer''} =
     Inr (mover_dag\<lparr>steps := map (rename_step [''s20_close'', ''s90_finalize'']) mover_steps\<rparr>, [''s20_close'', ''s90_finalize''])"
proof -
  let ?rs = "[''s20_close'', ''s90_finalize'']"
  let ?d = "mover_dag\<lparr>steps := map (rename_step ?rs) mover_steps\<rparr>"
  have r: "sort (replaced_from mover_steps {''s10_transfer''} [''s20_close''] []) = ?rs" by code_simp
  have "length (canonical_dag_bytes ?d) \<le> MAX_SERIALIZED_BYTES"
    by (rule order_trans [OF dag_bytes_bound])
      (simp add: mover_dag_def mover_steps_def rename_step_def rename_id_def plan_text_defs)
  moreover have "structure_ok (map (rename_step ?rs) mover_steps)" by code_simp
  ultimately have "valid (validate_dag sha ?d)" by (intro valid_by_structure) (simp_all add: mover_dag_def)
  then show ?thesis using r
    by (simp add: partial_replan_def mover_dag_def step_ids_def mover_steps_def mk_step_def Let_def)
qed


end
