(* ===== verification/StepMachine.thy ===== *)
theory StepMachine
  imports Planner
begin

section \<open>The step state machine\<close>

text \<open>
  \<open>StepStateMachine\<close> of \<open>dag.py\<close>: the states of a plan's steps, with \<open>start\<close>, \<open>verify\<close> and
  \<open>terminate\<close> as methods that raise. Its moves form a transition system whose invariant is that a
  step runs only after its dependencies were verified.
\<close>

record machine =
  m_steps :: "step_id \<rightharpoonup> plan_step"
  m_states :: "step_id \<rightharpoonup> step_state"

datatype machine_error = DependencyBlocked string | InvalidTerminalState | MissingKey step_id

definition new_machine :: "planning_dag \<Rightarrow> machine" where
  "new_machine d = \<lparr>m_steps = by_id (steps d), m_states = dict_of (map (\<lambda>s. (step_id s, Pending)) (steps d))\<rparr>"

text \<open>\<open>any(self._states[dependency] != "verified" ...)\<close>, which raises \<open>KeyError\<close> on a missing key.\<close>

fun check_verified :: "(step_id \<rightharpoonup> step_state) \<Rightarrow> step_id list \<Rightarrow> machine_error option" where
  "check_verified states [] = None"
| "check_verified states (d # ds) =
     (case states d of
        None \<Rightarrow> Some (MissingKey d)
      | Some st \<Rightarrow> if st \<noteq> Verified then Some (DependencyBlocked ''dependencies are not verified'')
                   else check_verified states ds)"

definition set_state :: "step_id \<Rightarrow> step_state \<Rightarrow> machine \<Rightarrow> machine" where
  "set_state i st m = m\<lparr>m_states := (m_states m)(i \<mapsto> st)\<rparr>"

definition start :: "step_id \<Rightarrow> (machine, machine_error, unit) meth" where
  "start i m = (case m_steps m i of
       None \<Rightarrow> (Inl (DependencyBlocked ''unknown step''), m)
     | Some step \<Rightarrow>
         if m_states m i \<noteq> Some Pending then (Inl (DependencyBlocked ''step is not pending''), m)
         else case check_verified (m_states m) (dependencies step) of
             Some e \<Rightarrow> (Inl e, m)
           | None \<Rightarrow> (Inr (), set_state i Executing (set_state i Ready m)))"

definition verify :: "step_id \<Rightarrow> (machine, machine_error, unit) meth" where
  "verify i m =
     (if m_states m i \<noteq> Some Executing
      then (Inl (DependencyBlocked ''only executing steps can be verified''), m)
      else (Inr (), set_state i Verified m))"

definition terminate :: "step_id \<Rightarrow> step_state \<Rightarrow> (machine, machine_error, unit) meth" where
  "terminate i st m =
     (if st \<notin> {Blocked, Failed, Escalated} then (Inl InvalidTerminalState, m)
      else if m_states m i \<notin> {Some Pending, Some Ready, Some Executing}
      then (Inl (DependencyBlocked ''step cannot enter the requested terminal state''), m)
      else (Inr (), set_state i st m))"

definition state_of :: "step_id \<Rightarrow> (machine, machine_error, step_state) meth" where
  "state_of i m = (case m_states m i of
       None \<Rightarrow> (Inl (DependencyBlocked ''unknown step''), m) | Some st \<Rightarrow> (Inr st, m))"

definition step_by_id :: "planning_dag \<Rightarrow> step_id \<Rightarrow> machine_error + plan_step" where
  "step_by_id d i = (case find (\<lambda>s. step_id s = i) (steps d) of
       None \<Rightarrow> Inl (MissingKey i) | Some s \<Rightarrow> Inr s)"

subsection \<open>Moves and the invariant\<close>

inductive machine_move :: "machine \<Rightarrow> machine \<Rightarrow> bool" where
  move_start: "start i m = (Inr (), m') \<Longrightarrow> machine_move m m'"
| move_verify: "verify i m = (Inr (), m') \<Longrightarrow> machine_move m m'"
| move_terminate: "terminate i st m = (Inr (), m') \<Longrightarrow> machine_move m m'"

inductive_cases machine_moveE: "machine_move m m'"

lemma check_verified_None_iff:
  "check_verified states ds = None \<longleftrightarrow> (\<forall>d \<in> set ds. states d = Some Verified)"
  by (induction ds) (auto split: option.splits)

lemma start_ok_iff:
  "start i m = (Inr (), m') \<longleftrightarrow>
     (\<exists>s. m_steps m i = Some s \<and> m_states m i = Some Pending \<and>
        (\<forall>d \<in> set (dependencies s). m_states m d = Some Verified)) \<and> m' = set_state i Executing m"
  by (auto simp: start_def check_verified_None_iff [symmetric] set_state_def split: option.splits)

lemma verify_ok_iff:
  "verify i m = (Inr (), m') \<longleftrightarrow> m_states m i = Some Executing \<and> m' = set_state i Verified m"
  by (auto simp: verify_def)

lemma terminate_ok_iff:
  "terminate i st m = (Inr (), m') \<longleftrightarrow> st \<in> {Blocked, Failed, Escalated} \<and>
     m_states m i \<in> {Some Pending, Some Ready, Some Executing} \<and> m' = set_state i st m"
  by (auto simp: terminate_def)

lemmas machine_ok = start_ok_iff verify_ok_iff terminate_ok_iff

lemma set_state_simps [simp]:
  "m_steps (set_state i st m) = m_steps m"
  "m_states (set_state i st m) j = (if j = i then Some st else m_states m j)"
  by (simp_all add: set_state_def)

definition deps_verified_inv :: "machine \<Rightarrow> bool" where
  "deps_verified_inv m \<longleftrightarrow> (\<forall>i s. m_steps m i = Some s \<longrightarrow> m_states m i \<in> {Some Executing, Some Verified} \<longrightarrow>
     (\<forall>d \<in> set (dependencies s). m_states m d = Some Verified))"

lemma deps_verified_invD:
  "deps_verified_inv m \<Longrightarrow> m_steps m i = Some s \<Longrightarrow> m_states m i \<in> {Some Executing, Some Verified} \<Longrightarrow>
     d \<in> set (dependencies s) \<Longrightarrow> m_states m d = Some Verified"
  unfolding deps_verified_inv_def by blast

text \<open>A step that was not verified may change its state, if it starts or ends only with its
  dependencies verified.\<close>

lemma set_state_inv:
  assumes inv: "deps_verified_inv m" and "m_states m i \<noteq> Some Verified"
    and new: "\<And>s d. st \<in> {Executing, Verified} \<Longrightarrow> m_steps m i = Some s \<Longrightarrow> d \<in> set (dependencies s) \<Longrightarrow>
      m_states m d = Some Verified"
  shows "deps_verified_inv (set_state i st m)"
  unfolding deps_verified_inv_def
proof (intro allI impI ballI)
  fix j s d
  assume s: "m_steps (set_state i st m) j = Some s" and d: "d \<in> set (dependencies s)"
    and j: "m_states (set_state i st m) j \<in> {Some Executing, Some Verified}"
  have "m_states m d = Some Verified"
  proof (cases "j = i")
    case True
    then show ?thesis using s d j by (intro new) auto
  next
    case False
    then show ?thesis using deps_verified_invD [OF inv _ _ d] s j by simp
  qed
  then show "m_states (set_state i st m) d = Some Verified" using assms(2) by auto
qed

lemma move_inv:
  assumes inv: "deps_verified_inv m" and "machine_move m m'"
  shows "deps_verified_inv m'"
  using assms(2)
proof cases
  case (move_start i)
  then show ?thesis unfolding start_ok_iff by (auto intro!: set_state_inv [OF inv])
next
  case (move_verify i)
  then have m': "m' = set_state i Verified m" and "m_states m i = Some Executing"
    unfolding verify_ok_iff by auto
  then show ?thesis unfolding m' by (intro set_state_inv [OF inv]) (auto intro: deps_verified_invD [OF inv])
next
  case (move_terminate i st)
  then show ?thesis unfolding terminate_ok_iff by (auto intro!: set_state_inv [OF inv])
qed

lemma new_machine_pending: "m_states (new_machine d) i = Some st \<Longrightarrow> st = Pending"
  unfolding new_machine_def dict_of_def by simp (drule map_of_SomeD, auto)

lemma new_machine_inv: "deps_verified_inv (new_machine d)"
  using new_machine_pending by (fastforce simp: deps_verified_inv_def)

interpretation steps_sys: invariant_system "\<lambda>m. m = new_machine d" machine_move deps_verified_inv
  by unfold_locales (auto simp: new_machine_inv intro: move_inv)

lemma move_verified_final:
  "machine_move m m' \<Longrightarrow> m_states m i = Some Verified \<Longrightarrow> m_states m' i = Some Verified"
  by (cases rule: machine_move.cases) (unfold machine_ok, auto simp: set_state_def)

lemma moves_verified_final:
  "machine_move\<^sup>*\<^sup>* m m' \<Longrightarrow> m_states m i = Some Verified \<Longrightarrow> m_states m' i = Some Verified"
  by (induction rule: rtranclp_induct) (auto intro: move_verified_final)

lemma move_steps: "machine_move m m' \<Longrightarrow> m_steps m' = m_steps m"
  by (erule machine_moveE) (unfold machine_ok, auto)

lemma moves_steps: "machine_move\<^sup>*\<^sup>* m m' \<Longrightarrow> m_steps m' = m_steps m"
  by (induction rule: rtranclp_induct) (simp_all add: move_steps)

text \<open>
  C22. Dependency order is enforced: in every state the machine can reach from a new plan, a step
  that executes or was verified has all its dependencies verified, and they stay verified whatever
  moves follow.
\<close>

theorem machine_runs_after_dependencies:
  assumes "reachable (\<lambda>m. m = new_machine d) machine_move m"
    and "m_steps m i = Some s" and "m_states m i \<in> {Some Executing, Some Verified}"
    and "j \<in> set (dependencies s)" and "machine_move\<^sup>*\<^sup>* m m'"
  shows "m_states m' j = Some Verified"
proof -
  have "deps_verified_inv m" using assms(1) by (rule steps_sys.reachable_inv)
  then have "m_states m j = Some Verified" using assms(2-4) by (rule deps_verified_invD)
  then show ?thesis using assms(5) moves_verified_final by blast
qed

subsection \<open>A valid topology never blocks\<close>

definition run_in_order :: "step_id list \<Rightarrow> (machine, machine_error, unit) meth" where
  "run_in_order topo = in_order (concat (map (\<lambda>i. [start i, verify i]) topo))"

lemma run_in_order_Cons:
  "start i m = (Inr (), m1) \<Longrightarrow> verify i m1 = (Inr (), m2) \<Longrightarrow> run_in_order (i # is) m = run_in_order is m2"
  by (simp add: run_in_order_def andthen_def)

lemma new_machine_all_pending:
  assumes "distinct (step_ids (steps d))" and "i \<in> set (step_ids (steps d))"
  shows "m_states (new_machine d) i = Some Pending"
proof -
  have "distinct (map fst (map (\<lambda>s. (step_id s, Pending)) (steps d)))"
    using assms(1) by (simp add: comp_def step_ids_def)
  then show ?thesis using assms(2) unfolding new_machine_def
    by (simp, intro dict_of_distinct) (auto simp: set_step_ids)
qed

lemma topological_start:
  assumes "m_steps m = by_id ss" and "distinct (step_ids ss)" and "topological_order ss (verified @ i # todo)"
    and "i \<in> set (step_ids ss)" and "\<forall>j \<in> set verified. m_states m j = Some Verified" and "m_states m i = Some Pending"
  shows "start i m = (Inr (), set_state i Executing m)"
proof -
  obtain s where s: "s \<in> set ss" "i = step_id s" using assms(4) by (auto simp: set_step_ids)
  have "length verified < length (verified @ i # todo)" "step_id s = (verified @ i # todo) ! length verified"
    "take (length verified) (verified @ i # todo) = verified" using s by simp_all
  then have "set (dependencies s) \<subseteq> set verified"
    using assms(3) s(1) unfolding topological_order_def by metis
  then show ?thesis using s assms by (auto simp: start_ok_iff by_id_Some)
qed

lemma run_in_order_ok:
  assumes "m_steps m = by_id ss" and dist: "distinct (step_ids ss)"
    and "topological_order ss (verified @ todo)" and "distinct (verified @ todo)"
    and "set todo \<subseteq> set (step_ids ss)"
    and "\<forall>i \<in> set verified. m_states m i = Some Verified" and "\<forall>i \<in> set todo. m_states m i = Some Pending"
  shows "\<exists>m'. run_in_order todo m = (Inr (), m') \<and> (\<forall>i \<in> set verified \<union> set todo. m_states m' i = Some Verified)"
  using assms
proof (induction todo arbitrary: m verified)
  case Nil
  then show ?case by (simp add: run_in_order_def ret_def)
next
  case (Cons i todo)
  have st: "start i m = (Inr (), set_state i Executing m)"
    by (rule topological_start [OF Cons.prems(1-3)]) (use Cons.prems in auto)
  have ve: "verify i (set_state i Executing m) = (Inr (), set_state i Verified (set_state i Executing m))"
    by (simp add: verify_ok_iff)
  let ?m = "set_state i Verified (set_state i Executing m)"
  have "\<exists>m'. run_in_order todo ?m = (Inr (), m') \<and>
      (\<forall>j \<in> set (verified @ [i]) \<union> set todo. m_states m' j = Some Verified)"
    by (rule Cons.IH) (use Cons.prems in auto)
  then show ?case using run_in_order_Cons [OF st ve] by auto
qed

text \<open>
  C31. For an accepted plan, starting and verifying the steps in the validator's topology never
  raises \<open>DependencyBlocked\<close> and ends with every step of the plan verified.
\<close>

theorem valid_topology_never_blocks:
  assumes "valid (validate_dag sha d)"
  shows "\<exists>m. run_in_order (topology (validate_dag sha d)) (new_machine d) = (Inr (), m) \<and>
     (\<forall>s \<in> set (steps d). m_states m (step_id s) = Some Verified)"
proof -
  let ?t = "topology (validate_dag sha d)"
  have dist: "distinct (step_ids (steps d))"
    using validate_dag_contract_dest [OF assms] by (simp add: plan_contract_def well_scoped_def)
  have mset: "mset ?t = mset (step_ids (steps d))" and ord: "topological_order (steps d) ?t"
    using valid_topology_facts [OF assms] by auto
  have set: "set ?t = set (step_ids (steps d))" and dt: "distinct ?t"
    using mset dist by (metis mset_eq_setD, metis mset_eq_imp_distinct_iff)
  have "m_states (new_machine d) i = Some Pending" if "i \<in> set (step_ids (steps d))" for i
    using new_machine_all_pending [OF dist that] .
  then have "\<exists>m. run_in_order ?t (new_machine d) = (Inr (), m) \<and>
      (\<forall>i \<in> set [] \<union> set ?t. m_states m i = Some Verified)"
    by (intro run_in_order_ok [of _ "steps d"]) (use dist ord dt set in \<open>auto simp: new_machine_def\<close>)
  then show ?thesis using set by (auto simp: set_step_ids)
qed

theorem valid_topology_never_blocks_witness:
  "\<exists>m. run_in_order (topology (validate_dag (\<lambda>s. s) mover_dag)) (new_machine mover_dag) = (Inr (), m) \<and>
     m_states m ''s90_finalize'' = Some Verified"
  using valid_topology_never_blocks [OF mover_leaver_valid(1), of "\<lambda>s. s"]
  by (auto simp: mover_dag_def mover_steps_def mk_step_def)

lemma mover_start:
  "start ''s10_transfer'' (new_machine mover_dag) = (Inr (), set_state ''s10_transfer'' Executing (new_machine mover_dag))"
  by (simp add: start_def new_machine_def by_id_def dict_of_def mover_dag_def mover_steps_def mk_step_def set_state_def)

theorem machine_runs_after_dependencies_witness:
  "m_states (set_state ''s20_close'' Executing (set_state ''s10_transfer'' Verified
     (set_state ''s10_transfer'' Executing (new_machine mover_dag)))) ''s10_transfer'' = Some Verified"
proof -
  let ?m0 = "new_machine mover_dag" and ?m1 = "set_state ''s10_transfer'' Executing (new_machine mover_dag)"
  let ?m2 = "set_state ''s10_transfer'' Verified (set_state ''s10_transfer'' Executing (new_machine mover_dag))"
  let ?m3 = "set_state ''s20_close'' Executing (set_state ''s10_transfer'' Verified
     (set_state ''s10_transfer'' Executing (new_machine mover_dag)))"
  let ?s = "mover_steps ! 1"
  have step: "m_steps ?m3 ''s20_close'' = Some ?s" "''s10_transfer'' \<in> set (dependencies ?s)"
    by (simp_all add: new_machine_def by_id_def dict_of_def mover_dag_def mover_steps_def mk_step_def)
  have ve: "verify ''s10_transfer'' ?m1 = (Inr (), ?m2)" by (simp add: verify_ok_iff)
  have st: "start ''s20_close'' ?m2 = (Inr (), ?m3)"
    by (simp add: start_ok_iff new_machine_def by_id_def dict_of_def mover_dag_def mover_steps_def mk_step_def)
  have "reachable (\<lambda>m. m = ?m0) machine_move ?m3"
    by (rule reach_move, rule reach_move, rule reach_move, rule reach_start, rule refl,
        rule move_start [OF mover_start], rule move_verify [OF ve], rule move_start [OF st])
  then show ?thesis
    by (rule machine_runs_after_dependencies [OF _ step(1) _ step(2) rtranclp.rtrancl_refl]) simp
qed

end
