(* ===== verification/Budget.thy ===== *)
theory Budget
  imports Prelude
begin

section \<open>The total budget ledger\<close>

text \<open>
  \<open>apps/planning_agent/src/flowpilot_planning_agent/budget.py\<close>: \<open>TotalBudgetLedger\<close>, the only
  accounting object of a run. Every charge reads the clock, adds to counters and raises
  \<open>BudgetExceeded\<close> when one passes its limit; the counters stay added after a raise. The fields of
  \<open>_Counters\<close> and of \<open>TotalBudget\<close> are names of a datatype, a counter or budget object is a
  function from the names to integers, and the clock is a sequence of readings.
\<close>

datatype counter =
    PlanGenerations | PlanNodes | PlanEdges | PlanDepth | PlanSerializedBytes
  | ToolMatches | ToolRejections | VerifierCalls | VerifierProbes | ExecutedSteps | BlockedSteps
  | WorkerActions | ModelCalls | Switches | RouteDecisions | DomObservations | DomObservationBytes
  | CompressedDomBytes | Images | ImageBytes | ImagePixels | CaptureMs | InputTokens | OutputTokens
  | PlanningInputTokens | PlanningOutputTokens | VerifierInputTokens | VerifierOutputTokens
  | CostMicrousd | PlanningCostMicrousd | VerifierCostMicrousd
  | ContextAssemblies | ContextItems | ContextBytes | ContextTokens
  | RetrievalQueries | RetrievalCandidates | RetrievalSelected
  | SummaryInputs | SummaryOutputs | SummaryDropped
  | MemoryReads | MemoryWrites | MemoryDeletes | MemoryRejections

text \<open>The limit on a counter, where \<open>TotalBudget\<close> has one.\<close>

definition limited :: "counter \<Rightarrow> bool" where
  "limited c = (c \<notin> {PlanNodes, PlanEdges, PlanDepth, PlanSerializedBytes, RouteDecisions})"

datatype budget_reason =
    TimeBudgetExhausted | PlanGenerationBudgetExhausted | ToolMatchBudgetExhausted
  | ToolRejectionBudgetExhausted | VerifierBudgetExhausted | VerifierProbeBudgetExhausted
  | ExecutedStepBudgetExhausted | BlockedStepBudgetExhausted | ActionBudgetExhausted
  | ModelCallBudgetExhausted | DomObservationBudgetExhausted | DomByteBudgetExhausted
  | CompressedDomBudgetExhausted | InputTokenBudgetExhausted | OutputTokenBudgetExhausted
  | CostBudgetExhausted | ContextAssemblyBudgetExhausted | ContextItemBudgetExhausted
  | ContextByteBudgetExhausted | ContextTokenBudgetExhausted | RetrievalBudgetExhausted
  | SummaryBudgetExhausted | MemoryBudgetExhausted

primrec budget_reason_name :: "budget_reason \<Rightarrow> string" where
  "budget_reason_name TimeBudgetExhausted = ''time_budget_exhausted''"
| "budget_reason_name PlanGenerationBudgetExhausted = ''plan_generation_budget_exhausted''"
| "budget_reason_name ToolMatchBudgetExhausted = ''tool_match_budget_exhausted''"
| "budget_reason_name ToolRejectionBudgetExhausted = ''tool_rejection_budget_exhausted''"
| "budget_reason_name VerifierBudgetExhausted = ''verifier_budget_exhausted''"
| "budget_reason_name VerifierProbeBudgetExhausted = ''verifier_probe_budget_exhausted''"
| "budget_reason_name ExecutedStepBudgetExhausted = ''executed_step_budget_exhausted''"
| "budget_reason_name BlockedStepBudgetExhausted = ''blocked_step_budget_exhausted''"
| "budget_reason_name ActionBudgetExhausted = ''action_budget_exhausted''"
| "budget_reason_name ModelCallBudgetExhausted = ''model_call_budget_exhausted''"
| "budget_reason_name DomObservationBudgetExhausted = ''dom_observation_budget_exhausted''"
| "budget_reason_name DomByteBudgetExhausted = ''dom_byte_budget_exhausted''"
| "budget_reason_name CompressedDomBudgetExhausted = ''compressed_dom_budget_exhausted''"
| "budget_reason_name InputTokenBudgetExhausted = ''input_token_budget_exhausted''"
| "budget_reason_name OutputTokenBudgetExhausted = ''output_token_budget_exhausted''"
| "budget_reason_name CostBudgetExhausted = ''cost_budget_exhausted''"
| "budget_reason_name ContextAssemblyBudgetExhausted = ''context_assembly_budget_exhausted''"
| "budget_reason_name ContextItemBudgetExhausted = ''context_item_budget_exhausted''"
| "budget_reason_name ContextByteBudgetExhausted = ''context_byte_budget_exhausted''"
| "budget_reason_name ContextTokenBudgetExhausted = ''context_token_budget_exhausted''"
| "budget_reason_name RetrievalBudgetExhausted = ''retrieval_budget_exhausted''"
| "budget_reason_name SummaryBudgetExhausted = ''summary_budget_exhausted''"
| "budget_reason_name MemoryBudgetExhausted = ''memory_budget_exhausted''"

record total_budget =
  max_of :: "counter \<Rightarrow> int"
  max_duration_seconds :: int

text \<open>The upper bound of each field of \<open>TotalBudget\<close> (its default too, but for the two cost kinds).\<close>

primrec field_le :: "counter \<Rightarrow> int" where
  "field_le PlanGenerations = 1"
| "field_le ToolMatches = 64"
| "field_le ToolRejections = 16"
| "field_le VerifierCalls = 16"
| "field_le VerifierProbes = 16"
| "field_le ExecutedSteps = 16"
| "field_le BlockedSteps = 16"
| "field_le WorkerActions = 24"
| "field_le ModelCalls = 24"
| "field_le Switches = 2"
| "field_le DomObservations = 24"
| "field_le DomObservationBytes = 262144"
| "field_le CompressedDomBytes = 147456"
| "field_le Images = 24"
| "field_le ImageBytes = 4423680"
| "field_le ImagePixels = 12441600"
| "field_le CaptureMs = 72000"
| "field_le InputTokens = 100000"
| "field_le OutputTokens = 20000"
| "field_le PlanningInputTokens = 100000"
| "field_le PlanningOutputTokens = 20000"
| "field_le VerifierInputTokens = 100000"
| "field_le VerifierOutputTokens = 20000"
| "field_le CostMicrousd = 1000000"
| "field_le PlanningCostMicrousd = 1000000"
| "field_le VerifierCostMicrousd = 1000000"
| "field_le ContextAssemblies = 1"
| "field_le ContextItems = 32"
| "field_le ContextBytes = 16384"
| "field_le ContextTokens = 4096"
| "field_le RetrievalQueries = 1"
| "field_le RetrievalCandidates = 6"
| "field_le RetrievalSelected = 3"
| "field_le SummaryInputs = 12"
| "field_le SummaryOutputs = 8"
| "field_le SummaryDropped = 12"
| "field_le MemoryReads = 6"
| "field_le MemoryWrites = 6"
| "field_le MemoryDeletes = 6"
| "field_le MemoryRejections = 6"
| "field_le PlanNodes = 0"
| "field_le PlanEdges = 0"
| "field_le PlanDepth = 0"
| "field_le PlanSerializedBytes = 0"
| "field_le RouteDecisions = 0"

text \<open>The fields that may be zero; the others have \<open>ge=1\<close>.\<close>

definition field_ge :: "counter \<Rightarrow> int" where
  "field_ge c = (if c \<in> {ToolRejections, Switches, CostMicrousd, PlanningCostMicrousd, VerifierCostMicrousd,
       RetrievalQueries, RetrievalCandidates, RetrievalSelected, SummaryInputs, SummaryOutputs,
       SummaryDropped, MemoryReads, MemoryWrites, MemoryDeletes, MemoryRejections} then 0 else 1)"

definition total_budget_ok :: "total_budget \<Rightarrow> bool" where
  "total_budget_ok b \<longleftrightarrow>
     (\<forall>c. limited c \<longrightarrow> field_ge c \<le> max_of b c \<and> max_of b c \<le> field_le c) \<and>
     1 \<le> max_duration_seconds b \<and> max_duration_seconds b \<le> 300"

definition default_budget :: total_budget where
  "default_budget = \<lparr>max_of = field_le(CostMicrousd := 0, PlanningCostMicrousd := 0, VerifierCostMicrousd := 0),
     max_duration_seconds = 300\<rparr>"

record ledger =
  budget :: total_budget
  clock :: "nat \<Rightarrow> rat"
  readings :: nat
  started :: rat
  counters :: "counter \<Rightarrow> int"

definition new_ledger :: "total_budget \<Rightarrow> (nat \<Rightarrow> rat) \<Rightarrow> ledger" where
  "new_ledger b clk = \<lparr>budget = b, clock = clk, readings = 1, started = clk 0, counters = (\<lambda>_. 0)\<rparr>"

type_synonym 'a charging = "(ledger, budget_reason, 'a) meth"

subsection \<open>The statements of a charge\<close>

definition check_time :: "unit charging" where
  "check_time l =
     (let t = clock l (readings l); l' = l\<lparr>readings := readings l + 1\<rparr>
      in if of_int (max_duration_seconds (budget l)) < t - started l then (Inl TimeBudgetExhausted, l')
         else (Inr (), l'))"

definition bump :: "counter \<Rightarrow> int \<Rightarrow> unit charging" where
  "bump c n = modify (\<lambda>l. l\<lparr>counters := (counters l)(c := counters l c + n)\<rparr>)"

definition put :: "counter \<Rightarrow> int \<Rightarrow> unit charging" where
  "put c n = modify (\<lambda>l. l\<lparr>counters := (counters l)(c := n)\<rparr>)"

definition exceeds :: "counter \<Rightarrow> ledger \<Rightarrow> bool" where
  "exceeds c l = (max_of (budget l) c < counters l c)"

text \<open>\<open>if a > max_a or b > max_b ...: raise BudgetExceeded(reason)\<close>\<close>

definition limit :: "counter list \<Rightarrow> budget_reason \<Rightarrow> unit charging" where
  "limit cs r = raise_if (\<lambda>l. list_ex (\<lambda>c. exceeds c l) cs) r"

definition check_model_and_tokens :: "unit charging" where
  "check_model_and_tokens = in_order [
     limit [ModelCalls] ModelCallBudgetExhausted,
     limit [InputTokens, PlanningInputTokens, VerifierInputTokens] InputTokenBudgetExhausted,
     limit [OutputTokens, PlanningOutputTokens, VerifierOutputTokens] OutputTokenBudgetExhausted,
     limit [CostMicrousd, PlanningCostMicrousd, VerifierCostMicrousd] CostBudgetExhausted]"

subsection \<open>The charges\<close>

definition charge_plan :: "int \<Rightarrow> int \<Rightarrow> int \<Rightarrow> int \<Rightarrow> unit charging" where
  "charge_plan nodes edges dep bytes = in_order [
     check_time,
     bump PlanGenerations 1,
     bump ModelCalls 1,
     put PlanNodes nodes,
     put PlanEdges edges,
     put PlanDepth dep,
     put PlanSerializedBytes bytes,
     bump PlanningInputTokens 32,
     bump PlanningOutputTokens 16,
     bump InputTokens 32,
     bump OutputTokens 16,
     limit [PlanGenerations] PlanGenerationBudgetExhausted,
     check_model_and_tokens]"

definition charge_tool_match :: "bool \<Rightarrow> unit charging" where
  "charge_tool_match rejected = in_order ([
     check_time,
     bump ToolMatches 1,
     limit [ToolMatches] ToolMatchBudgetExhausted] @
     (if rejected then [bump ToolRejections 1, limit [ToolRejections] ToolRejectionBudgetExhausted] else []))"

definition charge_verifier :: "bool \<Rightarrow> unit charging" where
  "charge_verifier probe = in_order ([
     check_time,
     bump VerifierCalls 1,
     bump ModelCalls 1,
     bump VerifierInputTokens 8,
     bump VerifierOutputTokens 4,
     bump InputTokens 8,
     bump OutputTokens 4] @
     (if probe then [bump VerifierProbes 1] else []) @ [
     limit [VerifierCalls] VerifierBudgetExhausted,
     limit [VerifierProbes] VerifierProbeBudgetExhausted,
     check_model_and_tokens])"

definition charge_step :: "bool \<Rightarrow> unit charging" where
  "charge_step blocked = in_order (check_time #
     (if blocked then [bump BlockedSteps 1, limit [BlockedSteps] BlockedStepBudgetExhausted]
      else [bump ExecutedSteps 1, limit [ExecutedSteps] ExecutedStepBudgetExhausted]))"

definition charge_action :: "unit charging" where
  "charge_action = in_order [check_time, bump WorkerActions 1, limit [WorkerActions] ActionBudgetExhausted]"

definition charge_dom_observation :: "int \<Rightarrow> unit charging" where
  "charge_dom_observation raw_bytes = in_order [
     check_time,
     bump DomObservations 1,
     bump DomObservationBytes raw_bytes,
     bump CompressedDomBytes (min raw_bytes 6144),
     bump RouteDecisions 1,
     limit [DomObservations] DomObservationBudgetExhausted,
     limit [DomObservationBytes] DomByteBudgetExhausted,
     limit [CompressedDomBytes] CompressedDomBudgetExhausted]"

definition charge_context_assembly :: "unit charging" where
  "charge_context_assembly = in_order [
     check_time, bump ContextAssemblies 1, limit [ContextAssemblies] ContextAssemblyBudgetExhausted]"

definition charge_context_item :: "int \<Rightarrow> int \<Rightarrow> unit charging" where
  "charge_context_item canonical_bytes estimated_tokens = in_order [
     check_time,
     bump ContextItems 1,
     bump ContextBytes canonical_bytes,
     bump ContextTokens estimated_tokens,
     limit [ContextItems] ContextItemBudgetExhausted,
     limit [ContextBytes] ContextByteBudgetExhausted,
     limit [ContextTokens] ContextTokenBudgetExhausted]"

definition charge_retrieval :: "int \<Rightarrow> int \<Rightarrow> unit charging" where
  "charge_retrieval candidates selected = in_order [
     check_time,
     bump RetrievalQueries 1,
     bump RetrievalCandidates candidates,
     bump RetrievalSelected selected,
     limit [RetrievalQueries, RetrievalCandidates, RetrievalSelected] RetrievalBudgetExhausted]"

definition charge_summary :: "int \<Rightarrow> int \<Rightarrow> int \<Rightarrow> unit charging" where
  "charge_summary inputs outputs dropped = in_order [
     check_time,
     bump SummaryInputs inputs,
     bump SummaryOutputs outputs,
     bump SummaryDropped dropped,
     limit [SummaryInputs, SummaryOutputs, SummaryDropped] SummaryBudgetExhausted]"

definition charge_memory :: "int \<Rightarrow> int \<Rightarrow> int \<Rightarrow> int \<Rightarrow> unit charging" where
  "charge_memory reads writes deletes rejections = in_order [
     check_time,
     bump MemoryReads reads,
     bump MemoryWrites writes,
     bump MemoryDeletes deletes,
     bump MemoryRejections rejections,
     limit [MemoryReads, MemoryWrites, MemoryDeletes, MemoryRejections] MemoryBudgetExhausted]"

text \<open>\<open>try: self.check_time() except BudgetExceeded: return False\<close>, then the action count.\<close>

definition can_execute_action :: "ledger \<Rightarrow> bool \<times> ledger" where
  "can_execute_action l = (case check_time l of
       (Inl _, l') \<Rightarrow> (False, l')
     | (Inr _, l') \<Rightarrow> (counters l' WorkerActions < max_of (budget l') WorkerActions, l'))"

record total_usage =
  usage_of :: "counter \<Rightarrow> int"
  elapsed_ms :: int

text \<open>\<open>int(x)\<close> truncates, but below zero \<open>max(0, int(x))\<close> is 0 as it is with the floor.\<close>

definition snapshot :: "ledger \<Rightarrow> total_usage \<times> ledger" where
  "snapshot l =
     (\<lparr>usage_of = counters l, elapsed_ms = max 0 \<lfloor>(clock l (readings l) - started l) * 1000\<rfloor>\<rparr>,
      l\<lparr>readings := readings l + 1\<rparr>)"

subsection \<open>Every charge, and what it costs\<close>

datatype charge =
    Plan int int int int | ToolMatch bool | Verifier bool | Step bool | Action | DomObservation int
  | ContextAssembly | ContextItem int int | Retrieval int int | Summary int int int
  | Memory int int int int

fun apply_charge :: "charge \<Rightarrow> unit charging" where
  "apply_charge (Plan nodes edges dep bytes) = charge_plan nodes edges dep bytes"
| "apply_charge (ToolMatch rejected) = charge_tool_match rejected"
| "apply_charge (Verifier probe) = charge_verifier probe"
| "apply_charge (Step blocked) = charge_step blocked"
| "apply_charge Action = charge_action"
| "apply_charge (DomObservation raw) = charge_dom_observation raw"
| "apply_charge ContextAssembly = charge_context_assembly"
| "apply_charge (ContextItem bytes tokens) = charge_context_item bytes tokens"
| "apply_charge (Retrieval candidates selected) = charge_retrieval candidates selected"
| "apply_charge (Summary inputs outputs dropped) = charge_summary inputs outputs dropped"
| "apply_charge (Memory reads writes deletes rejections) = charge_memory reads writes deletes rejections"

text \<open>The abstract price list: what a charge adds to the limited counters.\<close>

fun price :: "charge \<Rightarrow> (counter \<times> int) list" where
  "price (Plan _ _ _ _) = [(PlanGenerations, 1), (ModelCalls, 1), (PlanningInputTokens, 32),
     (PlanningOutputTokens, 16), (InputTokens, 32), (OutputTokens, 16)]"
| "price (ToolMatch rejected) = (ToolMatches, 1) # (if rejected then [(ToolRejections, 1)] else [])"
| "price (Verifier probe) = [(VerifierCalls, 1), (ModelCalls, 1), (VerifierInputTokens, 8),
     (VerifierOutputTokens, 4), (InputTokens, 8), (OutputTokens, 4)] @ (if probe then [(VerifierProbes, 1)] else [])"
| "price (Step blocked) = [(if blocked then BlockedSteps else ExecutedSteps, 1)]"
| "price Action = [(WorkerActions, 1)]"
| "price (DomObservation raw) = [(DomObservations, 1), (DomObservationBytes, raw), (CompressedDomBytes, min raw 6144)]"
| "price ContextAssembly = [(ContextAssemblies, 1)]"
| "price (ContextItem bytes tokens) = [(ContextItems, 1), (ContextBytes, bytes), (ContextTokens, tokens)]"
| "price (Retrieval candidates selected) = [(RetrievalQueries, 1), (RetrievalCandidates, candidates),
     (RetrievalSelected, selected)]"
| "price (Summary inputs outputs dropped) = [(SummaryInputs, inputs), (SummaryOutputs, outputs), (SummaryDropped, dropped)]"
| "price (Memory reads writes deletes rejections) = [(MemoryReads, reads), (MemoryWrites, writes),
     (MemoryDeletes, deletes), (MemoryRejections, rejections)]"

definition cost :: "charge \<Rightarrow> counter \<Rightarrow> int" where
  "cost ch c = (case map_of (price ch) c of None \<Rightarrow> 0 | Some n \<Rightarrow> n)"

definition within_budget :: "ledger \<Rightarrow> bool" where
  "within_budget l \<longleftrightarrow> (\<forall>c. limited c \<longrightarrow> counters l c \<le> max_of (budget l) c)"

definition affordable :: "ledger \<Rightarrow> charge \<Rightarrow> bool" where
  "affordable l ch \<longleftrightarrow> (\<forall>c. limited c \<longrightarrow> counters l c + cost ch c \<le> max_of (budget l) c)"

definition in_time :: "ledger \<Rightarrow> bool" where
  "in_time l \<longleftrightarrow> clock l (readings l) - started l \<le> of_int (max_duration_seconds (budget l))"

lemma affordable_price:
  assumes "within_budget l"
  shows "affordable l ch \<longleftrightarrow> (\<forall>(c, n) \<in> set (price ch). limited c \<longrightarrow> counters l c + cost ch c \<le> max_of (budget l) c)"
proof -
  have "cost ch c = 0" if "c \<notin> fst ` set (price ch)" for c
    using that by (simp add: cost_def map_of_eq_None_iff [THEN iffD2])
  then show ?thesis using assms
    unfolding affordable_def within_budget_def by (force simp: image_iff)
qed

subsection \<open>What the statements leave alone\<close>

definition same_run :: "ledger \<Rightarrow> ledger \<Rightarrow> bool" where
  "same_run l l' \<longleftrightarrow> budget l' = budget l \<and> clock l' = clock l \<and> started l' = started l"

lemma statement_same_run [simp]:
  "keeps (same_run l0) check_time" "keeps (same_run l0) (bump c n)"
  "keeps (same_run l0) (put c n)" "keeps (same_run l0) (limit cs r)"
  by (auto simp: keeps_def same_run_def check_time_def bump_def put_def limit_def meth_defs Let_def)

lemma check_model_same_run [simp]: "keeps (same_run l0) check_model_and_tokens"
  unfolding check_model_and_tokens_def by (rule keeps_in_order) simp

lemmas charge_defs = charge_plan_def charge_tool_match_def charge_verifier_def charge_step_def
  charge_action_def charge_dom_observation_def charge_context_assembly_def charge_context_item_def
  charge_retrieval_def charge_summary_def charge_memory_def

lemma keeps_same_run: "keeps (same_run l0) (apply_charge ch)"
  by (cases ch) (auto simp: charge_defs intro!: keeps_andthen)

lemma charge_same_run: "same_run l (snd (apply_charge ch l))"
  by (rule keepsD [OF keeps_same_run]) (simp add: same_run_def)

subsection \<open>Running a body\<close>

lemma run_bump [simp]: "in_order (bump c n # ms) l = in_order ms (l\<lparr>counters := (counters l)(c := counters l c + n)\<rparr>)"
  and run_put [simp]: "in_order (put c n # ms) l = in_order ms (l\<lparr>counters := (counters l)(c := n)\<rparr>)"
  and run_limit [simp]: "in_order (limit cs r # ms) l = (if list_ex (\<lambda>c. exceeds c l) cs then (Inl r, l) else in_order ms l)"
  and run_check_time [simp]: "in_order (check_time # ms) l =
     (if in_time l then in_order ms (l\<lparr>readings := readings l + 1\<rparr>)
      else (Inl TimeBudgetExhausted, l\<lparr>readings := readings l + 1\<rparr>))"
  and run_end [simp]: "in_order [] l = (Inr (), l)"
  by (auto simp: bump_def put_def limit_def check_time_def in_time_def meth_defs Let_def)

lemma in_order_nested: "in_order (in_order ms # ns) l = in_order (ms @ ns) l"
proof (induction ms arbitrary: l)
  case (Cons m ms)
  show ?case
  proof (cases "m l")
    case (Pair r l')
    then show ?thesis using Cons [of l'] by (cases r) (simp_all add: andthen_def)
  qed
qed (simp add: andthen_def ret_def)

lemma run_model_and_tokens [simp]: "in_order (check_model_and_tokens # ms) l =
   in_order ([limit [ModelCalls] ModelCallBudgetExhausted,
     limit [InputTokens, PlanningInputTokens, VerifierInputTokens] InputTokenBudgetExhausted,
     limit [OutputTokens, PlanningOutputTokens, VerifierOutputTokens] OutputTokenBudgetExhausted,
     limit [CostMicrousd, PlanningCostMicrousd, VerifierCostMicrousd] CostBudgetExhausted] @ ms) l"
  unfolding check_model_and_tokens_def by (rule in_order_nested)

text \<open>What a charge does, against the price list.\<close>

definition charge_sound :: "charge \<Rightarrow> ledger \<Rightarrow> bool" where
  "charge_sound ch l \<longleftrightarrow> (case apply_charge ch l of
     (Inr _, l') \<Rightarrow> in_time l \<and> affordable l ch \<and> (\<forall>c. limited c \<longrightarrow> counters l' c = counters l c + cost ch c)
   | (Inl r, l') \<Rightarrow> \<not> (in_time l \<and> affordable l ch) \<and> (r = TimeBudgetExhausted \<longleftrightarrow> \<not> in_time l))"

lemma within_budget_le: "within_budget l \<Longrightarrow> limited c \<Longrightarrow> counters l c \<le> max_of (budget l) c"
  by (simp add: within_budget_def)

lemmas charge_eval = charge_sound_def affordable_price charge_defs exceeds_def cost_def limited_def

lemma sound_Plan: "within_budget l \<Longrightarrow> charge_sound (Plan a b c d) l"
  using within_budget_le [of l CostMicrousd] within_budget_le [of l PlanningCostMicrousd]
    within_budget_le [of l VerifierCostMicrousd] within_budget_le [of l VerifierInputTokens]
    within_budget_le [of l VerifierOutputTokens]
  by (simp add: charge_eval del: in_order.simps)

lemma sound_Verifier: "within_budget l \<Longrightarrow> charge_sound (Verifier p) l"
  using within_budget_le [of l CostMicrousd] within_budget_le [of l PlanningCostMicrousd]
    within_budget_le [of l VerifierCostMicrousd] within_budget_le [of l PlanningInputTokens]
    within_budget_le [of l PlanningOutputTokens] within_budget_le [of l VerifierProbes]
  by (cases p) (simp_all add: charge_eval del: in_order.simps)

lemma sound_ToolMatch: "within_budget l \<Longrightarrow> charge_sound (ToolMatch p) l"
  and sound_Step: "within_budget l \<Longrightarrow> charge_sound (Step p) l"
  by (cases p; simp add: charge_eval del: in_order.simps)+

lemma sound_others: assumes "within_budget l" shows "charge_sound Action l" "charge_sound (DomObservation n) l"
  "charge_sound ContextAssembly l" "charge_sound (ContextItem n m) l" "charge_sound (Retrieval n m) l"
  "charge_sound (Summary n m k) l" "charge_sound (Memory n m k j) l"
  using assms by (simp_all add: charge_eval del: in_order.simps)

lemma charge_sound: "within_budget l \<Longrightarrow> charge_sound ch l"
  by (cases ch) (simp_all add: sound_Plan sound_Verifier sound_ToolMatch sound_Step sound_others)

subsection \<open>The ledger as a meter\<close>

text \<open>
  What the rest of the agent relies on: a charge that returns has moved every metered quantity by its
  price and left it at most its cap, and the caps never change.
\<close>

locale meter =
  fixes apply_one :: "'c \<Rightarrow> ('s, 'e, unit) meth"
    and fit :: "'s \<Rightarrow> bool"
    and used :: "'s \<Rightarrow> 'k \<Rightarrow> int"
    and cap :: "'s \<Rightarrow> 'k \<Rightarrow> int"
    and price_of :: "'c \<Rightarrow> 'k \<Rightarrow> int"
  assumes charged: "fit s \<Longrightarrow> apply_one c s = (Inr (), s') \<Longrightarrow>
      fit s' \<and> used s' k = used s k + price_of c k \<and> cap s' = cap s"
    and fit_cap: "fit s \<Longrightarrow> used s k \<le> cap s k"
begin

lemma charges_total:
  assumes "fit s" and "in_order (map apply_one cs) s = (Inr (), s')"
  shows "fit s' \<and> used s' k = used s k + sum_list (map (\<lambda>c. price_of c k) cs) \<and> cap s' = cap s"
  using assms
proof (induction cs arbitrary: s)
  case Nil then show ?case by (simp add: ret_def)
next
  case (Cons c cs)
  then obtain s1 where 1: "apply_one c s = (Inr (), s1)" "in_order (map apply_one cs) s1 = (Inr (), s')"
    by (auto simp: andthen_def split: prod.splits sum.splits)
  from charged [OF Cons.prems(1) 1(1), of k] Cons.IH [OF _ 1(2)] show ?case by auto
qed

lemma charges_capped:
  assumes "fit s" and "in_order (map apply_one cs) s = (Inr (), s')"
  shows "used s k + sum_list (map (\<lambda>c. price_of c k) cs) \<le> cap s k"
  using charges_total [OF assms, of k] fit_cap [of s' k] by (metis)

end

lemma charge_success:
  assumes "within_budget l" and "apply_charge ch l = (Inr (), l')"
  shows "in_time l \<and> within_budget l' \<and> budget l' = budget l \<and>
    (\<forall>c. limited c \<longrightarrow> counters l' c = counters l c + cost ch c)"
proof -
  from charge_sound [OF assms(1), of ch] assms(2)
  have 1: "in_time l" "affordable l ch" "\<forall>c. limited c \<longrightarrow> counters l' c = counters l c + cost ch c"
    by (simp_all add: charge_sound_def)
  have "budget l' = budget l" using charge_same_run [of l ch] assms(2) by (simp add: same_run_def)
  with 1 show ?thesis by (simp add: within_budget_def affordable_def)
qed

text \<open>The metered quantity of a counter without a limit is constantly 0.\<close>

definition metered :: "(counter \<Rightarrow> int) \<Rightarrow> counter \<Rightarrow> int" where
  "metered f c = (if limited c then f c else 0)"

interpretation ledger_meter: meter apply_charge within_budget "\<lambda>l. metered (counters l)"
    "\<lambda>l. metered (max_of (budget l))" "\<lambda>ch. metered (cost ch)"
proof
  show "within_budget s' \<and> metered (counters s') k = metered (counters s) k + metered (cost c) k \<and>
      metered (max_of (budget s')) = metered (max_of (budget s))"
    if "within_budget s" "apply_charge c s = (Inr (), s')" for s c s' k
    using charge_success [OF that] by (simp add: metered_def fun_eq_iff)
  show "metered (counters s) k \<le> metered (max_of (budget s)) k" if "within_budget s" for s k
    using that by (simp add: metered_def within_budget_def)
qed

lemma new_ledger_within: "total_budget_ok b \<Longrightarrow> within_budget (new_ledger b clk)"
  unfolding total_budget_ok_def within_budget_def new_ledger_def field_ge_def
  by (auto split: if_splits)

lemma default_budget_ok: "total_budget_ok default_budget"
  unfolding total_budget_ok_def
proof (intro conjI allI impI)
  fix c assume "limited c"
  then show "field_ge c \<le> max_of default_budget c" and "max_of default_budget c \<le> field_le c"
    by (cases c; simp add: limited_def field_ge_def default_budget_def)+
qed (simp_all add: default_budget_def)

lemma run_within_budget:
  assumes "total_budget_ok b" and "in_order (map apply_charge chs) (new_ledger b clk) = (Inr (), l)"
    and "limited c"
  shows "counters l c = sum_list (map (\<lambda>ch. cost ch c) chs) \<and> sum_list (map (\<lambda>ch. cost ch c) chs) \<le> max_of b c"
  using ledger_meter.charges_total [OF new_ledger_within [OF assms(1)] assms(2), of c]
    ledger_meter.charges_capped [OF new_ledger_within [OF assms(1)] assms(2), of c] assms(3)
  by (simp add: metered_def new_ledger_def)

lemma expired_charge:
  "\<not> in_time l \<Longrightarrow> apply_charge ch l = (Inl TimeBudgetExhausted, l\<lparr>readings := readings l + 1\<rparr>)"
  by (cases ch) (auto simp: charge_defs simp del: in_order.simps)

lemma expired_stays:
  "mono (clock l) \<Longrightarrow> \<not> in_time l \<Longrightarrow> \<not> in_time (l\<lparr>readings := readings l + 1\<rparr>)"
  unfolding in_time_def by (auto simp: not_le dest!: monoD [where x = "readings l" and y = "Suc (readings l)"])

definition attempts :: "charge list \<Rightarrow> ledger \<Rightarrow> ledger" where
  "attempts chs l = fold (\<lambda>ch l. snd (apply_charge ch l)) chs l"

lemma expired_attempts:
  "mono (clock l) \<Longrightarrow> \<not> in_time l \<Longrightarrow>
   \<not> in_time (attempts chs l) \<and> counters (attempts chs l) = counters l"
proof (induction chs arbitrary: l)
  case (Cons ch chs)
  show ?case
    using Cons.IH [of "l\<lparr>readings := readings l + 1\<rparr>"] Cons.prems expired_charge [of l ch] expired_stays [of l]
    by (simp add: attempts_def)
qed (simp add: attempts_def)

subsection \<open>Properties\<close>

text \<open>
  C24. Within its budget, a charge returns exactly when the run is inside its time limit and every
  limited counter stays at or below its maximum; then each limited counter has grown by the price
  of the charge and the ledger is still within its budget. The reason of a raise is the time limit
  exactly when the time is over.
\<close>

theorem charge_returns_iff_affordable:
  assumes "within_budget l"
  shows "case apply_charge ch l of
      (Inr _, l') \<Rightarrow> in_time l \<and> affordable l ch \<and> within_budget l' \<and>
        (\<forall>c. limited c \<longrightarrow> counters l' c = counters l c + cost ch c)
    | (Inl r, l') \<Rightarrow> \<not> (in_time l \<and> affordable l ch) \<and> (r = TimeBudgetExhausted \<longleftrightarrow> \<not> in_time l)"
proof (cases "apply_charge ch l")
  case (Pair r l')
  show ?thesis
  proof (cases r)
    case (Inr u)
    then show ?thesis
      using charge_sound [OF assms, of ch] charge_success [OF assms, of ch l'] Pair by (simp add: charge_sound_def)
  next
    case (Inl e)
    then show ?thesis using charge_sound [OF assms, of ch] Pair by (simp add: charge_sound_def)
  qed
qed

theorem charge_returns_iff_affordable_witness:
  "fst (apply_charge (Plan 6 7 5 900) (new_ledger default_budget rat_of_nat)) = Inr () \<and>
   affordable (new_ledger default_budget rat_of_nat) (Plan 6 7 5 900)"
proof -
  let ?l = "new_ledger default_budget rat_of_nat" and ?ch = "Plan 6 7 5 900"
  have ok: "fst (apply_charge ?ch ?l) = Inr ()"
    by (simp add: charge_defs exceeds_def new_ledger_def default_budget_def in_time_def del: in_order.simps)
  then obtain l' where "apply_charge ?ch ?l = (Inr (), l')" by (cases "apply_charge ?ch ?l") simp
  with ok charge_returns_iff_affordable [OF new_ledger_within [OF default_budget_ok], of rat_of_nat ?ch]
  show ?thesis by simp
qed

text \<open>
  C25. In a run that starts a ledger on an accepted budget and in which every charge returned, each
  limited counter is exactly the sum of the prices of the charges, and that sum is within the limit.
\<close>

theorem run_never_overspends:
  assumes "total_budget_ok b" and "in_order (map apply_charge chs) (new_ledger b clk) = (Inr (), l)"
    and "limited c"
  shows "counters l c = sum_list (map (\<lambda>ch. cost ch c) chs) \<and> sum_list (map (\<lambda>ch. cost ch c) chs) \<le> max_of b c"
  by (rule run_within_budget [OF assms])

theorem run_never_overspends_witness:
  "counters (snd (in_order (map apply_charge [Action, Verifier True, Action]) (new_ledger default_budget rat_of_nat)))
     WorkerActions = 2"
proof -
  let ?m = "in_order (map apply_charge [Action, Verifier True, Action])" and ?l = "new_ledger default_budget rat_of_nat"
  have "fst (?m ?l) = Inr ()"
    by (simp add: in_order_nested charge_defs exceeds_def new_ledger_def default_budget_def in_time_def del: in_order.simps)
  then have "?m ?l = (Inr (), snd (?m ?l))" by (metis prod.collapse)
  from run_never_overspends [OF default_budget_ok this, of WorkerActions] show ?thesis
    by (simp add: cost_def limited_def)
qed

text \<open>
  On a clock that does not go back, a run whose time is over stays over: whatever is attempted,
  no counter moves again and every further charge raises the time reason.
\<close>

lemma expired_run_is_frozen:
  assumes "mono (clock l)" and "\<not> in_time l"
  shows "counters (attempts chs l) = counters l \<and> fst (apply_charge ch (attempts chs l)) = Inl TimeBudgetExhausted"
  using expired_attempts [OF assms, of chs] expired_charge [of "attempts chs l" ch] by simp

end
