(* ===== verification/Tools.thy ===== *)
theory Tools
  imports PlanTypes Budget
begin

section \<open>The tool matcher and the step verifier\<close>

text \<open>
  \<open>tools.py\<close>: a step may use a tool that is in every one of the global, step, page, modality and
  worker sets, while the action budget lasts. \<open>verifier.py\<close>: the runtime check of a step. Both charge
  the ledger and answer with values, never with the ledger's exception where they catch it.
\<close>

definition GLOBAL_TOOLS :: "allowed_action list" where
  "GLOBAL_TOOLS = [Navigate, Click, Fill, Select, Read, Scroll, Wait, Finish, Fail]"

text \<open>\<open>PAGE_TOOLS\<close> and \<open>MODALITY_TOOLS\<close> map every key to the global tools.\<close>

definition PAGE_TOOLS :: "page \<Rightarrow> allowed_action list" where
  "PAGE_TOOLS p = GLOBAL_TOOLS"

definition MODALITY_TOOLS :: "modality \<Rightarrow> allowed_action list" where
  "MODALITY_TOOLS m = GLOBAL_TOOLS"

definition tool_of :: "string \<Rightarrow> allowed_action option" where
  "tool_of s = find (\<lambda>a. action_name a = s) GLOBAL_TOOLS"

definition reject :: "tool_rejection_reason \<Rightarrow> ledger \<Rightarrow> tool_match_result \<times> ledger" where
  "reject reason l = (case charge_tool_match True l of
       (Inl _, l') \<Rightarrow> (\<lparr>matched = False, match_action = None, rejection_reason = Some ToolBudgetExhausted\<rparr>, l')
     | (Inr _, l') \<Rightarrow> (\<lparr>matched = False, match_action = None, rejection_reason = Some reason\<rparr>, l'))"

text \<open>\<open>DeterministicToolMatcher.match\<close>; its last charge may raise.\<close>

definition match_tool :: "plan_step \<Rightarrow> string \<Rightarrow> page \<Rightarrow> modality \<Rightarrow> allowed_action set
    \<Rightarrow> (ledger, budget_reason, tool_match_result) meth" where
  "match_tool step candidate pg m worker_allowed l =
     (let refuse = (\<lambda>reason l. let (r, l') = reject reason l in (Inr r, l')) in
      case tool_of candidate of None \<Rightarrow> refuse UnknownTool l
      | Some action \<Rightarrow>
         if action \<notin> set (allowed_actions step) then refuse StepDisallowed l
         else if action \<noteq> Navigate \<and> pg \<noteq> expected_page step then refuse PageDisallowed l
         else if action \<notin> set (PAGE_TOOLS pg) then refuse PageDisallowed l
         else if action \<notin> set (MODALITY_TOOLS m) \<or> action \<notin> worker_allowed then refuse ModalityDisallowed l
         else let (can, l1) = can_execute_action l in
           if \<not> can then refuse ToolBudgetExhausted l1
           else case charge_tool_match False l1 of
               (Inl e, l2) \<Rightarrow> (Inl e, l2)
             | (Inr _, l2) \<Rightarrow> (Inr \<lparr>matched = True, match_action = Some action, rejection_reason = None\<rparr>, l2))"

subsection \<open>The verifier\<close>

definition verdict :: "verifier_request \<Rightarrow> verifier_status \<Rightarrow> verifier_reason \<Rightarrow> verifier_result" where
  "verdict r st why = \<lparr>vres_step_id = vr_step_id r, vstatus = st, vreason = why\<rparr>"

definition verify_step :: "verifier_request \<Rightarrow> bool \<Rightarrow> ledger \<Rightarrow> verifier_result \<times> ledger" where
  "verify_step r probe l = (case charge_verifier probe l of
       (Inl _, l') \<Rightarrow> (verdict r VInconclusive VBudgetExhausted, l')
     | (Inr _, l') \<Rightarrow>
        (if force_inconclusive r then verdict r VInconclusive ForcedInconclusive
         else if vr_current_page r = None \<or> observation_generation r = None then verdict r VInconclusive ObservationMissing
         else if \<not> action_success r then verdict r VNotVerified ActionFailed
         else if vr_current_page r \<noteq> Some (vr_expected_page r) then verdict r VNotVerified PageMismatch
         else verdict r VVerified ConditionsSatisfied, l'))"

subsection \<open>Their behaviour\<close>

lemma tool_of_name [simp]: "tool_of (action_name a) = Some a"
  by (cases a) (simp_all add: tool_of_def GLOBAL_TOOLS_def)

lemma tool_of_Some: "tool_of c = Some a \<Longrightarrow> c = action_name a"
  unfolding tool_of_def by (auto simp: find_Some_iff)

lemma reject_result: "reject reason l = (r, l') \<Longrightarrow> \<not> matched r \<and> rejection_reason r \<noteq> None \<and> tool_match_result_ok r"
  by (auto simp: reject_def tool_match_result_ok_def split: prod.splits sum.splits)

lemma match_tool_matched:
  assumes "match_tool step candidate pg m wa l = (Inr r, l')" and "matched r"
  shows "\<exists>a. candidate = action_name a \<and> match_action r = Some a \<and> rejection_reason r = None \<and>
     a \<in> set (allowed_actions step) \<inter> wa \<and> (a = Navigate \<or> pg = expected_page step) \<and>
     in_time l \<and> counters l WorkerActions < max_of (budget l) WorkerActions"
proof (cases "tool_of candidate")
  case None
  then show ?thesis using assms by (auto simp: match_tool_def Let_def split: prod.splits dest: reject_result)
next
  case (Some a)
  obtain can l1 where can: "can_execute_action l = (can, l1)" by fastforce
  have "a \<in> set (allowed_actions step)" "a = Navigate \<or> pg = expected_page step" "a \<in> wa" can
      "match_action r = Some a \<and> rejection_reason r = None"
    using assms Some can
    by (auto simp: match_tool_def Let_def split: prod.splits sum.splits if_splits dest: reject_result)
  moreover have "in_time l \<and> counters l WorkerActions < max_of (budget l) WorkerActions" if can
    using can that by (auto simp: can_execute_action_def check_time_def in_time_def Let_def split: if_splits)
  ultimately show ?thesis using tool_of_Some [OF Some] by blast
qed

lemma match_tool_result_ok: "match_tool step candidate pg m wa l = (Inr r, l') \<Longrightarrow> tool_match_result_ok r"
  by (auto simp: match_tool_def Let_def tool_match_result_ok_def split: option.splits if_splits prod.splits sum.splits
      dest: reject_result)

lemma match_tool_accepts:
  assumes "match_tool step (action_name a) pg m wa l = (Inr r, l')" and "a \<in> set (allowed_actions step) \<inter> wa"
    and "a = Navigate \<or> pg = expected_page step" and "in_time l" and "counters l WorkerActions < max_of (budget l) WorkerActions"
  shows "matched r"
proof -
  have "fst (can_execute_action l)" using assms(4,5) by (simp add: can_execute_action_def check_time_def in_time_def Let_def)
  moreover have "a \<in> set GLOBAL_TOOLS" by (cases a) (simp_all add: GLOBAL_TOOLS_def)
  ultimately show ?thesis using assms(1-3)
    by (auto simp: match_tool_def Let_def PAGE_TOOLS_def MODALITY_TOOLS_def split: if_splits prod.splits sum.splits)
qed

text \<open>
  C29. The matcher decides the intersection of its tool sets exactly: an answer is a match if and
  only if the candidate names an action that the step allows and the worker allows, the page is the
  step's page (or the action is a navigation), the time is not over and an action is left. A match
  and a rejection are never mixed up in the result's fields.
\<close>

theorem tool_match_decides_intersection:
  assumes "match_tool step candidate pg m wa l = (Inr r, l')"
  shows "tool_match_result_ok r \<and> (matched r \<longleftrightarrow>
    (\<exists>a. candidate = action_name a \<and> a \<in> set (allowed_actions step) \<inter> wa \<and> (a = Navigate \<or> pg = expected_page step) \<and>
       in_time l \<and> counters l WorkerActions < max_of (budget l) WorkerActions))"
  using match_tool_matched [OF assms] match_tool_accepts [of step _ pg m wa l r l'] match_tool_result_ok [OF assms] assms
  by blast

text \<open>
  C30. Within its budget, the verifier verifies a step exactly when the call can be charged, nothing
  forces it to be inconclusive, there is an observation, the action succeeded and the page is the
  expected one; it never raises.
\<close>

theorem verifier_verifies_exactly:
  assumes "within_budget l"
  shows "vstatus (fst (verify_step r probe l)) = VVerified \<longleftrightarrow>
    in_time l \<and> affordable l (Verifier probe) \<and> \<not> force_inconclusive r \<and> observation_generation r \<noteq> None \<and>
    action_success r \<and> vr_current_page r = Some (vr_expected_page r)"
  using charge_sound [OF assms, of "Verifier probe"]
  by (auto simp: verify_step_def verdict_def charge_sound_def split: prod.splits sum.splits)

definition sample_step :: plan_step where
  "sample_step = \<lparr>step_id = ''s1'', objective = ''o'', dependencies = [], operation = InspectEmployee, expected_page = Hris,
     required_contexts = [HumanBrief], allowed_actions = [Navigate, Read], preconditions = [CurrentSession],
     postconditions = [ActionSucceeded], step_risk = Low, retry = NoRetry, step_fallback = Stop\<rparr>"

theorem tool_match_decides_intersection_witness:
  "\<exists>r l'. match_tool sample_step ''read'' Hris Dom {Read} (new_ledger default_budget (\<lambda>_. 0)) = (Inr r, l') \<and>
     matched r"
proof -
  let ?l = "new_ledger default_budget (\<lambda>_. 0)"
  have time: "in_time ?l" "counters ?l WorkerActions < max_of (budget ?l) WorkerActions"
    by (simp_all add: in_time_def new_ledger_def default_budget_def)
  obtain r l' where m: "match_tool sample_step ''read'' Hris Dom {Read} ?l = (Inr r, l')"
    by (simp add: match_tool_def tool_of_def GLOBAL_TOOLS_def PAGE_TOOLS_def MODALITY_TOOLS_def sample_step_def
        can_execute_action_def check_time_def new_ledger_def default_budget_def charge_defs in_time_def exceeds_def Let_def
        del: in_order.simps)
  then show ?thesis using tool_match_decides_intersection [OF m] time
    by (auto intro!: exI [of _ Read] simp: sample_step_def)
qed

theorem verifier_verifies_exactly_witness:
  "vstatus (fst (verify_step \<lparr>vr_step_id = ''s1'', vr_expected_page = Hris, vr_current_page = Some Iam,
     observation_generation = Some 1, action_success = True, vr_postconditions = [ActionSucceeded],
     force_inconclusive = False\<rparr> True (new_ledger default_budget (\<lambda>_. 0)))) \<noteq> VVerified"
  using verifier_verifies_exactly [OF new_ledger_within [OF default_budget_ok], of "\<lparr>vr_step_id = ''s1'', vr_expected_page = Hris, vr_current_page = Some Iam,
     observation_generation = Some 1, action_success = True, vr_postconditions = [ActionSucceeded],
     force_inconclusive = False\<rparr>" True "\<lambda>_. 0"] by simp

end
