(* ===== verification/PyText.thy ===== *)
theory PyText
  imports Json
begin

section \<open>Python string operations\<close>

text \<open>
  The string methods of the standard library the agents call, on code points below 256:
  \<open>str.strip\<close>, \<open>str.rstrip\<close>, \<open>str.casefold\<close> and the path of \<open>urllib.parse.urlsplit\<close>. Validating a
  bracketed IPv6 host inside \<open>urlsplit\<close> is the parameter \<open>host_ok\<close>; its check of Unicode
  compatibility characters never fires below code point 256.
\<close>

definition code :: "char \<Rightarrow> nat" where
  "code c = of_char c"

definition is_space :: "char \<Rightarrow> bool" where
  "is_space c = (let n = code c in (9 \<le> n \<and> n \<le> 13) \<or> (28 \<le> n \<and> n \<le> 32) \<or> n = 133 \<or> n = 160)"

definition rstrip_of :: "(char \<Rightarrow> bool) \<Rightarrow> string \<Rightarrow> string" where
  "rstrip_of p s = rev (dropWhile p (rev s))"

definition strip :: "string \<Rightarrow> string" where
  "strip s = rstrip_of is_space (dropWhile is_space s)"

text \<open>U+00B5 folds to U+03BC, which no other character below 256 does: it may stay as it is.\<close>

definition fold_char :: "char \<Rightarrow> string" where
  "fold_char c = (let n = code c in
     if (65 \<le> n \<and> n \<le> 90) \<or> (192 \<le> n \<and> n \<le> 222 \<and> n \<noteq> 215) then [char_of (n + 32)]
     else if n = 223 then ''ss'' else [c])"

definition casefold :: "string \<Rightarrow> string" where
  "casefold s = concat (map fold_char s)"

definition is_alpha :: "char \<Rightarrow> bool" where
  "is_alpha c = (let n = code c in (65 \<le> n \<and> n \<le> 90) \<or> (97 \<le> n \<and> n \<le> 122))"

definition is_scheme_char :: "char \<Rightarrow> bool" where
  "is_scheme_char c = (is_alpha c \<or> (48 \<le> code c \<and> code c \<le> 57) \<or> c \<in> {CHR ''+'', CHR ''-'', CHR ''.''})"

text \<open>The part of the URL after a scheme, if it has one.\<close>

definition drop_scheme :: "string \<Rightarrow> string" where
  "drop_scheme u = (let s = takeWhile (\<lambda>c. c \<noteq> CHR '':'') u; r = dropWhile (\<lambda>c. c \<noteq> CHR '':'') u
     in if r \<noteq> [] \<and> s \<noteq> [] \<and> is_alpha (hd s) \<and> list_all is_scheme_char s then tl r else u)"

text \<open>\<open>urlsplit(url).path\<close>, \<open>None\<close> where \<open>urlsplit\<close> raises \<open>ValueError\<close>.\<close>

definition urlsplit_path :: "(string \<Rightarrow> bool) \<Rightarrow> string \<Rightarrow> string option" where
  "urlsplit_path host_ok url =
     (let u = filter (\<lambda>c. code c \<notin> {9, 10, 13}) (dropWhile (\<lambda>c. code c \<le> 32) url);
          u = drop_scheme u;
          delim = (\<lambda>c. c \<in> {CHR ''/'', CHR ''?'', CHR ''#''});
          (netloc, rest) = (if take 2 u = ''//'' then (takeWhile (\<lambda>c. \<not> delim c) (drop 2 u), dropWhile (\<lambda>c. \<not> delim c) (drop 2 u))
                            else ([], u));
          opens = CHR ''['' \<in> set netloc; closes = CHR '']'' \<in> set netloc
      in if opens \<noteq> closes \<or> (opens \<and> \<not> host_ok netloc) then None
         else Some (takeWhile (\<lambda>c. c \<noteq> CHR ''?'') (takeWhile (\<lambda>c. c \<noteq> CHR ''#'') rest)))"

text \<open>An opaque identifier: the pattern \<open>^prefix[A-Za-z0-9_-]{lo,hi}$\<close>.\<close>

definition token_char :: "char \<Rightarrow> bool" where
  "token_char c = (is_alpha c \<or> is_digit c \<or> c = CHR ''_'' \<or> c = CHR ''-'')"

definition opaque_ok :: "string \<Rightarrow> nat \<Rightarrow> nat \<Rightarrow> string \<Rightarrow> bool" where
  "opaque_ok prefix lo hi s = (let rest = drop (length prefix) s in
     take (length prefix) s = prefix \<and> lo \<le> length rest \<and> length rest \<le> hi \<and> list_all token_char rest)"

text \<open>\<open>str.split(sep)\<close> with a one-character separator.\<close>

fun split_on :: "char \<Rightarrow> string \<Rightarrow> string list" where
  "split_on sep [] = [[]]"
| "split_on sep (c # s) = (if c = sep then [] # split_on sep s
     else (case split_on sep s of [] \<Rightarrow> [[c]] | p # ps \<Rightarrow> (c # p) # ps))"

lemma split_on_not_Nil [simp]: "split_on sep s \<noteq> []"
  by (cases s) (auto split: list.split)

lemma split_on_append: "sep \<notin> set p \<Longrightarrow> split_on sep (p @ sep # s) = p # split_on sep s"
  by (induction p) auto

lemma split_on_last: "sep \<notin> set p \<Longrightarrow> split_on sep p = [p]"
  by (induction p) auto

end
