(* ===== verification/WorkerTypes.thy ===== *)
theory WorkerTypes
  imports PlanTypes PyText
begin

section \<open>The Browser Worker's contract\<close>

text \<open>
  The models of \<open>worker_schemas.py\<close> the executor exchanges with the Browser Worker, with their
  validators as predicates \<open>*_ok\<close>, and \<open>client.py\<close>: each client method sends one HTTP request and
  validates the reply. The worker behind the transport is a parameter.
\<close>

record element_state =
  disabled :: bool
  checked :: "bool option"
  selected :: "bool option"
  expanded :: "bool option"
  readonly :: bool
  required :: bool

record semantic_node =
  node_role :: string
  node_name :: string
  node_text :: string

record interactive_element =
  element_ref :: string
  el_role :: string
  el_name :: string
  el_state :: element_state
  el_actions :: "allowed_action list"
  el_options :: "string list"

record dom_last_action =
  la_action_id :: string
  la_type :: allowed_action
  la_success :: bool
  la_error :: "string option"
  la_message :: string

record dom_observation =
  obs_session_id :: string
  observation_id :: string
  current_url :: string
  page_title :: string
  semantic_nodes :: "semantic_node list"
  interactive_elements :: "interactive_element list"
  last_action :: "dom_last_action option"
  page_error :: "string option"
  truncated :: bool

datatype dom_structure = Usable | EmptyDom | TruncatedDom

record route_signals =
  structure_signal :: dom_structure
  interactive_count :: nat
  dom_bytes :: nat
  last_error_category :: "string option"

record hybrid_observation =
  ho_session_id :: string
  generation :: nat
  observation :: dom_observation
  signals :: route_signals

datatype scroll_direction = Up | Down
datatype scroll_amount = Small | PageAmount
datatype fail_category = FailFailed | FailEscalated

datatype dom_action =
    DomNavigate string string
  | DomClick string string string
  | DomFill string string string string
  | DomSelect string string string string
  | DomRead string string string
  | DomScroll string string string scroll_direction scroll_amount
  | DomWait string nat
  | DomFinish string string
  | DomFail string fail_category string

record action_envelope =
  en_session_id :: string
  en_generation :: nat
  en_action :: dom_action

record action_result =
  ar_session_id :: string
  ar_action_id :: string
  ar_type :: allowed_action
  success :: bool
  terminal :: bool
  ar_error :: "string option"
  ar_message :: string
  ar_observation :: "hybrid_observation option"

record session_created =
  sc_session_id :: string
  sc_observation :: hybrid_observation

text \<open>\<open>action.type\<close>.\<close>

primrec action_kind :: "dom_action \<Rightarrow> allowed_action" where
  "action_kind (DomNavigate _ _) = Navigate"
| "action_kind (DomClick _ _ _) = Click"
| "action_kind (DomFill _ _ _ _) = Fill"
| "action_kind (DomSelect _ _ _ _) = Select"
| "action_kind (DomRead _ _ _) = Read"
| "action_kind (DomScroll _ _ _ _ _) = Scroll"
| "action_kind (DomWait _ _) = Wait"
| "action_kind (DomFinish _ _) = Finish"
| "action_kind (DomFail _ _ _) = Fail"

subsection \<open>Validators\<close>

abbreviation "session_id_ok \<equiv> opaque_ok ''bw_'' 16 64"
abbreviation "observation_id_ok \<equiv> opaque_ok ''obs_'' 8 64"
abbreviation "element_ref_ok \<equiv> opaque_ok ''ref_'' 8 80"
abbreviation "action_id_ok \<equiv> opaque_ok ''act_'' 1 64"

definition at_most :: "nat \<Rightarrow> string option \<Rightarrow> bool" where
  "at_most n s = (case s of None \<Rightarrow> True | Some t \<Rightarrow> length t \<le> n)"

definition semantic_node_ok :: "semantic_node \<Rightarrow> bool" where
  "semantic_node_ok n = (1 \<le> length (node_role n) \<and> length (node_role n) \<le> 40 \<and>
     length (node_name n) \<le> 240 \<and> length (node_text n) \<le> 240)"

definition interactive_element_ok :: "interactive_element \<Rightarrow> bool" where
  "interactive_element_ok e = (element_ref_ok (element_ref e) \<and>
     1 \<le> length (el_role e) \<and> length (el_role e) \<le> 40 \<and> length (el_name e) \<le> 240 \<and>
     list_all (\<lambda>a. a \<in> {Click, Fill, Select, Read, Scroll}) (el_actions e) \<and>
     list_all (\<lambda>t. 1 \<le> length t \<and> length t \<le> 120) (el_options e))"

definition dom_last_action_ok :: "dom_last_action \<Rightarrow> bool" where
  "dom_last_action_ok a = (action_id_ok (la_action_id a) \<and> at_most 80 (la_error a) \<and> length (la_message a) \<le> 300)"

definition dom_observation_ok :: "dom_observation \<Rightarrow> bool" where
  "dom_observation_ok o' = (session_id_ok (obs_session_id o') \<and> observation_id_ok (observation_id o') \<and>
     1 \<le> length (current_url o') \<and> length (current_url o') \<le> 500 \<and> length (page_title o') \<le> 200 \<and>
     length (semantic_nodes o') \<le> 120 \<and> list_all semantic_node_ok (semantic_nodes o') \<and>
     length (interactive_elements o') \<le> 80 \<and> list_all interactive_element_ok (interactive_elements o') \<and>
     (case last_action o' of None \<Rightarrow> True | Some a \<Rightarrow> dom_last_action_ok a) \<and> at_most 300 (page_error o'))"

definition hybrid_observation_ok :: "hybrid_observation \<Rightarrow> bool" where
  "hybrid_observation_ok h = (session_id_ok (ho_session_id h) \<and> 1 \<le> generation h \<and> generation h \<le> 24 \<and>
     interactive_count (signals h) \<le> 80 \<and> dom_bytes (signals h) \<le> 32768 \<and>
     at_most 80 (last_error_category (signals h)) \<and>
     dom_observation_ok (observation h) \<and> obs_session_id (observation h) = ho_session_id h)"

definition session_created_ok :: "session_created \<Rightarrow> bool" where
  "session_created_ok c = (session_id_ok (sc_session_id c) \<and> hybrid_observation_ok (sc_observation c) \<and>
     ho_session_id (sc_observation c) = sc_session_id c)"

definition action_result_ok :: "action_result \<Rightarrow> bool" where
  "action_result_ok r = (session_id_ok (ar_session_id r) \<and> action_id_ok (ar_action_id r) \<and>
     at_most 80 (ar_error r) \<and> length (ar_message r) \<le> 300 \<and>
     terminal r = (ar_observation r = None) \<and>
     (case ar_observation r of None \<Rightarrow> True
      | Some h \<Rightarrow> hybrid_observation_ok h \<and> ho_session_id h = ar_session_id r))"

definition dom_action_ok :: "dom_action \<Rightarrow> bool" where
  "dom_action_ok a = (case a of
     DomNavigate i url \<Rightarrow> action_id_ok i \<and> url \<in> {''/hris'', ''/itsm'', ''/iam'', ''/assets'', ''/mail''}
   | DomClick i b r \<Rightarrow> action_id_ok i \<and> observation_id_ok b \<and> element_ref_ok r
   | DomFill i b r text \<Rightarrow> action_id_ok i \<and> observation_id_ok b \<and> element_ref_ok r \<and> length text \<le> 300
   | DomSelect i b r option \<Rightarrow> action_id_ok i \<and> observation_id_ok b \<and> element_ref_ok r \<and>
       1 \<le> length option \<and> length option \<le> 120
   | DomRead i b r \<Rightarrow> action_id_ok i \<and> observation_id_ok b \<and> element_ref_ok r
   | DomScroll i b r _ _ \<Rightarrow> action_id_ok i \<and> observation_id_ok b \<and> element_ref_ok r
   | DomWait i ms \<Rightarrow> action_id_ok i \<and> 1 \<le> ms \<and> ms \<le> 5000
   | DomFinish i summary \<Rightarrow> action_id_ok i \<and> length summary \<le> 300
   | DomFail i _ why \<Rightarrow> action_id_ok i \<and> 1 \<le> length why \<and> length why \<le> 300)"

definition envelope_ok :: "action_envelope \<Rightarrow> bool" where
  "envelope_ok e = (session_id_ok (en_session_id e) \<and> 1 \<le> en_generation e \<and> en_generation e \<le> 24 \<and>
     dom_action_ok (en_action e))"

subsection \<open>The client\<close>

datatype browser_call =
    CreateSession
  | RequestObservation string
  | ExecuteAction string action_envelope
  | CloseSession string

datatype browser_reply =
    SessionReply session_created
  | ObservationReply hybrid_observation
  | ActionReply action_result
  | ClosedReply

text \<open>A request that fails, is answered with an error status or with an unreadable body raises; the
  task that awaits it may be cancelled.\<close>

datatype client_error = HttpError | CancelledError

type_synonym 'w transport = "browser_call \<Rightarrow> 'w \<Rightarrow> (client_error + browser_reply) \<times> 'w"

definition expect :: "(browser_reply \<Rightarrow> 'a option) \<Rightarrow> ('a \<Rightarrow> bool) \<Rightarrow> (client_error + browser_reply) \<times> 'w
    \<Rightarrow> (client_error + 'a) \<times> 'w" where
  "expect read ok rw = (case rw of
       (Inl e, w) \<Rightarrow> (Inl e, w)
     | (Inr reply, w) \<Rightarrow> (case read reply of
          None \<Rightarrow> (Inl HttpError, w)
        | Some x \<Rightarrow> (if ok x then (Inr x, w) else (Inl HttpError, w))))"

definition client_create_session :: "'w transport \<Rightarrow> ('w, client_error, session_created) meth" where
  "client_create_session t w =
     expect (\<lambda>r. case r of SessionReply c \<Rightarrow> Some c | _ \<Rightarrow> None) session_created_ok (t CreateSession w)"

definition client_request_observation :: "'w transport \<Rightarrow> string \<Rightarrow> ('w, client_error, hybrid_observation) meth" where
  "client_request_observation t sid w =
     expect (\<lambda>r. case r of ObservationReply h \<Rightarrow> Some h | _ \<Rightarrow> None) hybrid_observation_ok (t (RequestObservation sid) w)"

definition client_execute_action :: "'w transport \<Rightarrow> string \<Rightarrow> action_envelope \<Rightarrow> ('w, client_error, action_result) meth" where
  "client_execute_action t sid env w =
     expect (\<lambda>r. case r of ActionReply a \<Rightarrow> Some a | _ \<Rightarrow> None) action_result_ok (t (ExecuteAction sid env) w)"

text \<open>\<open>close_session\<close> reads no body.\<close>

definition client_close_session :: "'w transport \<Rightarrow> string \<Rightarrow> ('w, client_error, unit) meth" where
  "client_close_session t sid w =
     (case t (CloseSession sid) w of (Inl e, w') \<Rightarrow> (Inl e, w') | (Inr _, w') \<Rightarrow> (Inr (), w'))"

text \<open>A transport that records the requests it is given, to state what is sent.\<close>

definition recording :: "'w transport \<Rightarrow> ('w \<times> browser_call list) transport" where
  "recording t call wl = (let (r, w') = t call (fst wl) in (r, (w', snd wl @ [call])))"

end
