(* ===== verification/Executor.thy ===== *)
theory Executor
  imports StepMachine Planner Tools WorkerTypes
begin

section \<open>The planning executor\<close>

text \<open>
  \<open>apps/planning_agent/src/flowpilot_planning_agent/executor.py\<close>: \<open>PlanningExecutor.run\<close> generates
  and validates the plan, opens a Browser Worker session, runs the steps in the validated topology
  (start, act, observe, verify), finishes, and closes the session whatever happened. The state of the
  object and of the coroutine is a record, an exception is a value, and \<open>'w\<close> is the world behind the
  Browser Worker's HTTP interface.
\<close>

subsection \<open>Requests, results and exceptions\<close>

datatype fake_scenario =
  CompleteWithRejectionProbe | FinishImmediately | VerifierInconclusive | OutOfOrderProbe

datatype run_status =
    FinishedUngraded | RunFailed | RunEscalated | InvalidPlan | RunDependencyBlocked | ToolRejected
  | VerificationNotVerified | VerificationInconclusive | RunBudgetExhausted | BrowserError

record run_request =
  run_id :: string
  task_id :: string
  run_plan :: plan_request
  scenario :: fake_scenario
  run_budget :: total_budget

record run_result =
  rr_run_id :: string
  rr_task_id :: string
  status :: run_status
  terminal_reason :: string
  rr_plan_id :: "string option"
  rr_topology :: "step_id list"
  step_results :: "step_execution_result list"
  tool_rejections :: "tool_rejection_reason list"
  usage :: total_usage

text \<open>\<open>OtherException\<close> is every exception that only \<open>except Exception\<close> catches.\<close>

datatype exn =
    BudgetExceeded budget_reason
  | ExecutionFailure string "tool_rejection_reason option"
  | Cancelled
  | OtherException

text \<open>The functions of the libraries: SHA-256 in hexadecimal, and the check of a bracketed host.\<close>

record runtime =
  sha256 :: "string \<Rightarrow> string"
  host_ok :: "string \<Rightarrow> bool"

record 'w exec =
  x_ledger :: ledger
  x_machine :: machine
  x_number :: nat
  x_plan_id :: "string option"
  x_topology :: "step_id list"
  x_session :: "string option"
  x_results :: "step_execution_result list"
  x_rejections :: "tool_rejection_reason list"
  x_world :: 'w

type_synonym ('w, 'a) exec_meth = "('w exec, exn, 'a) meth"

text \<open>A body either goes on with a value or returns the run's status and reason.\<close>

datatype 'a flow = Return run_status string | Go 'a

subsection \<open>Calling the parts\<close>

definition on_ledger :: "(ledger, budget_reason, 'a) meth \<Rightarrow> ('w, 'a) exec_meth" where
  "on_ledger m s = (case m (x_ledger s) of
       (Inl e, l) \<Rightarrow> (Inl (BudgetExceeded e), s\<lparr>x_ledger := l\<rparr>)
     | (Inr x, l) \<Rightarrow> (Inr x, s\<lparr>x_ledger := l\<rparr>))"

definition on_machine :: "(machine, machine_error, 'a) meth \<Rightarrow> ('w, machine_error + 'a) exec_meth" where
  "on_machine m s = (let (r, x) = m (x_machine s) in (Inr r, s\<lparr>x_machine := x\<rparr>))"

definition on_browser :: "('w, client_error, 'a) meth \<Rightarrow> ('w, 'a) exec_meth" where
  "on_browser m s = (case m (x_world s) of
       (Inl HttpError, w) \<Rightarrow> (Inl OtherException, s\<lparr>x_world := w\<rparr>)
     | (Inl CancelledError, w) \<Rightarrow> (Inl Cancelled, s\<lparr>x_world := w\<rparr>)
     | (Inr x, w) \<Rightarrow> (Inr x, s\<lparr>x_world := w\<rparr>))"

definition or_raise :: "exn + 'a \<Rightarrow> ('w, 'a) exec_meth" where
  "or_raise r s = (r, s)"

definition add_result :: "step_execution_result \<Rightarrow> ('w, unit) exec_meth" where
  "add_result r = modify (\<lambda>s. s\<lparr>x_results := x_results s @ [r]\<rparr>)"

definition add_rejection :: "tool_rejection_reason option \<Rightarrow> ('w, unit) exec_meth" where
  "add_rejection r = modify (\<lambda>s. case r of None \<Rightarrow> s | Some x \<Rightarrow> s\<lparr>x_rejections := x_rejections s @ [x]\<rparr>)"

definition observe_charge :: "hybrid_observation \<Rightarrow> ('w, unit) exec_meth" where
  "observe_charge h = on_ledger (charge_dom_observation (int (dom_bytes (signals h))))"

subsection \<open>Reading an observation\<close>

primrec PAGE_PATH :: "page \<Rightarrow> string" where
  "PAGE_PATH Hris = ''/hris''"
| "PAGE_PATH Itsm = ''/itsm''"
| "PAGE_PATH Iam = ''/iam''"
| "PAGE_PATH Assets = ''/assets''"
| "PAGE_PATH Mail = ''/mail''"

definition PATH_PAGE :: "string \<Rightarrow> page option" where
  "PATH_PAGE p = find (\<lambda>pg. PAGE_PATH pg = p) [Hris, Itsm, Iam, Assets, Mail]"

definition page_of :: "runtime \<Rightarrow> hybrid_observation \<Rightarrow> exn + page" where
  "page_of rt h = (case urlsplit_path (host_ok rt) (current_url (observation h)) of
       None \<Rightarrow> Inl OtherException
     | Some p \<Rightarrow> (let p' = rstrip_of (\<lambda>c. c = CHR ''/'') p;
                     path = (if p' = [] then ''/hris'' else p')
                 in case PATH_PAGE path of
                      None \<Rightarrow> Inl (ExecutionFailure ''Worker observation was outside fixed Sandbox pages'' None)
                    | Some pg \<Rightarrow> Inr pg))"

definition worker_allowed :: "hybrid_observation \<Rightarrow> allowed_action set" where
  "worker_allowed h = {Navigate, Wait, Finish, Fail} \<union>
     set (concat (map el_actions (filter (\<lambda>e. \<not> disabled (el_state e)) (interactive_elements (observation h)))))"

definition find_element :: "hybrid_observation \<Rightarrow> allowed_action \<Rightarrow> string option \<Rightarrow> exn + interactive_element" where
  "find_element h a label =
     (let cands = filter (\<lambda>e. a \<in> set (el_actions e) \<and> \<not> disabled (el_state e)) (interactive_elements (observation h));
          cands = (case label of None \<Rightarrow> cands
                   | Some lb \<Rightarrow> filter (\<lambda>e. casefold (strip (el_name e)) = casefold (strip lb)) cands)
      in case cands of [] \<Rightarrow> Inl (ExecutionFailure ''Current DOM observation lacked an authorized element'' None)
         | e # _ \<Rightarrow> Inr e)"

subsection \<open>The instructions of an operation\<close>

record instruction =
  i_action :: allowed_action
  i_label :: "string option"
  i_value :: "string option"

definition go_to :: "page \<Rightarrow> instruction" where
  "go_to pg = \<lparr>i_action = Navigate, i_label = None, i_value = Some (PAGE_PATH pg)\<rparr>"

definition fill_in :: "string \<Rightarrow> string \<Rightarrow> instruction" where
  "fill_in label v = \<lparr>i_action = Fill, i_label = Some label, i_value = Some v\<rparr>"

definition click_on :: "string \<Rightarrow> instruction" where
  "click_on label = \<lparr>i_action = Click, i_label = Some label, i_value = None\<rparr>"

definition transitions :: "operation \<Rightarrow> (string \<times> string) option" where
  "transitions op = map_of [
     (DisableEmployee, (''Disable employee ID'', ''Disable employee'')),
     (CloseTicket, (''Close ticket employee ID'', ''Close ticket'')),
     (RevokeAccount, (''Revoke account employee ID'', ''Revoke account'')),
     (ReleaseAsset, (''Release asset employee ID'', ''Release asset'')),
     (DisableMailbox, (''Disable mailbox employee ID'', ''Disable mailbox''))] op"

definition instructions :: "plan_step \<Rightarrow> supplied_values \<Rightarrow> exn + instruction list" where
  "instructions step values =
     (let nav = go_to (expected_page step);
          show_transitions = click_on ''Show transitions'';
          op = operation step;
          emp = str_int (employee_id values);
          mismatch = Inl (ExecutionFailure ''Supplied values did not match the closed operation'' None)
      in if op = InspectEmployee \<or> op = Finalize
         then Inr [nav, \<lparr>i_action = Read, i_label = None, i_value = None\<rparr>]
         else case values of
           JoinerValues j \<Rightarrow> (case op of
               CreateTicket \<Rightarrow> Inr [nav, fill_in ''Employee ID'' emp, fill_in ''Ticket title'' (ticket_title j),
                 click_on ''Create ticket'']
             | CreateAccount \<Rightarrow> Inr [nav, fill_in ''Employee ID'' emp, fill_in ''Username'' (username j),
                 click_on ''Create account'']
             | AssignAsset \<Rightarrow> Inr [nav, fill_in ''Employee ID'' emp, fill_in ''Asset tag'' (asset_tag j),
                 fill_in ''Model'' (laptop_model j), click_on ''Assign laptop'']
             | CreateMailbox \<Rightarrow> Inr [nav, fill_in ''Employee ID'' emp, fill_in ''Mailbox address'' (mailbox j),
                 click_on ''Create mailbox'']
             | _ \<Rightarrow> mismatch)
         | MoverValues m \<Rightarrow>
             if op = TransferEmployee
             then Inr [nav, show_transitions, fill_in ''Transfer employee ID'' emp,
               fill_in ''New department'' (new_department m), fill_in ''New job title'' (new_job_title m),
               fill_in ''New location'' (new_location m), click_on ''Transfer employee'']
             else (case transitions op of None \<Rightarrow> mismatch
                   | Some (field, button) \<Rightarrow> Inr [nav, show_transitions, fill_in field emp, click_on button])
         | LeaverValues _ \<Rightarrow>
             (case transitions op of None \<Rightarrow> mismatch
              | Some (field, button) \<Rightarrow> Inr [nav, show_transitions, fill_in field emp, click_on button]))"

subsection \<open>Acting through the browser\<close>

definition next_action_id :: "('w, string) exec_meth" where
  "next_action_id s = (let n = x_number s + 1 in (Inr (''act_w7_'' @ str_int (int n)), s\<lparr>x_number := n\<rparr>))"

definition required_page :: "instruction \<Rightarrow> exn + page" where
  "required_page i = (case i_value i of
       None \<Rightarrow> Inl (ExecutionFailure ''Navigate instruction was outside the fixed Sandbox paths'' None)
     | Some v \<Rightarrow> (case PATH_PAGE v of
          None \<Rightarrow> Inl (ExecutionFailure ''Navigate instruction was outside the fixed Sandbox paths'' None)
        | Some pg \<Rightarrow> Inr pg))"

text \<open>The action of an envelope, once it has its identifier.\<close>

definition build_action :: "hybrid_observation \<Rightarrow> instruction \<Rightarrow> string \<Rightarrow> exn + dom_action" where
  "build_action h i aid =
     (let obs = observation_id (observation h) in
      case i_action i of
        Navigate \<Rightarrow> (case required_page i of Inl e \<Rightarrow> Inl e | Inr pg \<Rightarrow> Inr (DomNavigate aid (PAGE_PATH pg)))
      | Fill \<Rightarrow> (case find_element h Fill (i_label i) of Inl e \<Rightarrow> Inl e
          | Inr el \<Rightarrow> Inr (DomFill aid obs (element_ref el) (case i_value i of None \<Rightarrow> [] | Some v \<Rightarrow> v)))
      | Click \<Rightarrow> (case find_element h Click (i_label i) of Inl e \<Rightarrow> Inl e | Inr el \<Rightarrow> Inr (DomClick aid obs (element_ref el)))
      | Read \<Rightarrow> (case find_element h Read (i_label i) of Inl e \<Rightarrow> Inl e | Inr el \<Rightarrow> Inr (DomRead aid obs (element_ref el)))
      | _ \<Rightarrow> Inl (ExecutionFailure ''Fake executor received an unsupported instruction'' None))"

text \<open>A model that does not validate raises a \<open>ValidationError\<close>.\<close>

definition validated :: "action_envelope \<Rightarrow> exn + action_envelope" where
  "validated e = (if envelope_ok e then Inr e else Inl OtherException)"

definition envelope :: "hybrid_observation \<Rightarrow> instruction \<Rightarrow> ('w, action_envelope) exec_meth" where
  "envelope h i = andthen next_action_id (\<lambda>aid. andthen (or_raise (build_action h i aid)) (\<lambda>a.
     or_raise (validated \<lparr>en_session_id = ho_session_id h, en_generation = generation h, en_action = a\<rparr>)))"

definition finish :: "'w transport \<Rightarrow> string \<Rightarrow> hybrid_observation \<Rightarrow> ('w, action_result) exec_meth" where
  "finish t sid h = andthen (on_ledger charge_action) (\<lambda>_. andthen next_action_id (\<lambda>aid.
     andthen (or_raise (validated \<lparr>en_session_id = sid, en_generation = generation h,
        en_action = DomFinish aid ''Deterministic Planning run ended; grading remains external''\<rparr>)) (\<lambda>env.
     on_browser (client_execute_action t sid env))))"

definition match_in :: "runtime \<Rightarrow> plan_step \<Rightarrow> string \<Rightarrow> hybrid_observation \<Rightarrow> allowed_action set
    \<Rightarrow> ('w, tool_match_result) exec_meth" where
  "match_in rt step candidate h wa = andthen (or_raise (page_of rt h)) (\<lambda>pg.
     on_ledger (match_tool step candidate pg Dom wa))"

text \<open>The loop of \<open>_execute_operation\<close>, with its variables \<open>observation\<close>, \<open>action_success\<close> and
  \<open>action_count\<close>.\<close>

fun execute_instructions :: "runtime \<Rightarrow> 'w transport \<Rightarrow> string \<Rightarrow> plan_step \<Rightarrow> instruction list
    \<Rightarrow> hybrid_observation \<Rightarrow> bool \<Rightarrow> nat \<Rightarrow> ('w, hybrid_observation \<times> bool \<times> nat) exec_meth" where
  "execute_instructions rt t sid step [] h ok n = ret (h, ok, n)"
| "execute_instructions rt t sid step (i # is) h ok n =
     andthen (match_in rt step (action_name (i_action i)) h (worker_allowed h)) (\<lambda>m.
     if \<not> matched m
     then raise (ExecutionFailure ''Current step tool intersection rejected an action'' (rejection_reason m))
     else andthen (envelope h i) (\<lambda>env.
          andthen (on_ledger charge_action) (\<lambda>_.
          andthen (on_browser (client_execute_action t sid env)) (\<lambda>r.
          case ar_observation r of
            None \<Rightarrow> raise (ExecutionFailure ''A non-final Planning step terminated the Worker session'' None)
          | Some h' \<Rightarrow>
              if terminal r
              then raise (ExecutionFailure ''A non-final Planning step terminated the Worker session'' None)
              else andthen (observe_charge h') (\<lambda>_.
                if success r then execute_instructions rt t sid step is h' True (n + 1)
                else ret (h', False, n + 1))))))"

definition execute_operation :: "runtime \<Rightarrow> 'w transport \<Rightarrow> string \<Rightarrow> hybrid_observation \<Rightarrow> plan_step
    \<Rightarrow> supplied_values \<Rightarrow> ('w, hybrid_observation \<times> bool \<times> nat) exec_meth" where
  "execute_operation rt t sid h step values = andthen (or_raise (instructions step values)) (\<lambda>is.
     execute_instructions rt t sid step is h False 0)"

subsection \<open>The loop over the topology\<close>

definition find_step :: "planning_dag \<Rightarrow> step_id \<Rightarrow> exn + plan_step" where
  "find_step d i = (case step_by_id d i of Inl _ \<Rightarrow> Inl OtherException | Inr s \<Rightarrow> Inr s)"

text \<open>\<open>state_machine.start\<close> inside its \<open>try\<close>: a \<open>DependencyBlocked\<close> ends the run with its text.\<close>

definition start_or_block :: "step_id \<Rightarrow> ('w, unit flow) exec_meth" where
  "start_or_block i = andthen (on_machine (start i)) (\<lambda>r. case r of
       Inr _ \<Rightarrow> ret (Go ())
     | Inl (DependencyBlocked text) \<Rightarrow>
         andthen (on_ledger (charge_step True)) (\<lambda>_.
         andthen (add_result \<lparr>ser_step_id = i, ser_state = Blocked, action_count = 0, verifier = None\<rparr>) (\<lambda>_.
         ret (Return RunDependencyBlocked text)))
     | Inl _ \<Rightarrow> raise OtherException)"

definition must :: "(machine, machine_error, 'a) meth \<Rightarrow> ('w, 'a) exec_meth" where
  "must m = andthen (on_machine m) (\<lambda>r. case r of Inr x \<Rightarrow> ret x | Inl _ \<Rightarrow> raise OtherException)"

definition on_verifier :: "verifier_request \<Rightarrow> bool \<Rightarrow> ('w, verifier_result) exec_meth" where
  "on_verifier r probe s = (let (v, l) = verify_step r probe (x_ledger s) in (Inr v, s\<lparr>x_ledger := l\<rparr>))"

definition no_results :: "('w, bool) exec_meth" where
  "no_results s = (Inr (x_results s = []), s)"

text \<open>The explicit observation after the first step's actions.\<close>

definition probe_observation :: "'w transport \<Rightarrow> string \<Rightarrow> bool \<Rightarrow> hybrid_observation \<Rightarrow> ('w, hybrid_observation) exec_meth" where
  "probe_observation t sid remaining h =
     (if remaining
      then andthen (on_browser (client_request_observation t sid)) (\<lambda>h'. andthen (observe_charge h') (\<lambda>_. ret h'))
      else ret h)"

text \<open>What the loop does with a verdict: end the run, or record the step as verified.\<close>

definition settle :: "plan_step \<Rightarrow> step_id \<Rightarrow> nat \<Rightarrow> verifier_result \<Rightarrow> ('w, unit flow) exec_meth" where
  "settle step i n v =
     (if vstatus v \<noteq> VVerified
      then (let end_state = (if step_fallback step = Escalate then Escalated else Failed) in
        andthen (must (terminate i end_state)) (\<lambda>_.
        andthen (on_ledger (charge_step True)) (\<lambda>_.
        andthen (add_result \<lparr>ser_step_id = i, ser_state = end_state, action_count = n, verifier = Some v\<rparr>) (\<lambda>_.
        ret (Return (if vstatus v = VInconclusive then VerificationInconclusive else VerificationNotVerified)
               ''Runtime step verification did not verify the step'')))))
      else andthen (must (verify i)) (\<lambda>_.
        andthen (add_result \<lparr>ser_step_id = i, ser_state = Verified, action_count = n, verifier = Some v\<rparr>) (\<lambda>_.
        ret (Go ()))))"

text \<open>One iteration after the step was started.\<close>

definition act_and_verify :: "runtime \<Rightarrow> 'w transport \<Rightarrow> run_request \<Rightarrow> plan_step \<Rightarrow> string \<Rightarrow> bool \<Rightarrow> step_id
    \<Rightarrow> hybrid_observation \<Rightarrow> ('w, hybrid_observation flow) exec_meth" where
  "act_and_verify rt t req step sid remaining i h =
     andthen (on_ledger (charge_step False)) (\<lambda>_.
     andthen (execute_operation rt t sid h step (supplied (run_plan req))) (\<lambda>(h1, ok, n).
     andthen (probe_observation t sid remaining h1) (\<lambda>h2.
     andthen (or_raise (page_of rt h2)) (\<lambda>pg.
     andthen no_results (\<lambda>first.
     andthen (on_verifier \<lparr>vr_step_id = step_id step, vr_expected_page = expected_page step,
         vr_current_page = Some pg, observation_generation = Some (generation h2), action_success = ok,
         vr_postconditions = postconditions step,
         force_inconclusive = (scenario req = VerifierInconclusive \<and> first)\<rparr> remaining) (\<lambda>v.
     andthen (settle step i n v) (\<lambda>f. case f of
       Return st why \<Rightarrow> ret (Return st why)
     | Go _ \<Rightarrow> ret (Go h2))))))))"

definition run_step :: "runtime \<Rightarrow> 'w transport \<Rightarrow> run_request \<Rightarrow> planning_dag \<Rightarrow> string \<Rightarrow> bool \<Rightarrow> step_id
    \<Rightarrow> hybrid_observation \<Rightarrow> ('w, hybrid_observation flow) exec_meth" where
  "run_step rt t req d sid remaining i h =
     andthen (or_raise (find_step d i)) (\<lambda>step.
     andthen (start_or_block i) (\<lambda>f. case f of
       Return st why \<Rightarrow> ret (Return st why)
     | Go _ \<Rightarrow> act_and_verify rt t req step sid remaining i h))"

fun run_steps :: "runtime \<Rightarrow> 'w transport \<Rightarrow> run_request \<Rightarrow> planning_dag \<Rightarrow> string \<Rightarrow> bool \<Rightarrow> step_id list
    \<Rightarrow> hybrid_observation \<Rightarrow> ('w, hybrid_observation flow) exec_meth" where
  "run_steps rt t req d sid remaining [] h = ret (Go h)"
| "run_steps rt t req d sid remaining (i # is) h =
     andthen (run_step rt t req d sid remaining i h) (\<lambda>f. case f of
       Return st why \<Rightarrow> ret (Return st why)
     | Go h' \<Rightarrow> run_steps rt t req d sid False is h')"

subsection \<open>The run\<close>

text \<open>\<open>topology[k]\<close>, which raises \<open>IndexError\<close> out of range.\<close>

definition at_index :: "'a list \<Rightarrow> nat \<Rightarrow> exn + 'a" where
  "at_index xs k = (if k < length xs then Inr (xs ! k) else Inl OtherException)"

definition out_of_order_probe :: "step_id list \<Rightarrow> ('w, unit flow) exec_meth" where
  "out_of_order_probe topo = andthen (or_raise (at_index topo 1)) (\<lambda>i.
     andthen (start_or_block i) (\<lambda>f. case f of
       Return st why \<Rightarrow> ret (Return st why)
     | Go _ \<Rightarrow> raise (ExecutionFailure ''Out-of-order dependency probe unexpectedly executed'' None)))"

definition rejection_probe :: "runtime \<Rightarrow> planning_dag \<Rightarrow> step_id list \<Rightarrow> hybrid_observation \<Rightarrow> ('w, unit) exec_meth" where
  "rejection_probe rt d topo h =
     andthen (or_raise (at_index topo 0)) (\<lambda>i.
     andthen (or_raise (find_step d i)) (\<lambda>step.
     andthen (match_in rt step ''shell'' h (set GLOBAL_TOOLS)) (\<lambda>m.
     andthen (add_rejection (rejection_reason m)) (\<lambda>_.
     if matched m then raise (ExecutionFailure ''Unknown tool probe unexpectedly matched'' None) else ret ()))))"

definition accepted_finish :: "'w transport \<Rightarrow> string \<Rightarrow> hybrid_observation \<Rightarrow> string \<Rightarrow> ('w, unit flow) exec_meth" where
  "accepted_finish t sid h why = andthen (finish t sid h) (\<lambda>r.
     if \<not> success r \<or> \<not> terminal r
     then raise (ExecutionFailure ''Browser Worker did not accept bounded finish'' None)
     else ret (Return FinishedUngraded why))"

definition finish_with :: "runtime \<Rightarrow> 'w transport \<Rightarrow> plan_step \<Rightarrow> string \<Rightarrow> hybrid_observation
    \<Rightarrow> ('w, unit flow) exec_meth" where
  "finish_with rt t step sid h =
     andthen (match_in rt step ''finish'' h (set GLOBAL_TOOLS)) (\<lambda>m.
     if \<not> matched m
     then andthen (add_rejection (rejection_reason m)) (\<lambda>_.
            raise (ExecutionFailure ''Final finish tool was rejected'' (rejection_reason m)))
     else accepted_finish t sid h ''Planning Agent finished; independent database-fact grading is required'')"

definition finish_after :: "runtime \<Rightarrow> 'w transport \<Rightarrow> planning_dag \<Rightarrow> string \<Rightarrow> step_id list \<Rightarrow> hybrid_observation
    \<Rightarrow> ('w, unit flow) exec_meth" where
  "finish_after rt t d sid topo h =
     andthen (or_raise (if topo = [] then Inl OtherException else Inr (last topo))) (\<lambda>i.
     andthen (or_raise (find_step d i)) (\<lambda>step. finish_with rt t step sid h))"

definition drive_plan :: "runtime \<Rightarrow> 'w transport \<Rightarrow> run_request \<Rightarrow> planning_dag \<Rightarrow> step_id list \<Rightarrow> string
    \<Rightarrow> hybrid_observation \<Rightarrow> ('w, unit flow) exec_meth" where
  "drive_plan rt t req d topo sid h =
     andthen (modify (\<lambda>s. s\<lparr>x_machine := new_machine d\<rparr>)) (\<lambda>_.
     if scenario req = OutOfOrderProbe then out_of_order_probe topo
     else andthen (rejection_probe rt d topo h) (\<lambda>_.
       andthen (run_steps rt t req d sid True topo h) (\<lambda>f. case f of
         Return st why \<Rightarrow> ret (Return st why)
       | Go h' \<Rightarrow> finish_after rt t d sid topo h')))"

text \<open>The body of the \<open>try\<close>.\<close>

definition run_body :: "runtime \<Rightarrow> 'w transport \<Rightarrow> run_request \<Rightarrow> ('w, unit flow) exec_meth" where
  "run_body rt t req =
     andthen (or_raise (if plan_request_ok (run_plan req) then Inr () else Inl OtherException)) (\<lambda>_.
     case generate (sha256 rt) (run_plan req) of
       Inl _ \<Rightarrow> raise OtherException
     | Inr (pid, d) \<Rightarrow> (let v = validate_dag (sha256 rt) d in
         case vplan_id v of
           None \<Rightarrow> ret (Return InvalidPlan ''Planning DAG failed strict validation'')
         | Some p \<Rightarrow>
             if \<not> valid v then ret (Return InvalidPlan ''Planning DAG failed strict validation'')
             else andthen (modify (\<lambda>s. s\<lparr>x_plan_id := Some p, x_topology := topology v\<rparr>)) (\<lambda>_.
               andthen (on_ledger (charge_plan (int (node_count v)) (int (edge_count v)) (int (depth v)) (int (serialized_bytes v)))) (\<lambda>_.
               andthen (on_browser (client_create_session t)) (\<lambda>c.
               andthen (modify (\<lambda>s. s\<lparr>x_session := Some (sc_session_id c)\<rparr>)) (\<lambda>_.
               andthen (observe_charge (sc_observation c)) (\<lambda>_.
               if scenario req = FinishImmediately
               then accepted_finish t (sc_session_id c) (sc_observation c)
                      ''Planning Agent finished immediately; independent grading is required''
               else drive_plan rt t req d (topology v) (sc_session_id c) (sc_observation c))))))))"

text \<open>\<open>_result\<close>, which reads the clock for the snapshot.\<close>

definition make_result :: "run_request \<Rightarrow> run_status \<Rightarrow> string \<Rightarrow> 'w exec \<Rightarrow> run_result \<times> 'w exec" where
  "make_result req st why s = (let (u, l) = snapshot (x_ledger s) in
     (\<lparr>rr_run_id = run_id req, rr_task_id = task_id req, status = st, terminal_reason = take 300 why,
       rr_plan_id = x_plan_id s, rr_topology = x_topology s, step_results = x_results s,
       tool_rejections = x_rejections s, usage = u\<rparr>,
      s\<lparr>x_ledger := l\<rparr>))"

text \<open>The \<open>except\<close> clauses: the result of the run, or the cancellation that is raised again.\<close>

definition run_outcome :: "run_request \<Rightarrow> (exn + unit flow) \<Rightarrow> 'w exec \<Rightarrow> run_result option \<times> 'w exec" where
  "run_outcome req r s =
     (let give = (\<lambda>st why s. let (res, s') = make_result req st why s in (Some res, s')) in
      case r of
        Inr (Return st why) \<Rightarrow> give st why s
      | Inr (Go _) \<Rightarrow> (None, s)
      | Inl (BudgetExceeded e) \<Rightarrow> give RunBudgetExhausted (budget_reason_name e) s
      | Inl (ExecutionFailure why None) \<Rightarrow> give RunFailed why s
      | Inl (ExecutionFailure why (Some x)) \<Rightarrow> give ToolRejected why (s\<lparr>x_rejections := x_rejections s @ [x]\<rparr>)
      | Inl Cancelled \<Rightarrow> (None, s)
      | Inl OtherException \<Rightarrow> give BrowserError ''Planning Agent could not complete the isolated Browser Worker run'' s)"

text \<open>The \<open>finally\<close> clause: errors of closing are suppressed, a cancellation is not.\<close>

definition close_after :: "'w transport \<Rightarrow> run_result option \<Rightarrow> 'w exec \<Rightarrow> run_result option \<times> 'w exec" where
  "close_after t res s = (case x_session s of None \<Rightarrow> (res, s)
     | Some sid \<Rightarrow> (case client_close_session t sid (x_world s) of
          (Inl CancelledError, w) \<Rightarrow> (None, s\<lparr>x_world := w\<rparr>)
        | (_, w) \<Rightarrow> (res, s\<lparr>x_world := w\<rparr>)))"

definition fresh_exec :: "ledger \<Rightarrow> nat \<Rightarrow> 'w \<Rightarrow> 'w exec" where
  "fresh_exec l n w = \<lparr>x_ledger = l, x_machine = \<lparr>m_steps = Map.empty, m_states = Map.empty\<rparr>, x_number = n,
     x_plan_id = None, x_topology = [], x_session = None, x_results = [], x_rejections = [], x_world = w\<rparr>"

text \<open>\<open>PlanningExecutor.run\<close>: the result, or \<open>None\<close> where a cancellation leaves it.\<close>

definition run :: "runtime \<Rightarrow> 'w transport \<Rightarrow> run_request \<Rightarrow> ledger \<Rightarrow> nat \<Rightarrow> 'w \<Rightarrow> run_result option \<times> 'w exec" where
  "run rt t req l n w =
     (let (r, s) = run_body rt t req (fresh_exec l n w);
          (res, s') = run_outcome req r s
      in close_after t res s')"

end
