(* ===== verification/Executor_Correct.thy ===== *)
theory Executor_Correct
  imports Executor
begin

section \<open>The planning executor is correct\<close>

text \<open>
  An invariant of the run's state that survives the bookkeeping, the charges and each request is
  kept by the whole drive of a plan (locale \<open>exec_invariant\<close>). Its interpretations give what the run
  sends: no more actions than the budget, only to the session it opened, only actions the plan allows.
\<close>

subsection \<open>What a charge may do to the ledger\<close>

definition grows :: "ledger \<Rightarrow> ledger \<Rightarrow> bool" where
  "grows l l' \<longleftrightarrow> budget l' = budget l \<and> (\<forall>c. limited c \<longrightarrow> counters l c \<le> counters l' c) \<and>
     (\<forall>c. 0 \<le> counters l c \<longrightarrow> 0 \<le> counters l' c)"

lemma grows_refl [simp]: "grows l l" and grows_trans: "grows l l' \<Longrightarrow> grows l' l'' \<Longrightarrow> grows l l''"
  unfolding grows_def by (simp, metis order_trans)

lemma grows_actions: "grows l l' \<Longrightarrow> counters l WorkerActions \<le> counters l' WorkerActions"
  by (simp add: grows_def limited_def)

lemma statement_grows [simp]:
  "keeps (grows l0) check_time" "keeps (grows l0) (limit cs r)" "0 \<le> n \<Longrightarrow> keeps (grows l0) (bump c n)"
  "0 \<le> n \<Longrightarrow> \<not> limited c \<Longrightarrow> keeps (grows l0) (put c n)"
  by (auto simp: keeps_def grows_def check_time_def bump_def put_def limit_def meth_defs Let_def intro: add_nonneg_nonneg)

lemma check_model_grows [simp]: "keeps (grows l0) check_model_and_tokens"
  unfolding check_model_and_tokens_def by (rule keeps_in_order) simp

lemma put_only_unlimited [simp]: "\<not> limited PlanNodes" "\<not> limited PlanEdges" "\<not> limited PlanDepth"
    "\<not> limited PlanSerializedBytes"
  by (simp_all add: limited_def)

text \<open>The amounts of a charge are sizes and counts.\<close>

fun charge_nonneg :: "charge \<Rightarrow> bool" where
  "charge_nonneg (Plan n e d b) \<longleftrightarrow> 0 \<le> n \<and> 0 \<le> e \<and> 0 \<le> d \<and> 0 \<le> b"
| "charge_nonneg (DomObservation n) \<longleftrightarrow> 0 \<le> n"
| "charge_nonneg (ContextItem b k) \<longleftrightarrow> 0 \<le> b \<and> 0 \<le> k"
| "charge_nonneg (Retrieval c k) \<longleftrightarrow> 0 \<le> c \<and> 0 \<le> k"
| "charge_nonneg (Summary i k d) \<longleftrightarrow> 0 \<le> i \<and> 0 \<le> k \<and> 0 \<le> d"
| "charge_nonneg (Memory r w d j) \<longleftrightarrow> 0 \<le> r \<and> 0 \<le> w \<and> 0 \<le> d \<and> 0 \<le> j"
| "charge_nonneg _ \<longleftrightarrow> True"

lemma keeps_grows: "charge_nonneg ch \<Longrightarrow> keeps (grows l0) (apply_charge ch)"
  by (cases ch) (auto simp: charge_defs intro!: keeps_andthen)

lemma charge_grows: "charge_nonneg ch \<Longrightarrow> grows l (snd (apply_charge ch l))"
  by (rule keepsD [OF keeps_grows]) simp_all

lemma each_charge_grows:
  "grows l (snd (charge_plan (int n) (int e) (int d) (int b) l))" "grows l (snd (charge_tool_match r l))"
  "grows l (snd (charge_verifier r l))" "grows l (snd (charge_step r l))" "grows l (snd (charge_action l))"
  "grows l (snd (charge_dom_observation (int n) l))"
  using charge_grows [of "Plan (int n) (int e) (int d) (int b)"] charge_grows [of "ToolMatch r"]
    charge_grows [of "Verifier r"] charge_grows [of "Step r"] charge_grows [of Action] charge_grows [of "DomObservation (int n)"]
  by simp_all

lemma can_execute_grows: "grows l (snd (can_execute_action l))"
  by (auto simp: can_execute_action_def check_time_def grows_def Let_def)

lemma reject_grows: "grows l (snd (reject why l))"
  using each_charge_grows(2) [of l True] by (auto simp: reject_def split: prod.splits sum.splits)

lemma match_tool_grows: "grows l (snd (match_tool step c pg m wa l))"
proof -
  have 1: "grows l (snd (case reject why l0 of (r, l') \<Rightarrow> (Inr r, l')))" if "grows l l0" for l0 why
    using grows_trans [OF that reject_grows [of l0 why]] by (simp add: case_prod_beta Let_def)
  obtain can l1 where can: "can_execute_action l = (can, l1)" by fastforce
  obtain r l2 where ch: "charge_tool_match False l1 = (r, l2)" by fastforce
  have g1: "grows l l1" using can_execute_grows [of l] can by simp
  have "grows l1 l2" using each_charge_grows(2) [of l1 False] ch by simp
  then have g2: "grows l l2" by (rule grows_trans [OF g1])
  show ?thesis
    by (cases "tool_of c"; cases r) (simp_all add: match_tool_def Let_def can ch 1 g1 g2)
qed

lemma verify_step_grows: "grows l (snd (verify_step r probe l))"
  using each_charge_grows(3) [of l probe] by (auto simp: verify_step_def split: prod.splits sum.splits)

subsection \<open>Invariants of a run\<close>

lemma request_world: "snd (on_browser (client_request_observation t sid) s) =
     s\<lparr>x_world := snd (t (RequestObservation sid) (x_world s))\<rparr>"
  and execute_world: "snd (on_browser (client_execute_action t sid env) s) =
     s\<lparr>x_world := snd (t (ExecuteAction sid env) (x_world s))\<rparr>"
  by (simp_all add: on_browser_def client_request_observation_def client_execute_action_def expect_def
      split: prod.splits sum.splits client_error.splits option.splits)

lemma build_action_kind: "build_action h i aid = Inr a \<Longrightarrow> action_kind a = i_action i"
  by (auto simp: build_action_def Let_def split: allowed_action.splits sum.splits)

lemma envelope_action: "envelope h i s = (Inr env, s') \<Longrightarrow>
    action_kind (en_action env) = i_action i \<and> (\<exists>k. s' = s\<lparr>x_number := k\<rparr>)"
  by (auto simp: envelope_def next_action_id_def or_raise_def validated_def andthen_def Let_def
      split: prod.splits sum.splits if_splits dest: build_action_kind)

lemma on_ledger_Inr: "on_ledger m s = (Inr x, s') \<longleftrightarrow> (\<exists>l. m (x_ledger s) = (Inr x, l) \<and> s' = s\<lparr>x_ledger := l\<rparr>)"
  by (auto simp: on_ledger_def split: prod.splits sum.splits)

lemma match_in_matched:
  "match_in rt step c h wa s = (Inr m, s') \<Longrightarrow> matched m \<Longrightarrow>
     \<exists>a. c = action_name a \<and> a \<in> set (allowed_actions step)"
  by (auto simp: match_in_def or_raise_def andthen_def on_ledger_Inr split: prod.splits sum.splits
      dest!: match_tool_matched)

lemma andthen_assoc: "andthen (andthen m f) g = andthen m (\<lambda>x. andthen (f x) g)"
  by (auto simp: andthen_def fun_eq_iff split: prod.splits sum.splits)

lemma keeps_andthen_when:
  assumes "keeps Q m" and "\<And>s x s'. m s = (Inr x, s') \<Longrightarrow> keeps Q (f x)"
  shows "keeps Q (andthen m f)"
  unfolding keeps_def
proof (intro allI impI)
  fix s assume "Q s"
  then show "Q (snd (andthen m f s))"
    using keepsD [OF assms(1), of s] keepsD [OF assms(2)]
    by (cases "m s"; cases "fst (m s)") (auto simp: andthen_def)
qed

locale exec_invariant =
  fixes Q :: "'w exec \<Rightarrow> bool" and t :: "'w transport" and sid :: string and permitted :: "dom_action \<Rightarrow> bool"
  assumes bookkeeping: "Q s \<Longrightarrow> Q (s\<lparr>x_machine := m, x_number := n, x_results := rs, x_rejections := js\<rparr>)"
    and accounting: "Q s \<Longrightarrow> grows (x_ledger s) l \<Longrightarrow> Q (s\<lparr>x_ledger := l\<rparr>)"
    and observing: "Q s \<Longrightarrow> Q (s\<lparr>x_world := snd (t (RequestObservation sid) (x_world s))\<rparr>)"
    and acting: "Q s \<Longrightarrow> charge_action (x_ledger s) = (Inr (), l) \<Longrightarrow> permitted (en_action env) \<Longrightarrow>
        Q (s\<lparr>x_ledger := l, x_world := snd (t (ExecuteAction sid env) (x_world s))\<rparr>)"
begin

lemma keep_machine: "Q s \<Longrightarrow> Q (s\<lparr>x_machine := m\<rparr>)"
  and keep_number: "Q s \<Longrightarrow> Q (s\<lparr>x_number := n\<rparr>)"
  and keep_results: "Q s \<Longrightarrow> Q (s\<lparr>x_results := rs\<rparr>)"
  and keep_rejections: "Q s \<Longrightarrow> Q (s\<lparr>x_rejections := js\<rparr>)"
  using bookkeeping [where s = s and m = m and n = "x_number s" and rs = "x_results s" and js = "x_rejections s"]
    bookkeeping [where s = s and m = "x_machine s" and n = n and rs = "x_results s" and js = "x_rejections s"]
    bookkeeping [where s = s and m = "x_machine s" and n = "x_number s" and rs = rs and js = "x_rejections s"]
    bookkeeping [where s = s and m = "x_machine s" and n = "x_number s" and rs = "x_results s" and js = js]
  by simp_all

lemma keeps_pure [simp]: "keeps Q (or_raise r)" "keeps Q no_results" "keeps Q next_action_id"
    "keeps Q (on_machine mm)" "keeps Q (add_result x)" "keeps Q (add_rejection y)"
    "keeps Q (modify (\<lambda>s. s\<lparr>x_machine := k\<rparr>))"
  by (auto simp: keeps_def or_raise_def no_results_def next_action_id_def on_machine_def add_result_def
      add_rejection_def modify_def Let_def keep_machine keep_number keep_results keep_rejections
      split: option.split prod.split)

lemma keeps_on_ledger: "(\<And>l. grows l (snd (c l))) \<Longrightarrow> keeps Q (on_ledger c)"
  by (auto simp: keeps_def on_ledger_def accounting split: prod.splits sum.splits) (metis accounting snd_conv)+

lemma keeps_charges [simp]: "keeps Q (on_ledger (charge_step b))" "keeps Q (observe_charge h)"
    "keeps Q (on_ledger (match_tool step c pg md wa))" "keeps Q (on_verifier r probe)"
proof -
  show "keeps Q (on_ledger (charge_step b))" "keeps Q (observe_charge h)"
    "keeps Q (on_ledger (match_tool step c pg md wa))"
    unfolding observe_charge_def by (auto intro!: keeps_on_ledger each_charge_grows match_tool_grows)
  show "keeps Q (on_verifier r probe)"
    by (auto simp: keeps_def on_verifier_def Let_def case_prod_beta accounting verify_step_grows)
qed

lemma keeps_probe [simp]: "keeps Q (probe_observation t sid remaining h)"
proof -
  have "keeps Q (on_browser (client_request_observation t sid))"
    using observing by (simp add: keeps_def request_world)
  then show ?thesis by (auto simp: probe_observation_def intro!: keeps_andthen)
qed

text \<open>A charged action that is sent, with nothing but bookkeeping between the two.\<close>

lemma act:
  assumes "Q s" and "on_ledger charge_action s = (Inr u, s1)" and "permitted (en_action env)"
    and "s2 = s1\<lparr>x_number := k\<rparr>"
  shows "Q (snd (on_browser (client_execute_action t sid env) s2))"
proof -
  obtain l where l: "charge_action (x_ledger s) = (Inr (), l)" and s1: "s1 = s\<lparr>x_ledger := l\<rparr>"
    using assms(2) by (auto simp: on_ledger_def split: prod.splits sum.splits)
  have "snd (on_browser (client_execute_action t sid env) s2) =
      (s\<lparr>x_ledger := l, x_world := snd (t (ExecuteAction sid env) (x_world s))\<rparr>)\<lparr>x_number := k\<rparr>"
    by (simp add: assms(4) s1 execute_world)
  then show ?thesis using keep_number [OF acting [OF assms(1) l assms(3)]] by simp
qed

lemma keeps_match_in [simp]: "keeps Q (match_in rt step c h wa)"
  unfolding match_in_def by (auto intro!: keeps_andthen)

lemma keeps_envelope [simp]: "keeps Q (envelope h i)"
  unfolding envelope_def by (auto intro!: keeps_andthen)

lemma keeps_charge_action [simp]: "keeps Q (on_ledger charge_action)"
  by (auto intro!: keeps_on_ledger each_charge_grows)

lemma keeps_act:
  assumes "permitted (en_action env)"
  shows "keeps Q (andthen (on_ledger charge_action) (\<lambda>_. on_browser (client_execute_action t sid env)))"
  unfolding keeps_def
proof (intro allI impI)
  fix s assume Q: "Q s"
  show "Q (snd (andthen (on_ledger charge_action) (\<lambda>_. on_browser (client_execute_action t sid env)) s))"
  proof (cases "on_ledger charge_action s")
    case (Pair r s1)
    then show ?thesis
      using act [OF Q _ assms, of _ s1 s1 "x_number s1"] keepsD [OF keeps_charge_action Q]
      by (cases r) (auto simp: andthen_def)
  qed
qed

text \<open>Two statements in a row may be read as one.\<close>

lemma keeps_act_then:
  assumes "permitted (en_action env)" and "\<And>r. keeps Q (f r)"
  shows "keeps Q (andthen (on_ledger charge_action) (\<lambda>_. andthen (on_browser (client_execute_action t sid env)) f))"
proof -
  have "andthen (on_ledger charge_action) (\<lambda>_. andthen (on_browser (client_execute_action t sid env)) f) =
      andthen (andthen (on_ledger charge_action) (\<lambda>_. on_browser (client_execute_action t sid env))) f"
    by (rule andthen_assoc [symmetric])
  then show ?thesis using assms by (simp add: keeps_andthen keeps_act)
qed

lemma keeps_execute_instructions:
  assumes "\<And>a. action_kind a \<in> set (allowed_actions step) \<Longrightarrow> permitted a"
  shows "keeps Q (execute_instructions rt t sid step is h ok n)"
proof (induction "is" arbitrary: h ok n)
  case (Cons i "is")
  define after where "after = (\<lambda>r :: action_result. (case ar_observation r of
       None \<Rightarrow> raise (ExecutionFailure ''A non-final Planning step terminated the Worker session'' None)
     | Some h' \<Rightarrow> if terminal r
         then raise (ExecutionFailure ''A non-final Planning step terminated the Worker session'' None)
         else andthen (observe_charge h') (\<lambda>_.
           if success r then execute_instructions rt t sid step is h' True (n + 1)
           else ret (h', False, n + 1))) :: ('w, hybrid_observation \<times> bool \<times> nat) exec_meth)"
  have after: "keeps Q (after r)" for r
    unfolding after_def using Cons.IH by (auto intro!: keeps_andthen split: option.split)
  have tail: "keeps Q (andthen (envelope h i) (\<lambda>env. andthen (on_ledger charge_action) (\<lambda>_.
      andthen (on_browser (client_execute_action t sid env)) after)))"
    if "i_action i \<in> set (allowed_actions step)"
    by (rule keeps_andthen_when [OF keeps_envelope], rule keeps_act_then)
      (use that assms after envelope_action in force)+
  show ?case
    unfolding execute_instructions.simps after_def [symmetric]
  proof (rule keeps_andthen_when [OF keeps_match_in])
    fix s m s'
    assume m: "match_in rt step (action_name (i_action i)) h (worker_allowed h) s = (Inr m, s')"
    show "keeps Q (if \<not> matched m
        then raise (ExecutionFailure ''Current step tool intersection rejected an action'' (rejection_reason m))
        else andthen (envelope h i) (\<lambda>env. andthen (on_ledger charge_action) (\<lambda>_.
          andthen (on_browser (client_execute_action t sid env)) after)))"
      using match_in_matched [OF m] tail by (auto simp: action_name_inj)
  qed
qed simp

lemma keeps_finish:
  assumes "\<And>a. action_kind a = Finish \<Longrightarrow> permitted a"
  shows "keeps Q (finish t sid h)"
  unfolding keeps_def
proof (intro allI impI)
  fix s assume Q: "Q s"
  obtain r s1 where c: "on_ledger charge_action s = (r, s1)" by fastforce
  define k where "k = x_number s1 + 1"
  define env where "env = \<lparr>en_session_id = sid, en_generation = generation h,
        en_action = DomFinish (''act_w7_'' @ str_int (int k))
          ''Deterministic Planning run ended; grading remains external''\<rparr>"
  have Q1: "Q s1" using keepsD [OF keeps_charge_action Q] c by simp
  show "Q (snd (finish t sid h s))"
  proof (cases r)
    case (Inl e)
    then show ?thesis using Q1 c by (simp add: finish_def andthen_def)
  next
    case (Inr u)
    then have "Q (snd (on_browser (client_execute_action t sid env) (s1\<lparr>x_number := k\<rparr>)))"
      using c assms by (intro act [OF Q, of u s1 env _ k]) (simp_all add: env_def)
    then show ?thesis using Inr c keep_number [OF Q1]
      by (simp add: finish_def andthen_def next_action_id_def or_raise_def validated_def Let_def
          env_def k_def)
  qed
qed

lemma keeps_start_or_block [simp]: "keeps Q (start_or_block i)"
  unfolding start_or_block_def
  by (auto intro!: keeps_andthen split: sum.split machine_error.split)

lemma keeps_must [simp]: "keeps Q (must m)"
  unfolding must_def by (auto intro!: keeps_andthen split: sum.split)

definition allows :: "planning_dag \<Rightarrow> bool" where
  "allows d \<longleftrightarrow> (\<forall>step \<in> set (steps d). \<forall>a. action_kind a \<in> set (allowed_actions step) \<longrightarrow> permitted a)"

lemma keeps_execute_operation:
  "allows d \<Longrightarrow> step \<in> set (steps d) \<Longrightarrow> keeps Q (execute_operation rt t sid h step vs)"
  unfolding execute_operation_def allows_def
  by (intro keeps_andthen keeps_execute_instructions) auto

lemma find_step_in: "find_step d i = Inr step \<Longrightarrow> step \<in> set (steps d) \<and> step_id step = i"
  by (auto simp: find_step_def step_by_id_def find_Some_iff split: option.splits sum.splits)

lemma keeps_settle [simp]: "keeps Q (settle step i n v)"
  unfolding settle_def by (auto simp: Let_def intro!: keeps_andthen)

lemma keeps_run_step:
  assumes "allows d"
  shows "keeps Q (run_step rt t req d sid remaining i h)"
  unfolding run_step_def
proof (rule keeps_andthen_when)
  fix s step s'
  assume "or_raise (find_step d i) s = (Inr step, s')"
  then have "step \<in> set (steps d)" using find_step_in by (auto simp: or_raise_def)
  note ex = keeps_execute_operation [OF assms this]
  have "keeps Q (act_and_verify rt t req step sid remaining i h)"
    unfolding act_and_verify_def by (auto intro!: keeps_andthen ex split: flow.split)
  then show "keeps Q (andthen (start_or_block i) (\<lambda>f. case f of
       Return st why \<Rightarrow> ret (Return st why)
     | Go _ \<Rightarrow> act_and_verify rt t req step sid remaining i h))"
    by (auto intro!: keeps_andthen split: flow.split)
qed simp

lemma keeps_run_steps:
  "allows d \<Longrightarrow> keeps Q (run_steps rt t req d sid remaining is h)"
  by (induction "is" arbitrary: remaining h) (auto intro!: keeps_andthen keeps_run_step split: flow.split)

lemma keeps_accepted_finish:
  assumes "\<And>a. action_kind a = Finish \<Longrightarrow> permitted a"
  shows "keeps Q (accepted_finish t sid h why)"
  unfolding accepted_finish_def using keeps_finish [OF assms] by (auto intro!: keeps_andthen)

lemma keeps_finish_with:
  assumes "allows d" and step: "step \<in> set (steps d)"
  shows "keeps Q (finish_with rt t step sid h)"
  unfolding finish_with_def
proof (rule keeps_andthen_when [OF keeps_match_in])
  fix s m s' assume m: "match_in rt step ''finish'' h (set GLOBAL_TOOLS) s = (Inr m, s')"
  show "keeps Q (if \<not> matched m
     then andthen (add_rejection (rejection_reason m)) (\<lambda>_.
            raise (ExecutionFailure ''Final finish tool was rejected'' (rejection_reason m)))
     else accepted_finish t sid h ''Planning Agent finished; independent database-fact grading is required'')"
  proof (cases "matched m")
    case True
    then obtain a where a: "''finish'' = action_name a" "a \<in> set (allowed_actions step)"
      using match_in_matched [OF m] by blast
    then have "a = Finish" by (cases a) simp_all
    then show ?thesis using True a assms
      by (auto simp: allows_def intro!: keeps_accepted_finish)
  qed (auto intro!: keeps_andthen)
qed

lemma keeps_finish_after:
  assumes "allows d"
  shows "keeps Q (finish_after rt t d sid topo h)"
  unfolding finish_after_def
  by (intro keeps_andthen_when [where m = "or_raise _"] keeps_pure keeps_finish_with [OF assms])
    (auto simp: or_raise_def dest: find_step_in)

lemma keeps_drive_plan:
  assumes "allows d"
  shows "keeps Q (drive_plan rt t req d topo sid h)"
  unfolding drive_plan_def out_of_order_probe_def rejection_probe_def
  using keeps_run_steps [OF assms] keeps_finish_after [OF assms]
  by (auto intro!: keeps_andthen split: flow.split)

end

subsection \<open>What a run sends\<close>

definition is_execute :: "browser_call \<Rightarrow> bool" where
  "is_execute c = (case c of ExecuteAction _ _ \<Rightarrow> True | _ \<Rightarrow> False)"

text \<open>The requests of a run whose transport records.\<close>

definition sent :: "('w \<times> browser_call list) exec \<Rightarrow> browser_call list" where
  "sent s = snd (x_world s)"

definition actions_sent :: "('w \<times> browser_call list) exec \<Rightarrow> int" where
  "actions_sent s = int (length (filter is_execute (sent s)))"

text \<open>Every action was charged: with \<open>k\<close> actions charged before the run, the actions sent fit
  between \<open>k\<close> and the counter, and within the limit.\<close>

definition charged_actions :: "total_budget \<Rightarrow> int \<Rightarrow> ('w \<times> browser_call list) exec \<Rightarrow> bool" where
  "charged_actions b k s \<longleftrightarrow> budget (x_ledger s) = b \<and>
     k + actions_sent s \<le> counters (x_ledger s) WorkerActions \<and> k + actions_sent s \<le> max_of b WorkerActions"

lemma charge_action_ok:
  "charge_action l = (Inr (), l') \<Longrightarrow> budget l' = budget l \<and>
     counters l' WorkerActions = counters l WorkerActions + 1 \<and> counters l' WorkerActions \<le> max_of (budget l) WorkerActions"
  by (auto simp: charge_action_def exceeds_def simp del: in_order.simps split: if_splits)

lemma recording_world: "snd (recording t c (w, cs)) = (snd (t c w), cs @ [c])"
  by (simp add: recording_def case_prod_beta Let_def)

lemma sent_after: "sent (s\<lparr>x_world := snd (recording t c (x_world s))\<rparr>) = sent s @ [c]"
  by (cases "x_world s") (simp add: sent_def recording_world)

interpretation charged_inv: exec_invariant "charged_actions b k" "recording t" sid "\<lambda>_. True"
  for b k sid and t :: "'w transport"
proof
  fix s :: "('w \<times> browser_call list) exec" and m n rs js l env
  assume Q: "charged_actions b k s"
  show "charged_actions b k (s\<lparr>x_machine := m, x_number := n, x_results := rs, x_rejections := js\<rparr>)"
    using Q by (simp add: charged_actions_def actions_sent_def sent_def)
  show "grows (x_ledger s) l \<Longrightarrow> charged_actions b k (s\<lparr>x_ledger := l\<rparr>)"
    using Q by (auto simp: charged_actions_def actions_sent_def sent_def dest: grows_actions) (simp add: grows_def)
  show "charged_actions b k (s\<lparr>x_world := snd (recording t (RequestObservation sid) (x_world s))\<rparr>)"
    using Q by (simp add: charged_actions_def actions_sent_def sent_after is_execute_def)
  show "charged_actions b k (s\<lparr>x_ledger := l, x_world := snd (recording t (ExecuteAction sid env) (x_world s))\<rparr>)"
    if "charge_action (x_ledger s) = (Inr (), l)"
    using Q charge_action_ok [OF that] sent_after [of t "ExecuteAction sid env" "s\<lparr>x_ledger := l\<rparr>"]
    by (auto simp: charged_actions_def actions_sent_def is_execute_def sent_def)
qed

text \<open>The conversation with the one session the run opened.\<close>

definition converses :: "(dom_action \<Rightarrow> bool) \<Rightarrow> string \<Rightarrow> browser_call \<Rightarrow> bool" where
  "converses P sid c \<longleftrightarrow> c = RequestObservation sid \<or> (\<exists>env. c = ExecuteAction sid env \<and> P (en_action env))"

definition in_session :: "(dom_action \<Rightarrow> bool) \<Rightarrow> string \<Rightarrow> ('w \<times> browser_call list) exec \<Rightarrow> bool" where
  "in_session P sid s \<longleftrightarrow> x_session s = Some sid \<and>
     (\<exists>mid. sent s = CreateSession # mid \<and> (\<forall>c \<in> set mid. converses P sid c))"

interpretation session_inv: exec_invariant "in_session P sid" "recording t" sid P
  for P sid and t :: "'w transport"
proof
  fix s :: "('w \<times> browser_call list) exec" and m n rs js l env
  assume Q: "in_session P sid s"
  show "in_session P sid (s\<lparr>x_machine := m, x_number := n, x_results := rs, x_rejections := js\<rparr>)"
    using Q by (simp add: in_session_def sent_def)
  show "in_session P sid (s\<lparr>x_ledger := l\<rparr>)"
    using Q by (simp add: in_session_def sent_def)
  show "in_session P sid (s\<lparr>x_world := snd (recording t (RequestObservation sid) (x_world s))\<rparr>)"
    using Q by (auto simp: in_session_def sent_after converses_def)
  show "in_session P sid (s\<lparr>x_ledger := l, x_world := snd (recording t (ExecuteAction sid env) (x_world s))\<rparr>)"
    if "P (en_action env)"
    using Q that sent_after [of t "ExecuteAction sid env" "s\<lparr>x_ledger := l\<rparr>"]
    by (auto simp: in_session_def converses_def sent_def)
qed

text \<open>An action some step of the process's plan allows.\<close>

definition plan_allows :: "business_process \<Rightarrow> dom_action \<Rightarrow> bool" where
  "plan_allows p a \<longleftrightarrow> (\<exists>step \<in> set (fixed_steps p). action_kind a \<in> set (allowed_actions step))"

lemma plan_allows_finish: "action_kind a = Finish \<Longrightarrow> plan_allows p a"
  by (cases p) (auto simp: plan_allows_def fixed_steps_def joiner_steps_def mover_steps_def leaver_steps_def mk_step_def)

abbreviation run_dag :: "run_request \<Rightarrow> planning_dag" where
  "run_dag req \<equiv> \<lparr>process = pr_process (run_plan req), category = pr_category (run_plan req),
     steps = fixed_steps (pr_process (run_plan req))\<rparr>"

text \<open>The body, once the planner has generated its plan and the validator accepted it.\<close>

lemma run_body_eq:
  "run_body rt t req =
     andthen (or_raise (if plan_request_ok (run_plan req) then Inr () else Inl OtherException)) (\<lambda>_.
     let v = validate_dag (sha256 rt) (run_dag req) in
       andthen (modify (\<lambda>s. s\<lparr>x_plan_id := vplan_id v, x_topology := topology v\<rparr>)) (\<lambda>_.
       andthen (on_ledger (charge_plan (int (node_count v)) (int (edge_count v)) (int (depth v)) (int (serialized_bytes v)))) (\<lambda>_.
       andthen (on_browser (client_create_session t)) (\<lambda>c.
       andthen (modify (\<lambda>s. s\<lparr>x_session := Some (sc_session_id c)\<rparr>)) (\<lambda>_.
       andthen (observe_charge (sc_observation c)) (\<lambda>_.
       if scenario req = FinishImmediately
       then accepted_finish t (sc_session_id c) (sc_observation c)
              ''Planning Agent finished immediately; independent grading is required''
       else drive_plan rt t req (run_dag req) (topology v) (sc_session_id c) (sc_observation c)))))))"
proof -
  have v: "valid (validate_dag (sha256 rt) (run_dag req))" by (rule fixed_plan_valid)
  then obtain p where "vplan_id (validate_dag (sha256 rt) (run_dag req)) = Some p"
    by (auto simp: vplan_id_eq)
  then show ?thesis using v by (simp add: run_body_def generate_eq Let_def)
qed

lemma create_world: "snd (on_browser (client_create_session t) s) = s\<lparr>x_world := snd (t CreateSession (x_world s))\<rparr>"
  by (simp add: on_browser_def client_create_session_def expect_def
      split: prod.splits sum.splits client_error.splits option.splits)

lemma keeps_body_charged: "keeps (charged_actions b k) (run_body rt (recording t) req)"
proof -
  have create: "keeps (charged_actions b k) (on_browser (client_create_session (recording t)))"
    by (simp add: keeps_def create_world charged_actions_def actions_sent_def sent_after is_execute_def)
  have assign: "keeps (charged_actions b k) (modify (\<lambda>s. s\<lparr>x_plan_id := p, x_topology := tp\<rparr>))"
      "keeps (charged_actions b k) (modify (\<lambda>s. s\<lparr>x_session := sid\<rparr>))" for p tp sid
    by (simp_all add: keeps_def modify_def charged_actions_def actions_sent_def sent_def)
  have plan: "keeps (charged_actions b k) (on_ledger (charge_plan (int n) (int e) (int dp) (int bs)))" for n e dp bs
    by (rule charged_inv.keeps_on_ledger) (rule each_charge_grows)
  have drive: "keeps (charged_actions b k) (drive_plan rt (recording t) req d topo sid h)" for d topo sid h
    by (rule charged_inv.keeps_drive_plan) (simp add: charged_inv.allows_def)
  show ?thesis
    unfolding run_body_eq Let_def
    by (auto intro!: keeps_andthen create assign plan drive charged_inv.keeps_accepted_finish)
qed

text \<open>The session's conversation, or the single request that did not open one.\<close>

definition opened :: "(dom_action \<Rightarrow> bool) \<Rightarrow> ('w \<times> browser_call list) exec \<Rightarrow> bool" where
  "opened P s \<longleftrightarrow> (x_session s = None \<and> sent s \<in> {[], [CreateSession]}) \<or> (\<exists>sid. in_session P sid s)"

definition unopened :: "('w \<times> browser_call list) exec \<Rightarrow> bool" where
  "unopened s \<longleftrightarrow> x_session s = None \<and> sent s = []"

lemma in_session_opened: "keeps (in_session P sid) m \<Longrightarrow>
    triple (in_session P sid) m (\<lambda>_. opened P) (\<lambda>_. opened P)"
  by (erule triple_of_keeps) (auto simp: opened_def)

lemma keeps_unopened: "keeps unopened m \<Longrightarrow> triple unopened m (\<lambda>_. unopened) (\<lambda>_. opened P)"
  by (erule triple_of_keeps) (auto simp: opened_def unopened_def)

lemma unopened_statements: "keeps unopened (or_raise r)" "keeps unopened (on_ledger m)"
    "keeps unopened (modify (\<lambda>s. s\<lparr>x_plan_id := p, x_topology := tp\<rparr>))"
  by (auto simp: keeps_def or_raise_def modify_def on_ledger_def unopened_def sent_def split: prod.splits sum.splits)

lemma body_opened: "triple unopened (run_body rt (recording t) req)
    (\<lambda>_. opened (plan_allows (pr_process (run_plan req)))) (\<lambda>_. opened (plan_allows (pr_process (run_plan req))))"
proof -
  let ?P = "plan_allows (pr_process (run_plan req))"
  have create: "triple unopened (on_browser (client_create_session (recording t)))
      (\<lambda>c s. x_session s = None \<and> sent s = [CreateSession]) (\<lambda>_. opened ?P)"
  proof (rule tripleI)
    fix s r s' assume "unopened s" "on_browser (client_create_session (recording t)) s = (r, s')"
    then have "x_session s' = None" "sent s' = [CreateSession]"
      using create_world [of "recording t" s] by (auto simp: unopened_def sent_after)
    then show "opened ?P s'" "x_session s' = None \<and> sent s' = [CreateSession]" by (simp_all add: opened_def)
  qed
  have session: "triple (\<lambda>s. x_session s = None \<and> sent s = [CreateSession]) (modify (\<lambda>s. s\<lparr>x_session := Some sid\<rparr>))
      (\<lambda>_. in_session ?P sid) (\<lambda>_. opened ?P)" for sid
    by (auto simp: in_session_def sent_def)
  have charge: "triple (in_session ?P sid) (observe_charge h) (\<lambda>_. in_session ?P sid) (\<lambda>_. opened ?P)" for sid h
    by (rule triple_of_keeps [OF session_inv.keeps_charges(2)]) (auto simp: opened_def)
  have drive: "keeps (in_session ?P sid) (drive_plan rt (recording t) req (run_dag req) topo sid h)" for topo sid h
    by (rule session_inv.keeps_drive_plan) (auto simp: session_inv.allows_def plan_allows_def)
  have finish: "keeps (in_session ?P sid) (accepted_finish (recording t) sid h why)" for sid h why
    by (rule session_inv.keeps_accepted_finish) (rule plan_allows_finish)
  have body: "triple (in_session ?P sid) (if b then accepted_finish (recording t) sid h why
      else drive_plan rt (recording t) req (run_dag req) topo sid h) (\<lambda>_. opened ?P) (\<lambda>_. opened ?P)" for b topo sid h why
    by (rule in_session_opened) (simp add: drive finish)
  show ?thesis
    unfolding run_body_eq Let_def
    by (rule triple_andthen [OF keeps_unopened [OF unopened_statements(1)]],
        rule triple_andthen [OF keeps_unopened [OF unopened_statements(3)]],
        rule triple_andthen [OF keeps_unopened [OF unopened_statements(2)]],
        rule triple_andthen [OF create], rule triple_andthen [OF session], rule triple_andthen [OF charge], rule body)
qed

lemma outcome_world: "x_session (snd (run_outcome req r s)) = x_session s" "x_world (snd (run_outcome req r s)) = x_world s"
  by (auto simp: run_outcome_def make_result_def snapshot_def Let_def split: sum.split flow.split exn.split option.split)

lemma run_split:
  obtains r s res s' where "run_body rt t req (fresh_exec l n w) = (r, s)" "run_outcome req r s = (res, s')"
    "run rt t req l n w = close_after t res s'"
proof -
  obtain r s where a: "run_body rt t req (fresh_exec l n w) = (r, s)" by fastforce
  obtain res s' where b: "run_outcome req r s = (res, s')" by fastforce
  show thesis using that [OF a b] a b by (simp add: run_def)
qed

lemma close_after_sent: "sent (snd (close_after (recording t) res s)) =
    sent s @ (case x_session s of None \<Rightarrow> [] | Some sid \<Rightarrow> [CloseSession sid])"
proof -
  have "snd (client_close_session (recording t) sid (x_world s)) = snd (recording t (CloseSession sid) (x_world s))" for sid
    by (simp add: client_close_session_def split: prod.splits sum.splits)
  moreover have "x_world (snd (close_after (recording t) res s)) =
      (case x_session s of None \<Rightarrow> x_world s | Some sid \<Rightarrow> snd (client_close_session (recording t) sid (x_world s)))"
    by (auto simp: close_after_def split: option.split prod.split sum.split client_error.split)
  ultimately show ?thesis by (cases "x_world s") (simp add: sent_def recording_world split: option.split)
qed

lemma run_sent:
  "sent (snd (run rt (recording t) req l n w)) =
     sent (snd (run_body rt (recording t) req (fresh_exec l n w))) @
     (case x_session (snd (run_body rt (recording t) req (fresh_exec l n w))) of None \<Rightarrow> [] | Some sid \<Rightarrow> [CloseSession sid])"
proof -
  obtain r s res s' where 1: "run_body rt (recording t) req (fresh_exec l n w) = (r, s)"
    "run_outcome req r s = (res, s')" "run rt (recording t) req l n w = close_after (recording t) res s'"
    by (rule run_split)
  have "x_session s' = x_session s" "x_world s' = x_world s" using outcome_world [of req r s] 1(2) by auto
  then show ?thesis using 1 close_after_sent [of t res s'] by (simp add: sent_def)
qed

lemma run_converses:
  "sent (snd (run rt (recording t) req l n (w, []))) \<in> {[], [CreateSession]} \<or>
   (\<exists>sid mid. sent (snd (run rt (recording t) req l n (w, []))) = CreateSession # mid @ [CloseSession sid] \<and>
     (\<forall>c \<in> set mid. converses (plan_allows (pr_process (run_plan req))) sid c))"
proof -
  let ?s = "snd (run_body rt (recording t) req (fresh_exec l n (w, [])))"
  have "unopened (fresh_exec l n (w, []))" by (simp add: unopened_def fresh_exec_def sent_def)
  then have "opened (plan_allows (pr_process (run_plan req))) ?s"
    by (rule triple_snd [OF body_opened])
  then show ?thesis
    unfolding run_sent opened_def in_session_def by auto
qed

lemma run_actions_bound:
  assumes "0 \<le> counters l WorkerActions" and "counters l WorkerActions \<le> max_of (budget l) WorkerActions"
  shows "counters l WorkerActions + actions_sent (snd (run rt (recording t) req l n (w, []))) \<le> max_of (budget l) WorkerActions"
proof -
  let ?s = "snd (run_body rt (recording t) req (fresh_exec l n (w, [])))"
  have "charged_actions (budget l) (counters l WorkerActions) (fresh_exec l n (w, []))"
    using assms by (simp add: charged_actions_def fresh_exec_def actions_sent_def sent_def)
  then have "charged_actions (budget l) (counters l WorkerActions) ?s" by (rule keepsD [OF keeps_body_charged])
  moreover have "actions_sent (snd (run rt (recording t) req l n (w, []))) = actions_sent ?s"
    by (simp add: actions_sent_def run_sent is_execute_def split: option.split)
  ultimately show ?thesis by (simp add: charged_actions_def)
qed

subsection \<open>What a finished run has verified\<close>

text \<open>The part of the state only the loop's ends change.\<close>

definition framed :: "step_execution_result list \<Rightarrow> step_id list \<Rightarrow> string option \<Rightarrow> 'w exec \<Rightarrow> bool" where
  "framed rs tp p s \<longleftrightarrow> x_results s = rs \<and> x_topology s = tp \<and> x_plan_id s = p"

lemma frame_pure [simp]: "keeps (framed rs tp p) (or_raise r)" "keeps (framed rs tp p) no_results"
    "keeps (framed rs tp p) next_action_id" "keeps (framed rs tp p) (on_machine mm)"
    "keeps (framed rs tp p) (add_rejection y)" "keeps (framed rs tp p) (on_ledger c)"
    "keeps (framed rs tp p) (on_browser b)" "keeps (framed rs tp p) (on_verifier vr pb)"
    "keeps (framed rs tp p) (modify (\<lambda>s. s\<lparr>x_machine := k\<rparr>))"
  by (auto simp: framed_def keeps_def or_raise_def no_results_def next_action_id_def on_machine_def add_rejection_def
      modify_def on_ledger_def on_browser_def on_verifier_def Let_def
      split: option.split prod.split sum.split client_error.split)

lemma frame_parts [simp]: "keeps (framed rs tp p) (match_in rt step c h wa)" "keeps (framed rs tp p) (envelope h i)"
    "keeps (framed rs tp p) (observe_charge h)" "keeps (framed rs tp p) (probe_observation t sid rem h)"
    "keeps (framed rs tp p) (must m)" "keeps (framed rs tp p) (finish t sid h)"
  unfolding match_in_def envelope_def observe_charge_def probe_observation_def must_def finish_def
  by (auto intro!: keeps_andthen split: sum.split)

lemma frame_execute_instructions [simp]:
  "keeps (framed rs tp p) (execute_instructions rt t sid step is h ok n)"
  by (induction "is" arbitrary: h ok n) (auto intro!: keeps_andthen split: option.split)

lemma frame_execute_operation [simp]: "keeps (framed rs tp p) (execute_operation rt t sid h step vs)"
  unfolding execute_operation_def by (auto intro!: keeps_andthen)

definition verified_entry :: "step_id \<Rightarrow> step_execution_result \<Rightarrow> bool" where
  "verified_entry i r \<longleftrightarrow> ser_step_id r = i \<and> ser_state r = Verified \<and>
     verifier r = Some \<lparr>vres_step_id = i, vstatus = VVerified, vreason = ConditionsSatisfied\<rparr>"

lemma verified_verdict: "verify_step r probe l = (v, l') \<Longrightarrow> vstatus v = VVerified \<Longrightarrow>
    v = \<lparr>vres_step_id = vr_step_id r, vstatus = VVerified, vreason = ConditionsSatisfied\<rparr>"
  by (auto simp: verify_step_def verdict_def split: prod.splits sum.splits if_splits)

text \<open>After one step, and after a list of steps, starting from the recorded results \<open>rs\<close>.\<close>

definition step_end :: "step_execution_result list \<Rightarrow> step_id list \<Rightarrow> string option \<Rightarrow> step_id \<Rightarrow> 'a flow \<Rightarrow> 'w exec \<Rightarrow> bool" where
  "step_end rs tp p i f s \<longleftrightarrow> (\<exists>r. framed (rs @ [r]) tp p s \<and>
     (case f of Go _ \<Rightarrow> verified_entry i r | Return st why \<Rightarrow> st \<noteq> FinishedUngraded \<and> why \<noteq> []))"

definition steps_end :: "step_execution_result list \<Rightarrow> step_id list \<Rightarrow> string option \<Rightarrow> step_id list \<Rightarrow> 'a flow \<Rightarrow> 'w exec \<Rightarrow> bool" where
  "steps_end rs tp p is f s \<longleftrightarrow> (\<exists>ss. framed (rs @ ss) tp p s \<and> length ss \<le> length is \<and>
     (case f of Go _ \<Rightarrow> list_all2 verified_entry is ss | Return st why \<Rightarrow> st \<noteq> FinishedUngraded \<and> why \<noteq> []))"

definition steps_fail :: "step_execution_result list \<Rightarrow> step_id list \<Rightarrow> string option \<Rightarrow> step_id list \<Rightarrow> 'w exec \<Rightarrow> bool" where
  "steps_fail rs tp p is s \<longleftrightarrow> (\<exists>ss. framed (rs @ ss) tp p s \<and> length ss \<le> length is)"

lemma triple_framed: "keeps (framed rs tp p) m \<Longrightarrow> triple (framed rs tp p) m (\<lambda>_. framed rs tp p) (\<lambda>_. framed rs tp p)"
  by (rule triple_keeps [THEN iffD2])

lemma start_texts: "start i m = (Inl (DependencyBlocked text), m') \<Longrightarrow> text \<noteq> []"
proof -
  have "check_verified states ds = Some (DependencyBlocked text) \<Longrightarrow> text \<noteq> []" for states ds
    by (induction ds) (auto split: option.splits if_splits)
  then show "start i m = (Inl (DependencyBlocked text), m') \<Longrightarrow> text \<noteq> []"
    by (auto simp: start_def split: option.splits if_splits)
qed

lemma add_result_end:
  assumes "verified_entry i r"
  shows "triple (framed rs tp p) (andthen (add_result r) (\<lambda>_. ret (Go x))) (step_end rs tp p i) (\<lambda>_. framed rs tp p)"
  using assms by (auto simp: triple_def andthen_def add_result_def modify_def ret_def step_end_def framed_def)

lemma add_result_return:
  assumes "st \<noteq> FinishedUngraded" and "why \<noteq> []"
  shows "triple (framed rs tp p) (andthen (add_result r) (\<lambda>_. ret (Return st why))) (step_end rs tp p i) (\<lambda>_. framed rs tp p)"
  using assms by (auto simp: triple_def andthen_def add_result_def modify_def ret_def step_end_def framed_def)

lemma start_or_block_end: "triple (framed rs tp p) (start_or_block i)
    (\<lambda>f s. case f of Go _ \<Rightarrow> framed rs tp p s | Return _ _ \<Rightarrow> step_end rs tp p i f s) (\<lambda>_. framed rs tp p)"
proof -
  have block: "triple (framed rs tp p)
      (andthen (on_ledger (charge_step True)) (\<lambda>_.
       andthen (add_result \<lparr>ser_step_id = i, ser_state = Blocked, action_count = 0, verifier = None\<rparr>) (\<lambda>_.
       ret (Return RunDependencyBlocked msg))))
      (\<lambda>f s. case f of Go _ \<Rightarrow> framed rs tp p s | Return _ _ \<Rightarrow> step_end rs tp p i f s) (\<lambda>_. framed rs tp p)" if "msg \<noteq> []" for msg
    by (rule triple_andthen [OF triple_framed [OF frame_pure(6)]])
      (use that in \<open>auto simp: triple_def andthen_def add_result_def modify_def ret_def step_end_def framed_def\<close>)
  have started: "triple (framed rs tp p) (on_machine (start i))
      (\<lambda>r s. framed rs tp p s \<and> (\<forall>text. r = Inl (DependencyBlocked text) \<longrightarrow> text \<noteq> [])) (\<lambda>_. framed rs tp p)"
    by (rule tripleI) (auto simp: on_machine_def framed_def Let_def split: prod.splits dest: start_texts)
  show ?thesis
    unfolding start_or_block_def
  proof (rule triple_andthen [OF started])
    fix r :: "machine_error + unit"
    show "triple (\<lambda>s. framed rs tp p s \<and> (\<forall>text. r = Inl (DependencyBlocked text) \<longrightarrow> text \<noteq> []))
      (case r of Inr _ \<Rightarrow> ret (Go ())
       | Inl (DependencyBlocked text) \<Rightarrow>
         andthen (on_ledger (charge_step True)) (\<lambda>_.
         andthen (add_result \<lparr>ser_step_id = i, ser_state = Blocked, action_count = 0, verifier = None\<rparr>) (\<lambda>_.
         ret (Return RunDependencyBlocked text)))
       | Inl _ \<Rightarrow> raise OtherException)
      (\<lambda>f s. case f of Go _ \<Rightarrow> framed rs tp p s | Return _ _ \<Rightarrow> step_end rs tp p i f s) (\<lambda>_. framed rs tp p)"
      by (rule triple_pure) (auto split: sum.split machine_error.split intro!: block triple_ret triple_raise)
  qed
qed

lemma settle_end:
  assumes "vstatus v = VVerified \<Longrightarrow> v = \<lparr>vres_step_id = i, vstatus = VVerified, vreason = ConditionsSatisfied\<rparr>"
  shows "triple (framed rs tp p) (settle step i n v) (step_end rs tp p i) (\<lambda>_. framed rs tp p)"
proof -
  have ok: "triple (framed rs tp p)
      (andthen (add_result \<lparr>ser_step_id = i, ser_state = Verified, action_count = n, verifier = Some v\<rparr>) (\<lambda>_. ret (Go ())))
      (step_end rs tp p i) (\<lambda>_. framed rs tp p)" if "vstatus v = VVerified"
    by (rule add_result_end) (use assms that in \<open>simp add: verified_entry_def\<close>)
  show ?thesis
    unfolding settle_def Let_def
    by (intro triple_if triple_andthen [OF triple_framed [OF frame_parts(5)]] triple_andthen [OF triple_framed [OF frame_pure(6)]]
        add_result_return ok) auto
qed

lemma act_and_verify_end:
  assumes "step_id step = i"
  shows "triple (framed rs tp p) (act_and_verify rt t req step sid rem i h) (step_end rs tp p i) (\<lambda>_. framed rs tp p)"
proof -
  have judged: "triple (framed rs tp p) (on_verifier r probe)
      (\<lambda>v s. framed rs tp p s \<and> (vstatus v = VVerified \<longrightarrow> v = \<lparr>vres_step_id = vr_step_id r, vstatus = VVerified, vreason = ConditionsSatisfied\<rparr>))
      (\<lambda>_. framed rs tp p)" for r probe
    by (rule tripleI) (auto simp: on_verifier_def framed_def Let_def split: prod.splits dest: verified_verdict)
  have pass: "triple (step_end rs tp p i f) (case f of Return st why \<Rightarrow> ret (Return st why) | Go _ \<Rightarrow> ret (Go h2))
      (step_end rs tp p i) (\<lambda>_. framed rs tp p)" for f :: "unit flow" and h2 :: hybrid_observation
    by (cases f) (auto simp: step_end_def intro!: triple_ret)
  have end_: "triple (\<lambda>s. framed rs tp p s \<and> (vstatus v = VVerified \<longrightarrow> v = \<lparr>vres_step_id = step_id step, vstatus = VVerified, vreason = ConditionsSatisfied\<rparr>))
     (andthen (settle step i n v) (\<lambda>f. case f of Return st why \<Rightarrow> ret (Return st why) | Go _ \<Rightarrow> ret (Go h2)))
     (step_end rs tp p i) (\<lambda>_. framed rs tp p)" for v n and h2 :: hybrid_observation
    by (rule triple_pure, rule triple_andthen [OF settle_end pass]) (use assms in auto)
  show ?thesis
    unfolding act_and_verify_def
    apply (rule triple_andthen [OF triple_framed [OF frame_pure(6)]])
    apply (rule triple_andthen [OF triple_framed [OF frame_execute_operation]])
    apply (clarsimp simp only: split_paired_all prod.case)
    apply (rule triple_andthen [OF triple_framed [OF frame_parts(4)]])
    apply (rule triple_andthen [OF triple_framed [OF frame_pure(1)]])
    apply (rule triple_andthen [OF triple_framed [OF frame_pure(2)]])
    apply (rule triple_andthen [OF judged])
    apply (simp only: verifier_request.simps)
    apply (rule end_)
    done
qed

lemma run_step_end: "triple (framed rs tp p) (run_step rt t req d sid rem i h) (step_end rs tp p i) (\<lambda>_. framed rs tp p)"
proof -
  have found: "triple (framed rs tp p) (or_raise (find_step d i)) (\<lambda>step s. framed rs tp p s \<and> step_id step = i) (\<lambda>_. framed rs tp p)"
    by (rule tripleI) (auto simp: or_raise_def dest: charged_inv.find_step_in)
  have pass: "triple (\<lambda>s. case f of Go _ \<Rightarrow> framed rs tp p s | Return _ _ \<Rightarrow> step_end rs tp p i f s)
      (case f of Return st why \<Rightarrow> ret (Return st why) | Go _ \<Rightarrow> act_and_verify rt t req step sid rem i h)
      (step_end rs tp p i) (\<lambda>_. framed rs tp p)" if "step_id step = i" for f :: "unit flow" and step
    using that by (cases f) (auto simp: step_end_def intro!: triple_ret act_and_verify_end)
  show ?thesis
    unfolding run_step_def
    by (rule triple_andthen [OF found], rule triple_pure, rule triple_andthen [OF start_or_block_end], rule pass)
qed

lemma steps_end_Cons:
  assumes "verified_entry i r" and "steps_end (rs @ [r]) tp p is f s"
  shows "steps_end rs tp p (i # is) f s"
proof -
  obtain ss where "framed ((rs @ [r]) @ ss) tp p s" "length ss \<le> length is"
    "case f of Go _ \<Rightarrow> list_all2 verified_entry is ss | Return st why \<Rightarrow> st \<noteq> FinishedUngraded \<and> why \<noteq> []"
    using assms(2) by (auto simp: steps_end_def)
  then show ?thesis unfolding steps_end_def using assms(1)
    by (intro exI [of _ "r # ss"]) (auto split: flow.splits)
qed

lemma steps_fail_Cons: "steps_fail (rs @ [r]) tp p is s \<Longrightarrow> steps_fail rs tp p (i # is) s"
  unfolding steps_fail_def by (metis append.assoc append_Cons append_Nil length_Cons Suc_le_mono)

lemma run_steps_end:
  fixes t :: "'w transport"
  shows "triple (framed rs tp p) (run_steps rt t req d sid rem is h) (steps_end rs tp p is) (\<lambda>_. steps_fail rs tp p is)"
proof (induction "is" arbitrary: rs rem h)
  case Nil
  show ?case by (auto simp: steps_end_def intro!: triple_ret exI [of _ "[]"])
next
  case (Cons i "is")
  show ?case
    unfolding triple_def
  proof (intro allI impI)
    fix s :: "'w exec"
    assume F: "framed rs tp p s"
    obtain r s' where run: "run_steps rt t req d sid rem (i # is) h s = (r, s')" by fastforce
    have one: "triple (framed rs tp p) (run_step rt t req d sid rem i h) (step_end rs tp p i) (\<lambda>_. framed rs tp p)"
      by (rule run_step_end)
    obtain q s1 where q: "run_step rt t req d sid rem i h s = (q, s1)" by fastforce
    have "case r of Inl e \<Rightarrow> steps_fail rs tp p (i # is) s' | Inr f \<Rightarrow> steps_end rs tp p (i # is) f s'"
    proof (cases q)
      case (Inl e)
      then have "framed rs tp p s'" "r = Inl e" using triple_Inl [OF one F] q run by (auto simp: andthen_def)
      then show ?thesis by (auto simp: steps_fail_def intro!: exI [of _ "[]"])
    next
      case (Inr f)
      then have E: "step_end rs tp p i f s1" using triple_Inr [OF one F] q by simp
      show ?thesis
      proof (cases f)
        case (Return st why)
        then show ?thesis using E run q Inr
          by (auto simp: andthen_def ret_def step_end_def steps_end_def intro!: exI [of _ "[_]"])
      next
        case (Go h')
        then obtain x where x: "framed (rs @ [x]) tp p s1" "verified_entry i x" using E by (auto simp: step_end_def)
        have "run_steps rt t req d sid False is h' s1 = (r, s')" using run q Inr Go by (simp add: andthen_def)
        then show ?thesis using Cons.IH [of "rs @ [x]" False h'] x
          by (cases r) (auto dest: triple_Inl triple_Inr intro: steps_end_Cons steps_fail_Cons)
      qed
    qed
    then show "case run_steps rt t req d sid rem (i # is) h s of (Inl e, s') \<Rightarrow> steps_fail rs tp p (i # is) s'
        | (Inr f, s') \<Rightarrow> steps_end rs tp p (i # is) f s'"
      unfolding run by (simp split: sum.splits)
  qed
qed

text \<open>After the whole drive: the run returned, and finished only with every step verified.\<close>

definition run_end :: "step_id list \<Rightarrow> step_id list \<Rightarrow> string option \<Rightarrow> unit flow \<Rightarrow> 'w exec \<Rightarrow> bool" where
  "run_end topo tp p f s \<longleftrightarrow> (\<exists>ss. framed ss tp p s \<and> length ss \<le> length topo \<and>
     (case f of Go _ \<Rightarrow> False
      | Return st why \<Rightarrow> why \<noteq> [] \<and> (st = FinishedUngraded \<longrightarrow> list_all2 verified_entry topo ss)))"

lemma accepted_finish_end:
  assumes "why \<noteq> []" and "length ss \<le> length topo" and "list_all2 verified_entry topo ss"
  shows "triple (framed ss tp p) (accepted_finish t sid h why) (run_end topo tp p) (\<lambda>_. framed ss tp p)"
  unfolding accepted_finish_def
  by (rule triple_andthen [OF triple_framed [OF frame_parts(6)]])
    (use assms in \<open>auto simp: run_end_def intro!: triple_ret triple_raise\<close>)

lemma finish_after_end:
  assumes "list_all2 verified_entry topo ss"
  shows "triple (framed ss tp p) (finish_after rt t d sid topo h) (run_end topo tp p) (\<lambda>_. framed ss tp p)"
proof -
  have len: "length ss \<le> length topo" using list_all2_lengthD [OF assms] by simp
  have refuse: "triple (framed ss tp p) (andthen (add_rejection y) (\<lambda>_. raise e)) (run_end topo tp p) (\<lambda>_. framed ss tp p)" for y e
    by (rule triple_andthen [OF triple_framed [OF frame_pure(5)]]) auto
  show ?thesis
    unfolding finish_after_def finish_with_def
    by (intro triple_andthen [OF triple_framed [OF frame_pure(1)]] triple_andthen [OF triple_framed [OF frame_parts(1)]]
        triple_if refuse accepted_finish_end len assms) simp
qed

lemma drive_plan_end:
  fixes t :: "'w transport"
  shows "triple (framed [] tp p) (drive_plan rt t req d topo sid h) (run_end topo tp p) (\<lambda>_. steps_fail [] tp p topo)"
proof -
  have fail: "framed [] tp p s \<Longrightarrow> steps_fail [] tp p topo s" for s :: "'w exec"
    by (auto simp: steps_fail_def intro!: exI [of _ "[]"])
  have probe: "keeps (framed [] tp p) (rejection_probe rt d topo h :: ('w, unit) exec_meth)"
    unfolding rejection_probe_def by (auto intro!: keeps_andthen)
  have oob: "triple (framed [] tp p) (out_of_order_probe topo :: ('w, unit flow) exec_meth) (run_end topo tp p) (\<lambda>_. steps_fail [] tp p topo)"
  proof -
    have idx: "triple (framed [] tp p) (or_raise (at_index topo 1) :: ('w, step_id) exec_meth) (\<lambda>i s. framed [] tp p s \<and> 1 < length topo)
        (\<lambda>_. steps_fail [] tp p topo)"
      by (rule tripleI) (auto simp: or_raise_def at_index_def fail split: if_splits)
    have blocked: "triple (framed [] tp p) (start_or_block i :: ('w, unit flow) exec_meth)
        (\<lambda>f s. case f of Go _ \<Rightarrow> framed [] tp p s | Return _ _ \<Rightarrow> step_end [] tp p i f s) (\<lambda>_. steps_fail [] tp p topo)" for i
      by (rule triple_conseq [OF start_or_block_end]) (auto intro: fail)
    have pass: "triple (\<lambda>s. case f of Go _ \<Rightarrow> framed [] tp p s | Return _ _ \<Rightarrow> step_end [] tp p i f s)
       ((case f of Return st why \<Rightarrow> ret (Return st why)
        | Go _ \<Rightarrow> raise (ExecutionFailure ''Out-of-order dependency probe unexpectedly executed'' None)) :: ('w, unit flow) exec_meth)
       (run_end topo tp p) (\<lambda>_. steps_fail [] tp p topo)" if "1 < length topo" for f :: "unit flow" and i
      using that by (cases f)
        (auto simp: step_end_def run_end_def intro!: triple_ret triple_raise fail exI [of _ "[_]"])
    show ?thesis
      unfolding out_of_order_probe_def
      by (rule triple_andthen [OF idx], rule triple_pure, rule triple_andthen [OF blocked], rule pass)
  qed
  have pass: "triple (steps_end [] tp p topo f) (case f of Return st why \<Rightarrow> ret (Return st why)
        | Go h' \<Rightarrow> finish_after rt t d sid topo h') (run_end topo tp p) (\<lambda>_. steps_fail [] tp p topo)" for f :: "hybrid_observation flow"
  proof (cases f)
    case (Return st why)
    then show ?thesis by (auto simp: steps_end_def run_end_def intro!: triple_ret)
  next
    case (Go h')
    have ends: "triple (framed ss tp p) (finish_after rt t d sid topo h') (run_end topo tp p) (\<lambda>_. steps_fail [] tp p topo)"
      if "list_all2 verified_entry topo ss" for ss
      using that list_all2_lengthD [OF that]
      by (intro triple_conseq [OF finish_after_end]) (auto simp: steps_fail_def)
    show ?thesis unfolding Go flow.case triple_def
    proof (intro allI impI)
      fix s :: "'w exec" assume "steps_end [] tp p topo (Go h') s"
      then obtain ss where ss: "framed ss tp p s" "list_all2 verified_entry topo ss" by (auto simp: steps_end_def)
      show "case finish_after rt t d sid topo h' s of (Inl e, s') \<Rightarrow> steps_fail [] tp p topo s'
          | (Inr f, s') \<Rightarrow> run_end topo tp p f s'"
        by (rule ends [OF ss(2), unfolded triple_def, rule_format, OF ss(1)])
    qed
  qed
  have machine: "triple (framed [] tp p) (modify (\<lambda>s. s\<lparr>x_machine := k\<rparr>)) (\<lambda>_. framed [] tp p) (\<lambda>_ :: exn. steps_fail [] tp p topo :: 'w exec \<Rightarrow> bool)" for k
    by (rule triple_of_keeps [OF frame_pure(9)]) (auto intro: fail)
  have probed: "triple (framed [] tp p) (rejection_probe rt d topo h) (\<lambda>_. framed [] tp p) (\<lambda>_. steps_fail [] tp p topo :: 'w exec \<Rightarrow> bool)"
    by (rule triple_of_keeps [OF probe]) (auto intro: fail)
  have steps: "triple (framed [] tp p) (run_steps rt t req d sid True topo h) (steps_end [] tp p topo) (\<lambda>_. steps_fail [] tp p topo)"
    by (rule run_steps_end)
  show ?thesis
    unfolding drive_plan_def
    by (rule triple_andthen [OF machine], rule triple_if, rule oob, rule triple_andthen [OF probed],
        rule triple_andthen [OF steps], rule pass)
qed

text \<open>The body of the run, from a fresh state.\<close>

definition body_end :: "run_request \<Rightarrow> step_id list \<Rightarrow> string option \<Rightarrow> unit flow \<Rightarrow> 'w exec \<Rightarrow> bool" where
  "body_end req topo p f s \<longleftrightarrow> (\<exists>ss. framed ss topo p s \<and> length ss \<le> length topo \<and>
     (case f of Go _ \<Rightarrow> False
      | Return st why \<Rightarrow> why \<noteq> [] \<and>
          (st = FinishedUngraded \<longrightarrow> scenario req = FinishImmediately \<or> list_all2 verified_entry topo ss)))"

definition body_fail :: "step_id list \<Rightarrow> 'w exec \<Rightarrow> bool" where
  "body_fail topo s \<longleftrightarrow> length (x_results s) \<le> length topo \<and> x_topology s \<in> {[], topo}"

lemma body_fail_framed: "framed [] topo p s \<Longrightarrow> body_fail topo s" "framed [] [] p s \<Longrightarrow> body_fail topo s"
  by (simp_all add: body_fail_def framed_def)

lemma run_body_end:
  fixes t :: "'w transport"
  defines "v rt req \<equiv> validate_dag (sha256 rt) (run_dag req)"
  shows "triple (framed [] [] None) (run_body rt t req)
    (body_end req (topology (v rt req)) (vplan_id (v rt req))) (\<lambda>_. body_fail (topology (v rt req)))"
proof -
  let ?topo = "topology (v rt req)" and ?p = "vplan_id (v rt req)"
  have asked: "triple (framed [] [] None) (or_raise r) (\<lambda>_. framed [] [] None) (\<lambda>_. body_fail ?topo :: 'w exec \<Rightarrow> bool)" for r :: "exn + unit"
    by (rule triple_of_keeps [OF frame_pure(1)]) (auto intro: body_fail_framed)
  have planned: "triple (framed [] [] None) (modify (\<lambda>s. s\<lparr>x_plan_id := ?p, x_topology := ?topo\<rparr>))
      (\<lambda>_. framed [] ?topo ?p) (\<lambda>_ :: exn. body_fail ?topo :: 'w exec \<Rightarrow> bool)"
    by (auto simp: framed_def)
  have charged: "triple (framed [] ?topo ?p) (on_ledger c) (\<lambda>_. framed [] ?topo ?p) (\<lambda>_. body_fail ?topo :: 'w exec \<Rightarrow> bool)" for c :: "unit charging"
    by (rule triple_of_keeps [OF frame_pure(6)]) (auto intro: body_fail_framed)
  have created: "triple (framed [] ?topo ?p) (on_browser (client_create_session t)) (\<lambda>_. framed [] ?topo ?p) (\<lambda>_. body_fail ?topo)"
    by (rule triple_of_keeps [OF frame_pure(7)]) (auto intro: body_fail_framed)
  have session: "triple (framed [] ?topo ?p) (modify (\<lambda>s. s\<lparr>x_session := sid\<rparr>)) (\<lambda>_. framed [] ?topo ?p)
      (\<lambda>_ :: exn. body_fail ?topo :: 'w exec \<Rightarrow> bool)" for sid
    by (auto simp: framed_def)
  have finished: "triple (framed [] ?topo ?p) (accepted_finish t sid h why) (body_end req ?topo ?p) (\<lambda>_. body_fail ?topo)"
    if "scenario req = FinishImmediately" "why \<noteq> []" for sid h why
  proof -
    have "triple (framed [] ?topo ?p) (finish t sid h) (\<lambda>_. framed [] ?topo ?p) (\<lambda>_. body_fail ?topo)"
      by (rule triple_of_keeps [OF frame_parts(6)]) (auto intro: body_fail_framed)
    then show ?thesis unfolding accepted_finish_def
      by (rule triple_andthen)
        (use that in \<open>auto simp: body_end_def intro!: triple_ret triple_raise exI [of _ "[]"] intro: body_fail_framed\<close>)
  qed
  have driven: "triple (framed [] ?topo ?p) (drive_plan rt t req d ?topo sid h) (body_end req ?topo ?p) (\<lambda>_. body_fail ?topo)" for d sid h
    by (rule triple_conseq [OF drive_plan_end])
      (auto simp: body_end_def run_end_def body_fail_def steps_fail_def framed_def split: flow.splits)
  show ?thesis
    unfolding run_body_eq Let_def v_def [symmetric] observe_charge_def
    by (rule triple_andthen [OF asked], rule triple_andthen [OF planned], rule triple_andthen [OF charged],
        rule triple_andthen [OF created], rule triple_andthen [OF session], rule triple_andthen [OF charged],
        rule triple_if, rule finished, assumption, simp, rule driven)
qed

subsection \<open>What a run raises\<close>

definition raises_only :: "('e \<Rightarrow> bool) \<Rightarrow> ('s, 'e, 'a) meth \<Rightarrow> bool" where
  "raises_only E m \<longleftrightarrow> (\<forall>s e s'. m s = (Inl e, s') \<longrightarrow> E e)"

lemma raises_only_andthen: "raises_only E m \<Longrightarrow> (\<And>x. raises_only E (f x)) \<Longrightarrow> raises_only E (andthen m f)"
  by (fastforce simp: raises_only_def andthen_def split: prod.splits sum.splits)

lemma raises_only_simps [simp]: "raises_only E (ret x)" "raises_only E (raise e) \<longleftrightarrow> E e" "raises_only E (modify f)"
  by (auto simp: raises_only_def meth_defs)

text \<open>A transport that is never cancelled, and what an executor method raises over one.\<close>

definition uncancelled :: "'w transport \<Rightarrow> bool" where
  "uncancelled t \<longleftrightarrow> (\<forall>c w. fst (t c w) \<noteq> Inl CancelledError)"

definition explained :: "exn \<Rightarrow> bool" where
  "explained e \<longleftrightarrow> e \<noteq> Cancelled \<and> (\<forall>why x. e = ExecutionFailure why x \<longrightarrow> why \<noteq> [])"

lemma explained_simps [simp]: "explained OtherException" "explained (BudgetExceeded r)"
    "explained (ExecutionFailure why x) \<longleftrightarrow> why \<noteq> []"
  by (auto simp: explained_def)

abbreviation "proper \<equiv> raises_only explained"

lemma explained_values:
  "page_of rt h = Inl e \<Longrightarrow> explained e" "find_element h a lb = Inl e \<Longrightarrow> explained e"
  "required_page i = Inl e \<Longrightarrow> explained e" "instructions step vs = Inl e \<Longrightarrow> explained e"
  "validated env = Inl e \<Longrightarrow> explained e" "find_step d j = Inl e \<Longrightarrow> explained e"
  "at_index xs k = Inl e \<Longrightarrow> explained e"
  by (auto simp: page_of_def find_element_def required_page_def instructions_def validated_def find_step_def at_index_def
      Let_def split: option.splits list.splits if_splits supplied_values.splits operation.splits sum.splits)

lemma explained_build: "build_action h i aid = Inl e \<Longrightarrow> explained e"
  by (auto simp: build_action_def Let_def dest: explained_values split: allowed_action.splits sum.splits)

lemma proper_parts [simp]:
  "proper (or_raise (Inr x))" "proper (or_raise (Inl OtherException))" "proper (on_ledger c)" "proper (on_machine m)"
  "proper no_results" "proper next_action_id" "proper (add_result r')" "proper (add_rejection y)" "proper (on_verifier vr pb)"
  by (auto simp: raises_only_def or_raise_def on_ledger_def on_machine_def no_results_def next_action_id_def add_result_def
      add_rejection_def on_verifier_def modify_def Let_def split: prod.splits sum.splits option.splits)

lemma proper_or_raise: "(\<And>e. r = Inl e \<Longrightarrow> explained e) \<Longrightarrow> proper (or_raise r)"
  by (auto simp: raises_only_def or_raise_def)

lemma proper_values [simp]: "proper (or_raise (page_of rt h))" "proper (or_raise (build_action h i aid))"
    "proper (or_raise (instructions step vs))" "proper (or_raise (validated env))" "proper (or_raise (find_step d j))"
    "proper (or_raise (at_index xs k))"
  by (rule proper_or_raise, erule explained_values explained_build)+

lemma proper_browser:
  assumes "uncancelled t"
  shows "proper (on_browser (client_create_session t))" "proper (on_browser (client_request_observation t sid))"
    "proper (on_browser (client_execute_action t sid env))"
  using assms
  by (auto simp: raises_only_def on_browser_def client_create_session_def client_request_observation_def
      client_execute_action_def expect_def uncancelled_def explained_def
      split: prod.splits sum.splits client_error.splits option.splits if_splits) (metis fst_conv)+

lemma proper_blocks [simp]: "proper (match_in rt step c h wa)" "proper (envelope h i)" "proper (observe_charge h)"
    "proper (must m)" "proper (start_or_block j)" "proper (settle step j n v)"
  unfolding match_in_def envelope_def observe_charge_def must_def start_or_block_def settle_def Let_def
  by (auto intro!: raises_only_andthen dest: explained_values explained_build split: sum.split machine_error.split)

lemma proper_execute_instructions:
  "uncancelled t \<Longrightarrow> proper (execute_instructions rt t sid step is h ok n)"
  by (induction "is" arbitrary: h ok n) (auto intro!: raises_only_andthen proper_browser split: option.split)

lemma proper_run_step: "uncancelled t \<Longrightarrow> proper (run_step rt t req d sid rem i h)"
  unfolding run_step_def act_and_verify_def execute_operation_def probe_observation_def
  by (auto intro!: raises_only_andthen proper_browser proper_execute_instructions dest: explained_values split: flow.split)

lemma proper_run_steps: "uncancelled t \<Longrightarrow> proper (run_steps rt t req d sid rem is h)"
  by (induction "is" arbitrary: rem h) (auto intro!: raises_only_andthen proper_run_step split: flow.split)

lemma proper_finishes:
  assumes "uncancelled t"
  shows "proper (accepted_finish t sid h why)" "proper (finish_after rt t d sid topo h)"
proof -
  show fin: "proper (accepted_finish t sid h why)" for h sid why
    unfolding accepted_finish_def finish_def
    by (auto intro!: raises_only_andthen proper_browser [OF assms] dest: explained_values)
  show "proper (finish_after rt t d sid topo h)"
    unfolding finish_after_def finish_with_def
    by (auto intro!: raises_only_andthen fin dest: explained_values)
qed

lemma proper_run_body: "uncancelled t \<Longrightarrow> proper (run_body rt t req)"
  unfolding run_body_eq drive_plan_def out_of_order_probe_def rejection_probe_def Let_def
  by (auto intro!: raises_only_andthen proper_browser proper_finishes proper_run_steps dest: explained_values split: flow.split)

subsection \<open>The rejections a run reports\<close>

text \<open>A method reports at most \<open>k\<close> rejections.\<close>

definition reports :: "nat \<Rightarrow> ('w, 'a) exec_meth \<Rightarrow> bool" where
  "reports k m \<longleftrightarrow> (\<forall>s. length (x_rejections (snd (m s))) \<le> length (x_rejections s) + k)"

lemma reports_andthen: "reports j m \<Longrightarrow> (\<And>x. reports k (f x)) \<Longrightarrow> reports (j + k) (andthen m f)"
  unfolding reports_def andthen_def
  by (auto split: prod.splits sum.splits)
    (metis add.assoc add_le_mono1 le_add1 order_trans snd_conv, metis add.assoc add_le_mono1 order_trans snd_conv)

lemma reports_0: "reports 0 m \<Longrightarrow> (\<And>x. reports k (f x)) \<Longrightarrow> reports k (andthen m f)"
  using reports_andthen [of 0 m k f] by simp

lemma reports_mono: "reports j m \<Longrightarrow> j \<le> k \<Longrightarrow> reports k m"
  unfolding reports_def by (meson add_left_mono order_trans)

lemma reports_pure [simp]: "reports k (ret x)" "reports k (raise e)" "reports k (or_raise r)" "reports k (on_ledger c)"
    "reports k (on_machine m)" "reports k no_results" "reports k next_action_id" "reports k (add_result r')"
    "reports k (on_verifier vr pb)" "reports k (on_browser b)" "reports k (modify (\<lambda>s. s\<lparr>x_machine := mm\<rparr>))"
    "reports k (modify (\<lambda>s. s\<lparr>x_session := sid\<rparr>))" "reports k (modify (\<lambda>s. s\<lparr>x_plan_id := p, x_topology := tp\<rparr>))"
    "reports (Suc k) (add_rejection y)"
  by (auto simp: reports_def meth_defs or_raise_def on_ledger_def on_machine_def no_results_def next_action_id_def
      add_result_def add_rejection_def on_verifier_def on_browser_def Let_def
      split: prod.split sum.split client_error.split option.split)

lemma reports_parts [simp]: "reports k (match_in rt step c h wa)" "reports k (envelope h i)" "reports k (observe_charge h)"
    "reports k (must m)" "reports k (start_or_block j)" "reports k (settle step j n v)" "reports k (finish t sid h)"
    "reports k (probe_observation t sid rem h)"
  unfolding match_in_def envelope_def observe_charge_def must_def start_or_block_def settle_def finish_def Let_def probe_observation_def
  by (auto intro!: reports_0 split: sum.split machine_error.split)

lemma reports_execute_instructions [simp]: "reports k (execute_instructions rt t sid step is h ok n)"
  by (induction "is" arbitrary: h ok n) (auto intro!: reports_0 split: option.split)

lemma reports_run_steps [simp]: "reports k (run_steps rt t req d sid rem is h)"
proof -
  have "reports k (run_step rt t req d sid rem i h)" for k rem i h
    unfolding run_step_def act_and_verify_def execute_operation_def by (auto intro!: reports_0 split: flow.split)
  then show ?thesis by (induction "is" arbitrary: rem h) (auto intro!: reports_0 split: flow.split)
qed

lemma reports_run_body:
  fixes t :: "'w transport"
  shows "reports 2 (run_body rt t req)"
proof -
  have finish: "reports k (accepted_finish t sid h why)" for k sid h why
    unfolding accepted_finish_def by (auto intro!: reports_0)
  have after: "reports 1 (finish_after rt t d sid topo h)" for d sid topo h
  proof -
    have "reports (1 + 0) (andthen (add_rejection y) (\<lambda>_. raise e :: ('w, unit flow) exec_meth))" for y e
      by (rule reports_andthen) simp_all
    then have "reports 1 (if b then andthen (add_rejection y) (\<lambda>_. raise e) else accepted_finish t sid h why)" for b y e why
      by (simp add: finish)
    then show ?thesis
      unfolding finish_after_def finish_with_def
      by (intro reports_0 reports_pure reports_parts)
  qed
  have probe: "reports 1 (rejection_probe rt d topo h :: ('w, unit) exec_meth)" for d topo h
  proof -
    have "reports (1 + 0) (andthen (add_rejection y) (\<lambda>_. if b then raise e else ret () :: ('w, unit) exec_meth))" for y b e
      by (rule reports_andthen) simp_all
    then have A: "reports 1 (andthen (add_rejection y) (\<lambda>_. if b then raise e else ret () :: ('w, unit) exec_meth))" for y b e
      by simp
    show ?thesis unfolding rejection_probe_def
      by (rule reports_0 [OF reports_pure(3)], rule reports_0 [OF reports_pure(3)],
          rule reports_0 [OF reports_parts(1)], rule A)
  qed
  have loop: "reports 1 (andthen (run_steps rt t req d sid True topo h) (\<lambda>f. case f of
         Return st why \<Rightarrow> ret (Return st why) | Go h' \<Rightarrow> finish_after rt t d sid topo h'))" for d sid topo h
    by (auto intro!: reports_0 after split: flow.split simp del: One_nat_def)
  have tail: "reports (1 + 1) (andthen (rejection_probe rt d topo h) (\<lambda>_. andthen (run_steps rt t req d sid True topo h) (\<lambda>f. case f of
         Return st why \<Rightarrow> ret (Return st why) | Go h' \<Rightarrow> finish_after rt t d sid topo h')))" for d sid topo h
    by (rule reports_andthen [OF probe loop])
  have oob: "reports 2 (out_of_order_probe topo :: ('w, unit flow) exec_meth)" for topo
    unfolding out_of_order_probe_def by (auto intro!: reports_0 split: flow.split)
  have drive: "reports 2 (drive_plan rt t req d topo sid h)" for d topo sid h
    unfolding drive_plan_def
    by (rule reports_0 [OF reports_pure(11)]) (use oob tail in \<open>simp add: numeral_2_eq_2\<close>)
  show ?thesis
    unfolding run_body_eq Let_def by (auto intro!: reports_0 finish drive)
qed

subsection \<open>The result of a run\<close>

text \<open>The constraints of \<open>PlanningRunResult\<close>.\<close>

definition run_result_ok :: "run_result \<Rightarrow> bool" where
  "run_result_ok r = (1 \<le> length (terminal_reason r) \<and> length (terminal_reason r) \<le> 300 \<and>
     length (rr_topology r) \<le> 16 \<and> length (step_results r) \<le> 16 \<and> length (tool_rejections r) \<le> 16 \<and>
     (\<forall>c. 0 \<le> usage_of (usage r) c) \<and> 0 \<le> elapsed_ms (usage r))"

definition counts_up :: "'w exec \<Rightarrow> bool" where
  "counts_up s \<longleftrightarrow> (\<forall>c. 0 \<le> counters (x_ledger s) c)"

interpretation counts_inv: exec_invariant counts_up t sid "\<lambda>_. True"
  for sid and t :: "'w transport"
proof
  fix s :: "'w exec" and m n rs js l env
  assume Q: "counts_up s"
  show "counts_up (s\<lparr>x_machine := m, x_number := n, x_results := rs, x_rejections := js\<rparr>)"
    "counts_up (s\<lparr>x_world := snd (t (RequestObservation sid) (x_world s))\<rparr>)"
    using Q by (simp_all add: counts_up_def)
  show "grows (x_ledger s) l \<Longrightarrow> counts_up (s\<lparr>x_ledger := l\<rparr>)"
    using Q by (simp add: counts_up_def grows_def)
  show "charge_action (x_ledger s) = (Inr (), l) \<Longrightarrow>
      counts_up (s\<lparr>x_ledger := l, x_world := snd (t (ExecuteAction sid env) (x_world s))\<rparr>)"
    using Q each_charge_grows(5) [of "x_ledger s"] by (simp add: counts_up_def grows_def)
qed

lemma counts_up_assign: "keeps counts_up (on_browser b)"
    "keeps counts_up (modify (\<lambda>s. s\<lparr>x_plan_id := p, x_topology := tp\<rparr>))" "keeps counts_up (modify (\<lambda>s. s\<lparr>x_session := sid\<rparr>))"
  by (auto simp: keeps_def modify_def counts_up_def on_browser_def split: prod.split sum.split client_error.split)

lemma keeps_body_counts:
  fixes t :: "'w transport"
  shows "keeps counts_up (run_body rt t req)"
proof -
  have plan: "keeps counts_up (on_ledger (charge_plan (int n) (int e) (int dp) (int bs)))" for n e dp bs
    by (rule counts_inv.keeps_on_ledger) (rule each_charge_grows)
  have drive: "keeps counts_up (drive_plan rt t req d topo sid h)" for d topo sid h
    by (rule counts_inv.keeps_drive_plan) (simp add: counts_inv.allows_def)
  show ?thesis
    unfolding run_body_eq Let_def
    by (auto intro!: keeps_andthen counts_up_assign plan drive counts_inv.keeps_accepted_finish)
qed

lemma budget_reason_short: "1 \<le> length (budget_reason_name r)" "budget_reason_name r \<noteq> []"
  by (cases r; simp)+

lemma make_result_ok:
  assumes "why \<noteq> []" and "length (x_results s) \<le> 16" and "length (x_topology s) \<le> 16"
    and "length (x_rejections s) \<le> 16" and "counts_up s"
  shows "run_result_ok (fst (make_result req st why s))"
  using assms by (cases why) (auto simp: run_result_ok_def make_result_def snapshot_def counts_up_def Let_def)

lemma close_after_uncancelled:
  assumes "uncancelled t"
  shows "fst (close_after t res s) = res"
  using assms by (auto simp: close_after_def client_close_session_def uncancelled_def
      split: option.split prod.split sum.split client_error.split) (metis fst_conv)+

lemma fixed_topology_length:
  assumes "v = validate_dag sha \<lparr>process = p, category = c, steps = fixed_steps q\<rparr>"
  shows "length (topology v) \<le> 16"
proof -
  have "valid v" unfolding assms by (rule fixed_plan_valid)
  then have "mset (topology v) = mset (step_ids (fixed_steps q))"
    unfolding assms using valid_topology_facts by fastforce
  then have "length (topology v) = length (fixed_steps q)"
    by (metis length_map size_mset step_ids_def)
  then show ?thesis by (cases q) (simp_all add: fixed_steps_def fixed_lengths)
qed

lemma run_result_facts:
  fixes t :: "'w transport"
  assumes "uncancelled t" and "\<And>c. 0 \<le> counters l c"
  obtains res where "fst (run rt t req l n w) = Some res" "run_result_ok res"
proof -
  obtain r s where body: "run_body rt t req (fresh_exec l n w) = (r, s)" by fastforce
  let ?v = "validate_dag (sha256 rt) (run_dag req)"
  have F: "framed [] [] None (fresh_exec l n w)" by (simp add: framed_def fresh_exec_def)
  have len: "length (topology ?v) \<le> 16" by (rule fixed_topology_length [OF refl])
  have up: "counts_up s" using keepsD [OF keeps_body_counts, of "fresh_exec l n w" rt t req] body assms(2)
    by (simp add: counts_up_def fresh_exec_def)
  have "length (x_rejections (snd (run_body rt t req (fresh_exec l n w)))) \<le> length (x_rejections (fresh_exec l n w)) + 2"
    using reports_run_body [of rt t req] unfolding reports_def by blast
  then have rej: "length (x_rejections s) \<le> 2" unfolding body by (simp add: fresh_exec_def)
  have ok: "\<exists>res s'. (case make_result req st why s0 of (res, s') \<Rightarrow> (Some res, s')) = (Some res, s') \<and> run_result_ok res"
    if "why \<noteq> []" "length (x_results s0) \<le> 16" "length (x_topology s0) \<le> 16" "length (x_rejections s0) \<le> 3" "counts_up s0"
    for st why and s0 :: "'w exec"
    using make_result_ok [of why s0 req st] that by (cases "make_result req st why s0") auto
  have "\<exists>res s'. run_outcome req r s = (Some res, s') \<and> run_result_ok res"
  proof (cases r)
    case (Inr f)
    then have "body_end req (topology ?v) (vplan_id ?v) f s" using triple_Inr [OF run_body_end F] body by blast
    then obtain st why where f: "f = Return st why" "why \<noteq> []"
      and "length (x_results s) \<le> 16" "length (x_topology s) \<le> 16"
      using len by (cases f) (auto simp: body_end_def framed_def)
    then show ?thesis using ok [of why s st] rej up Inr by (simp add: run_outcome_def)
  next
    case (Inl e)
    then have fail: "body_fail (topology ?v) s" using triple_Inl [OF run_body_end F] body by blast
    then have bounds: "length (x_results s) \<le> 16" "length (x_topology s) \<le> 16" using len by (auto simp: body_fail_def)
    have "explained e" using proper_run_body [OF assms(1), of rt req] body Inl unfolding raises_only_def by blast
    then show ?thesis
      using ok [of _ s] ok [of _ "s\<lparr>x_rejections := x_rejections s @ [_]\<rparr>"] bounds rej up Inl budget_reason_short(2)
      by (cases e) (auto simp: run_outcome_def explained_def counts_up_def split: option.split)
  qed
  then obtain res s' where "run_outcome req r s = (Some res, s')" "run_result_ok res" by blast
  then show ?thesis using close_after_uncancelled [OF assms(1), of "Some res" s'] body
    by (intro that [of res]) (simp_all add: run_def)
qed

subsection \<open>Properties\<close>

lemma finished_from_body:
  assumes "fst (run rt t req l n w) = Some res" and "status res = FinishedUngraded"
  shows "\<exists>why s. run_body rt t req (fresh_exec l n w) = (Inr (Return FinishedUngraded why), s) \<and>
     step_results res = x_results s \<and> rr_topology res = x_topology s \<and> rr_plan_id res = x_plan_id s"
proof -
  obtain r s where body: "run_body rt t req (fresh_exec l n w) = (r, s)" by fastforce
  obtain o' s' where out: "run_outcome req r s = (o', s')" by fastforce
  have "o' = Some res" using assms(1) body out
    by (auto simp: run_def close_after_def split: option.splits prod.splits sum.splits client_error.splits)
  then show ?thesis using out assms(2) body
    by (auto simp: run_outcome_def make_result_def snapshot_def Let_def
        split: sum.splits flow.splits exn.splits option.splits)
qed

lemma finished_run_facts:
  assumes "fst (run rt t req l n w) = Some res" and "status res = FinishedUngraded" and "scenario req \<noteq> FinishImmediately"
  shows "list_all2 verified_entry (rr_topology res) (step_results res) \<and>
     rr_topology res = topology (validate_dag (sha256 rt) (run_dag req)) \<and>
     rr_plan_id res = vplan_id (validate_dag (sha256 rt) (run_dag req))"
proof -
  obtain why s where b: "run_body rt t req (fresh_exec l n w) = (Inr (Return FinishedUngraded why), s)"
    and res: "step_results res = x_results s" "rr_topology res = x_topology s" "rr_plan_id res = x_plan_id s"
    using finished_from_body [OF assms(1,2)] by blast
  have F: "framed [] [] None (fresh_exec l n w)" by (simp add: framed_def fresh_exec_def)
  have "body_end req (topology (validate_dag (sha256 rt) (run_dag req))) (vplan_id (validate_dag (sha256 rt) (run_dag req)))
      (Return FinishedUngraded why) s"
    using triple_Inr [OF run_body_end F b] .
  then show ?thesis using assms(3) res by (auto simp: body_end_def framed_def)
qed

text \<open>
  C6. A run that reports \<open>finished_ungraded\<close> (outside the immediate-finish scenario) has verified
  every step of the generated plan, in the validated order: its results are one entry per step of its
  topology, each in state verified with the verdict of that step, the topology lists exactly the
  plan's steps, each after its dependencies, and the plan identifier is the hash of the plan.
\<close>

theorem finished_run_verified_every_step:
  assumes "fst (run rt t req l n w) = Some res" and "status res = FinishedUngraded" and "scenario req \<noteq> FinishImmediately"
  shows "list_all2 verified_entry (rr_topology res) (step_results res) \<and>
     mset (rr_topology res) = mset (step_ids (fixed_steps (pr_process (run_plan req)))) \<and>
     topological_order (fixed_steps (pr_process (run_plan req))) (rr_topology res) \<and>
     rr_plan_id res = Some (sha256 rt (canonical_dag_bytes (run_dag req)))"
proof -
  have valid: "valid (validate_dag (sha256 rt) (run_dag req))" by (rule fixed_plan_valid)
  show ?thesis
    using finished_run_facts [OF assms] valid_topology_facts [OF valid] valid by (auto simp: vplan_id_eq)
qed


text \<open>
  A run never sends more actions than its budget allows: those charged before it and those it
  sends are together at most \<open>max_steps\<close>.
\<close>

lemma run_actions_within_budget:
  assumes "0 \<le> counters l WorkerActions" and "counters l WorkerActions \<le> max_of (budget l) WorkerActions"
  shows "counters l WorkerActions + actions_sent (snd (run rt (recording t) req l n (w, []))) \<le> max_of (budget l) WorkerActions"
  by (rule run_actions_bound [OF assms])


end
