(* ===== verification/Executor_Runs.thy ===== *)
theory Executor_Runs
  imports Executor_Correct
begin

section \<open>A run over a willing worker finishes\<close>

text \<open>
  A worker that opens a session, shows pages that hold the elements the plan needs and accepts every
  action. Over such a worker the run of an accepted request finishes within the default budget: the
  limits of \<open>TotalBudget\<close> are enough for each of the three fixed plans.
\<close>

subsection \<open>Paying a list of charges\<close>

definition total_cost :: "charge list \<Rightarrow> counter \<Rightarrow> int" where
  "total_cost chs c = sum_list (map (\<lambda>ch. cost ch c) chs)"

definition fits :: "charge list \<Rightarrow> bool" where
  "fits chs \<longleftrightarrow> (\<forall>c. limited c \<longrightarrow> total_cost chs c \<le> max_of default_budget c)"

definition paid :: "charge list \<Rightarrow> ledger \<Rightarrow> bool" where
  "paid chs l \<longleftrightarrow> budget l = default_budget \<and> (\<forall>k. clock l k - started l \<le> 300) \<and>
     (\<forall>c. limited c \<longrightarrow> counters l c = total_cost chs c)"

lemma total_cost_append [simp]: "total_cost (xs @ ys) c = total_cost xs c + total_cost ys c"
  and total_cost_Nil [simp]: "total_cost [] c = 0"
  and total_cost_Cons [simp]: "total_cost (ch # xs) c = cost ch c + total_cost xs c"
  by (simp_all add: total_cost_def)

lemma cost_nonneg: "charge_nonneg ch \<Longrightarrow> 0 \<le> cost ch c"
  by (cases ch) (auto simp: cost_def split: option.splits dest!: map_of_SomeD)

lemma total_cost_nonneg: "list_all charge_nonneg chs \<Longrightarrow> 0 \<le> total_cost chs c"
  by (induction chs) (auto simp: cost_nonneg)

lemma fits_prefix: "fits (xs @ ys) \<Longrightarrow> list_all charge_nonneg ys \<Longrightarrow> fits xs"
  unfolding fits_def total_cost_append by (meson add_increasing2 dual_order.trans le_add_same_cancel1 total_cost_nonneg)

lemma paid_in_time: "paid chs l \<Longrightarrow> in_time l"
  by (simp add: paid_def in_time_def default_budget_def)

lemma pay:
  assumes "paid chs l" and "fits (chs @ [ch])" and "charge_nonneg ch"
  shows "\<exists>l'. apply_charge ch l = (Inr (), l') \<and> paid (chs @ [ch]) l'"
proof -
  have "fits chs" using fits_prefix assms(2,3) by simp
  then have within: "within_budget l" using assms(1) by (simp add: within_budget_def fits_def paid_def)
  have "affordable l ch" using assms(1,2) by (simp add: affordable_def fits_def paid_def)
  then obtain l' where l': "apply_charge ch l = (Inr (), l')"
    using charge_sound [OF within, of ch] paid_in_time [OF assms(1)]
    by (cases "apply_charge ch l"; cases "fst (apply_charge ch l)") (auto simp: charge_sound_def)
  have "paid (chs @ [ch]) l'"
    using charge_success [OF within l'] charge_same_run [of l ch] l' assms(1)
    by (simp add: paid_def same_run_def)
  with l' show ?thesis by blast
qed

subsection \<open>Methods that succeed\<close>

definition succeeds :: "('s \<Rightarrow> bool) \<Rightarrow> ('s, 'e, 'a) meth \<Rightarrow> 'a \<Rightarrow> ('s \<Rightarrow> bool) \<Rightarrow> bool" where
  "succeeds P m x Q \<longleftrightarrow> (\<forall>s. P s \<longrightarrow> (\<exists>s'. m s = (Inr x, s') \<and> Q s'))"

lemma succeeds_andthen: "succeeds P m x R \<Longrightarrow> succeeds R (f x) y Q \<Longrightarrow> succeeds P (andthen m f) y Q"
  by (fastforce simp: succeeds_def andthen_def)

lemma succeeds_ret: "(\<And>s. P s \<Longrightarrow> Q s) \<Longrightarrow> succeeds P (ret x) x Q"
  by (simp add: succeeds_def ret_def)

lemma succeeds_value: "r = Inr x \<Longrightarrow> succeeds P (or_raise r) x P"
  by (simp add: succeeds_def or_raise_def)

subsection \<open>The worker\<close>

definition accepted :: "string \<Rightarrow> dom_action \<Rightarrow> hybrid_observation option \<Rightarrow> action_result" where
  "accepted sid a h = \<lparr>ar_session_id = sid, ar_action_id = ''act_1'', ar_type = action_kind a, success = True,
     terminal = (h = None), ar_error = None, ar_message = [], ar_observation = h\<rparr>"

definition page_after :: "dom_action \<Rightarrow> page \<Rightarrow> page" where
  "page_after a p = (case a of DomNavigate _ u \<Rightarrow> (case PATH_PAGE u of Some p' \<Rightarrow> p' | None \<Rightarrow> p) | _ \<Rightarrow> p)"

definition willing :: "string \<Rightarrow> (page \<Rightarrow> hybrid_observation) \<Rightarrow> page transport" where
  "willing sid obs call p = (case call of
       CreateSession \<Rightarrow> (Inr (SessionReply \<lparr>sc_session_id = sid, sc_observation = obs Hris\<rparr>), Hris)
     | RequestObservation _ \<Rightarrow> (Inr (ObservationReply (obs p)), p)
     | ExecuteAction _ env \<Rightarrow>
         (let a = en_action env; p' = page_after a p in
          (Inr (ActionReply (accepted sid a (if action_kind a = Finish then None else Some (obs p')))), p'))
     | CloseSession _ \<Rightarrow> (Inr ClosedReply, p))"

text \<open>The pages it shows: valid observations of the session, of moderate size, on the right path.\<close>

definition shows_pages :: "runtime \<Rightarrow> string \<Rightarrow> (page \<Rightarrow> hybrid_observation) \<Rightarrow> bool" where
  "shows_pages rt sid obs \<longleftrightarrow> (\<forall>p. hybrid_observation_ok (obs p) \<and> ho_session_id (obs p) = sid \<and>
     page_of rt (obs p) = Inr p \<and> dom_bytes (signals (obs p)) \<le> 10922)"

text \<open>An instruction can be carried out on a page: its element is there, or it leads to the page.\<close>

definition feasible :: "hybrid_observation \<Rightarrow> page \<Rightarrow> instruction \<Rightarrow> bool" where
  "feasible h p i \<longleftrightarrow> i = go_to p \<or>
     (i_action i \<in> {Fill, Click, Read} \<and>
      (case find_element h (i_action i) (i_label i) of Inr el \<Rightarrow> element_ref_ok (element_ref el) | Inl _ \<Rightarrow> False) \<and>
      (case i_value i of None \<Rightarrow> True | Some v \<Rightarrow> length v \<le> 300))"

lemma feasible_iff: "feasible h p i \<longleftrightarrow> i = go_to p \<or>
     (i_action i \<in> {Fill, Click, Read} \<and> (\<exists>el. find_element h (i_action i) (i_label i) = Inr el \<and> element_ref_ok (element_ref el)) \<and>
      (case i_value i of None \<Rightarrow> True | Some v \<Rightarrow> length v \<le> 300))"
  by (auto simp: feasible_def split: sum.splits)

definition at_point :: "charge list \<Rightarrow> nat \<Rightarrow> page \<Rightarrow> machine \<Rightarrow> step_execution_result list \<Rightarrow> page exec \<Rightarrow> bool" where
  "at_point chs k p mm rs s \<longleftrightarrow> paid chs (x_ledger s) \<and> x_number s = k \<and> x_world s = p \<and> x_machine s = mm \<and> x_results s = rs"

lemma action_id_short: "k \<le> 30 \<Longrightarrow> action_id_ok (''act_w7_'' @ str_int (int k))"
proof -
  have "list_all (\<lambda>k. action_id_ok (''act_w7_'' @ str_int (int k))) [0..<31]" by code_simp
  then show "k \<le> 30 \<Longrightarrow> ?thesis" by (simp add: list_all_iff)
qed

lemma charge_succeeds:
  assumes "fits (chs @ [ch])" and "charge_nonneg ch" and "m = apply_charge ch"
  shows "succeeds (at_point chs k p mm rs) (on_ledger m) () (at_point (chs @ [ch]) k p mm rs)"
  unfolding succeeds_def
proof (intro allI impI)
  fix s assume s: "at_point chs k p mm rs s"
  then obtain l where "apply_charge ch (x_ledger s) = (Inr (), l)" "paid (chs @ [ch]) l"
    using pay assms(1,2) unfolding at_point_def by blast
  then show "\<exists>s'. on_ledger m s = (Inr (), s') \<and> at_point (chs @ [ch]) k p mm rs s'"
    using s assms(3) by (auto simp: on_ledger_def at_point_def)
qed

lemma observe_succeeds:
  assumes "fits (chs @ [DomObservation (int (dom_bytes (signals h)))])"
  shows "succeeds (at_point chs k p mm rs) (observe_charge h) ()
     (at_point (chs @ [DomObservation (int (dom_bytes (signals h)))]) k p mm rs)"
  unfolding observe_charge_def using assms by (intro charge_succeeds) auto

lemma reject_pays:
  assumes "paid chs l" and "fits (chs @ [ToolMatch True])"
  shows "\<exists>l'. reject why l = (\<lparr>matched = False, match_action = None, rejection_reason = Some why\<rparr>, l') \<and> paid (chs @ [ToolMatch True]) l'"
  using pay [OF assms] by (auto simp: reject_def)

lemma match_pays:
  assumes "paid chs l" and "fits (chs @ [ToolMatch False, Action])" and "a \<in> set (allowed_actions step)"
    and "a = Navigate \<or> pg = expected_page step" and "a \<in> wa"
  shows "\<exists>l'. match_tool step (action_name a) pg Dom wa l = (Inr \<lparr>matched = True, match_action = Some a, rejection_reason = None\<rparr>, l') \<and>
     paid (chs @ [ToolMatch False]) l'"
proof -
  have room: "counters l WorkerActions < max_of (budget l) WorkerActions"
    using assms(1,2) by (auto simp: paid_def fits_def limited_def cost_def dest!: spec [of _ WorkerActions])
  let ?l1 = "l\<lparr>readings := readings l + 1\<rparr>"
  have can: "can_execute_action l = (True, ?l1)"
    using paid_in_time [OF assms(1)] room by (simp add: can_execute_action_def check_time_def in_time_def Let_def)
  have "fits (chs @ [ToolMatch False])" using fits_prefix [of "chs @ [ToolMatch False]" "[Action]"] assms(2) by simp
  moreover have "paid chs ?l1" using assms(1) by (simp add: paid_def)
  ultimately obtain l' where "charge_tool_match False ?l1 = (Inr (), l')" "paid (chs @ [ToolMatch False]) l'"
    using pay [of chs ?l1 "ToolMatch False"] by auto
  then show ?thesis using assms(3-5) can
    by (auto simp: match_tool_def Let_def PAGE_TOOLS_def MODALITY_TOOLS_def GLOBAL_TOOLS_def) (cases a; simp)+
qed

subsection \<open>One instruction\<close>

abbreviation bytes_at :: "(page \<Rightarrow> hybrid_observation) \<Rightarrow> page \<Rightarrow> charge" where
  "bytes_at obs p \<equiv> DomObservation (int (dom_bytes (signals (obs p))))"

lemma path_page [simp]: "PATH_PAGE (PAGE_PATH p) = Some p"
  by (cases p) (simp_all add: PATH_PAGE_def)

lemma shows_pagesD:
  assumes "shows_pages rt sid obs"
  shows "page_of rt (obs p) = Inr p" "hybrid_observation_ok (obs p)" "ho_session_id (obs p) = sid"
    "dom_bytes (signals (obs p)) \<le> 10922" "session_id_ok sid" "1 \<le> generation (obs p)" "generation (obs p) \<le> 24"
    "observation_id_ok (observation_id (observation (obs p)))"
  using assms by (auto simp: shows_pages_def hybrid_observation_ok_def dom_observation_ok_def)

lemma page_path_allowed: "PAGE_PATH p \<in> {''/hris'', ''/itsm'', ''/iam'', ''/assets'', ''/mail''}"
  by (cases p) simp_all

lemma find_element_in: "find_element h a lb = Inr el \<Longrightarrow>
    el \<in> set (interactive_elements (observation h)) \<and> a \<in> set (el_actions el) \<and> \<not> disabled (el_state el)"
proof -
  assume f: "find_element h a lb = Inr el"
  let ?cands = "filter (\<lambda>e. a \<in> set (el_actions e) \<and> \<not> disabled (el_state e)) (interactive_elements (observation h))"
  have "el \<in> set ?cands"
  proof (cases lb)
    case None
    then show ?thesis using f by (cases ?cands) (simp_all add: find_element_def)
  next
    case (Some l)
    let ?named = "filter (\<lambda>e. casefold (strip (el_name e)) = casefold (strip l)) ?cands"
    have "el \<in> set ?named" using f Some by (cases ?named) (simp_all add: find_element_def del: filter_filter)
    then show ?thesis by simp
  qed
  then show ?thesis by simp
qed

lemma feasible_action: "feasible h p i \<Longrightarrow> i_action i \<in> worker_allowed h"
  unfolding feasible_iff by (auto simp: go_to_def worker_allowed_def dest: find_element_in)

text \<open>The action that carries out a feasible instruction.\<close>

lemma feasible_build:
  assumes sh: "shows_pages rt sid obs" and f: "feasible (obs p) q i" and "action_id_ok aid" and "i = go_to q \<or> p = q"
  shows "\<exists>a. build_action (obs p) i aid = Inr a \<and> dom_action_ok a \<and> action_kind a = i_action i \<and> page_after a p = q"
proof (cases "i = go_to q")
  case True
  then show ?thesis using assms(3) page_path_allowed [of q]
    by (simp add: build_action_def go_to_def required_page_def dom_action_ok_def page_after_def)
next
  case False
  then obtain el where "find_element (obs p) (i_action i) (i_label i) = Inr el" "element_ref_ok (element_ref el)"
    "i_action i \<in> {Fill, Click, Read}" "case i_value i of None \<Rightarrow> True | Some v \<Rightarrow> length v \<le> 300" "p = q"
    using f assms(4) by (auto simp: feasible_iff)
  then show ?thesis using assms(3) shows_pagesD(8) [OF sh]
    by (auto simp: build_action_def dom_action_ok_def page_after_def Let_def split: option.splits)
qed

lemma envelope_succeeds:
  assumes sh: "shows_pages rt sid obs" and f: "feasible (obs p) q i" and "k < 30" and "i = go_to q \<or> p = q"
  shows "\<exists>env. succeeds (at_point chs k p mm rs) (envelope (obs p) i) env (at_point chs (Suc k) p mm rs) \<and>
     action_kind (en_action env) = i_action i \<and> page_after (en_action env) p = q"
proof -
  obtain a where a: "build_action (obs p) i (''act_w7_'' @ str_int (int (Suc k))) = Inr a" "dom_action_ok a"
    "action_kind a = i_action i" "page_after a p = q"
    using feasible_build [OF sh f action_id_short [of "Suc k"] assms(4)] assms(3) by auto
  let ?env = "\<lparr>en_session_id = ho_session_id (obs p), en_generation = generation (obs p), en_action = a\<rparr>"
  have ok: "validated ?env = Inr ?env"
    using a(2) shows_pagesD [OF sh] by (simp add: validated_def envelope_ok_def)
  have number: "succeeds (at_point chs k p mm rs) next_action_id (''act_w7_'' @ str_int (int (Suc k))) (at_point chs (Suc k) p mm rs)"
    by (auto simp: succeeds_def next_action_id_def at_point_def)
  have "succeeds (at_point chs k p mm rs) (envelope (obs p) i) ?env (at_point chs (Suc k) p mm rs)"
    unfolding envelope_def
    by (rule succeeds_andthen [OF number], rule succeeds_andthen [OF succeeds_value [OF a(1)]], rule succeeds_value [OF ok])
  with a show ?thesis by auto
qed

lemma execute_succeeds:
  assumes sh: "shows_pages rt sid obs"
  shows "succeeds (at_point chs k p mm rs) (on_browser (client_execute_action (willing sid obs) sid' env))
     (accepted sid (en_action env) (if action_kind (en_action env) = Finish then None else Some (obs (page_after (en_action env) p))))
     (at_point chs k (page_after (en_action env) p) mm rs)"
proof -
  have "action_id_ok ''act_1''" by code_simp
  then have "action_result_ok (accepted sid a (if action_kind a = Finish then None else Some (obs p')))" for a p'
    using shows_pagesD [OF sh] by (simp add: action_result_ok_def accepted_def at_most_def)
  then show ?thesis
    by (auto simp: succeeds_def on_browser_def client_execute_action_def expect_def willing_def at_point_def Let_def)
qed

lemma match_succeeds:
  assumes sh: "shows_pages rt sid obs" and "fits (chs @ [ToolMatch False, Action])" and "a \<in> set (allowed_actions step)"
    and "a = Navigate \<or> p = expected_page step" and "a \<in> wa"
  shows "succeeds (at_point chs k p mm rs) (match_in rt step (action_name a) (obs p) wa)
     \<lparr>matched = True, match_action = Some a, rejection_reason = None\<rparr> (at_point (chs @ [ToolMatch False]) k p mm rs)"
  unfolding match_in_def
  by (rule succeeds_andthen [OF succeeds_value [OF shows_pagesD(1) [OF sh]]])
    (use match_pays [OF _ assms(2-5)] in \<open>fastforce simp: succeeds_def on_ledger_def at_point_def\<close>)

text \<open>The charges of a list of instructions that end on page \<open>q\<close>.\<close>

definition instr_charges :: "(page \<Rightarrow> hybrid_observation) \<Rightarrow> page \<Rightarrow> nat \<Rightarrow> charge list" where
  "instr_charges obs q n = concat (replicate n [ToolMatch False, Action, bytes_at obs q])"

lemma instr_charges_Suc: "instr_charges obs q (Suc n) = [ToolMatch False, Action, bytes_at obs q] @ instr_charges obs q n"
  by (simp add: instr_charges_def)

lemma instr_charges_nonneg [simp]: "list_all charge_nonneg (instr_charges obs q n)"
  by (induction n) (auto simp: instr_charges_def)

lemma instruction_succeeds:
  assumes sh: "shows_pages rt sid obs" and f: "feasible (obs p) q i" and "k < 30" and pq: "i = go_to q \<or> p = q"
    and q: "expected_page step = q" and act: "i_action i \<in> set (allowed_actions step)" "i_action i \<noteq> Finish"
    and fits: "fits (chs @ [ToolMatch False, Action, bytes_at obs q])"
    and rest: "succeeds (at_point (chs @ [ToolMatch False, Action, bytes_at obs q]) (Suc k) q mm rs)
      (execute_instructions rt (willing sid obs) sid step is (obs q) True (Suc n)) y Q"
  shows "succeeds (at_point chs k p mm rs) (execute_instructions rt (willing sid obs) sid step (i # is) (obs p) ok n) y Q"
proof -
  obtain env where env: "succeeds (at_point (chs @ [ToolMatch False]) k p mm rs) (envelope (obs p) i) env (at_point (chs @ [ToolMatch False]) (Suc k) p mm rs)"
    "action_kind (en_action env) = i_action i" "page_after (en_action env) p = q"
    using envelope_succeeds [OF sh f assms(3) pq] by blast
  have nav: "i_action i = Navigate \<or> p = expected_page step" using pq q by (auto simp: go_to_def)
  have f2: "fits (chs @ [ToolMatch False, Action])"
    using fits_prefix [of "chs @ [ToolMatch False, Action]" "[bytes_at obs q]"] fits by simp
  have m: "succeeds (at_point chs k p mm rs) (match_in rt step (action_name (i_action i)) (obs p) (worker_allowed (obs p)))
     \<lparr>matched = True, match_action = Some (i_action i), rejection_reason = None\<rparr> (at_point (chs @ [ToolMatch False]) k p mm rs)"
    by (rule match_succeeds [OF sh f2 act(1) nav feasible_action [OF f]])
  have c: "succeeds (at_point (chs @ [ToolMatch False]) (Suc k) p mm rs) (on_ledger charge_action) () (at_point (chs @ [ToolMatch False, Action]) (Suc k) p mm rs)"
    using charge_succeeds [of "chs @ [ToolMatch False]" Action charge_action] f2 by simp
  have x: "succeeds (at_point (chs @ [ToolMatch False, Action]) (Suc k) p mm rs) (on_browser (client_execute_action (willing sid obs) sid env))
      (accepted sid (en_action env) (Some (obs q))) (at_point (chs @ [ToolMatch False, Action]) (Suc k) q mm rs)"
    using execute_succeeds [OF sh, of "chs @ [ToolMatch False, Action]" "Suc k" p mm rs sid env] env(2,3) act(2) by simp
  have ob: "succeeds (at_point (chs @ [ToolMatch False, Action]) (Suc k) q mm rs) (observe_charge (obs q)) ()
      (at_point (chs @ [ToolMatch False, Action, bytes_at obs q]) (Suc k) q mm rs)"
    using observe_succeeds [of "chs @ [ToolMatch False, Action]" "obs q"] fits by simp
  show ?thesis
    unfolding execute_instructions.simps
    apply (rule succeeds_andthen [OF m])
    apply simp
    apply (rule succeeds_andthen [OF env(1)])
    apply (rule succeeds_andthen [OF c])
    apply (rule succeeds_andthen [OF x])
    apply (simp add: accepted_def)
    apply (rule succeeds_andthen [OF ob])
    using rest apply simp
    done
qed

text \<open>The whole list of a step: from any page when it starts with the navigation, else on the page.\<close>

lemma instructions_on_page:
  assumes sh: "shows_pages rt sid obs" and q: "expected_page step = q"
    and "list_all (\<lambda>i. feasible (obs q) q i \<and> i_action i \<in> set (allowed_actions step) \<and> i_action i \<noteq> Finish) is"
    and "k + length is \<le> 30" and "fits (chs @ instr_charges obs q (length is))"
  shows "succeeds (at_point chs k q mm rs) (execute_instructions rt (willing sid obs) sid step is (obs q) True n)
      (obs q, True, n + length is) (at_point (chs @ instr_charges obs q (length is)) (k + length is) q mm rs)"
  using assms(3-5)
proof (induction "is" arbitrary: chs k n)
  case Nil
  then show ?case by (simp add: succeeds_ret instr_charges_def)
next
  case (Cons i "is")
  have split: "chs @ instr_charges obs q (length (i # is)) =
      (chs @ [ToolMatch False, Action, bytes_at obs q]) @ instr_charges obs q (length is)"
    by (simp add: instr_charges_Suc)
  have fits: "fits (chs @ [ToolMatch False, Action, bytes_at obs q])"
    by (rule fits_prefix [of _ "instr_charges obs q (length is)"]) (use Cons.prems(3) split in auto)
  have rest: "succeeds (at_point (chs @ [ToolMatch False, Action, bytes_at obs q]) (Suc k) q mm rs)
      (execute_instructions rt (willing sid obs) sid step is (obs q) True (Suc n))
      (obs q, True, Suc n + length is)
      (at_point ((chs @ [ToolMatch False, Action, bytes_at obs q]) @ instr_charges obs q (length is)) (Suc k + length is) q mm rs)"
    by (rule Cons.IH) (use Cons.prems split in auto)
  show ?case
    using instruction_succeeds [OF sh _ _ _ q _ _ fits rest, where i = i and p = q and ok = True] Cons.prems(1,2) split
    by (simp del: execute_instructions.simps)
qed

lemma instructions_from:
  assumes sh: "shows_pages rt sid obs" and q: "expected_page step = q"
    and ok: "list_all (\<lambda>i. feasible (obs q) q i \<and> i_action i \<in> set (allowed_actions step) \<and> i_action i \<noteq> Finish) is"
    and nav: "Navigate \<in> set (allowed_actions step)"
    and "k + Suc (length is) \<le> 30" and fits: "fits (chs @ instr_charges obs q (Suc (length is)))"
  shows "succeeds (at_point chs k p mm rs) (execute_instructions rt (willing sid obs) sid step (go_to q # is) (obs p) False 0)
      (obs q, True, Suc (length is)) (at_point (chs @ instr_charges obs q (Suc (length is))) (k + Suc (length is)) q mm rs)"
proof -
  have split: "chs @ instr_charges obs q (Suc (length is)) =
      (chs @ [ToolMatch False, Action, bytes_at obs q]) @ instr_charges obs q (length is)"
    by (simp add: instr_charges_Suc)
  have fits1: "fits (chs @ [ToolMatch False, Action, bytes_at obs q])"
    by (rule fits_prefix [of _ "instr_charges obs q (length is)"]) (use fits split in auto)
  have rest: "succeeds (at_point (chs @ [ToolMatch False, Action, bytes_at obs q]) (Suc k) q mm rs)
      (execute_instructions rt (willing sid obs) sid step is (obs q) True (Suc 0))
      (obs q, True, Suc 0 + length is)
      (at_point ((chs @ [ToolMatch False, Action, bytes_at obs q]) @ instr_charges obs q (length is)) (Suc k + length is) q mm rs)"
    by (rule instructions_on_page [OF sh q ok]) (use assms(5) fits split in auto)
  have "feasible (obs p) q (go_to q)" by (simp add: feasible_iff)
  moreover have "i_action (go_to q) = Navigate" by (simp add: go_to_def)
  ultimately show ?thesis
    using instruction_succeeds [OF sh _ _ _ q _ _ fits1 rest, where i = "go_to q" and p = p and ok = False] nav assms(5) split
    by (simp del: execute_instructions.simps)
qed

subsection \<open>One step of the plan\<close>

text \<open>The other instructions of a step, after its navigation.\<close>

definition step_feasible :: "(page \<Rightarrow> hybrid_observation) \<Rightarrow> supplied_values \<Rightarrow> plan_step \<Rightarrow> nat \<Rightarrow> bool" where
  "step_feasible obs vs step n \<longleftrightarrow> (case instructions step vs of
       Inr (nav # is) \<Rightarrow> nav = go_to (expected_page step) \<and> length is = n \<and> Navigate \<in> set (allowed_actions step) \<and>
         list_all (\<lambda>i. feasible (obs (expected_page step)) (expected_page step) i \<and>
           i_action i \<in> set (allowed_actions step) \<and> i_action i \<noteq> Finish) is
     | _ \<Rightarrow> False)"

lemma step_feasible_iff: "step_feasible obs vs step n \<longleftrightarrow>
     (\<exists>is. instructions step vs = Inr (go_to (expected_page step) # is) \<and> length is = n \<and>
       Navigate \<in> set (allowed_actions step) \<and>
       list_all (\<lambda>i. feasible (obs (expected_page step)) (expected_page step) i \<and>
         i_action i \<in> set (allowed_actions step) \<and> i_action i \<noteq> Finish) is)"
  by (auto simp: step_feasible_def split: sum.splits list.splits)

definition step_charges :: "(page \<Rightarrow> hybrid_observation) \<Rightarrow> bool \<Rightarrow> page \<Rightarrow> nat \<Rightarrow> charge list" where
  "step_charges obs first q n = Step False # instr_charges obs q n @ (if first then [bytes_at obs q] else []) @ [Verifier first]"

lemma step_charges_nonneg [simp]: "list_all charge_nonneg (step_charges obs first q n)"
  by (simp add: step_charges_def)

definition done_entry :: "step_id \<Rightarrow> nat \<Rightarrow> step_execution_result" where
  "done_entry i n = \<lparr>ser_step_id = i, ser_state = Verified, action_count = n,
     verifier = Some \<lparr>vres_step_id = i, vstatus = VVerified, vreason = ConditionsSatisfied\<rparr>\<rparr>"

lemma verifier_succeeds:
  assumes "fits (chs @ [Verifier probe])" and "\<not> force_inconclusive r" and "vr_current_page r = Some (vr_expected_page r)"
    and "observation_generation r \<noteq> None" and "action_success r"
  shows "succeeds (at_point chs k p mm rs) (on_verifier r probe)
     \<lparr>vres_step_id = vr_step_id r, vstatus = VVerified, vreason = ConditionsSatisfied\<rparr> (at_point (chs @ [Verifier probe]) k p mm rs)"
  unfolding succeeds_def
proof (intro allI impI)
  fix s assume s: "at_point chs k p mm rs s"
  then obtain l where "charge_verifier probe (x_ledger s) = (Inr (), l)" "paid (chs @ [Verifier probe]) l"
    using pay [of chs "x_ledger s" "Verifier probe"] assms(1) unfolding at_point_def by auto
  then show "\<exists>s'. on_verifier r probe s = (Inr \<lparr>vres_step_id = vr_step_id r, vstatus = VVerified, vreason = ConditionsSatisfied\<rparr>, s') \<and>
      at_point (chs @ [Verifier probe]) k p mm rs s'"
    using s assms(2-5) by (auto simp: on_verifier_def verify_step_def verdict_def at_point_def)
qed

lemma machine_succeeds:
  assumes "m mm = (Inr x, mm')"
  shows "succeeds (at_point chs k p mm rs) (on_machine m) (Inr x) (at_point chs k p mm' rs)"
  using assms by (auto simp: succeeds_def on_machine_def at_point_def)

lemma run_step_succeeds:
  assumes sh: "shows_pages rt sid obs" and find: "find_step d i = Inr step" and q: "expected_page step = q"
    and feas: "step_feasible obs (supplied (run_plan req)) step n" and sc: "scenario req \<noteq> VerifierInconclusive"
    and startable: "start i mm = (Inr (), set_state i Executing mm)"
    and k: "k + Suc n \<le> 30" and fits: "fits (chs @ step_charges obs first q (Suc n))"
  shows "succeeds (at_point chs k p mm rs) (run_step rt (willing sid obs) req d sid first i (obs p)) (Go (obs q))
     (at_point (chs @ step_charges obs first q (Suc n)) (k + Suc n) q (set_state i Verified (set_state i Executing mm))
        (rs @ [done_entry i (Suc n)]))"
proof -
  let ?mm = "set_state i Executing mm"
  have sid: "step_id step = i" using find by (auto dest: charged_inv.find_step_in)
  obtain "is" where is1: "instructions step (supplied (run_plan req)) = Inr (go_to q # is)" and is2: "length is = n"
      "Navigate \<in> set (allowed_actions step)"
      "list_all (\<lambda>i. feasible (obs q) q i \<and> i_action i \<in> set (allowed_actions step) \<and> i_action i \<noteq> Finish) is"
    using feas q unfolding step_feasible_iff by auto
  let ?c1 = "chs @ [Step False]" and ?c2 = "(chs @ [Step False]) @ instr_charges obs q (Suc n)"
  let ?c3 = "((chs @ [Step False]) @ instr_charges obs q (Suc n)) @ (if first then [bytes_at obs q] else [])"
  have all: "chs @ step_charges obs first q (Suc n) = ?c3 @ [Verifier first]" by (simp add: step_charges_def)
  have fits3: "fits (?c3 @ [Verifier first])" using fits all by simp
  have fits2: "fits ?c3" by (rule fits_prefix [OF fits3]) simp
  have fits1: "fits ?c2" by (rule fits_prefix [OF fits2]) simp
  have fits0: "fits ?c1" by (rule fits_prefix [OF fits1]) simp
  have started: "succeeds (at_point chs k p mm rs) (start_or_block i) (Go ()) (at_point chs k p ?mm rs)"
    unfolding start_or_block_def
    by (rule succeeds_andthen [OF machine_succeeds [where m = "start i", OF startable]]) (simp add: succeeds_ret)
  have charged: "succeeds (at_point chs k p ?mm rs) (on_ledger (charge_step False)) () (at_point ?c1 k p ?mm rs)"
    by (rule charge_succeeds) (use fits0 in auto)
  have acted: "succeeds (at_point ?c1 k p ?mm rs) (execute_operation rt (willing sid obs) sid (obs p) step (supplied (run_plan req)))
      (obs q, True, Suc n) (at_point ?c2 (k + Suc n) q ?mm rs)"
    unfolding execute_operation_def
    by (rule succeeds_andthen [OF succeeds_value [OF is1]])
      (use instructions_from [OF sh q is2(3,2), of k ?c1 p ?mm rs] k fits1 is2(1) in simp)
  have probed: "succeeds (at_point ?c2 (k + Suc n) q ?mm rs) (probe_observation (willing sid obs) sid first (obs q)) (obs q)
      (at_point ?c3 (k + Suc n) q ?mm rs)"
  proof (cases first)
    case True
    have "succeeds (at_point ?c2 (k + Suc n) q ?mm rs) (on_browser (client_request_observation (willing sid obs) sid)) (obs q)
        (at_point ?c2 (k + Suc n) q ?mm rs)"
      using shows_pagesD(2) [OF sh]
      by (auto simp: succeeds_def on_browser_def client_request_observation_def expect_def willing_def at_point_def)
    then show ?thesis
      unfolding probe_observation_def using True fits2
      by (auto intro!: succeeds_andthen [OF _ succeeds_andthen [OF observe_succeeds]] succeeds_ret)
  qed (simp add: probe_observation_def succeeds_ret)
  have judged: "succeeds (at_point ?c3 (k + Suc n) q ?mm rs)
      (on_verifier \<lparr>vr_step_id = step_id step, vr_expected_page = expected_page step, vr_current_page = Some q,
         observation_generation = Some (generation (obs q)), action_success = True, vr_postconditions = postconditions step,
         force_inconclusive = (scenario req = VerifierInconclusive \<and> b)\<rparr> first)
      \<lparr>vres_step_id = i, vstatus = VVerified, vreason = ConditionsSatisfied\<rparr>
      (at_point (?c3 @ [Verifier first]) (k + Suc n) q ?mm rs)" for b
    using verifier_succeeds [OF fits3, of "\<lparr>vr_step_id = step_id step, vr_expected_page = expected_page step, vr_current_page = Some q,
         observation_generation = Some (generation (obs q)), action_success = True, vr_postconditions = postconditions step,
         force_inconclusive = (scenario req = VerifierInconclusive \<and> b)\<rparr>"] sc q sid by simp
  have first: "succeeds (at_point ?c3 (k + Suc n) q ?mm rs) no_results (rs = []) (at_point ?c3 (k + Suc n) q ?mm rs)"
    by (auto simp: succeeds_def no_results_def at_point_def)
  have verified: "verify i ?mm = (Inr (), set_state i Verified ?mm)" by (simp add: verify_ok_iff)
  have recorded: "succeeds (at_point c k' p' mm' rs) (add_result r) () (at_point c k' p' mm' (rs @ [r]))" for c k' p' mm' r
    by (auto simp: succeeds_def add_result_def modify_def at_point_def)
  have marked: "succeeds (at_point c k' p' ?mm rs) (must (verify i)) () (at_point c k' p' (set_state i Verified ?mm) rs)" for c k' p'
    unfolding must_def
    by (rule succeeds_andthen [OF machine_succeeds [where m = "verify i", OF verified]]) (simp add: succeeds_ret)
  have settled_eq: "settle step i (Suc n) \<lparr>vres_step_id = i, vstatus = VVerified, vreason = ConditionsSatisfied\<rparr> =
      andthen (must (verify i)) (\<lambda>_. andthen (add_result (done_entry i (Suc n))) (\<lambda>_. ret (Go ())))"
    by (simp add: settle_def done_entry_def)
  have settled: "succeeds (at_point (?c3 @ [Verifier first]) (k + Suc n) q ?mm rs)
      (settle step i (Suc n) \<lparr>vres_step_id = i, vstatus = VVerified, vreason = ConditionsSatisfied\<rparr>) (Go ())
      (at_point (?c3 @ [Verifier first]) (k + Suc n) q (set_state i Verified ?mm) (rs @ [done_entry i (Suc n)]))"
    unfolding settled_eq
    by (rule succeeds_andthen [OF marked], rule succeeds_andthen [OF recorded], rule succeeds_ret)
  show ?thesis
    unfolding run_step_def act_and_verify_def all
    apply (rule succeeds_andthen [OF succeeds_value [OF find]])
    apply (rule succeeds_andthen [OF started])
    apply (simp only: flow.case)
    apply (rule succeeds_andthen [OF charged])
    apply (rule succeeds_andthen [OF acted])
    apply (simp only: prod.case)
    apply (rule succeeds_andthen [OF probed])
    apply (rule succeeds_andthen [OF succeeds_value [OF shows_pagesD(1) [OF sh]]])
    apply (rule succeeds_andthen [OF first])
    apply (rule succeeds_andthen [OF judged])
    apply (rule succeeds_andthen [OF settled])
    apply (simp add: succeeds_ret)
    done
qed

subsection \<open>The whole plan\<close>

text \<open>What a plan needs of the worker: \<open>cnt i\<close> instructions after the navigation of step \<open>i\<close>.\<close>

definition plan_feasible :: "planning_dag \<Rightarrow> (page \<Rightarrow> hybrid_observation) \<Rightarrow> supplied_values \<Rightarrow> (step_id \<Rightarrow> nat) \<Rightarrow> bool" where
  "plan_feasible d obs vs cnt \<longleftrightarrow> list_all (\<lambda>s. step_feasible obs vs s (cnt (step_id s))) (steps d)"

definition page_at :: "planning_dag \<Rightarrow> step_id \<Rightarrow> page" where
  "page_at d i = (case find_step d i of Inr s \<Rightarrow> expected_page s | Inl _ \<Rightarrow> Hris)"

fun plan_charges :: "planning_dag \<Rightarrow> (page \<Rightarrow> hybrid_observation) \<Rightarrow> (step_id \<Rightarrow> nat) \<Rightarrow> bool \<Rightarrow> step_id list \<Rightarrow> charge list" where
  "plan_charges d obs cnt first [] = []"
| "plan_charges d obs cnt first (i # is) =
     step_charges obs first (page_at d i) (Suc (cnt i)) @ plan_charges d obs cnt False is"

lemma plan_charges_nonneg [simp]: "list_all charge_nonneg (plan_charges d obs cnt first is)"
  by (induction d obs cnt first "is" rule: plan_charges.induct) simp_all

lemma find_step_by_id: "i \<in> set (step_ids (steps d)) \<Longrightarrow> \<exists>s. find_step d i = Inr s \<and> s \<in> set (steps d) \<and> step_id s = i"
proof -
  assume "i \<in> set (step_ids (steps d))"
  then have "find (\<lambda>s. step_id s = i) (steps d) \<noteq> None" by (auto simp: find_None_iff set_step_ids)
  then obtain s where "find (\<lambda>s. step_id s = i) (steps d) = Some s" by blast
  then have "find_step d i = Inr s" by (simp add: find_step_def step_by_id_def)
  then show ?thesis using charged_inv.find_step_in by blast
qed

lemma run_steps_succeeds:
  assumes sh: "shows_pages rt sid obs" and feas: "plan_feasible d obs (supplied (run_plan req)) cnt"
    and sc: "scenario req \<noteq> VerifierInconclusive" and dist: "distinct (step_ids (steps d))"
    and "topological_order (steps d) (verified @ todo)" and "distinct (verified @ todo)"
    and "set todo \<subseteq> set (step_ids (steps d))" and "m_steps mm = by_id (steps d)"
    and "\<forall>i \<in> set verified. m_states mm i = Some Verified" and "\<forall>i \<in> set todo. m_states mm i = Some Pending"
    and "k + sum_list (map (\<lambda>i. Suc (cnt i)) todo) \<le> 30" and "fits (chs @ plan_charges d obs cnt first todo)"
  shows "\<exists>mm' rs'. succeeds (at_point chs k p mm rs) (run_steps rt (willing sid obs) req d sid first todo (obs p))
      (Go (obs (last (p # map (page_at d) todo))))
      (at_point (chs @ plan_charges d obs cnt first todo) (k + sum_list (map (\<lambda>i. Suc (cnt i)) todo))
         (last (p # map (page_at d) todo)) mm' rs')"
  using assms(5-)
proof (induction todo arbitrary: verified chs k p mm rs first)
  case Nil
  show ?case by (rule exI [of _ mm], rule exI [of _ rs]) (simp add: succeeds_ret)
next
  case (Cons i todo)
  let ?q = "page_at d i" and ?mm = "set_state i Verified (set_state i Executing mm)"
  let ?chs = "chs @ step_charges obs first ?q (Suc (cnt i))" and ?rs = "rs @ [done_entry i (Suc (cnt i))]"
  obtain s where s: "find_step d i = Inr s" "s \<in> set (steps d)" "step_id s = i"
    using find_step_by_id [of i d] Cons.prems(3) by auto
  have q: "expected_page s = ?q" using s(1) by (simp add: page_at_def)
  have f: "step_feasible obs (supplied (run_plan req)) s (cnt i)"
    using feas s by (auto simp: plan_feasible_def list_all_iff)
  have start: "start i mm = (Inr (), set_state i Executing mm)"
    by (rule topological_start [OF Cons.prems(4) dist Cons.prems(1)]) (use Cons.prems in auto)
  have fits1: "fits ?chs" by (rule fits_prefix [of _ "plan_charges d obs cnt False todo"]) (use Cons.prems(8) in auto)
  have one: "succeeds (at_point chs k p mm rs) (run_step rt (willing sid obs) req d sid first i (obs p)) (Go (obs ?q))
      (at_point ?chs (k + Suc (cnt i)) ?q ?mm ?rs)"
    by (rule run_step_succeeds [OF sh s(1) q f sc start]) (use Cons.prems(7) fits1 in auto)
  have "\<exists>mm' rs'. succeeds (at_point ?chs (k + Suc (cnt i)) ?q ?mm ?rs) (run_steps rt (willing sid obs) req d sid False todo (obs ?q))
      (Go (obs (last (?q # map (page_at d) todo))))
      (at_point (?chs @ plan_charges d obs cnt False todo) ((k + Suc (cnt i)) + sum_list (map (\<lambda>i. Suc (cnt i)) todo))
         (last (?q # map (page_at d) todo)) mm' rs')"
    by (rule Cons.IH [of "verified @ [i]"]) (use Cons.prems in auto)
  then obtain mm' rs' where rest: "succeeds (at_point ?chs (k + Suc (cnt i)) ?q ?mm ?rs)
      (run_steps rt (willing sid obs) req d sid False todo (obs ?q)) (Go (obs (last (?q # map (page_at d) todo))))
      (at_point (?chs @ plan_charges d obs cnt False todo) ((k + Suc (cnt i)) + sum_list (map (\<lambda>i. Suc (cnt i)) todo))
         (last (?q # map (page_at d) todo)) mm' rs')"
    by blast
  have "succeeds (at_point chs k p mm rs) (run_steps rt (willing sid obs) req d sid first (i # todo) (obs p))
      (Go (obs (last (?q # map (page_at d) todo))))
      (at_point (?chs @ plan_charges d obs cnt False todo) ((k + Suc (cnt i)) + sum_list (map (\<lambda>i. Suc (cnt i)) todo))
         (last (?q # map (page_at d) todo)) mm' rs')"
    unfolding run_steps.simps by (rule succeeds_andthen [OF one]) (use rest in simp)
  then show ?case by (intro exI [of _ mm'] exI [of _ rs']) (simp add: add.assoc)
qed

subsection \<open>The run\<close>

text \<open>How many instructions follow the navigation of each step of the fixed plans.\<close>

definition fixed_counts :: "step_id \<Rightarrow> nat" where
  "fixed_counts i = (case map_of [(''s00_inspect'', 1), (''s10_ticket'', 3), (''s20_account'', 3), (''s30_asset'', 4),
     (''s40_mail'', 3), (''s90_finalize'', 1), (''s10_transfer'', 6), (''s20_close'', 3), (''s10_disable_employee'', 3),
     (''s20_close_ticket'', 3), (''s30_revoke_account'', 3), (''s40_release_asset'', 3), (''s50_disable_mail'', 3)] i of
     Some n \<Rightarrow> n | None \<Rightarrow> 0)"

definition run_charges :: "planning_dag \<Rightarrow> (page \<Rightarrow> hybrid_observation) \<Rightarrow> charge \<Rightarrow> step_id list \<Rightarrow> charge list" where
  "run_charges d obs plan topo = ([plan] @ [bytes_at obs Hris] @ [ToolMatch True]) @ plan_charges d obs fixed_counts True topo @
     [ToolMatch False, Action]"

lemma fixed_kahn: "kahn_topology (fixed_steps p) = step_ids (fixed_steps p)"
  by (cases p) (simp_all only: fixed_steps_def business_process.case, code_simp+)

lemma fixed_topology:
  "topology (validate_dag sha \<lparr>process = p, category = c, steps = fixed_steps q\<rparr>) = step_ids (fixed_steps q)"
proof -
  let ?d = "\<lparr>process = p, category = c, steps = fixed_steps q\<rparr>"
  have "valid (validate_dag sha ?d)" by (rule fixed_plan_valid)
  then have "topology (validate_dag sha ?d) = kahn_topology (fixed_steps q)"
    by (auto simp: validate_dag_def Let_def split: if_splits)
  then show ?thesis by (simp add: fixed_kahn)
qed

lemma total_instr: "total_cost (instr_charges obs q n) c =
    int n * (cost (ToolMatch False) c + cost Action c + cost (bytes_at obs q) c)"
  by (induction n) (simp_all add: instr_charges_def algebra_simps)

lemma fixed_run_fits:
  assumes "\<And>p. dom_bytes (signals (obs p)) \<le> 10922"
  shows "fits (run_charges \<lparr>process = p, category = c, steps = fixed_steps q\<rparr> obs (Plan n e dp bs) (step_ids (fixed_steps q)))"
  unfolding fits_def
proof (intro allI impI)
  fix k assume "limited k"
  have b: "int (dom_bytes (signals (obs p))) \<le> 10922" for p using assms [of p] by simp
  note b5 = b [of Hris] b [of Itsm] b [of Iam] b [of Assets] b [of Mail]
  show "total_cost (run_charges \<lparr>process = p, category = c, steps = fixed_steps q\<rparr> obs (Plan n e dp bs) (step_ids (fixed_steps q))) k
      \<le> max_of default_budget k"
    by (cases q; simp add: run_charges_def fixed_steps_def joiner_steps_def mover_steps_def leaver_steps_def mk_step_def
        step_ids_def fixed_counts_def page_at_def find_step_def step_by_id_def step_charges_def total_instr;
        cases k; use b5 \<open>limited k\<close> in \<open>simp add: cost_def default_budget_def limited_def\<close>)
qed

lemma run_charges_nonneg: "charge_nonneg plan \<Longrightarrow> list_all charge_nonneg (run_charges d obs plan topo)"
  by (simp add: run_charges_def)

text \<open>Assignments of the run that no point depends on.\<close>

lemma assign_succeeds:
  "(\<And>s. x_ledger (f s) = x_ledger s \<and> x_number (f s) = x_number s \<and> x_world (f s) = x_world s \<and>
      x_machine (f s) = x_machine s \<and> x_results (f s) = x_results s) \<Longrightarrow>
   succeeds (at_point chs k p mm rs) (modify f) () (at_point chs k p mm rs)"
  by (simp add: succeeds_def modify_def at_point_def)

lemma create_succeeds:
  assumes "shows_pages rt sid obs"
  shows "succeeds (at_point chs k p mm rs) (on_browser (client_create_session (willing sid obs)))
     \<lparr>sc_session_id = sid, sc_observation = obs Hris\<rparr> (at_point chs k Hris mm rs)"
  using shows_pagesD [OF assms]
  by (auto simp: succeeds_def on_browser_def client_create_session_def expect_def willing_def session_created_ok_def at_point_def)

lemma probe_succeeds:
  assumes "shows_pages rt sid obs" and "topo \<noteq> []" and "hd topo \<in> set (step_ids (steps d))" and "fits (chs @ [ToolMatch True])"
  shows "succeeds (at_point chs k p mm rs) (rejection_probe rt d topo (obs p)) () (at_point (chs @ [ToolMatch True]) k p mm rs)"
proof -
  obtain s where s: "find_step d (hd topo) = Inr s" using find_step_by_id [OF assms(3)] by blast
  have hd: "at_index topo 0 = Inr (hd topo)" using assms(2) by (simp add: at_index_def hd_conv_nth)
  let ?no = "\<lparr>matched = False, match_action = None, rejection_reason = Some UnknownTool\<rparr>"
  have unknown: "tool_of ''shell'' = None" by (simp add: tool_of_def GLOBAL_TOOLS_def)
  have m: "succeeds (at_point chs k p mm rs) (match_in rt s ''shell'' (obs p) (set GLOBAL_TOOLS)) ?no
      (at_point (chs @ [ToolMatch True]) k p mm rs)"
    unfolding match_in_def
  proof (rule succeeds_andthen [OF succeeds_value [OF shows_pagesD(1) [OF assms(1)]]])
    show "succeeds (at_point chs k p mm rs) (on_ledger (match_tool s ''shell'' p Dom (set GLOBAL_TOOLS))) ?no
        (at_point (chs @ [ToolMatch True]) k p mm rs)"
      unfolding succeeds_def
    proof (intro allI impI)
      fix s0 assume s0: "at_point chs k p mm rs s0"
      then obtain l where "reject UnknownTool (x_ledger s0) = (?no, l)" "paid (chs @ [ToolMatch True]) l"
        using reject_pays [OF _ assms(4)] unfolding at_point_def by blast
      then show "\<exists>s'. on_ledger (match_tool s ''shell'' p Dom (set GLOBAL_TOOLS)) s0 = (Inr ?no, s') \<and>
          at_point (chs @ [ToolMatch True]) k p mm rs s'"
        using s0 by (auto simp: on_ledger_def match_tool_def unknown at_point_def)
    qed
  qed
  have noted: "succeeds (at_point c k p mm rs) (add_rejection y) () (at_point c k p mm rs)" for c y
    unfolding add_rejection_def by (rule assign_succeeds) (simp split: option.split)
  show ?thesis
    unfolding rejection_probe_def
    by (rule succeeds_andthen [OF succeeds_value [OF hd]], rule succeeds_andthen [OF succeeds_value [OF s]],
        rule succeeds_andthen [OF m], rule succeeds_andthen [OF noted]) (simp add: succeeds_ret)
qed

lemma finish_succeeds:
  assumes sh: "shows_pages rt sid obs" and topo: "topo \<noteq> []" "find_step d (last topo) = Inr s"
    and "Finish \<in> set (allowed_actions s)" and "p = expected_page s" and k: "k < 30"
    and fits: "fits (chs @ [ToolMatch False, Action])"
  shows "\<exists>why. succeeds (at_point chs k p mm rs) (finish_after rt (willing sid obs) d sid topo (obs p))
     (Return FinishedUngraded why) (\<lambda>_. True)"
proof -
  let ?why = "''Planning Agent finished; independent database-fact grading is required''"
  let ?c1 = "chs @ [ToolMatch False]" and ?c2 = "(chs @ [ToolMatch False]) @ [Action]"
  let ?aid = "''act_w7_'' @ str_int (int (Suc k))"
  let ?env = "\<lparr>en_session_id = sid, en_generation = generation (obs p),
     en_action = DomFinish ?aid ''Deterministic Planning run ended; grading remains external''\<rparr>"
  have "GLOBAL_TOOLS = GLOBAL_TOOLS" "Finish \<in> set GLOBAL_TOOLS" by (simp_all add: GLOBAL_TOOLS_def)
  then have m: "succeeds (at_point chs k p mm rs) (match_in rt s ''finish'' (obs p) (set GLOBAL_TOOLS))
      \<lparr>matched = True, match_action = Some Finish, rejection_reason = None\<rparr> (at_point ?c1 k p mm rs)"
    using match_succeeds [OF sh fits assms(4), of p "set GLOBAL_TOOLS"] assms(5) by simp
  have c: "succeeds (at_point ?c1 k p mm rs) (on_ledger charge_action) () (at_point ?c2 k p mm rs)"
    by (rule charge_succeeds) (use fits in auto)
  have n: "succeeds (at_point ?c2 k p mm rs) next_action_id ?aid (at_point ?c2 (Suc k) p mm rs)"
    by (auto simp: succeeds_def next_action_id_def at_point_def)
  have "action_id_ok ?aid" using action_id_short [of "Suc k"] k by simp
  then have v: "validated ?env = Inr ?env"
    using shows_pagesD [OF sh] by (simp add: validated_def envelope_ok_def dom_action_ok_def)
  have x: "succeeds (at_point ?c2 (Suc k) p mm rs) (on_browser (client_execute_action (willing sid obs) sid ?env))
      (accepted sid (en_action ?env) None) (at_point ?c2 (Suc k) (page_after (en_action ?env) p) mm rs)"
    using execute_succeeds [OF sh, of ?c2 "Suc k" p mm rs sid ?env] by simp
  have end_: "succeeds (at_point ?c1 k p mm rs) (accepted_finish (willing sid obs) sid (obs p) ?why)
      (Return FinishedUngraded ?why) (\<lambda>_. True)"
    unfolding accepted_finish_def finish_def
    by (rule succeeds_andthen, rule succeeds_andthen [OF c], rule succeeds_andthen [OF n],
        rule succeeds_andthen [OF succeeds_value [OF v]], rule x) (simp add: accepted_def succeeds_ret)
  have last: "(if topo = [] then Inl OtherException else Inr (last topo)) = Inr (last topo)" using topo(1) by simp
  have "succeeds (at_point chs k p mm rs) (finish_after rt (willing sid obs) d sid topo (obs p))
     (Return FinishedUngraded ?why) (\<lambda>_. True)"
    unfolding finish_after_def finish_with_def
    by (rule succeeds_andthen [OF succeeds_value [OF last]], rule succeeds_andthen [OF succeeds_value [OF topo(2)]],
        rule succeeds_andthen [OF m]) (use end_ in simp)
  then show ?thesis by blast
qed

lemma fixed_finalize:
  "step_ids (fixed_steps q) \<noteq> []" "last (step_ids (fixed_steps q)) = ''s90_finalize''"
  "find_step \<lparr>process = p, category = c, steps = fixed_steps q\<rparr> ''s90_finalize'' = Inr (last (fixed_steps q))"
  "Finish \<in> set (allowed_actions (last (fixed_steps q)))" "expected_page (last (fixed_steps q)) = Hris"
  by (cases q; simp add: fixed_steps_def joiner_steps_def mover_steps_def leaver_steps_def mk_step_def step_ids_def
      find_step_def step_by_id_def)+

lemma fixed_actions: "sum_list (map (\<lambda>i. Suc (fixed_counts i)) (step_ids (fixed_steps q))) \<le> 22"
  by (cases q) (simp_all add: fixed_steps_def joiner_steps_def mover_steps_def leaver_steps_def mk_step_def step_ids_def fixed_counts_def)

lemma drive_succeeds:
  fixes req :: run_request
  defines "d \<equiv> run_dag req" and "topo \<equiv> step_ids (fixed_steps (pr_process (run_plan req)))"
  assumes sh: "shows_pages rt sid obs" and feas: "plan_feasible d obs (supplied (run_plan req)) fixed_counts"
    and sc: "scenario req = CompleteWithRejectionProbe"
    and fits: "fits (run_charges d obs plan topo)"
  shows "\<exists>why. succeeds (at_point ([plan] @ [bytes_at obs Hris]) 0 Hris mm []) (drive_plan rt (willing sid obs) req d topo sid (obs Hris))
     (Return FinishedUngraded why) (\<lambda>_. True)"
proof -
  let ?q = "pr_process (run_plan req)" and ?m = "new_machine d" and ?w = "willing sid obs"
  let ?c0 = "[plan] @ [bytes_at obs Hris]" and ?c1 = "([plan] @ [bytes_at obs Hris]) @ [ToolMatch True]"
  let ?c2 = "?c1 @ plan_charges d obs fixed_counts True topo"
  have steps: "steps d = fixed_steps ?q" by (simp add: d_def)
  have valid: "valid (validate_dag (sha256 rt) d)" unfolding d_def by (rule fixed_plan_valid)
  have dist: "distinct (step_ids (steps d))"
    using validate_dag_contract_dest [OF valid] by (simp add: plan_contract_def well_scoped_def)
  have order: "topological_order (steps d) topo"
    using valid_topology_facts [OF valid] fixed_topology by (simp add: d_def topo_def)
  have all: "run_charges d obs plan topo = ?c2 @ [ToolMatch False, Action]" by (simp add: run_charges_def)
  have fits2: "fits ?c2" by (rule fits_prefix [of _ "[ToolMatch False, Action]"]) (use fits all in auto)
  have fits1: "fits ?c1" by (rule fits_prefix [OF fits2]) simp
  have machine: "succeeds (at_point ?c0 0 Hris mm []) (modify (\<lambda>s. s\<lparr>x_machine := ?m\<rparr>)) () (at_point ?c0 0 Hris ?m [])"
    by (simp add: succeeds_def modify_def at_point_def)
  have probe: "succeeds (at_point ?c0 0 Hris ?m []) (rejection_probe rt d topo (obs Hris)) () (at_point ?c1 0 Hris ?m [])"
    by (rule probe_succeeds [OF sh]) (use fits1 fixed_finalize(1) [of ?q] steps in \<open>simp_all add: topo_def\<close>)
  obtain mm' rs' where loop: "succeeds (at_point ?c1 0 Hris ?m []) (run_steps rt ?w req d sid True topo (obs Hris))
      (Go (obs (last (Hris # map (page_at d) topo))))
      (at_point ?c2 (0 + sum_list (map (\<lambda>i. Suc (fixed_counts i)) topo)) (last (Hris # map (page_at d) topo)) mm' rs')"
    using run_steps_succeeds [OF sh feas _ dist, where verified = "[]" and todo = topo and mm = ?m and k = 0 and chs = ?c1
        and first = True and p = Hris and rs = "[]"] sc order dist steps fits2 fixed_actions [of ?q] new_machine_all_pending [OF dist]
    by (auto simp: topo_def new_machine_def)
  let ?p = "last (Hris # map (page_at d) topo)"
  have find: "find_step d (last topo) = Inr (last (fixed_steps ?q))"
    using fixed_finalize(2,3) by (simp add: d_def topo_def)
  have "page_at d (last topo) = Hris" using find fixed_finalize(5) by (simp add: page_at_def)
  then have last_page: "?p = expected_page (last (fixed_steps ?q))"
    using fixed_finalize(1,5) [of ?q] by (simp add: topo_def last_map)
  obtain why where fin: "succeeds (at_point ?c2 (0 + sum_list (map (\<lambda>i. Suc (fixed_counts i)) topo)) ?p mm' rs')
      (finish_after rt ?w d sid topo (obs ?p)) (Return FinishedUngraded why) (\<lambda>_. True)"
    using finish_succeeds [OF sh _ find fixed_finalize(4) last_page, of "0 + sum_list (map (\<lambda>i. Suc (fixed_counts i)) topo)" ?c2 mm' rs']
      fixed_finalize(1) [of ?q] fixed_actions [of ?q] fits all by (auto simp: topo_def)
  have "succeeds (at_point ?c0 0 Hris mm []) (drive_plan rt ?w req d topo sid (obs Hris)) (Return FinishedUngraded why) (\<lambda>_. True)"
    unfolding drive_plan_def
    apply (rule succeeds_andthen [OF machine])
    apply (simp only: sc fake_scenario.distinct if_False)
    apply (rule succeeds_andthen [OF probe])
    apply (rule succeeds_andthen [OF loop])
    apply (simp only: flow.case)
    apply (rule fin)
    done
  then show ?thesis by blast
qed

lemma willing_uncancelled: "uncancelled (willing sid obs)"
  by (simp add: uncancelled_def willing_def Let_def split: browser_call.split)

lemma willing_run:
  assumes sh: "shows_pages rt sid obs" and "plan_request_ok (run_plan req)"
    and feas: "plan_feasible (run_dag req) obs (supplied (run_plan req)) fixed_counts"
    and sc: "scenario req = CompleteWithRejectionProbe" and clk: "\<forall>k. clk k - clk 0 \<le> 300"
  shows "\<exists>res. fst (run rt (willing sid obs) req (new_ledger default_budget clk) 0 p) = Some res \<and> status res = FinishedUngraded"
proof -
  let ?v = "validate_dag (sha256 rt) (run_dag req)" and ?q = "pr_process (run_plan req)"
  let ?plan = "Plan (int (node_count ?v)) (int (edge_count ?v)) (int (depth ?v)) (int (serialized_bytes ?v))"
  let ?m0 = "\<lparr>m_steps = Map.empty, m_states = Map.empty\<rparr> :: machine"
  let ?w = "willing sid obs"
  have topo: "topology ?v = step_ids (fixed_steps ?q)" by (rule fixed_topology)
  have fits: "fits (run_charges (run_dag req) obs ?plan (step_ids (fixed_steps ?q)))"
    by (rule fixed_run_fits) (rule shows_pagesD(4) [OF sh])
  then have fits2: "fits ([?plan] @ [bytes_at obs Hris])"
    unfolding run_charges_def append_assoc [symmetric]
    by (rule fits_prefix [OF fits_prefix [OF fits_prefix]]) auto
  have fits1: "fits ([] @ [?plan])" using fits_prefix [OF fits2] by simp
  obtain why where drive: "succeeds (at_point ([?plan] @ [bytes_at obs Hris]) 0 Hris ?m0 [])
      (drive_plan rt ?w req (run_dag req) (topology ?v) sid (obs Hris)) (Return FinishedUngraded why) (\<lambda>_. True)"
    using drive_succeeds [OF sh feas sc fits] topo by auto
  have asked: "(if plan_request_ok (run_plan req) then Inr () else Inl OtherException) = Inr ()" using assms(2) by simp
  have charge: "succeeds (at_point [] 0 p ?m0 []) (on_ledger (charge_plan (int (node_count ?v)) (int (edge_count ?v)) (int (depth ?v)) (int (serialized_bytes ?v)))) ()
      (at_point [?plan] 0 p ?m0 [])"
    using charge_succeeds [OF fits1, of _ 0 p ?m0 "[]"] by simp
  have seen: "succeeds (at_point [?plan] 0 Hris ?m0 []) (observe_charge (obs Hris)) () (at_point ([?plan] @ [bytes_at obs Hris]) 0 Hris ?m0 [])"
    by (rule observe_succeeds) (use fits2 in simp)
  have "succeeds (at_point [] 0 p ?m0 []) (run_body rt ?w req) (Return FinishedUngraded why) (\<lambda>_. True)"
    unfolding run_body_eq Let_def
    apply (rule succeeds_andthen [OF succeeds_value [OF asked]])
    apply (rule succeeds_andthen [OF assign_succeeds], simp)
    apply (rule succeeds_andthen [OF charge])
    apply (rule succeeds_andthen [OF create_succeeds [OF sh]])
    apply (rule succeeds_andthen [OF assign_succeeds], simp)
    apply (simp only: session_created.simps)
    apply (rule succeeds_andthen [OF seen])
    apply (simp only: sc fake_scenario.distinct if_False)
    apply (rule drive)
    done
  moreover have "at_point [] 0 p ?m0 [] (fresh_exec (new_ledger default_budget clk) 0 p)"
    using clk by (simp add: at_point_def fresh_exec_def paid_def new_ledger_def)
  ultimately obtain s where body: "run_body rt ?w req (fresh_exec (new_ledger default_budget clk) 0 p) = (Inr (Return FinishedUngraded why), s)"
    unfolding succeeds_def by blast
  let ?res = "fst (make_result req FinishedUngraded why s)"
  have "status ?res = FinishedUngraded" by (simp add: make_result_def snapshot_def)
  moreover have "fst (run rt ?w req (new_ledger default_budget clk) 0 p) = Some ?res"
    by (simp add: run_def body run_outcome_def case_prod_beta Let_def close_after_uncancelled [OF willing_uncancelled])
  ultimately show ?thesis by blast
qed

subsection \<open>Properties\<close>


subsection \<open>A concrete worker and request\<close>

definition element :: "string \<Rightarrow> allowed_action \<Rightarrow> string \<Rightarrow> interactive_element" where
  "element r a nm = \<lparr>element_ref = ''ref_'' @ r, el_role = ''widget'', el_name = nm,
     el_state = \<lparr>disabled = False, checked = None, selected = None, expanded = None, readonly = False, required = False\<rparr>,
     el_actions = [a], el_options = []\<rparr>"

definition desk_sid :: string where
  "desk_sid = ''bw_0123456789abcdef''"

definition desk :: "page \<Rightarrow> hybrid_observation" where
  "desk p = \<lparr>ho_session_id = desk_sid, generation = 1,
     observation = \<lparr>obs_session_id = desk_sid, observation_id = ''obs_00000000'', current_url = PAGE_PATH p,
       page_title = [], semantic_nodes = [],
       interactive_elements = [element ''00000001'' Read ''Page'', element ''00000002'' Click ''Show transitions'',
         element ''00000003'' Fill ''Transfer employee ID'', element ''00000004'' Fill ''New department'',
         element ''00000005'' Fill ''New job title'', element ''00000006'' Fill ''New location'',
         element ''00000007'' Click ''Transfer employee'', element ''00000008'' Fill ''Close ticket employee ID'',
         element ''00000009'' Click ''Close ticket''],
       last_action = None, page_error = None, truncated = False\<rparr>,
     signals = \<lparr>structure_signal = Usable, interactive_count = 9, dom_bytes = 900, last_error_category = None\<rparr>\<rparr>"

definition mover_request :: run_request where
  "mover_request = \<lparr>run_id = ''run_00000001'', task_id = ''w7-jml-mover-001-v1'',
     run_plan = \<lparr>pr_process = Mover, pr_category = StandardMover, human_brief = ''Transfer'',
       supplied = MoverValues \<lparr>mv_employee_id = 7, new_department = ''Ops'', new_job_title = ''Lead'', new_location = ''Oslo''\<rparr>\<rparr>,
     scenario = CompleteWithRejectionProbe, run_budget = default_budget\<rparr>"

definition plain_runtime :: runtime where
  "plain_runtime = \<lparr>sha256 = (\<lambda>s. s), host_ok = (\<lambda>_. False)\<rparr>"

lemma desk_shows: "shows_pages plain_runtime desk_sid desk"
proof -
  have "list_all (\<lambda>p. hybrid_observation_ok (desk p) \<and> ho_session_id (desk p) = desk_sid \<and>
     page_of plain_runtime (desk p) = Inr p \<and> dom_bytes (signals (desk p)) \<le> 10922) [Hris, Itsm, Iam, Assets, Mail]"
    by code_simp
  then have "hybrid_observation_ok (desk p) \<and> ho_session_id (desk p) = desk_sid \<and>
     page_of plain_runtime (desk p) = Inr p \<and> dom_bytes (signals (desk p)) \<le> 10922" for p
    by (cases p) simp_all
  then show ?thesis by (simp add: shows_pages_def)
qed

lemma mover_feasible: "plan_feasible (run_dag mover_request) desk (supplied (run_plan mover_request)) fixed_counts"
  unfolding plan_feasible_def by code_simp

lemma mover_ok: "plan_request_ok (run_plan mover_request)" "scenario mover_request = CompleteWithRejectionProbe"
  by (code_simp, simp add: mover_request_def)


theorem finished_run_verified_every_step_witness:
  "\<exists>res. fst (run plain_runtime (willing desk_sid desk) mover_request (new_ledger default_budget (\<lambda>_. 0)) 0 Hris) = Some res \<and>
     list_all2 verified_entry (rr_topology res) (step_results res) \<and> length (step_results res) = 3"
proof -
  obtain res where r: "fst (run plain_runtime (willing desk_sid desk) mover_request (new_ledger default_budget (\<lambda>_. 0)) 0 Hris) = Some res"
    "status res = FinishedUngraded"
    using willing_run [OF desk_shows mover_ok(1) mover_feasible mover_ok(2), of "\<lambda>_. 0" Hris] by auto
  have "scenario mover_request \<noteq> FinishImmediately" by (simp add: mover_ok)
  from finished_run_verified_every_step [OF r this]
  have v: "list_all2 verified_entry (rr_topology res) (step_results res)"
    "mset (rr_topology res) = mset (step_ids (fixed_steps Mover))"
    by (simp_all add: mover_request_def)
  then have "length (step_results res) = length (step_ids (fixed_steps Mover))"
    by (metis list_all2_lengthD size_mset)
  then show ?thesis using r(1) v(1) by (simp add: fixed_steps_def fixed_lengths step_ids_def)
qed



end
