(* ===== verification/PyTime.thy ===== *)
theory PyTime
  imports Json
begin

section \<open>Timestamps\<close>

text \<open>
  A UTC \<open>datetime\<close> is its number of microseconds since 1970-01-01T00:00:00Z, so \<open>+\<close> with a
  \<open>timedelta\<close> and the comparisons are those of \<open>nat\<close>, and \<open>_utc\<close> (which makes a naive value of the
  database aware) is the identity. \<open>isoformat().replace("+00:00", "Z")\<close> is computed from the proleptic
  Gregorian calendar; it is injective, so a hash over it binds the instant. Python ends in year 9999.
\<close>

type_synonym datetime = nat

definition minutes :: "nat \<Rightarrow> nat" where
  "minutes n = n * 60000000"

definition is_leap :: "nat \<Rightarrow> bool" where
  "is_leap y = (y mod 4 = 0 \<and> (y mod 100 \<noteq> 0 \<or> y mod 400 = 0))"

definition days_in_year :: "nat \<Rightarrow> nat" where
  "days_in_year y = (if is_leap y then 366 else 365)"

definition month_lengths :: "nat \<Rightarrow> nat list" where
  "month_lengths y = [31, if is_leap y then 29 else 28, 31, 30, 31, 30, 31, 31, 30, 31, 30, 31]"

text \<open>The year of day \<open>d\<close> counted from January 1st of year \<open>y\<close>, and the day in that year.\<close>

function year_of :: "nat \<Rightarrow> nat \<Rightarrow> nat \<times> nat" where
  "year_of y d = (if d < days_in_year y then (y, d) else year_of (Suc y) (d - days_in_year y))"
  by pat_completeness auto
termination
  by (relation "measure snd") (auto simp: days_in_year_def)

declare year_of.simps [simp del]

fun month_of :: "nat list \<Rightarrow> nat \<Rightarrow> nat \<Rightarrow> nat \<times> nat" where
  "month_of [] m d = (m, d)"
| "month_of (l # ls) m d = (if d < l then (m, d) else month_of ls (Suc m) (d - l))"

definition pad :: "nat \<Rightarrow> nat \<Rightarrow> string" where
  "pad w n = replicate (w - length (digits n)) (CHR ''0'') @ digits n"

definition fraction :: "nat \<Rightarrow> string" where
  "fraction u = (if u = 0 then ''Z'' else CHR ''.'' # pad 6 u @ ''Z'')"

definition clock :: "nat \<Rightarrow> string" where
  "clock us = pad 2 (us div 3600000000) @ CHR '':'' # pad 2 (us div 60000000 mod 60) @ CHR '':'' #
     pad 2 (us div 1000000 mod 60) @ fraction (us mod 1000000)"

definition isoformat :: "datetime \<Rightarrow> string" where
  "isoformat t = (let (y, d) = year_of 1970 (t div 86400000000); (m, d') = month_of (month_lengths y) 1 d
     in pad 4 y @ CHR ''-'' # pad 2 m @ CHR ''-'' # pad 2 (d' + 1) @ CHR ''T'' # clock (t mod 86400000000))"

subsection \<open>The calendar is invertible\<close>

lemma year_of_sum:
  "year_of y d = (y', d') \<Longrightarrow> y \<le> y' \<and> d = d' + sum days_in_year {y..<y'}"
proof (induction y d rule: year_of.induct)
  case (1 y d)
  show ?case
  proof (cases "d < days_in_year y")
    case True
    with 1(2) show ?thesis by (simp add: year_of.simps)
  next
    case False
    with 1(2) have "year_of (Suc y) (d - days_in_year y) = (y', d')" by (simp add: year_of.simps [of y])
    with 1(1) [OF False] have "Suc y \<le> y' \<and> d - days_in_year y = d' + sum days_in_year {Suc y..<y'}" by blast
    with False show ?thesis by (auto simp: sum.atLeast_Suc_lessThan)
  qed
qed

lemma month_of_sum:
  "month_of ls m d = (m', d') \<Longrightarrow> m \<le> m' \<and> d = d' + sum_list (take (m' - m) ls)"
proof (induction ls m d rule: month_of.induct)
  case (2 l ls m d)
  show ?case
  proof (cases "d < l")
    case False
    with 2 have "Suc m \<le> m' \<and> d - l = d' + sum_list (take (m' - Suc m) ls)" by simp
    moreover from this have "m' - m = Suc (m' - Suc m)" by linarith
    then have "sum_list (take (m' - m) (l # ls)) = l + sum_list (take (m' - Suc m) ls)" by simp
    ultimately show ?thesis using False by linarith
  qed (use 2 in auto)
qed simp

subsection \<open>The format is injective\<close>

lemma digits_val_zeros: "digits_val (replicate k (CHR ''0'') @ s) = digits_val s"
proof (induction k)
  case (Suc k)
  have "digits_val (CHR ''0'' # t) = digits_val t" for t by (simp add: digits_val_def)
  with Suc show ?case by simp
qed simp

lemma pad_val: "digits_val (pad w n) = n"
  by (simp add: pad_def digits_val_zeros digits_val_digits)

lemma pad_digits: "c \<in> set (pad w n) \<Longrightarrow> is_digit c"
  by (auto simp: pad_def is_digit_def dest: digits_are_digits [unfolded is_digit_def])

lemma pad_takeWhile: "\<not> is_digit c \<Longrightarrow> takeWhile is_digit (pad w n @ c # r) = pad w n"
  by (simp add: takeWhile_append2 pad_digits)

lemma pad_prefix_code:
  assumes "pad w m @ c # r = pad w' n @ c' # r'" and "\<not> is_digit c" and "\<not> is_digit c'"
  shows "m = n \<and> c = c' \<and> r = r'"
proof -
  have eq: "pad w m = pad w' n"
    using arg_cong [OF assms(1), of "takeWhile is_digit"] assms(2,3) by (simp add: pad_takeWhile)
  then have "m = n" by (metis pad_val)
  with eq assms(1) show ?thesis by simp
qed

lemma not_digit_simps [simp]:
  "\<not> is_digit (CHR ''-'')" "\<not> is_digit (CHR '':'')" "\<not> is_digit (CHR ''T'')" "\<not> is_digit (CHR ''Z'')" "\<not> is_digit (CHR ''.'')"
  by (simp_all add: is_digit_def)

lemma fraction_head: "\<exists>c r. fraction u = c # r \<and> \<not> is_digit c"
  by (simp add: fraction_def)

lemma fraction_inj: "fraction u = fraction v \<Longrightarrow> u = v"
  using pad_prefix_code [of 6 u "CHR ''Z''" "[]" 6 v "CHR ''Z''" "[]"] by (simp add: fraction_def split: if_splits)

lemma clock_second_code:
  assumes "pad 2 s @ fraction u = pad 2 s' @ fraction u'"
  shows "s = s' \<and> u = u'"
proof -
  obtain c r c' r' where f: "fraction u = c # r" "\<not> is_digit c" "fraction u' = c' # r'" "\<not> is_digit c'"
    using fraction_head by metis
  then have "s = s' \<and> c = c' \<and> r = r'" using assms pad_prefix_code [of 2 s c r 2 s' c' r'] by simp
  with f show ?thesis by (auto intro: fraction_inj)
qed

lemma clock_inj:
  assumes "clock a = clock b"
  shows "a = b"
proof -
  from assms have h: "a div 3600000000 = b div 3600000000"
    and r: "pad 2 (a div 60000000 mod 60) @ CHR '':'' # pad 2 (a div 1000000 mod 60) @ fraction (a mod 1000000) =
      pad 2 (b div 60000000 mod 60) @ CHR '':'' # pad 2 (b div 1000000 mod 60) @ fraction (b mod 1000000)"
    unfolding clock_def using pad_prefix_code not_digit_simps(2) by blast+
  from r have m: "a div 60000000 mod 60 = b div 60000000 mod 60"
    and r': "pad 2 (a div 1000000 mod 60) @ fraction (a mod 1000000) = pad 2 (b div 1000000 mod 60) @ fraction (b mod 1000000)"
    using pad_prefix_code not_digit_simps(2) by blast+
  note su = clock_second_code [OF r']
  have split: "x = (x div 3600000000 * 60 + x div 60000000 mod 60) * 60000000 + (x div 1000000 mod 60) * 1000000 + x mod 1000000"
    for x :: nat
  proof -
    define q where "q = x div 1000000"
    define p where "p = q div 60"
    have "x div 60000000 = p" "x div 3600000000 = p div 60" by (simp_all add: p_def q_def div_mult2_eq [symmetric])
    moreover have "x = q * 1000000 + x mod 1000000" "q = p * 60 + q mod 60" "p = p div 60 * 60 + p mod 60"
      by (simp_all add: p_def q_def)
    ultimately show ?thesis unfolding q_def [symmetric] by simp
  qed
  show ?thesis using h m su split [of a] split [of b] by simp
qed

lemma isoformat_inj:
  assumes "isoformat s = isoformat t"
  shows "s = t"
proof -
  obtain y d m e where s: "year_of 1970 (s div 86400000000) = (y, d)" "month_of (month_lengths y) 1 d = (m, e)"
    by fastforce
  obtain y' d' m' e' where t: "year_of 1970 (t div 86400000000) = (y', d')" "month_of (month_lengths y') 1 d' = (m', e')"
    by fastforce
  have "pad 4 y @ CHR ''-'' # pad 2 m @ CHR ''-'' # pad 2 (e + 1) @ CHR ''T'' # clock (s mod 86400000000) =
     pad 4 y' @ CHR ''-'' # pad 2 m' @ CHR ''-'' # pad 2 (e' + 1) @ CHR ''T'' # clock (t mod 86400000000)"
    using assms s t by (simp add: isoformat_def)
  then have y: "y = y'" and r: "pad 2 m @ CHR ''-'' # pad 2 (e + 1) @ CHR ''T'' # clock (s mod 86400000000) =
     pad 2 m' @ CHR ''-'' # pad 2 (e' + 1) @ CHR ''T'' # clock (t mod 86400000000)"
    using pad_prefix_code not_digit_simps(1) by blast+
  from r have m: "m = m'" and r': "pad 2 (e + 1) @ CHR ''T'' # clock (s mod 86400000000) =
     pad 2 (e' + 1) @ CHR ''T'' # clock (t mod 86400000000)"
    using pad_prefix_code not_digit_simps(1) by blast+
  from r' have "e + 1 = e' + 1" and c: "clock (s mod 86400000000) = clock (t mod 86400000000)"
    using pad_prefix_code not_digit_simps(3) by blast+
  note eq = y m this(1) [simplified]
  then have "d = d'" using month_of_sum [OF s(2)] month_of_sum [OF t(2)] by simp
  then have "s div 86400000000 = t div 86400000000"
    using year_of_sum [OF s(1)] year_of_sum [OF t(1)] eq by simp
  moreover have "s mod 86400000000 = t mod 86400000000" using c by (rule clock_inj)
  ultimately show ?thesis by (metis div_mult_mod_eq)
qed

end
