(* ===== verification/ControlTypes.thy ===== *)
theory ControlTypes
  imports PyText PyTime
begin

section \<open>The vocabulary of the control plane\<close>

text \<open>
  \<open>schemas.py\<close> of the control API: the closed enumerations with their values, the identifier
  patterns, the actor and the request bodies of the approval workflow with their validators, and the
  canonical hash. Values of a \<open>StrEnum\<close> column are the constructors; \<open>*_name\<close> is their \<open>.value\<close>.
  SHA-256 with its hexadecimal digest is the parameter \<open>sha\<close>.
\<close>

subsection \<open>Roles and permissions\<close>

datatype role = OrganizationAdmin | Operator | Auditor

datatype (plugins only: code size) permission =
    OrganizationRead | OrganizationUpdatePermission | UserReadPermission | UserManage | MembershipRead
  | MembershipManage | MemoryRead | MemoryWrite | MemoryReset | ContextProject
  | ApprovalAuthorityRead | ApprovalAuthorityManage | ApprovalRequestRead | ApprovalRequestCreate
  | ApprovalRequestDecide | ApprovalRequestCancel | ApprovalGrantClaim | AuditRead | AuditVerify
  | ProductionRunRead | ProductionRunSubmit | ProductionRunMutate | ObservabilityTraceRead

primrec permission_name :: "permission \<Rightarrow> string" where
  "permission_name OrganizationRead = ''organization.read''"
| "permission_name OrganizationUpdatePermission = ''organization.update''"
| "permission_name UserReadPermission = ''user.read''"
| "permission_name UserManage = ''user.manage''"
| "permission_name MembershipRead = ''membership.read''"
| "permission_name MembershipManage = ''membership.manage''"
| "permission_name MemoryRead = ''memory.read''"
| "permission_name MemoryWrite = ''memory.write''"
| "permission_name MemoryReset = ''memory.reset''"
| "permission_name ContextProject = ''context.project''"
| "permission_name ApprovalAuthorityRead = ''approval.authority.read''"
| "permission_name ApprovalAuthorityManage = ''approval.authority.manage''"
| "permission_name ApprovalRequestRead = ''approval.request.read''"
| "permission_name ApprovalRequestCreate = ''approval.request.create''"
| "permission_name ApprovalRequestDecide = ''approval.request.decide''"
| "permission_name ApprovalRequestCancel = ''approval.request.cancel''"
| "permission_name ApprovalGrantClaim = ''approval.grant.claim''"
| "permission_name AuditRead = ''audit.read''"
| "permission_name AuditVerify = ''audit.verify''"
| "permission_name ProductionRunRead = ''production.run.read''"
| "permission_name ProductionRunSubmit = ''production.run.submit''"
| "permission_name ProductionRunMutate = ''production.run.mutate''"
| "permission_name ObservabilityTraceRead = ''observability.trace.read''"

fun role_name :: "role \<Rightarrow> string" where
  "role_name OrganizationAdmin = ''organization_admin''"
| "role_name Operator = ''operator''"
| "role_name Auditor = ''auditor''"

datatype approval_role = Manager | Security

fun approval_role_name :: "approval_role \<Rightarrow> string" where
  "approval_role_name Manager = ''manager''"
| "approval_role_name Security = ''security''"

datatype active_status = Active | Disabled
datatype authority_status = AuthorityActive | AuthorityDisabled | AuthorityTombstone
datatype memory_status = MemoryActive | MemoryTombstone
datatype memory_field = Department | RoleField | LocationField | DevicePreference | ApprovalChain

subsection \<open>Risk levels\<close>

text \<open>Compared as strings, which is the order of the levels.\<close>

datatype risk_level = L0 | L1 | L2 | L3 | L4

fun risk_level_name :: "risk_level \<Rightarrow> string" where
  "risk_level_name L0 = ''L0''"
| "risk_level_name L1 = ''L1''"
| "risk_level_name L2 = ''L2''"
| "risk_level_name L3 = ''L3''"
| "risk_level_name L4 = ''L4''"

instantiation risk_level :: linorder
begin

definition less_eq_risk_level :: "risk_level \<Rightarrow> risk_level \<Rightarrow> bool" where
  "less_eq_risk_level a b \<longleftrightarrow> risk_level_name a \<le> risk_level_name b"

definition less_risk_level :: "risk_level \<Rightarrow> risk_level \<Rightarrow> bool" where
  "less_risk_level a b \<longleftrightarrow> risk_level_name a < risk_level_name b"

lemma risk_level_name_inj: "risk_level_name a = risk_level_name b \<longleftrightarrow> a = b"
  by (cases a; cases b) auto

instance
proof
  fix a b c :: risk_level
  show "(a < b) = (a \<le> b \<and> \<not> b \<le> a)" and "a \<le> a" and "a \<le> b \<or> b \<le> a"
    by (auto simp: less_eq_risk_level_def less_risk_level_def)
  show "a \<le> b \<Longrightarrow> b \<le> c \<Longrightarrow> a \<le> c" by (simp add: less_eq_risk_level_def)
  show "a \<le> b \<Longrightarrow> b \<le> a \<Longrightarrow> a = b"
    unfolding less_eq_risk_level_def risk_level_name_inj [symmetric] by (rule order_antisym)
qed

end

subsection \<open>Approval\<close>

datatype request_status =
    RequestPending | RequestApproved | RequestRejected | RequestCancelled | RequestExpired
  | RequestInvalidated | RequestClaimed | RequestConsumed | RequestFailed

fun request_status_name :: "request_status \<Rightarrow> string" where
  "request_status_name RequestPending = ''pending''"
| "request_status_name RequestApproved = ''approved''"
| "request_status_name RequestRejected = ''rejected''"
| "request_status_name RequestCancelled = ''cancelled''"
| "request_status_name RequestExpired = ''expired''"
| "request_status_name RequestInvalidated = ''invalidated''"
| "request_status_name RequestClaimed = ''claimed''"
| "request_status_name RequestConsumed = ''consumed''"
| "request_status_name RequestFailed = ''failed''"

datatype decision_value = Approved | Rejected

datatype approval_reason =
    PolicySatisfied | PolicyRejected | RequesterCancelled | ParametersChanged | AuthorityInactive | RequestExpiry

fun approval_reason_name :: "approval_reason \<Rightarrow> string" where
  "approval_reason_name PolicySatisfied = ''policy_satisfied''"
| "approval_reason_name PolicyRejected = ''policy_rejected''"
| "approval_reason_name RequesterCancelled = ''requester_cancelled''"
| "approval_reason_name ParametersChanged = ''parameters_changed''"
| "approval_reason_name AuthorityInactive = ''authority_inactive''"
| "approval_reason_name RequestExpiry = ''request_expired''"

datatype grant_status = GrantIssued | GrantClaimed | GrantConsumed | GrantRevoked | GrantExpired | GrantFailed

fun grant_status_name :: "grant_status \<Rightarrow> string" where
  "grant_status_name GrantIssued = ''issued''"
| "grant_status_name GrantClaimed = ''claimed''"
| "grant_status_name GrantConsumed = ''consumed''"
| "grant_status_name GrantRevoked = ''revoked''"
| "grant_status_name GrantExpired = ''expired''"
| "grant_status_name GrantFailed = ''failed''"

datatype gate_status = Automatic | WaitingApproval

datatype (plugins only: code size) audit_event_type =
    EvRiskClassified | EvL4Denied | EvApprovalRequested | EvApprovalApproved | EvApprovalRejected
  | EvRequestCancelled | EvRequestExpired | EvRequestInvalidated | EvGrantIssued | EvGrantClaimed
  | EvGrantConsumed | EvGrantRejected | EvExecutionStarted | EvExecutionSucceeded | EvExecutionFailed
  | EvRecoveryResumed | EvAuthorityDisabled | EvAuditVerified | EvRunWaitingApproval | EvRunQueued
  | EvRunLeased | EvRunStarted | EvRunRecovered | EvRunVerifying | EvRunFinishedUngraded | EvRunFailed
  | EvRunCancelled | EvRunExpired | EvAdmissionRejected | EvBackpressureRejected | EvRateLimited
  | EvLeaseHeartbeat | EvLeaseReleased | EvStaleFenceRejected | EvWorkflowDeduplicated

primrec audit_event_name :: "audit_event_type \<Rightarrow> string" where
  "audit_event_name EvRiskClassified = ''risk_classified''"
| "audit_event_name EvL4Denied = ''l4_denied''"
| "audit_event_name EvApprovalRequested = ''approval_requested''"
| "audit_event_name EvApprovalApproved = ''approval_approved''"
| "audit_event_name EvApprovalRejected = ''approval_rejected''"
| "audit_event_name EvRequestCancelled = ''request_cancelled''"
| "audit_event_name EvRequestExpired = ''request_expired''"
| "audit_event_name EvRequestInvalidated = ''request_invalidated''"
| "audit_event_name EvGrantIssued = ''grant_issued''"
| "audit_event_name EvGrantClaimed = ''grant_claimed''"
| "audit_event_name EvGrantConsumed = ''grant_consumed''"
| "audit_event_name EvGrantRejected = ''grant_rejected''"
| "audit_event_name EvExecutionStarted = ''execution_started''"
| "audit_event_name EvExecutionSucceeded = ''execution_succeeded''"
| "audit_event_name EvExecutionFailed = ''execution_failed''"
| "audit_event_name EvRecoveryResumed = ''recovery_resumed''"
| "audit_event_name EvAuthorityDisabled = ''authority_disabled''"
| "audit_event_name EvAuditVerified = ''audit_verified''"
| "audit_event_name EvRunWaitingApproval = ''run_waiting_approval''"
| "audit_event_name EvRunQueued = ''run_queued''"
| "audit_event_name EvRunLeased = ''run_leased''"
| "audit_event_name EvRunStarted = ''run_started''"
| "audit_event_name EvRunRecovered = ''run_recovered''"
| "audit_event_name EvRunVerifying = ''run_verifying''"
| "audit_event_name EvRunFinishedUngraded = ''run_finished_ungraded''"
| "audit_event_name EvRunFailed = ''run_failed''"
| "audit_event_name EvRunCancelled = ''run_cancelled''"
| "audit_event_name EvRunExpired = ''run_expired''"
| "audit_event_name EvAdmissionRejected = ''admission_rejected''"
| "audit_event_name EvBackpressureRejected = ''backpressure_rejected''"
| "audit_event_name EvRateLimited = ''rate_limited''"
| "audit_event_name EvLeaseHeartbeat = ''lease_heartbeat''"
| "audit_event_name EvLeaseReleased = ''lease_released''"
| "audit_event_name EvStaleFenceRejected = ''stale_fence_rejected''"
| "audit_event_name EvWorkflowDeduplicated = ''workflow_deduplicated''"

definition audit_events :: "audit_event_type list" where
  "audit_events = [EvRiskClassified, EvL4Denied, EvApprovalRequested, EvApprovalApproved,
     EvApprovalRejected, EvRequestCancelled, EvRequestExpired, EvRequestInvalidated,
     EvGrantIssued, EvGrantClaimed, EvGrantConsumed, EvGrantRejected, EvExecutionStarted,
     EvExecutionSucceeded, EvExecutionFailed, EvRecoveryResumed, EvAuthorityDisabled,
     EvAuditVerified, EvRunWaitingApproval, EvRunQueued, EvRunLeased, EvRunStarted,
     EvRunRecovered, EvRunVerifying, EvRunFinishedUngraded, EvRunFailed, EvRunCancelled,
     EvRunExpired, EvAdmissionRejected, EvBackpressureRejected, EvRateLimited,
     EvLeaseHeartbeat, EvLeaseReleased, EvStaleFenceRejected, EvWorkflowDeduplicated]"

lemma audit_events_complete: "e \<in> set audit_events"
  by (cases e) (simp_all add: audit_events_def)

lemma audit_event_name_inj: "audit_event_name a = audit_event_name b \<longleftrightarrow> a = b"
proof -
  have "distinct (map audit_event_name audit_events)" by code_simp
  then show ?thesis using audit_events_complete [of a] audit_events_complete [of b]
    by (auto simp: distinct_map inj_on_def)
qed

subsection \<open>Production runs\<close>

datatype production_run_status =
    RunWaitingApproval | RunQueued | RunLeased | RunRunning | RunRecovering | RunVerifying
  | RunFinishedUngraded | RunFailed | RunCancelled | RunExpired

datatype production_terminal_reason =
    AgentFinished | AgentFailed | AuthorizationInvalid | QueueExpired | LeaseExhausted | CancelledByActor
  | WorkflowRejected | ReceiptInvalid | WorkerDrained | DependencyUnavailable

datatype production_process = ProcessJoiner | ProcessMover | ProcessLeaver
datatype production_category = CategoryJoiner | CategoryMover | CategoryLeaver

fun run_status_name :: "production_run_status \<Rightarrow> string" where
  "run_status_name RunWaitingApproval = ''waiting_approval''"
| "run_status_name RunQueued = ''queued''"
| "run_status_name RunLeased = ''leased''"
| "run_status_name RunRunning = ''running''"
| "run_status_name RunRecovering = ''recovering''"
| "run_status_name RunVerifying = ''verifying''"
| "run_status_name RunFinishedUngraded = ''finished_ungraded''"
| "run_status_name RunFailed = ''failed''"
| "run_status_name RunCancelled = ''cancelled''"
| "run_status_name RunExpired = ''expired''"

fun terminal_reason_name :: "production_terminal_reason \<Rightarrow> string" where
  "terminal_reason_name AgentFinished = ''agent_finished''"
| "terminal_reason_name AgentFailed = ''agent_failed''"
| "terminal_reason_name AuthorizationInvalid = ''authorization_invalid''"
| "terminal_reason_name QueueExpired = ''queue_expired''"
| "terminal_reason_name LeaseExhausted = ''lease_exhausted''"
| "terminal_reason_name CancelledByActor = ''cancelled_by_actor''"
| "terminal_reason_name WorkflowRejected = ''workflow_rejected''"
| "terminal_reason_name ReceiptInvalid = ''receipt_invalid''"
| "terminal_reason_name WorkerDrained = ''worker_drained''"
| "terminal_reason_name DependencyUnavailable = ''dependency_unavailable''"

fun production_process_name :: "production_process \<Rightarrow> string" where
  "production_process_name ProcessJoiner = ''joiner''"
| "production_process_name ProcessMover = ''mover''"
| "production_process_name ProcessLeaver = ''leaver''"

fun production_category_name :: "production_category \<Rightarrow> string" where
  "production_category_name CategoryJoiner = ''standard_joiner''"
| "production_category_name CategoryMover = ''standard_mover''"
| "production_category_name CategoryLeaver = ''standard_leaver''"

datatype outbox_status =
    OutboxReady | OutboxLeased | OutboxDispatched | OutboxClosed | OutboxCancelled | OutboxExpired | OutboxFailed

fun outbox_status_name :: "outbox_status \<Rightarrow> string" where
  "outbox_status_name OutboxReady = ''ready''"
| "outbox_status_name OutboxLeased = ''leased''"
| "outbox_status_name OutboxDispatched = ''dispatched''"
| "outbox_status_name OutboxClosed = ''closed''"
| "outbox_status_name OutboxCancelled = ''cancelled''"
| "outbox_status_name OutboxExpired = ''expired''"
| "outbox_status_name OutboxFailed = ''failed''"

datatype lease_status = LeaseActive | LeaseReleased | LeaseExpired | LeaseCompleted | LeaseFailed
datatype partition_status = PartitionReady | PartitionEmpty | PartitionDisabled
datatype bucket_scope = ScopeActor | ScopeOrganization
datatype bucket_status = BucketActive | BucketDisabled
datatype route_class = RouteSubmit | RouteRead | RouteMutate

subsection \<open>The trace vocabulary\<close>

text \<open>The values of the closed columns of a trace event.\<close>

definition trace_phases :: "string list" where
  "trace_phases = [''admission'', ''approval'', ''outbox'', ''lease'', ''dispatch'', ''workflow'', ''recovery'', ''planning'',
     ''browser'', ''receipt'', ''grader'', ''audit'', ''cost'', ''terminal'', ''replay'', ''dashboard'']"

definition trace_statuses :: "string list" where
  "trace_statuses = [''accepted'', ''waiting'', ''queued'', ''leased'', ''running'', ''recovered'', ''released'', ''succeeded'',
     ''failed'', ''rejected'', ''cancelled'', ''pending'', ''exported'']"

definition failure_categories :: "string list" where
  "failure_categories = [''none'', ''authn'', ''authz'', ''approval'', ''schema'', ''rate_limit'', ''backpressure'', ''queue_expiry'',
     ''lease_fence'', ''workflow_rejected'', ''dependency_unavailable'', ''browser_timeout'', ''browser_error'', ''planning_failure'',
     ''recovery_failure'', ''receipt_invalid'', ''grader_verification'', ''audit_verification'']"

definition trace_reasons :: "string list" where
  "trace_reasons = [''admitted_queued'', ''admitted_waiting_approval'', ''approval_handoff'', ''outbox_ready'', ''lease_claimed'',
     ''lease_recovered'', ''lease_heartbeat'', ''lease_released'', ''stale_fence_rejected'', ''worker_dispatched'',
     ''temporal_reference'', ''temporal_deduplicated'', ''recovery_summary'', ''planning_summary'', ''browser_step'',
     ''browser_summary'', ''receipt_recorded'', ''grader_pending'', ''audit_reference'', ''fake_cost_accounted'',
     ''run_finished_ungraded'', ''run_failed'', ''run_cancelled'', ''run_expired'', ''replay_exported'', ''dashboard_exported'']"

subsection \<open>Identifier patterns\<close>

definition hex_char :: "char \<Rightarrow> bool" where
  "hex_char c = (is_digit c \<or> (97 \<le> code c \<and> code c \<le> 102))"

definition sha256_ok :: "string \<Rightarrow> bool" where
  "sha256_ok s = (length s = 64 \<and> list_all hex_char s)"

abbreviation "organization_id_ok \<equiv> opaque_ok ''org_'' 8 64"
abbreviation "user_id_ok \<equiv> opaque_ok ''usr_'' 8 64"
abbreviation "identity_id_ok \<equiv> opaque_ok ''idn_'' 8 64"
abbreviation "membership_id_ok \<equiv> opaque_ok ''mbr_'' 8 64"
abbreviation "authority_id_ok \<equiv> opaque_ok ''aut_'' 8 64"

definition lower_char :: "char \<Rightarrow> bool" where
  "lower_char c = (97 \<le> code c \<and> code c \<le> 122)"

text \<open>The pattern \<open>^[first][rest]{lo,hi}$\<close>.\<close>

definition pattern_ok :: "(char \<Rightarrow> bool) \<Rightarrow> (char \<Rightarrow> bool) \<Rightarrow> nat \<Rightarrow> nat \<Rightarrow> string \<Rightarrow> bool" where
  "pattern_ok first rest lo hi s = (s \<noteq> [] \<and> first (hd s) \<and> lo \<le> length (tl s) \<and> length (tl s) \<le> hi \<and> list_all rest (tl s))"

definition word_char :: "char \<Rightarrow> bool" where
  "word_char c = (lower_char c \<or> is_digit c \<or> c = CHR ''_'')"

definition code_char :: "char \<Rightarrow> bool" where
  "code_char c = (word_char c \<or> c \<in> {CHR ''.'', CHR '':'', CHR ''-''})"

definition task_reference_ok :: "string \<Rightarrow> bool" where
  "task_reference_ok = pattern_ok is_alpha token_char 7 79"

definition step_reference_ok :: "string \<Rightarrow> bool" where
  "step_reference_ok = pattern_ok lower_char word_char 1 39"

definition action_candidate_ok :: "string \<Rightarrow> bool" where
  "action_candidate_ok = pattern_ok lower_char word_char 1 63"

definition safe_code_ok :: "string \<Rightarrow> bool" where
  "safe_code_ok = pattern_ok (\<lambda>c. lower_char c \<or> is_digit c) code_char 0 119"

subsection \<open>Canonical hashes\<close>

text \<open>\<open>stable_hash\<close> of a dict, and of a plain string.\<close>

definition stable_hash :: "(string \<Rightarrow> string) \<Rightarrow> json \<Rightarrow> string" where
  "stable_hash sha j = sha (canonical_json_bytes j)"

definition stable_hash_str :: "(string \<Rightarrow> string) \<Rightarrow> string \<Rightarrow> string" where
  "stable_hash_str sha s = sha (utf8 s)"

subsection \<open>The actor\<close>

record authority_context =
  ac_authority_id :: string
  ac_role :: approval_role
  ac_version :: int

record actor_context =
  a_identity_id :: string
  a_issuer_hash :: string
  a_subject_hash :: string
  a_user_id :: string
  a_organization_id :: string
  a_membership_id :: string
  a_role :: role
  a_permissions :: "permission list"
  a_organization_version :: int
  a_user_version :: int
  a_membership_version :: int
  a_approval_authorities :: "authority_context list"
  a_authorization_hash :: string

definition actor_context_ok :: "actor_context \<Rightarrow> bool" where
  "actor_context_ok a = (identity_id_ok (a_identity_id a) \<and> sha256_ok (a_issuer_hash a) \<and> sha256_ok (a_subject_hash a) \<and>
     user_id_ok (a_user_id a) \<and> organization_id_ok (a_organization_id a) \<and> membership_id_ok (a_membership_id a) \<and>
     1 \<le> a_organization_version a \<and> 1 \<le> a_user_version a \<and> 1 \<le> a_membership_version a \<and>
     list_all (\<lambda>c. authority_id_ok (ac_authority_id c) \<and> 1 \<le> ac_version c) (a_approval_authorities a) \<and>
     sha256_ok (a_authorization_hash a))"

subsection \<open>Request bodies\<close>

type_synonym json_dict = "(string \<times> json) list"

definition bound_parameters :: "json_dict \<Rightarrow> bool" where
  "bound_parameters d = (length d \<le> 12 \<and> length (canonical_json_bytes (JObj d)) \<le> 4096)"

record execution_gate_request =
  eg_task_id :: string
  eg_step_id :: string
  eg_action_type :: string
  eg_parameters :: json_dict

definition execution_gate_request_ok :: "execution_gate_request \<Rightarrow> bool" where
  "execution_gate_request_ok p = (task_reference_ok (eg_task_id p) \<and> step_reference_ok (eg_step_id p) \<and>
     action_candidate_ok (eg_action_type p) \<and> bound_parameters (eg_parameters p))"

record grant_claim_request =
  gc_task_id :: string
  gc_step_id :: string
  gc_action_type :: string
  gc_parameters :: json_dict

definition grant_claim_request_ok :: "grant_claim_request \<Rightarrow> bool" where
  "grant_claim_request_ok p = (task_reference_ok (gc_task_id p) \<and> step_reference_ok (gc_step_id p) \<and>
     action_candidate_ok (gc_action_type p) \<and> bound_parameters (gc_parameters p))"

record approval_decision_create =
  dp_decision :: decision_value
  dp_reason :: approval_reason

definition approval_decision_create_ok :: "approval_decision_create \<Rightarrow> bool" where
  "approval_decision_create_ok p = (dp_reason p = (if dp_decision p = Approved then PolicySatisfied else PolicyRejected))"

record authority_create =
  cr_user_id :: string
  cr_role :: approval_role

record execution_claim_read =
  cl_execution_id :: string
  cl_grant_id :: string
  cl_request_id :: string
  cl_organization_id :: string
  cl_task_id :: string
  cl_step_id :: string
  cl_action_type :: string
  cl_parameter_hash :: string
  cl_authorization_hash :: string
  cl_grant_status :: grant_status
  cl_grant_version :: int
  cl_claimed_at :: datetime

datatype verification_reason = ChainValid | SequenceMismatch | PreviousHashMismatch | EventHashMismatch | HeadMismatch

record audit_verification =
  av_valid :: bool
  av_event_count :: nat
  av_head_sequence :: int
  av_head_hash :: string
  av_reason :: verification_reason

end
