(* ===== verification/Tables.thy ===== *)
theory Tables
  imports ControlTypes
begin

section \<open>The control plane's tables and transactions\<close>

text \<open>
  \<open>models.py\<close>: one record per table of the identity, approval, audit, production and trace schema, with the declared constraints as predicates: \<open>*_row_ok\<close> for the CHECK constraints of a row,
  \<open>*_keys_ok\<close> for the primary keys, UNIQUE constraints and foreign keys of a table. A closed string
  column holds the constructors of its enumeration, which is what its \<open>IN\<close> constraint says, and the
  column \<open>required_roles\<close> holds the list that the code joins with commas. A table is the list of its
  rows in insertion order.

  A \<open>Session\<close> has the committed tables and those of the open transaction. \<open>commit\<close> is the place where
  the constraints are enforced. Transactions run one after another, so the row locks
  (\<open>with_for_update\<close>) have nothing to do; an \<open>UPDATE ... RETURNING\<close> gives the rows as updated.
\<close>

subsection \<open>Rows\<close>

record organization =
  og_organization_id :: string
  og_profile_code :: string
  og_status :: active_status
  og_version :: int
  og_memory_version :: int
  og_created_at :: datetime
  og_updated_at :: datetime

definition organization_row_ok :: "organization \<Rightarrow> bool" where
  "organization_row_ok r = (1 \<le> og_version r \<and> 1 \<le> og_memory_version r)"

record user =
  us_user_id :: string
  us_organization_id :: string
  us_profile_code :: string
  us_status :: active_status
  us_version :: int
  us_created_at :: datetime
  us_updated_at :: datetime

definition user_row_ok :: "user \<Rightarrow> bool" where
  "user_row_ok r = (1 \<le> us_version r)"

record oidc_identity =
  id_identity_id :: string
  id_organization_id :: string
  id_user_id :: string
  id_issuer_id :: string
  id_issuer_hash :: string
  id_subject_hash :: string
  id_status :: active_status
  id_version :: int
  id_created_at :: datetime
  id_updated_at :: datetime

definition identity_row_ok :: "oidc_identity \<Rightarrow> bool" where
  "identity_row_ok r = (1 \<le> id_version r \<and> length (id_issuer_hash r) = 64 \<and> length (id_subject_hash r) = 64)"

record membership =
  mb_membership_id :: string
  mb_organization_id :: string
  mb_user_id :: string
  mb_role :: role
  mb_status :: active_status
  mb_version :: int
  mb_created_at :: datetime
  mb_updated_at :: datetime

definition membership_row_ok :: "membership \<Rightarrow> bool" where
  "membership_row_ok r = (1 \<le> mb_version r)"

record organization_memory =
  om_memory_id :: string
  om_organization_id :: string
  om_owner_user_id :: string
  om_field :: memory_field
  om_safe_value :: string
  om_status :: memory_status
  om_version :: int
  om_valid_from :: datetime
  om_expires_at :: "datetime option"
  om_content_hash :: string
  om_created_at :: datetime
  om_updated_at :: datetime

definition memory_row_ok :: "organization_memory \<Rightarrow> bool" where
  "memory_row_ok r = (1 \<le> om_version r \<and> length (om_content_hash r) = 64)"

record approval_authority =
  au_authority_id :: string
  au_organization_id :: string
  au_user_id :: string
  au_role :: approval_role
  au_status :: authority_status
  au_version :: int
  au_created_at :: datetime
  au_updated_at :: datetime

definition authority_row_ok :: "approval_authority \<Rightarrow> bool" where
  "authority_row_ok r = (1 \<le> au_version r)"

record approval_request =
  rq_request_id :: string
  rq_organization_id :: string
  rq_task_id :: string
  rq_step_id :: string
  rq_action_type :: string
  rq_parameter_hash :: string
  rq_risk_level :: risk_level
  rq_requester_user_id :: string
  rq_executor_user_id :: string
  rq_required_roles :: "approval_role list"
  rq_status :: request_status
  rq_version :: int
  rq_expires_at :: datetime
  rq_closed_reason :: "approval_reason option"
  rq_audit_sequence :: int
  rq_created_at :: datetime
  rq_updated_at :: datetime

definition L2_ACTIONS :: "string list" where
  "L2_ACTIONS = [''create_ticket'', ''create_account'', ''assign_asset'', ''create_mailbox'', ''transfer_employee'',
     ''close_ticket'', ''release_asset'']"

definition L3_ACTIONS :: "string list" where
  "L3_ACTIONS = [''create_account'', ''grant_admin_privilege'', ''revoke_account'', ''disable_employee'',
     ''disable_mailbox'', ''transfer_file_ownership'']"

definition request_row_ok :: "approval_request \<Rightarrow> bool" where
  "request_row_ok r = (
     ((rq_risk_level r = L2 \<and> rq_required_roles r = [Manager] \<and> rq_action_type r \<in> set L2_ACTIONS) \<or>
      (rq_risk_level r = L3 \<and> rq_required_roles r = [Manager, Security] \<and> rq_action_type r \<in> set L3_ACTIONS)) \<and>
     rq_closed_reason r \<noteq> Some PolicySatisfied \<and>
     length (rq_parameter_hash r) = 64 \<and> 1 \<le> rq_version r \<and> 1 \<le> rq_audit_sequence r)"

record approval_decision =
  dc_decision_id :: string
  dc_organization_id :: string
  dc_request_id :: string
  dc_decision :: decision_value
  dc_approver_user_id :: string
  dc_authority_id :: string
  dc_approval_role :: approval_role
  dc_request_version :: int
  dc_action_type :: string
  dc_parameter_hash :: string
  dc_reason :: approval_reason
  dc_audit_sequence :: int
  dc_created_at :: datetime

definition decision_row_ok :: "approval_decision \<Rightarrow> bool" where
  "decision_row_ok r = (
     ((dc_decision r = Approved \<and> dc_reason r = PolicySatisfied) \<or> (dc_decision r = Rejected \<and> dc_reason r = PolicyRejected)) \<and>
     length (dc_parameter_hash r) = 64 \<and> 1 \<le> dc_request_version r \<and> 1 \<le> dc_audit_sequence r)"

record approval_grant =
  gr_grant_id :: string
  gr_organization_id :: string
  gr_request_id :: string
  gr_task_id :: string
  gr_step_id :: string
  gr_action_type :: string
  gr_parameter_hash :: string
  gr_risk_level :: risk_level
  gr_approval_set_hash :: string
  gr_executor_user_id :: string
  gr_token_hash :: string
  gr_nonce_hash :: string
  gr_status :: grant_status
  gr_version :: int
  gr_expires_at :: datetime
  gr_execution_id :: "string option"
  gr_authorization_hash :: "string option"
  gr_receipt_reference :: "string option"
  gr_claimed_at :: "datetime option"
  gr_consumed_at :: "datetime option"
  gr_created_at :: datetime
  gr_updated_at :: datetime

definition hash_or_null :: "string option \<Rightarrow> bool" where
  "hash_or_null h = (case h of None \<Rightarrow> True | Some x \<Rightarrow> length x = 64)"

definition grant_row_ok :: "approval_grant \<Rightarrow> bool" where
  "grant_row_ok r = (
     ((gr_risk_level r = L2 \<and> gr_action_type r \<in> set L2_ACTIONS) \<or> (gr_risk_level r = L3 \<and> gr_action_type r \<in> set L3_ACTIONS)) \<and>
     length (gr_parameter_hash r) = 64 \<and> length (gr_approval_set_hash r) = 64 \<and> length (gr_token_hash r) = 64 \<and>
     length (gr_nonce_hash r) = 64 \<and> hash_or_null (gr_authorization_hash r) \<and> 1 \<le> gr_version r)"

record audit_chain_head =
  hd_organization_id :: string
  hd_head_sequence :: int
  hd_head_hash :: string
  hd_version :: int
  hd_updated_at :: datetime

definition head_row_ok :: "audit_chain_head \<Rightarrow> bool" where
  "head_row_ok r = (0 \<le> hd_head_sequence r \<and> length (hd_head_hash r) = 64 \<and> 1 \<le> hd_version r)"

record audit_event =
  ev_organization_id :: string
  ev_sequence :: int
  ev_event_id :: string
  ev_event_type :: audit_event_type
  ev_actor_reference :: string
  ev_subject_reference :: string
  ev_payload_json :: string
  ev_payload_hash :: string
  ev_previous_hash :: string
  ev_event_hash :: string
  ev_created_at :: datetime

definition event_row_ok :: "audit_event \<Rightarrow> bool" where
  "event_row_ok r = (1 \<le> ev_sequence r \<and> length (ev_previous_hash r) = 64 \<and> length (ev_actor_reference r) = 64 \<and>
     1 \<le> length (ev_subject_reference r) \<and> length (ev_subject_reference r) \<le> 68 \<and> length (ev_payload_json r) \<le> 2048 \<and>
     length (ev_payload_hash r) = 64 \<and> length (ev_event_hash r) = 64)"

record production_run =
  pr_run_id :: string
  pr_organization_id :: string
  pr_requester_user_id :: string
  pr_executor_user_id :: string
  pr_task_id :: string
  pr_run_process :: production_process
  pr_run_category :: production_category
  pr_approval_request_id :: "string option"
  pr_grant_id :: "string option"
  pr_execution_id :: "string option"
  pr_action_type :: string
  pr_parameter_hash :: string
  pr_authorization_hash :: string
  pr_approval_set_hash :: "string option"
  pr_payload_reference :: string
  pr_payload_hash :: string
  pr_status :: production_run_status
  pr_version :: int
  pr_idempotency_hash :: string
  pr_body_hash :: string
  pr_workflow_id :: string
  pr_workflow_hash :: string
  pr_lease_owner_hash :: "string option"
  pr_fencing_token :: int
  pr_lease_expires_at :: "datetime option"
  pr_accepted_at :: datetime
  pr_queued_at :: "datetime option"
  pr_started_at :: "datetime option"
  pr_finished_at :: "datetime option"
  pr_terminal_reason :: "production_terminal_reason option"
  pr_receipt_reference :: "string option"
  pr_audit_sequence :: int
  pr_created_at :: datetime
  pr_updated_at :: datetime

definition JOINER_TASKS :: "string list" where
  "JOINER_TASKS = [''w7-jml-joiner-001-v1'', ''w7-jml-joiner-001-v2'', ''w7-jml-joiner-002-v1'', ''w7-jml-joiner-002-v2'']"

definition MOVER_TASKS :: "string list" where
  "MOVER_TASKS = [''w7-jml-mover-001-v1'', ''w7-jml-mover-001-v2'']"

definition LEAVER_TASKS :: "string list" where
  "LEAVER_TASKS = [''w7-jml-leaver-001-v1'', ''w7-jml-leaver-001-v2'']"

definition task_binding_ok :: "production_process \<Rightarrow> production_category \<Rightarrow> string \<Rightarrow> bool" where
  "task_binding_ok p c t = (
     (p = ProcessJoiner \<and> c = CategoryJoiner \<and> t \<in> set JOINER_TASKS) \<or>
     (p = ProcessMover \<and> c = CategoryMover \<and> t \<in> set MOVER_TASKS) \<or>
     (p = ProcessLeaver \<and> c = CategoryLeaver \<and> t \<in> set LEAVER_TASKS))"

definition production_run_row_ok :: "production_run \<Rightarrow> bool" where
  "production_run_row_ok r = (
     task_binding_ok (pr_run_process r) (pr_run_category r) (pr_task_id r) \<and>
     1 \<le> pr_version r \<and> 0 \<le> pr_fencing_token r \<and> 1 \<le> pr_audit_sequence r \<and>
     length (pr_parameter_hash r) = 64 \<and> length (pr_authorization_hash r) = 64 \<and> hash_or_null (pr_approval_set_hash r) \<and>
     length (pr_payload_hash r) = 64 \<and> length (pr_idempotency_hash r) = 64 \<and> length (pr_body_hash r) = 64 \<and>
     length (pr_workflow_hash r) = 64 \<and> hash_or_null (pr_lease_owner_hash r))"

record dispatch_outbox =
  ob_outbox_id :: string
  ob_organization_id :: string
  ob_run_id :: string
  ob_status :: outbox_status
  ob_attempt_count :: int
  ob_fencing_token :: int
  ob_lease_owner_hash :: "string option"
  ob_lease_version :: int
  ob_leased_at :: "datetime option"
  ob_lease_expires_at :: "datetime option"
  ob_heartbeat_at :: "datetime option"
  ob_available_at :: datetime
  ob_expires_at :: datetime
  ob_created_at :: datetime
  ob_updated_at :: datetime

definition outbox_row_ok :: "dispatch_outbox \<Rightarrow> bool" where
  "outbox_row_ok r = (0 \<le> ob_attempt_count r \<and> ob_attempt_count r \<le> 3 \<and> 0 \<le> ob_fencing_token r \<and> 0 \<le> ob_lease_version r \<and>
     hash_or_null (ob_lease_owner_hash r))"

text \<open>The columns of a lease are not nullable; the code copies nullable columns of the outbox into them.\<close>

record worker_lease =
  ls_lease_id :: string
  ls_organization_id :: string
  ls_outbox_id :: string
  ls_run_id :: string
  ls_worker_owner_hash :: "string option"
  ls_lease_version :: int
  ls_fencing_token :: int
  ls_leased_at :: "datetime option"
  ls_lease_expires_at :: "datetime option"
  ls_heartbeat_at :: "datetime option"
  ls_attempt_count :: int
  ls_status :: lease_status
  ls_closed_at :: "datetime option"

definition lease_row_ok :: "worker_lease \<Rightarrow> bool" where
  "lease_row_ok r = ((case ls_worker_owner_hash r of None \<Rightarrow> False | Some h \<Rightarrow> length h = 64) \<and> ls_leased_at r \<noteq> None \<and>
     ls_lease_expires_at r \<noteq> None \<and> ls_heartbeat_at r \<noteq> None \<and> 1 \<le> ls_lease_version r \<and> 1 \<le> ls_fencing_token r \<and>
     1 \<le> ls_attempt_count r \<and> ls_attempt_count r \<le> 3)"

record scheduler_partition =
  pt_organization_id :: string
  pt_partition_id :: string
  pt_ready_count :: int
  pt_status :: partition_status
  pt_cursor_version :: int
  pt_last_selected_at :: "datetime option"
  pt_updated_at :: datetime

definition partition_row_ok :: "scheduler_partition \<Rightarrow> bool" where
  "partition_row_ok r = (0 \<le> pt_ready_count r \<and> pt_ready_count r \<le> 32 \<and> 1 \<le> pt_cursor_version r)"

record rate_limit_bucket =
  bk_organization_id :: string
  bk_bucket_key_hash :: string
  bk_route_class :: route_class
  bk_scope_kind :: bucket_scope
  bk_tokens_micro :: int
  bk_last_refill_at :: datetime
  bk_status :: bucket_status
  bk_version :: int
  bk_created_at :: datetime
  bk_updated_at :: datetime

definition bucket_row_ok :: "rate_limit_bucket \<Rightarrow> bool" where
  "bucket_row_ok r = (length (bk_bucket_key_hash r) = 64 \<and> 0 \<le> bk_tokens_micro r \<and> 1 \<le> bk_version r)"

record idempotency_record =
  ir_idempotency_id :: string
  ir_organization_id :: string
  ir_actor_user_id :: string
  ir_key_hash :: string
  ir_body_hash :: string
  ir_run_id :: string
  ir_created_at :: datetime

definition idempotency_row_ok :: "idempotency_record \<Rightarrow> bool" where
  "idempotency_row_ok r = (length (ir_key_hash r) = 64 \<and> length (ir_body_hash r) = 64)"

record observability_event =
  oe_event_id :: string
  oe_organization_id :: string
  oe_run_id :: string
  oe_event_sequence :: int
  oe_trace_id :: string
  oe_span_id :: string
  oe_parent_span_id :: "string option"
  oe_phase :: string
  oe_status :: string
  oe_failure_category :: string
  oe_reason :: string
  oe_attributes_json :: string
  oe_attributes_hash :: string
  oe_event_hash :: string
  oe_observed_at :: datetime

definition trace_row_ok :: "observability_event \<Rightarrow> bool" where
  "trace_row_ok r = (1 \<le> oe_event_sequence r \<and> oe_event_sequence r \<le> 256 \<and> length (oe_trace_id r) = 32 \<and> length (oe_span_id r) = 16 \<and>
     (case oe_parent_span_id r of None \<Rightarrow> True | Some i \<Rightarrow> length i = 16) \<and> oe_phase r \<in> set trace_phases \<and>
     oe_status r \<in> set trace_statuses \<and> oe_failure_category r \<in> set failure_categories \<and> oe_reason r \<in> set trace_reasons \<and>
     length (oe_attributes_json r) \<le> 2048 \<and> length (oe_attributes_hash r) = 64 \<and> length (oe_event_hash r) = 64)"

subsection \<open>Tables\<close>

record tables =
  organizations :: "organization list"
  users :: "user list"
  identities :: "oidc_identity list"
  memberships :: "membership list"
  memories :: "organization_memory list"
  authorities :: "approval_authority list"
  requests :: "approval_request list"
  decisions :: "approval_decision list"
  grants :: "approval_grant list"
  heads :: "audit_chain_head list"
  events :: "audit_event list"
  runs :: "production_run list"
  outbox :: "dispatch_outbox list"
  leases :: "worker_lease list"
  partitions :: "scheduler_partition list"
  buckets :: "rate_limit_bucket list"
  idempotency :: "idempotency_record list"
  traces :: "observability_event list"

text \<open>UNIQUE on a key, where a key with a \<open>NULL\<close> component never conflicts; and a foreign key.\<close>

definition unique_on :: "('r \<Rightarrow> 'k) \<Rightarrow> 'r list \<Rightarrow> bool" where
  "unique_on key rs = distinct (map key rs)"

definition unique_present :: "('r \<Rightarrow> 'o \<times> 'k option) \<Rightarrow> 'r list \<Rightarrow> bool" where
  "unique_present key rs = distinct (filter (\<lambda>k. snd k \<noteq> None) (map key rs))"

definition references :: "('r \<Rightarrow> 'k) \<Rightarrow> 'r list \<Rightarrow> ('s \<Rightarrow> 'k) \<Rightarrow> 's list \<Rightarrow> bool" where
  "references key rs key' ss = (set (map key rs) \<subseteq> set (map key' ss))"

abbreviation "org_user u \<equiv> (us_organization_id u, us_user_id u)"
abbreviation "org_request r \<equiv> (rq_organization_id r, rq_request_id r)"
abbreviation "grant_request g \<equiv> (gr_organization_id g, gr_request_id g)"
abbreviation "decision_request d \<equiv> (dc_organization_id d, dc_request_id d)"

definition users_keys_ok :: "tables \<Rightarrow> bool" where
  "users_keys_ok t = (unique_on og_organization_id (organizations t) \<and> unique_on us_user_id (users t) \<and>
     references us_organization_id (users t) og_organization_id (organizations t) \<and>
     unique_on id_identity_id (identities t) \<and> unique_on (\<lambda>i. (id_issuer_id i, id_subject_hash i)) (identities t) \<and>
     references (\<lambda>i. (id_organization_id i, id_user_id i)) (identities t) org_user (users t))"

definition memberships_keys_ok :: "tables \<Rightarrow> bool" where
  "memberships_keys_ok t = (unique_on mb_membership_id (memberships t) \<and>
     unique_on (\<lambda>m. (mb_organization_id m, mb_user_id m)) (memberships t) \<and>
     references (\<lambda>m. (mb_organization_id m, mb_user_id m)) (memberships t) org_user (users t))"

definition memories_keys_ok :: "tables \<Rightarrow> bool" where
  "memories_keys_ok t = (unique_on om_memory_id (memories t) \<and>
     references (\<lambda>m. (om_organization_id m, om_owner_user_id m)) (memories t) org_user (users t))"

definition authorities_keys_ok :: "tables \<Rightarrow> bool" where
  "authorities_keys_ok t = (unique_on au_authority_id (authorities t) \<and>
     unique_on (\<lambda>a. (au_organization_id a, au_user_id a, au_role a)) (authorities t) \<and>
     references (\<lambda>a. (au_organization_id a, au_user_id a)) (authorities t) org_user (users t))"

definition requests_keys_ok :: "tables \<Rightarrow> bool" where
  "requests_keys_ok t = (unique_on rq_request_id (requests t) \<and>
     references (\<lambda>r. (rq_organization_id r, rq_requester_user_id r)) (requests t) org_user (users t) \<and>
     references (\<lambda>r. (rq_organization_id r, rq_executor_user_id r)) (requests t) org_user (users t))"

definition decisions_keys_ok :: "tables \<Rightarrow> bool" where
  "decisions_keys_ok t = (unique_on dc_decision_id (decisions t) \<and>
     unique_on (\<lambda>d. (decision_request d, dc_approver_user_id d)) (decisions t) \<and>
     unique_on (\<lambda>d. (decision_request d, dc_approval_role d)) (decisions t) \<and>
     references (\<lambda>d. (decision_request d, dc_action_type d, dc_parameter_hash d)) (decisions t)
       (\<lambda>r. (org_request r, rq_action_type r, rq_parameter_hash r)) (requests t) \<and>
     references (\<lambda>d. (dc_organization_id d, dc_approver_user_id d)) (decisions t) org_user (users t) \<and>
     references (\<lambda>d. (dc_organization_id d, dc_authority_id d, dc_approver_user_id d, dc_approval_role d)) (decisions t)
       (\<lambda>a. (au_organization_id a, au_authority_id a, au_user_id a, au_role a)) (authorities t))"

definition grants_keys_ok :: "tables \<Rightarrow> bool" where
  "grants_keys_ok t = (unique_on gr_grant_id (grants t) \<and> unique_on grant_request (grants t) \<and>
     unique_present (\<lambda>g. (gr_organization_id g, gr_execution_id g)) (grants t) \<and>
     references (\<lambda>g. (grant_request g, gr_action_type g, gr_parameter_hash g, gr_risk_level g, gr_executor_user_id g)) (grants t)
       (\<lambda>r. (org_request r, rq_action_type r, rq_parameter_hash r, rq_risk_level r, rq_executor_user_id r)) (requests t) \<and>
     references (\<lambda>g. (gr_organization_id g, gr_executor_user_id g)) (grants t) org_user (users t))"

definition audit_keys_ok :: "tables \<Rightarrow> bool" where
  "audit_keys_ok t = (unique_on hd_organization_id (heads t) \<and>
     references hd_organization_id (heads t) og_organization_id (organizations t) \<and>
     unique_on (\<lambda>e. (ev_organization_id e, ev_sequence e)) (events t) \<and>
     unique_on (\<lambda>e. (ev_organization_id e, ev_event_id e)) (events t) \<and>
     references ev_organization_id (events t) og_organization_id (organizations t))"

definition runs_keys_ok :: "tables \<Rightarrow> bool" where
  "runs_keys_ok t = (unique_on pr_run_id (runs t) \<and>
     unique_present (\<lambda>r. (pr_organization_id r, pr_approval_request_id r)) (runs t) \<and>
     unique_present (\<lambda>r. (pr_organization_id r, pr_execution_id r)) (runs t) \<and>
     references (\<lambda>r. (pr_organization_id r, pr_requester_user_id r)) (runs t) org_user (users t) \<and>
     references (\<lambda>r. (pr_organization_id r, pr_executor_user_id r)) (runs t) org_user (users t) \<and>
     references (\<lambda>r. (pr_organization_id r, pr_approval_request_id r)) (filter (\<lambda>r. pr_approval_request_id r \<noteq> None) (runs t))
       (\<lambda>q. (rq_organization_id q, Some (rq_request_id q))) (requests t) \<and>
     references (\<lambda>r. (pr_organization_id r, pr_grant_id r)) (filter (\<lambda>r. pr_grant_id r \<noteq> None) (runs t))
       (\<lambda>g. (gr_organization_id g, Some (gr_grant_id g))) (grants t) \<and>
     references (\<lambda>r. (pr_organization_id r, pr_execution_id r)) (filter (\<lambda>r. pr_execution_id r \<noteq> None) (runs t))
       (\<lambda>g. (gr_organization_id g, gr_execution_id g)) (grants t))"

abbreviation "org_run r \<equiv> (pr_organization_id r, pr_run_id r)"
abbreviation "outbox_run b \<equiv> (ob_organization_id b, ob_run_id b)"
abbreviation "org_outbox b \<equiv> (ob_organization_id b, ob_outbox_id b)"

definition queue_keys_ok :: "tables \<Rightarrow> bool" where
  "queue_keys_ok t = (unique_on ob_outbox_id (outbox t) \<and> unique_on outbox_run (outbox t) \<and>
     references outbox_run (outbox t) org_run (runs t) \<and>
     unique_on ls_lease_id (leases t) \<and> unique_on (\<lambda>l. (ls_organization_id l, ls_outbox_id l, ls_fencing_token l)) (leases t) \<and>
     references (\<lambda>l. (ls_organization_id l, ls_outbox_id l)) (leases t) org_outbox (outbox t) \<and>
     references (\<lambda>l. (ls_organization_id l, ls_run_id l)) (leases t) org_run (runs t) \<and>
     unique_on pt_organization_id (partitions t) \<and> unique_on pt_partition_id (partitions t) \<and>
     references pt_organization_id (partitions t) og_organization_id (organizations t))"

definition admission_keys_ok :: "tables \<Rightarrow> bool" where
  "admission_keys_ok t = (unique_on (\<lambda>b. (bk_organization_id b, bk_bucket_key_hash b, bk_route_class b)) (buckets t) \<and>
     references bk_organization_id (buckets t) og_organization_id (organizations t) \<and>
     unique_on ir_idempotency_id (idempotency t) \<and>
     unique_on (\<lambda>i. (ir_organization_id i, ir_actor_user_id i, ir_key_hash i)) (idempotency t) \<and>
     references (\<lambda>i. (ir_organization_id i, ir_actor_user_id i)) (idempotency t) org_user (users t) \<and>
     references (\<lambda>i. (ir_organization_id i, ir_run_id i)) (idempotency t) org_run (runs t) \<and>
     unique_on oe_event_id (traces t) \<and> unique_on (\<lambda>e. (oe_organization_id e, oe_run_id e, oe_event_sequence e)) (traces t) \<and>
     references (\<lambda>e. (oe_organization_id e, oe_run_id e)) (traces t) org_run (runs t))"

definition rows_ok :: "tables \<Rightarrow> bool" where
  "rows_ok t = (list_all organization_row_ok (organizations t) \<and> list_all user_row_ok (users t) \<and>
     list_all identity_row_ok (identities t) \<and> list_all membership_row_ok (memberships t) \<and>
     list_all memory_row_ok (memories t) \<and> list_all authority_row_ok (authorities t) \<and>
     list_all request_row_ok (requests t) \<and> list_all decision_row_ok (decisions t) \<and>
     list_all grant_row_ok (grants t) \<and> list_all head_row_ok (heads t) \<and>
     list_all event_row_ok (events t) \<and> list_all production_run_row_ok (runs t) \<and>
     list_all outbox_row_ok (outbox t) \<and> list_all lease_row_ok (leases t) \<and> list_all partition_row_ok (partitions t) \<and>
     list_all bucket_row_ok (buckets t) \<and> list_all idempotency_row_ok (idempotency t) \<and> list_all trace_row_ok (traces t))"

definition tables_valid :: "tables \<Rightarrow> bool" where
  "tables_valid t = (rows_ok t \<and> users_keys_ok t \<and> memberships_keys_ok t \<and> memories_keys_ok t \<and> authorities_keys_ok t \<and>
     requests_keys_ok t \<and> decisions_keys_ok t \<and> grants_keys_ok t \<and> audit_keys_ok t \<and> runs_keys_ok t \<and>
     queue_keys_ok t \<and> admission_keys_ok t)"

end
