(* ===== verification/Sessions.thy ===== *)
theory Sessions
  imports Tables
begin

section \<open>Sessions\<close>

text \<open>
  The state a control-plane operation runs on: the database with the open transaction, the
  \<open>TrustedGrantVault\<close> of the process, and the position in the stream of \<open>secrets\<close>. SHA-256, the
  secrets and the database's clock are parameters (\<open>env\<close>). An operation is a method over this state
  that raises a \<open>control_error\<close>; \<open>with Session(engine) as session\<close> of \<open>database.py\<close> drops what was not
  committed (\<open>in_session\<close>).
\<close>

datatype control_error =
    ResourceNotFound
  | ResourceConflict
  | PreconditionFailed
  | PreconditionRequired
  | AuthorizationDenied string
  | ApprovalStateConflict
  | RiskDenied
  | GrantRejected
  | RiskSchemaRejected
  | AuditChainMissing
  | AuditPayloadRejected
  | IntegrityError
  | MultipleResultsFound
  | ValueError
  | IdempotencyConflict
  | ProductionStateConflict
  | RateLimitExceeded int
  | BackpressureExceeded int
  | ObservabilityPayloadRejected
  | NoResultFound
  | RuntimeError
  | KeyError

record env =
  v_sha :: "string \<Rightarrow> string"
  v_token_hex :: "nat \<Rightarrow> string"
  v_token_urlsafe :: "nat \<Rightarrow> nat \<Rightarrow> string"
  v_db_now :: datetime

record session =
  committed :: tables
  current :: tables
  vault :: "(string \<times> string) list"
  capacity :: nat
  drawn :: nat

type_synonym 'a control = "(session, control_error, 'a) meth"

subsection \<open>Queries and statements\<close>

definition query :: "(tables \<Rightarrow> 'a) \<Rightarrow> 'a control" where
  "query f = (\<lambda>s. (Inr (f (current s)), s))"

definition store :: "(tables \<Rightarrow> tables) \<Rightarrow> unit control" where
  "store f = modify (\<lambda>s. s\<lparr>current := f (current s)\<rparr>)"

definition rollback :: "unit control" where
  "rollback = modify (\<lambda>s. s\<lparr>current := committed s\<rparr>)"

text \<open>A failing commit leaves the transaction to be rolled back.\<close>

definition commit :: "unit control" where
  "commit = (\<lambda>s. if tables_valid (current s) then (Inr (), s\<lparr>committed := current s\<rparr>) else (Inl IntegrityError, s))"

text \<open>\<open>session.flush()\<close> sends the statements, so a violated constraint is reported here.\<close>

definition flush :: "unit control" where
  "flush = (\<lambda>s. if tables_valid (current s) then (Inr (), s) else (Inl IntegrityError, s))"

definition rollback_raise :: "control_error \<Rightarrow> 'a control" where
  "rollback_raise e = andthen rollback (\<lambda>_. raise e)"

text \<open>\<open>try: session.commit() except IntegrityError: session.rollback(); raise e\<close>\<close>

definition commit_or_conflict :: "control_error \<Rightarrow> unit control" where
  "commit_or_conflict e = (\<lambda>s. case commit s of (Inl IntegrityError, s') \<Rightarrow> rollback_raise e s' | r \<Rightarrow> r)"

text \<open>\<open>session.scalar(select(...).where(...))\<close>: the first row, if any.\<close>

definition scalar :: "(tables \<Rightarrow> 'r list) \<Rightarrow> ('r \<Rightarrow> bool) \<Rightarrow> 'r option control" where
  "scalar tbl P = query (\<lambda>t. find P (tbl t))"

text \<open>The rows an \<open>UPDATE ... WHERE ... RETURNING\<close> gives, of which at most one may exist.\<close>

definition one_or_none :: "'r list \<Rightarrow> 'r option control" where
  "one_or_none rs = (case rs of [] \<Rightarrow> ret None | [r] \<Rightarrow> ret (Some r) | _ \<Rightarrow> raise MultipleResultsFound)"

definition update_rows :: "('r \<Rightarrow> bool) \<Rightarrow> ('r \<Rightarrow> 'r) \<Rightarrow> 'r list \<Rightarrow> 'r list" where
  "update_rows P f = map (\<lambda>r. if P r then f r else r)"

definition update_returning :: "(tables \<Rightarrow> 'r list) \<Rightarrow> (('r list \<Rightarrow> 'r list) \<Rightarrow> tables \<Rightarrow> tables) \<Rightarrow> ('r \<Rightarrow> bool) \<Rightarrow> ('r \<Rightarrow> 'r)
    \<Rightarrow> 'r option control" where
  "update_returning tbl upd P f =
     andthen (query (\<lambda>t. map f (filter P (tbl t)))) (\<lambda>rs.
     andthen (store (upd (update_rows P f))) (\<lambda>_. one_or_none rs))"

text \<open>An attribute assignment to a mapped object: the row with its primary key is replaced.\<close>

definition put_row :: "('r \<Rightarrow> 'k) \<Rightarrow> 'r \<Rightarrow> 'r list \<Rightarrow> 'r list" where
  "put_row key r = map (\<lambda>x. if key x = key r then r else x)"

definition upd_organizations :: "(organization list \<Rightarrow> organization list) \<Rightarrow> tables \<Rightarrow> tables" where
  "upd_organizations f t = t\<lparr>organizations := f (organizations t)\<rparr>"
definition upd_users :: "(user list \<Rightarrow> user list) \<Rightarrow> tables \<Rightarrow> tables" where
  "upd_users f t = t\<lparr>users := f (users t)\<rparr>"
definition upd_memberships :: "(membership list \<Rightarrow> membership list) \<Rightarrow> tables \<Rightarrow> tables" where
  "upd_memberships f t = t\<lparr>memberships := f (memberships t)\<rparr>"
definition upd_memories :: "(organization_memory list \<Rightarrow> organization_memory list) \<Rightarrow> tables \<Rightarrow> tables" where
  "upd_memories f t = t\<lparr>memories := f (memories t)\<rparr>"
definition upd_authorities :: "(approval_authority list \<Rightarrow> approval_authority list) \<Rightarrow> tables \<Rightarrow> tables" where
  "upd_authorities f t = t\<lparr>authorities := f (authorities t)\<rparr>"
definition upd_requests :: "(approval_request list \<Rightarrow> approval_request list) \<Rightarrow> tables \<Rightarrow> tables" where
  "upd_requests f t = t\<lparr>requests := f (requests t)\<rparr>"
definition upd_decisions :: "(approval_decision list \<Rightarrow> approval_decision list) \<Rightarrow> tables \<Rightarrow> tables" where
  "upd_decisions f t = t\<lparr>decisions := f (decisions t)\<rparr>"
definition upd_grants :: "(approval_grant list \<Rightarrow> approval_grant list) \<Rightarrow> tables \<Rightarrow> tables" where
  "upd_grants f t = t\<lparr>grants := f (grants t)\<rparr>"
definition upd_heads :: "(audit_chain_head list \<Rightarrow> audit_chain_head list) \<Rightarrow> tables \<Rightarrow> tables" where
  "upd_heads f t = t\<lparr>heads := f (heads t)\<rparr>"
definition upd_events :: "(audit_event list \<Rightarrow> audit_event list) \<Rightarrow> tables \<Rightarrow> tables" where
  "upd_events f t = t\<lparr>events := f (events t)\<rparr>"

definition upd_runs :: "(production_run list \<Rightarrow> production_run list) \<Rightarrow> tables \<Rightarrow> tables" where
  "upd_runs f t = t\<lparr>runs := f (runs t)\<rparr>"
definition upd_outbox :: "(dispatch_outbox list \<Rightarrow> dispatch_outbox list) \<Rightarrow> tables \<Rightarrow> tables" where
  "upd_outbox f t = t\<lparr>outbox := f (outbox t)\<rparr>"
definition upd_leases :: "(worker_lease list \<Rightarrow> worker_lease list) \<Rightarrow> tables \<Rightarrow> tables" where
  "upd_leases f t = t\<lparr>leases := f (leases t)\<rparr>"
definition upd_partitions :: "(scheduler_partition list \<Rightarrow> scheduler_partition list) \<Rightarrow> tables \<Rightarrow> tables" where
  "upd_partitions f t = t\<lparr>partitions := f (partitions t)\<rparr>"
definition upd_buckets :: "(rate_limit_bucket list \<Rightarrow> rate_limit_bucket list) \<Rightarrow> tables \<Rightarrow> tables" where
  "upd_buckets f t = t\<lparr>buckets := f (buckets t)\<rparr>"
definition upd_idempotency :: "(idempotency_record list \<Rightarrow> idempotency_record list) \<Rightarrow> tables \<Rightarrow> tables" where
  "upd_idempotency f t = t\<lparr>idempotency := f (idempotency t)\<rparr>"
definition upd_traces :: "(observability_event list \<Rightarrow> observability_event list) \<Rightarrow> tables \<Rightarrow> tables" where
  "upd_traces f t = t\<lparr>traces := f (traces t)\<rparr>"

lemmas upd_defs = upd_organizations_def upd_users_def upd_memberships_def upd_memories_def upd_authorities_def
  upd_requests_def upd_decisions_def upd_grants_def upd_heads_def upd_events_def upd_runs_def upd_outbox_def upd_leases_def
  upd_partitions_def upd_buckets_def upd_idempotency_def upd_traces_def

lemmas session_defs = query_def store_def rollback_def rollback_raise_def scalar_def

subsection \<open>Secrets\<close>

definition draw :: "(nat \<Rightarrow> 'a) \<Rightarrow> 'a control" where
  "draw f = (\<lambda>s. (Inr (f (drawn s)), s\<lparr>drawn := Suc (drawn s)\<rparr>))"

text \<open>\<open>f"{prefix}_{secrets.token_hex(16)}"\<close>\<close>

definition opaque_id :: "env \<Rightarrow> string \<Rightarrow> string control" where
  "opaque_id v pre = draw (\<lambda>n. pre @ CHR ''_'' # v_token_hex v n)"

subsection \<open>The vault\<close>

definition new_vault :: "int \<Rightarrow> control_error + nat" where
  "new_vault cap = (if 1 \<le> cap \<and> cap \<le> 256 then Inr (nat cap) else Inl ValueError)"

definition vault_put :: "string \<Rightarrow> string \<Rightarrow> unit control" where
  "vault_put g credential = (\<lambda>s. if g \<in> fst ` set (vault s) \<or> capacity s \<le> length (vault s)
     then (Inl ApprovalStateConflict, s) else (Inr (), s\<lparr>vault := vault s @ [(g, credential)]\<rparr>))"

definition vault_take :: "string \<Rightarrow> string option control" where
  "vault_take g = (\<lambda>s. (Inr (map_of (vault s) g), s\<lparr>vault := filter (\<lambda>p. fst p \<noteq> g) (vault s)\<rparr>))"

definition vault_peek :: "string \<Rightarrow> string option control" where
  "vault_peek g = (\<lambda>s. (Inr (map_of (vault s) g), s))"

definition vault_discard :: "string \<Rightarrow> unit control" where
  "vault_discard g = modify (\<lambda>s. s\<lparr>vault := filter (\<lambda>p. fst p \<noteq> g) (vault s)\<rparr>)"

subsection \<open>The life of a session\<close>

definition in_session :: "'a control \<Rightarrow> 'a control" where
  "in_session m = (\<lambda>s. let (r, s') = m (s\<lparr>current := committed s\<rparr>) in (r, s'\<lparr>current := committed s'\<rparr>))"

text \<open>A statement for every element of a list.\<close>

fun for_each :: "('x \<Rightarrow> unit control) \<Rightarrow> 'x list \<Rightarrow> unit control" where
  "for_each f [] = ret ()"
| "for_each f (x # xs) = andthen (f x) (\<lambda>_. for_each f xs)"

definition require :: "bool \<Rightarrow> control_error \<Rightarrow> unit control" where
  "require b e = (if b then ret () else raise e)"

subsection \<open>Symbolic execution\<close>

lemma andthen_Inr_iff: "andthen m f s = (Inr y, s') \<longleftrightarrow> (\<exists>x t. m s = (Inr x, t) \<and> f x t = (Inr y, s'))"
  by (cases "m s"; cases "fst (m s)") (auto simp: andthen_def)

lemma andthen_Inl_iff:
  "andthen m f s = (Inl e, s') \<longleftrightarrow> m s = (Inl e, s') \<or> (\<exists>x t. m s = (Inr x, t) \<and> f x t = (Inl e, s'))"
  by (cases "m s"; cases "fst (m s)") (auto simp: andthen_def)

lemma require_iff [simp]:
  "require b e s = (Inr u, s') \<longleftrightarrow> b \<and> s' = s"
  "require b e s = (Inl e', s') \<longleftrightarrow> \<not> b \<and> s' = s \<and> e' = e"
  by (auto simp: require_def ret_def raise_def)

lemma query_iff [simp]:
  "query f s = (Inr x, s') \<longleftrightarrow> x = f (current s) \<and> s' = s"
  "query f s = (Inl e, s') \<longleftrightarrow> False"
  by (auto simp: query_def)

lemma store_iff [simp]:
  "store f s = (Inr u, s') \<longleftrightarrow> s' = s\<lparr>current := f (current s)\<rparr>"
  "store f s = (Inl e, s') \<longleftrightarrow> False"
  by (auto simp: store_def modify_def)

lemma draw_iff [simp]:
  "draw g s = (Inr x, s') \<longleftrightarrow> x = g (drawn s) \<and> s' = s\<lparr>drawn := Suc (drawn s)\<rparr>"
  "draw g s = (Inl e, s') \<longleftrightarrow> False"
  by (auto simp: draw_def)

lemma ret_iff [simp]:
  "ret x s = (Inr y, s') \<longleftrightarrow> y = x \<and> s' = s" "ret x s = (Inl e, s') \<longleftrightarrow> False"
  "raise e s = (Inr y, s') \<longleftrightarrow> False" "raise e s = (Inl e', s') \<longleftrightarrow> e' = e \<and> s' = s"
  by (auto simp: ret_def raise_def)

lemmas run_iff = andthen_Inr_iff andthen_Inl_iff

lemma put_row_keys [simp]: "map key (put_row key r rs) = map key rs"
  by (induction rs) (auto simp: put_row_def)

lemma set_put_row: "x \<in> set (put_row key r rs) \<Longrightarrow> x = r \<or> (x \<in> set rs \<and> key x \<noteq> key r)"
  by (auto simp: put_row_def)

lemma set_update_rows: "x \<in> set (update_rows P f rs) \<Longrightarrow> (\<exists>y \<in> set rs. P y \<and> x = f y) \<or> (x \<in> set rs \<and> \<not> P x)"
  by (auto simp: update_rows_def)

lemma map_of_filter_key: "map_of (filter (\<lambda>p. fst p \<noteq> g) kvs) h = (if h = g then None else map_of kvs h)"
  by (induction kvs) auto

lemma in_keys_iff: "g \<in> fst ` set kvs \<longleftrightarrow> map_of kvs g \<noteq> None"
  by (simp add: map_of_eq_None_iff)

subsection \<open>The vault as an abstract map\<close>

text \<open>A bounded map from grants to credentials: what the rest of the program relies on.\<close>

locale credential_store =
  fixes put :: "string \<Rightarrow> string \<Rightarrow> 's \<Rightarrow> (control_error + unit) \<times> 's"
    and peek :: "string \<Rightarrow> 's \<Rightarrow> string option"
    and discard :: "string \<Rightarrow> 's \<Rightarrow> 's"
    and size_of :: "'s \<Rightarrow> nat"
    and bound :: "'s \<Rightarrow> nat"
  assumes put_peek: "put g c s = (Inr (), s') \<Longrightarrow> peek h s' = (if h = g then Some c else peek h s)"
    and put_fresh: "put g c s = (Inr (), s') \<Longrightarrow> peek g s = None"
    and put_bound: "put g c s = (Inr (), s') \<Longrightarrow> size_of s' \<le> bound s'"
    and put_fails: "put g c s = (Inl e, s') \<Longrightarrow> s' = s \<and> (peek g s \<noteq> None \<or> bound s \<le> size_of s)"
    and discard_peek: "peek h (discard g s) = (if h = g then None else peek h s)"
begin

lemma put_discard: "put g c s = (Inr (), s') \<Longrightarrow> peek h (discard g s') = peek h s"
  by (auto simp: discard_peek put_peek dest: put_fresh)

lemma put_twice_fails: "put g c s = (Inr (), s') \<Longrightarrow> fst (put g c' s') \<noteq> Inr ()"
  using put_peek [of g c s s' g] put_fresh [of g c' s'] by (cases "put g c' s'") auto

end

interpretation vault_store: credential_store vault_put "\<lambda>g s. map_of (vault s) g" "\<lambda>g s. snd (vault_discard g s)"
  "\<lambda>s. length (vault s)" capacity
proof
  show "map_of (vault (snd (vault_discard g s))) h = (if h = g then None else map_of (vault s) h)" for g h s
    by (simp add: vault_discard_def modify_def map_of_filter_key)
qed (auto simp: vault_put_def in_keys_iff map_add_def split: if_splits option.splits)

end
