(* ===== verification/Rbac.thy ===== *)
theory Rbac
  imports Sessions
begin

section \<open>Role-based access control\<close>

text \<open>\<open>rbac.py\<close>: the closed table of permissions and the default-deny check against it.\<close>

definition ROLE_PERMISSIONS :: "(role \<times> permission list) list" where
  "ROLE_PERMISSIONS = [
     (OrganizationAdmin,
       [OrganizationRead, OrganizationUpdatePermission, UserReadPermission, UserManage, MembershipRead, MembershipManage,
        MemoryRead, MemoryWrite, MemoryReset, ContextProject, ApprovalAuthorityRead, ApprovalAuthorityManage,
        ApprovalRequestRead, ApprovalRequestCreate, ApprovalRequestDecide, ApprovalRequestCancel, ApprovalGrantClaim,
        AuditRead, AuditVerify, ProductionRunRead, ProductionRunSubmit, ProductionRunMutate, ObservabilityTraceRead]),
     (Operator,
       [OrganizationRead, UserReadPermission, MemoryRead, MemoryWrite, MemoryReset, ContextProject,
        ApprovalRequestRead, ApprovalRequestCreate, ApprovalRequestDecide, ApprovalRequestCancel, ApprovalGrantClaim,
        ProductionRunRead, ProductionRunSubmit, ProductionRunMutate, ObservabilityTraceRead]),
     (Auditor,
       [OrganizationRead, UserReadPermission, MembershipRead, MemoryRead, ContextProject, ApprovalRequestRead,
        AuditRead, AuditVerify, ProductionRunRead, ObservabilityTraceRead])]"

definition permissions_for_role :: "role \<Rightarrow> control_error + permission list" where
  "permissions_for_role r = (case map_of ROLE_PERMISSIONS r of
       None \<Rightarrow> Inl (AuthorizationDenied ''unknown_role'')
     | Some ps \<Rightarrow> Inr (sort_key permission_name ps))"

definition require_permission :: "role \<Rightarrow> permission \<Rightarrow> control_error + permission list" where
  "require_permission r p = (case permissions_for_role r of
       Inl e \<Rightarrow> Inl e
     | Inr ps \<Rightarrow> if p \<notin> set ps then Inl (AuthorizationDenied ''permission_denied'') else Inr ps)"

text \<open>The permissions under which something is written.\<close>

definition mutating :: "permission set" where
  "mutating = {OrganizationUpdatePermission, UserManage, MembershipManage, MemoryWrite, MemoryReset, ApprovalAuthorityManage,
     ApprovalRequestCreate, ApprovalRequestDecide, ApprovalRequestCancel, ApprovalGrantClaim, ProductionRunSubmit, ProductionRunMutate}"

definition holds :: "role \<Rightarrow> permission \<Rightarrow> bool" where
  "holds r p \<longleftrightarrow> (\<exists>ps. require_permission r p = Inr ps)"

lemma holds_iff: "holds r p \<longleftrightarrow> p \<in> set (the (map_of ROLE_PERMISSIONS r))"
  by (cases r) (auto simp: holds_def require_permission_def permissions_for_role_def ROLE_PERMISSIONS_def)

lemma permissions_for_role_total: "permissions_for_role r \<noteq> Inl e"
  by (cases r) (simp_all add: permissions_for_role_def ROLE_PERMISSIONS_def)

lemma no_error_but_denied:
  "require_permission r p = Inl e \<Longrightarrow> e = AuthorizationDenied ''permission_denied'' \<and> \<not> holds r p"
  by (cases r) (auto simp: holds_def require_permission_def permissions_for_role_def ROLE_PERMISSIONS_def split: if_splits)

text \<open>
  The permission table separates duties: an administrator holds every permission, an auditor
  holds none under which anything is written, and an operator neither reads or verifies the audit
  trail nor manages users, memberships or approval authorities; a role that holds a permission gets
  its whole list in the order of the values, and every other check is denied.
\<close>

lemma permission_table_separates_duties:
  "holds OrganizationAdmin p \<and> (holds Auditor p \<and> p \<in> mutating \<longleftrightarrow> False) \<and>
   (holds Operator p \<and> p \<in> {AuditRead, AuditVerify, UserManage, MembershipManage, ApprovalAuthorityManage} \<longleftrightarrow> False) \<and>
   require_permission r p = (if holds r p then permissions_for_role r else Inl (AuthorizationDenied ''permission_denied''))"
proof -
  have "require_permission r p = (if holds r p then permissions_for_role r else Inl (AuthorizationDenied ''permission_denied''))"
    by (cases "require_permission r p")
      (auto simp: holds_def require_permission_def permissions_for_role_total split: sum.splits if_splits)
  moreover have "holds OrganizationAdmin p" by (cases p) (simp_all add: holds_iff ROLE_PERMISSIONS_def)
  moreover have "\<not> (holds Auditor p \<and> p \<in> mutating)" by (cases p) (simp_all add: holds_iff ROLE_PERMISSIONS_def mutating_def)
  moreover have "\<not> (holds Operator p \<and> p \<in> {AuditRead, AuditVerify, UserManage, MembershipManage, ApprovalAuthorityManage})"
    by (cases p) (simp_all add: holds_iff ROLE_PERMISSIONS_def)
  ultimately show ?thesis by blast
qed

end
