(* ===== verification/JsonParse.thy ===== *)
theory JsonParse
  imports Json
begin

section \<open>Parsing JSON\<close>

text \<open>
  \<open>json.loads\<close> of the standard library, as \<open>verify_audit_chain\<close> uses it: whitespace, strict strings
  with their escapes, integers, the three constants, arrays and objects, where a later duplicate of
  a key wins. Two kinds of values have no place in \<open>json\<close> and read as \<open>None\<close>, like the texts that
  raise: floats (with \<open>NaN\<close> and \<open>Infinity\<close>) and characters above 255 written as escapes. Neither
  can occur in a canonical audit payload, and the caller rejects all of them in the same way.
  The main lemma is that parsing inverts rendering.
\<close>

definition skip_ws :: "string \<Rightarrow> string" where
  "skip_ws = dropWhile (\<lambda>c. c \<in> {CHR '' '', CHR 0x09, CHR 0x0A, CHR 0x0D})"

subsection \<open>Strings\<close>

definition hex_value :: "char \<Rightarrow> nat option" where
  "hex_value c = (let n = (of_char c :: nat) in
     if 48 \<le> n \<and> n \<le> 57 then Some (n - 48)
     else if 97 \<le> n \<and> n \<le> 102 then Some (n - 87)
     else if 65 \<le> n \<and> n \<le> 70 then Some (n - 55) else None)"

definition simple_escape :: "char \<Rightarrow> char option" where
  "simple_escape c = (if c \<in> {CHR 0x22, CHR 0x5C, CHR ''/''} then Some c
     else if c = CHR ''b'' then Some (CHR 0x08) else if c = CHR ''f'' then Some (CHR 0x0C)
     else if c = CHR ''n'' then Some (CHR 0x0A) else if c = CHR ''r'' then Some (CHR 0x0D)
     else if c = CHR ''t'' then Some (CHR 0x09) else None)"

definition hex_escape :: "string \<Rightarrow> (char \<times> string) option" where
  "hex_escape s = (case s of a # b # c # d # r \<Rightarrow>
       (case (hex_value a, hex_value b, hex_value c, hex_value d) of
          (Some 0, Some 0, Some h, Some l) \<Rightarrow> Some (char_of (16 * h + l), r)
        | _ \<Rightarrow> None)
     | _ \<Rightarrow> None)"

text \<open>What follows a backslash.\<close>

definition parse_escape :: "string \<Rightarrow> (char \<times> string) option" where
  "parse_escape s = (case s of [] \<Rightarrow> None
     | c # r \<Rightarrow> if c = CHR ''u'' then hex_escape r else map_option (\<lambda>d. (d, r)) (simple_escape c))"

lemma hex_escape_shorter: "hex_escape s = Some (c, r) \<Longrightarrow> length r < length s"
  by (auto simp: hex_escape_def split: list.splits option.splits nat.splits)

lemma parse_escape_shorter: "parse_escape s = Some (c, r) \<Longrightarrow> length r < length s"
  by (auto simp: parse_escape_def split: list.splits if_splits dest: hex_escape_shorter)

function parse_chars :: "string \<Rightarrow> (string \<times> string) option" where
  "parse_chars s = (case s of [] \<Rightarrow> None
     | c # r \<Rightarrow> if c = CHR 0x22 then Some ([], r)
         else if c = CHR 0x5C then (case parse_escape r of None \<Rightarrow> None
             | Some (d, r') \<Rightarrow> map_option (\<lambda>(ds, t). (d # ds, t)) (parse_chars r'))
         else if (of_char c :: nat) < 32 then None
         else map_option (\<lambda>(ds, t). (c # ds, t)) (parse_chars r))"
  by pat_completeness auto
termination
  by (relation "measure length") (auto dest: parse_escape_shorter)

declare parse_chars.simps [simp del]

subsection \<open>Numbers\<close>

definition float_tail :: "string \<Rightarrow> bool" where
  "float_tail r = (case r of [] \<Rightarrow> False
     | c # r' \<Rightarrow> if c = CHR ''.'' then r' \<noteq> [] \<and> is_digit (hd r')
         else if c \<in> {CHR ''e'', CHR ''E''}
         then (let r'' = (if r' \<noteq> [] \<and> hd r' \<in> {CHR ''+'', CHR ''-''} then tl r' else r') in r'' \<noteq> [] \<and> is_digit (hd r''))
         else False)"

definition parse_nat :: "string \<Rightarrow> (nat \<times> string) option" where
  "parse_nat s = (case s of [] \<Rightarrow> None
     | c # r \<Rightarrow> if \<not> is_digit c then None
         else if c = CHR ''0'' then (if float_tail r then None else Some (0, r))
         else (let t = dropWhile is_digit s in
           if float_tail t then None else Some (digits_val (takeWhile is_digit s), t)))"

definition parse_int :: "string \<Rightarrow> (int \<times> string) option" where
  "parse_int s = (if s \<noteq> [] \<and> hd s = CHR ''-'' then map_option (\<lambda>(n, r). (- int n, r)) (parse_nat (tl s))
     else map_option (\<lambda>(n, r). (int n, r)) (parse_nat s))"

subsection \<open>Values\<close>

definition json_constant :: "string \<Rightarrow> (json \<times> string) option" where
  "json_constant s = (if take 4 s = ''null'' then Some (JNull, drop 4 s)
     else if take 4 s = ''true'' then Some (JBool True, drop 4 s)
     else if take 5 s = ''false'' then Some (JBool False, drop 5 s) else None)"

definition dict_of_pairs :: "(string \<times> json) list \<Rightarrow> (string \<times> json) list" where
  "dict_of_pairs ps = foldl (\<lambda>d (k, v). dict_set k v d) [] ps"

fun parse_value :: "nat \<Rightarrow> string \<Rightarrow> (json \<times> string) option"
  and parse_items :: "nat \<Rightarrow> string \<Rightarrow> (json list \<times> string) option"
  and parse_pairs :: "nat \<Rightarrow> string \<Rightarrow> ((string \<times> json) list \<times> string) option" where
  "parse_value 0 s = None"
| "parse_value (Suc n) s = (case s of [] \<Rightarrow> None
     | c # r \<Rightarrow>
         if c = CHR 0x22 then map_option (\<lambda>(x, t). (JStr x, t)) (parse_chars r)
         else if c = CHR ''['' then
           (let r' = skip_ws r in if r' \<noteq> [] \<and> hd r' = CHR '']'' then Some (JArr [], tl r')
            else map_option (\<lambda>(xs, t). (JArr xs, t)) (parse_items n r'))
         else if c = CHR ''{'' then
           (let r' = skip_ws r in if r' \<noteq> [] \<and> hd r' = CHR ''}'' then Some (JObj [], tl r')
            else map_option (\<lambda>(ps, t). (JObj (dict_of_pairs ps), t)) (parse_pairs n r'))
         else if c = CHR ''-'' \<or> is_digit c then map_option (\<lambda>(i, t). (JInt i, t)) (parse_int s)
         else json_constant s)"
| "parse_items 0 s = None"
| "parse_items (Suc n) s = (case parse_value n s of None \<Rightarrow> None
     | Some (x, r) \<Rightarrow> (case skip_ws r of [] \<Rightarrow> None
         | c # r' \<Rightarrow> if c = CHR '']'' then Some ([x], r')
             else if c = CHR '','' then map_option (\<lambda>(xs, t). (x # xs, t)) (parse_items n (skip_ws r'))
             else None))"
| "parse_pairs 0 s = None"
| "parse_pairs (Suc n) s = (case s of [] \<Rightarrow> None
     | q # s' \<Rightarrow> if q \<noteq> CHR 0x22 then None
       else (case parse_chars s' of None \<Rightarrow> None
         | Some (k, r) \<Rightarrow> (case skip_ws r of [] \<Rightarrow> None
             | c # r' \<Rightarrow> if c \<noteq> CHR '':'' then None
                 else (case parse_value n (skip_ws r') of None \<Rightarrow> None
                   | Some (v, u) \<Rightarrow> (case skip_ws u of [] \<Rightarrow> None
                       | e # u' \<Rightarrow> if e = CHR ''}'' then Some ([(k, v)], u')
                           else if e = CHR '','' then map_option (\<lambda>(ps, t). ((k, v) # ps, t)) (parse_pairs n (skip_ws u'))
                           else None)))))"

text \<open>\<open>json.loads(text)\<close>: every two levels of the recursion consume a character.\<close>

definition loads :: "string \<Rightarrow> json option" where
  "loads s = (case parse_value (2 * length s + 1) (skip_ws s) of None \<Rightarrow> None
     | Some (j, r) \<Rightarrow> if skip_ws r = [] then Some j else None)"

subsection \<open>Parsing inverts rendering\<close>

lemma hex_digit_value: "n < 16 \<Longrightarrow> hex_value (hex_digit n) = Some n"
  by (auto simp: hex_value_def hex_digit_def Let_def)

lemma char_of_codes:
  "char_of (34 :: nat) = CHR 0x22" "char_of (92 :: nat) = CHR 0x5C" "char_of (10 :: nat) = CHR 0x0A"
  "char_of (13 :: nat) = CHR 0x0D" "char_of (9 :: nat) = CHR 0x09" "char_of (12 :: nat) = CHR 0x0C"
  "char_of (8 :: nat) = CHR 0x08" "char_of (48 :: nat) = CHR ''0''"
  by (simp_all add: char_eq_code)

lemma hex_value_zero: "hex_value (CHR ''0'') = Some 0"
  by (simp add: hex_value_def)

lemma parse_chars_escape: "parse_chars (escape_char a c @ r) = map_option (\<lambda>(ds, t). (c # ds, t)) (parse_chars r)"
proof -
  define n where "n = (of_char c :: nat)"
  have lt: "n < 256" by (simp add: n_def)
  have "n div 16 < 16" "16 * (n div 16) + n mod 16 = n" using lt by simp_all
  then have hex: "hex_escape (CHR ''0'' # CHR ''0'' # hex_digit (n div 16) # hex_digit (n mod 16) # r) = Some (c, r)"
    by (simp add: hex_escape_def hex_digit_value hex_value_zero del: mult_div_mod_eq) (simp add: n_def)
  have c: "c = char_of n" by (simp add: n_def)
  show ?thesis
    using hex lt unfolding escape_char_def unicode_escape_def Let_def n_def [symmetric]
    by (subst parse_chars.simps)
      (auto simp: parse_escape_def simple_escape_def c char_of_codes char_eq_code split: if_splits)
qed

lemma parse_chars_quote: "parse_chars (concat (map (escape_char a) x) @ CHR 0x22 # r) = Some (x, r)"
proof (induction x)
  case Nil
  show ?case by (subst parse_chars.simps) simp
next
  case (Cons c x)
  then show ?case by (simp add: parse_chars_escape)
qed

lemma float_tail_delimited: "delimited r \<Longrightarrow> \<not> float_tail r"
  by (cases r) (auto simp: delimited_def float_tail_def)

lemma parse_nat_digits:
  assumes "delimited r"
  shows "parse_nat (digits n @ r) = Some (n, r)"
proof (cases "n = 0")
  case True
  then show ?thesis using float_tail_delimited [OF assms] by (simp add: digits_code_simps parse_nat_def is_digit_def char_of_codes)
next
  case False
  have "hd (digits n) \<noteq> CHR ''0''" using False
  proof (induction n rule: digits.induct)
    case (1 n)
    show ?case
    proof (cases "n < 10")
      case True
      then have "48 + n < 256" "48 + n \<noteq> 48" using "1.prems" by auto
      then show ?thesis using True by (simp add: digits_code_simps char_eq_code)
    next
      case False
      then have "hd (digits (n div 10)) \<noteq> CHR ''0''" using "1.IH" by simp
      then show ?thesis using False by (simp add: digits_code_simps hd_append)
    qed
  qed
  moreover have "takeWhile is_digit (digits n @ r) = digits n" "dropWhile is_digit (digits n @ r) = r"
  proof -
    have "takeWhile is_digit r = []" using delimited_not_digit [OF assms] .
    then show "takeWhile is_digit (digits n @ r) = digits n" by (simp add: takeWhile_append2 digits_are_digits)
    show "dropWhile is_digit (digits n @ r) = r"
      using \<open>takeWhile is_digit r = []\<close> by (cases r) (auto simp: dropWhile_append digits_are_digits)
  qed
  moreover obtain c t where "digits n = c # t" "is_digit c" using hd_digits [of n] by (cases "digits n") auto
  ultimately show ?thesis using float_tail_delimited [OF assms]
    by (simp add: parse_nat_def Let_def digits_val_digits)
      (metis digits_val_digits)
qed

lemma parse_int_str_int: "delimited r \<Longrightarrow> parse_int (str_int i @ r) = Some (i, r)"
  using hd_digits [of "nat i"]
  by (auto simp: parse_int_def str_int_def parse_nat_digits hd_append is_digit_def)

lemma skip_ws_id: "s \<noteq> [] \<Longrightarrow> hd s \<notin> {CHR '' '', CHR 0x09, CHR 0x0A, CHR 0x0D} \<Longrightarrow> skip_ws s = s"
  by (cases s) (auto simp: skip_ws_def)

text \<open>Values whose objects have distinct keys, as every Python dict does.\<close>

fun distinct_keys :: "json \<Rightarrow> bool" where
  "distinct_keys (JArr xs) = list_all distinct_keys xs"
| "distinct_keys (JObj kvs) = (distinct (map fst kvs) \<and> list_all (\<lambda>(k, v). distinct_keys v) kvs)"
| "distinct_keys j = True"

lemma dict_set_new: "k \<notin> fst ` set d \<Longrightarrow> dict_set k v d = d @ [(k, v)]"
  by (induction k v d rule: dict_set.induct) auto

lemma dict_of_distinct_pairs: "distinct (map fst ps) \<Longrightarrow> dict_of_pairs ps = ps"
proof -
  have "distinct (map fst (d @ ps)) \<Longrightarrow> foldl (\<lambda>d (k, v). dict_set k v d) d ps = d @ ps" for d
  proof (induction ps arbitrary: d)
    case (Cons p ps)
    obtain k v where p: "p = (k, v)" by fastforce
    have "dict_set k v d = d @ [(k, v)]" using Cons.prems p by (intro dict_set_new) auto
    then show ?case using Cons.IH [of "d @ [(k, v)]"] Cons.prems p by simp
  qed simp
  from this [of "[]"] show "distinct (map fst ps) \<Longrightarrow> dict_of_pairs ps = ps" by (simp add: dict_of_pairs_def)
qed

lemma render_starts: "skip_ws (render a j @ t) = render a j @ t"
  using hd_str_int [of "case j of JInt i \<Rightarrow> i | _ \<Rightarrow> 0"]
  by (cases j) (auto simp: quote_def is_digit_def intro!: skip_ws_id)

lemma delimited_skip_ws: "c \<in> {CHR '','', CHR '']'', CHR ''}'', CHR '':'', CHR 0x22} \<Longrightarrow> skip_ws (c # r) = c # r"
  by (rule skip_ws_id) auto

lemma parse_items_render:
  assumes "xs \<noteq> []"
    and "\<And>x t n. x \<in> set xs \<Longrightarrow> delimited t \<Longrightarrow> 2 * length (render a x) \<le> n \<Longrightarrow> parse_value n (render a x @ t) = Some (x, t)"
    and "2 * length (comma_join (map (render a) xs)) < n"
  shows "parse_items n (comma_join (map (render a) xs) @ CHR '']'' # t) = Some (xs, t)"
  using assms
proof (induction xs arbitrary: n)
  case (Cons x xs)
  note IH = Cons.IH and prems = Cons.prems
  obtain m where n: "n = Suc m" using prems(3) by (cases n) auto
  show ?case
  proof (cases xs)
    case Nil
    have "parse_value m (render a x @ CHR '']'' # t) = Some (x, CHR '']'' # t)"
      using prems(2) [of x "CHR '']'' # t" m] prems(3) n Nil by (simp add: delimited_def)
    then show ?thesis using Nil n by (simp add: delimited_skip_ws)
  next
    case (Cons y ys)
    let ?r = "comma_join (map (render a) xs) @ CHR '']'' # t"
    have "parse_value m (render a x @ CHR '','' # ?r) = Some (x, CHR '','' # ?r)"
      using prems(2) [of x "CHR '','' # ?r" m] prems(3) n Cons by (simp add: delimited_def)
    moreover have "parse_items m ?r = Some (xs, t)"
      using prems(2,3) n Cons by (intro IH) auto
    moreover have "skip_ws ?r = ?r" using render_starts [of a y] Cons by (cases ys) auto
    ultimately show ?thesis using Cons n by (simp add: delimited_skip_ws)
  qed
qed simp

lemma parse_quote: "parse_chars (tl (quote a x @ r)) = Some (x, r)" and quote_Cons: "quote a x @ r = CHR 0x22 # tl (quote a x @ r)"
  by (simp_all add: quote_def parse_chars_quote)

lemma parse_pairs_render:
  assumes "ps \<noteq> []"
    and "\<And>k v t n. (k, v) \<in> set ps \<Longrightarrow> delimited t \<Longrightarrow> 2 * length (render a v) \<le> n \<Longrightarrow> parse_value n (render a v @ t) = Some (v, t)"
    and "2 * length (comma_join (map (render_item a) ps)) < n"
  shows "parse_pairs n (comma_join (map (render_item a) ps) @ CHR ''}'' # t) = Some (ps, t)"
  using assms
proof (induction ps arbitrary: n)
  case (Cons p ps)
  note IH = Cons.IH and prems = Cons.prems
  obtain k v where p: "p = (k, v)" by fastforce
  obtain m where n: "n = Suc m" using prems(3) by (cases n) auto
  show ?case
  proof (cases ps)
    case Nil
    have "parse_value m (render a v @ CHR ''}'' # t) = Some (v, CHR ''}'' # t)"
      using prems(2) [of k v "CHR ''}'' # t" m] prems(3) n Nil p by (simp add: delimited_def render_item_def)
    then show ?thesis using Nil n p render_starts [of a v]
      by (simp add: render_item_def) (subst quote_Cons, simp add: parse_quote delimited_skip_ws)
  next
    case (Cons q qs)
    let ?r = "comma_join (map (render_item a) ps) @ CHR ''}'' # t"
    have "parse_value m (render a v @ CHR '','' # ?r) = Some (v, CHR '','' # ?r)"
      using prems(2) [of k v "CHR '','' # ?r" m] prems(3) n Cons p by (simp add: delimited_def render_item_def)
    moreover have "parse_pairs m ?r = Some (ps, t)"
      using prems(2,3) n Cons p by (intro IH) auto
    moreover have "skip_ws ?r = ?r"
      using Cons by (cases q; cases qs) (auto simp: render_item_def quote_def intro!: skip_ws_id)
    ultimately show ?thesis using Cons n p render_starts [of a v]
      by (simp add: render_item_def) (subst quote_Cons, simp add: parse_quote delimited_skip_ws)
  qed
qed simp

lemma parse_constants:
  assumes "8 \<le> n"
  shows "parse_value n (CHR ''n'' # CHR ''u'' # CHR ''l'' # CHR ''l'' # t) = Some (JNull, t)"
    and "parse_value n (CHR ''t'' # CHR ''r'' # CHR ''u'' # CHR ''e'' # t) = Some (JBool True, t)"
    and "parse_value n (CHR ''f'' # CHR ''a'' # CHR ''l'' # CHR ''s'' # CHR ''e'' # t) = Some (JBool False, t)"
  using assms by (cases n; simp add: json_constant_def is_digit_def)+

lemma parse_render:
  "distinct_keys j \<Longrightarrow> delimited t \<Longrightarrow> 2 * length (render a j) \<le> n \<Longrightarrow> parse_value n (render a j @ t) = Some (j, t)"
proof (induction j arbitrary: t n)
  case (JInt i)
  then obtain m where n: "n = Suc m" by (cases n) auto
  have "hd (str_int i) = CHR ''-'' \<or> is_digit (hd (str_int i))" by (rule hd_str_int)
  moreover have "str_int i = hd (str_int i) # tl (str_int i)" by simp
  ultimately show ?case using n JInt parse_int_str_int [of t i]
    by (cases "str_int i") (auto simp: is_digit_def)
next
  case (JStr x)
  then obtain m where n: "n = Suc m" by (cases n) (auto simp: quote_def)
  then show ?case by (simp only: render.simps) (subst quote_Cons, simp add: parse_quote)
next
  case (JArr xs)
  then obtain m where n: "n = Suc m" by (cases n) auto
  show ?case
  proof (cases "xs = []")
    case True
    then show ?thesis using n by (simp add: delimited_skip_ws is_digit_def)
  next
    case False
    let ?r = "comma_join (map (render a) xs) @ CHR '']'' # t"
    have "parse_items m ?r = Some (xs, t)"
      using JArr False n by (intro parse_items_render) (auto simp: list_all_iff)
    moreover have "skip_ws ?r = ?r \<and> ?r \<noteq> [] \<and> hd ?r \<noteq> CHR '']''"
    proof -
      obtain y ys where xs: "xs = y # ys" using False by (cases xs) auto
      obtain u where "?r = render a y @ u" using xs by (cases ys) auto
      then show ?thesis using render_starts [of a y u] render_not_bracket [of a y u] by simp
    qed
    ultimately show ?thesis using n by simp
  qed
next
  case (JObj kvs)
  then obtain m where n: "n = Suc m" by (cases n) auto
  show ?case
  proof (cases "kvs = []")
    case True
    then show ?thesis using n by (simp add: delimited_skip_ws is_digit_def)
  next
    case False
    let ?r = "comma_join (map (render_item a) kvs) @ CHR ''}'' # t"
    have "parse_pairs m ?r = Some (kvs, t)"
    proof (rule parse_pairs_render [OF False])
      fix k v t' and n' :: nat
      assume kv: "(k, v) \<in> set kvs" and "delimited t'" and "2 * length (render a v) \<le> n'"
      moreover have "distinct_keys v" using JObj.prems(1) kv by (auto simp: list_all_iff)
      ultimately show "parse_value n' (render a v @ t') = Some (v, t')" using JObj.IH [OF kv, of v] by simp
    qed (use JObj.prems(3) n in \<open>simp add: render_JObj del: render.simps\<close>)
    moreover have "skip_ws ?r = ?r \<and> ?r \<noteq> [] \<and> hd ?r \<noteq> CHR ''}''"
      using False by (cases kvs; cases "tl kvs"; cases "hd kvs") (auto simp: render_item_def quote_def intro!: skip_ws_id)
    moreover have "dict_of_pairs kvs = kvs" using JObj.prems(1) by (intro dict_of_distinct_pairs) simp
    ultimately show ?thesis using n by (simp add: render_JObj del: render.simps)
  qed
qed (auto intro: parse_constants)

lemma loads_render: "distinct_keys j \<Longrightarrow> loads (render a j) = Some j"
  using parse_render [of j "[]" a "2 * length (render a j) + 1"] render_starts [of a j "[]"]
  by (simp add: loads_def delimited_def) (simp add: skip_ws_def)

subsection \<open>The fuel is enough\<close>

lemma skip_ws_shorter: "length (skip_ws s) \<le> length s"
  by (simp add: skip_ws_def length_dropWhile_le)

lemma skip_ws_Cons_shorter: "skip_ws s = c # r \<Longrightarrow> length r < length s"
  using skip_ws_shorter [of s] by simp

lemma parse_chars_shorter: "parse_chars s = Some (x, r) \<Longrightarrow> length r < length s"
proof (induction s arbitrary: x r rule: parse_chars.induct)
  case (1 s)
  show ?case
  proof (cases s)
    case Nil
    then show ?thesis using "1.prems" by (simp add: parse_chars.simps [of "[]"])
  next
    case (Cons c t)
    note IH = "1.IH" [OF Cons]
    have "c = CHR 0x22 \<or> (\<exists>d r' ds. c = CHR 0x5C \<and> c \<noteq> CHR 0x22 \<and> parse_escape t = Some (d, r') \<and> parse_chars r' = Some (ds, r)) \<or>
      (\<exists>ds. c \<noteq> CHR 0x5C \<and> c \<noteq> CHR 0x22 \<and> \<not> (of_char c :: nat) < 32 \<and> parse_chars t = Some (ds, r))"
      using "1.prems" Cons by (subst (asm) parse_chars.simps) (auto split: if_splits option.splits)
    moreover have ?thesis if "c = CHR 0x22"
      using "1.prems" Cons that by (subst (asm) parse_chars.simps) auto
    moreover have ?thesis if "c = CHR 0x5C" "c \<noteq> CHR 0x22" "parse_escape t = Some (d, r')" "parse_chars r' = Some (ds, r)" for d r' ds
      using IH(1) [OF that(2,1,3) refl that(4)] parse_escape_shorter [OF that(3)] Cons by simp
    moreover have ?thesis if "c \<noteq> CHR 0x5C" "c \<noteq> CHR 0x22" "\<not> (of_char c :: nat) < 32" "parse_chars t = Some (ds, r)" for ds
      using IH(2) [OF that(2,1,3,4)] Cons by simp
    ultimately show ?thesis by blast
  qed
qed

lemma parse_nat_shorter: "parse_nat s = Some (n, r) \<Longrightarrow> length r < length s"
  using length_dropWhile_le [of is_digit "tl s"]
  by (auto simp: parse_nat_def Let_def split: list.splits if_splits)

lemma parse_int_shorter: "parse_int s = Some (i, r) \<Longrightarrow> length r < length s"
  by (cases s) (auto simp: parse_int_def split: if_splits dest: parse_nat_shorter)

lemma json_constant_shorter: "json_constant s = Some (j, r) \<Longrightarrow> length r < length s"
  by (cases s) (auto simp: json_constant_def split: if_splits)

lemma shorter_skip_ws: "length r < length (skip_ws t) \<Longrightarrow> length r < length t"
  using skip_ws_shorter [of t] by simp

lemma parse_shorter:
  "(parse_value n s = Some (j, r) \<longrightarrow> length r < length s) \<and>
   (parse_items n s = Some (xs, r) \<longrightarrow> length r < length s) \<and>
   (parse_pairs n s = Some (ps, r) \<longrightarrow> length r < length s)"
proof (induction n arbitrary: s j r xs ps)
  case (Suc n)
  have of_value: "parse_value n t = Some (j', t') \<Longrightarrow> length t' < length t"
    and items: "parse_items n t = Some (xs', t') \<Longrightarrow> length t' < length t"
    and pairs: "parse_pairs n t = Some (ps', t') \<Longrightarrow> length t' < length t" for t t' j' xs' ps'
    using Suc by blast+
  have "parse_value (Suc n) s = Some (j, r) \<Longrightarrow> length r < length s"
    by (cases s) (auto simp: Let_def neq_Nil_conv split: if_splits
        dest!: parse_chars_shorter parse_int_shorter json_constant_shorter skip_ws_Cons_shorter items pairs shorter_skip_ws)
  moreover have "parse_items (Suc n) s = Some (xs, r) \<Longrightarrow> length r < length s"
    by (auto split: option.splits list.splits if_splits dest!: of_value items skip_ws_Cons_shorter shorter_skip_ws)
  moreover have "parse_pairs (Suc n) s = Some (ps, r) \<Longrightarrow> length r < length s"
    by (auto split: option.splits list.splits if_splits
        dest!: parse_chars_shorter of_value pairs skip_ws_Cons_shorter shorter_skip_ws)
  ultimately show ?case by blast
qed simp

lemma parse_fuel:
  "(2 * length s < n \<longrightarrow> 2 * length s < m \<longrightarrow> parse_value n s = parse_value m s) \<and>
   (2 * length s + 1 < n \<longrightarrow> 2 * length s + 1 < m \<longrightarrow> parse_items n s = parse_items m s) \<and>
   (2 * length s + 1 < n \<longrightarrow> 2 * length s + 1 < m \<longrightarrow> parse_pairs n s = parse_pairs m s)"
proof (induction "length s" arbitrary: s n m rule: less_induct)
  case less
  have items: "parse_items n' t = parse_items m' t" and pairs: "parse_pairs n' t = parse_pairs m' t"
    and shorter: "parse_value n' t = parse_value m' t"
    if "length t < length s" "2 * length s \<le> n'" "2 * length s \<le> m'" for t n' m'
    using less [OF that(1), of n' m'] that(2,3) that(1) by linarith+
  have of_value: "parse_value n s = parse_value m s" if nm: "2 * length s < n" "2 * length s < m" for n m
  proof -
    obtain n' m' where [simp]: "n = Suc n'" "m = Suc m'" using nm by (metis less_imp_Suc_add)
    show ?thesis
    proof (cases s)
      case (Cons c t)
      have "length (skip_ws t) < length s" using skip_ws_shorter [of t] Cons by simp
      then have "parse_items n' (skip_ws t) = parse_items m' (skip_ws t)" "parse_pairs n' (skip_ws t) = parse_pairs m' (skip_ws t)"
        using nm by (auto intro!: items pairs)
      then show ?thesis by (cases "skip_ws t = []") (simp_all add: Cons Let_def)
    qed simp
  qed
  moreover have "parse_items n s = parse_items m s" if nm: "2 * length s + 1 < n" "2 * length s + 1 < m" for n m
  proof -
    obtain n' m' where [simp]: "n = Suc n'" "m = Suc m'" using nm by (metis less_imp_Suc_add)
    have v: "parse_value n' s = parse_value m' s" using nm by (intro of_value) auto
    show ?thesis
    proof (cases "parse_value m' s")
      case (Some p)
      then obtain x r where p: "parse_value m' s = Some (x, r)" by (cases p) auto
      then have r: "length r < length s" using parse_shorter by blast
      show ?thesis
      proof (cases "skip_ws r")
        case (Cons c t)
        then have "length (skip_ws t) < length s" using r skip_ws_Cons_shorter [OF Cons] skip_ws_shorter [of t] by simp
        then have "parse_items n' (skip_ws t) = parse_items m' (skip_ws t)" using nm by (auto intro!: items)
        then show ?thesis by (simp add: v p Cons)
      qed (simp add: v p)
    qed (simp add: v)
  qed
  moreover have "parse_pairs n s = parse_pairs m s" if nm: "2 * length s + 1 < n" "2 * length s + 1 < m" for n m
  proof -
    obtain n' m' where [simp]: "n = Suc n'" "m = Suc m'" using nm by (metis less_imp_Suc_add)
    have v: "parse_value n' (skip_ws t) = parse_value m' (skip_ws t)" if "length t < length s" for t
      using nm skip_ws_shorter [of t] that by (intro shorter) auto
    have p: "parse_pairs n' (skip_ws t) = parse_pairs m' (skip_ws t)" if "length t < length s" for t
      using nm skip_ws_shorter [of t] that by (intro pairs) auto
    have chain: "length t < length s" if "s = q # s'" "parse_chars s' = Some (k, r)" "skip_ws r = c # t" for q s' k r c t
      using parse_chars_shorter [OF that(2)] skip_ws_Cons_shorter [OF that(3)] that(1) by simp
    have chain': "length t < length s" if "length u < length s" "parse_value m' (skip_ws u) = Some (x, r)" "skip_ws r = c # t" for u x r c t
      using parse_shorter [of m' "skip_ws u" x r] that skip_ws_Cons_shorter [OF that(3)] skip_ws_shorter [of u] by fastforce
    show ?thesis
    proof (cases "\<exists>s' k r t. s = CHR 0x22 # s' \<and> parse_chars s' = Some (k, r) \<and> skip_ws r = CHR '':'' # t")
      case True
      then obtain s' k r t where s: "s = CHR 0x22 # s'" "parse_chars s' = Some (k, r)" "skip_ws r = CHR '':'' # t" by blast
      have t: "length t < length s" using chain [OF s] .
      show ?thesis
      proof (cases "\<exists>x u e w. parse_value m' (skip_ws t) = Some (x, u) \<and> skip_ws u = e # w")
        case True
        then obtain x u e w where w: "parse_value m' (skip_ws t) = Some (x, u)" "skip_ws u = e # w" by blast
        show ?thesis using s w v [OF t] p [OF chain' [OF t w]] by simp
      qed (use s v [OF t] in \<open>auto split: option.split list.split\<close>)
    qed (auto split: option.split list.split)
  qed
  ultimately show ?case using less.prems by blast
qed

lemma loads_fuel_enough: "2 * length s < n \<Longrightarrow> parse_value n (skip_ws s) = parse_value (2 * length s + 1) (skip_ws s)"
  using parse_fuel [of "skip_ws s" n "2 * length s + 1"] skip_ws_shorter [of s] by simp

end
