(* ===== verification/AuditLog.thy ===== *)
theory AuditLog
  imports Sessions JsonParse
begin

section \<open>The audit chain\<close>

text \<open>
  \<open>audit.py\<close>: an event of an organization is appended after its predecessor, whose hash it contains,
  and the head row keeps the last sequence and hash. \<open>verify_audit_chain\<close> recomputes everything. The
  lemmas show that appending keeps a chain valid, that nothing else of the database changes, and that
  a valid chain is determined by its head: a changed, removed, inserted or reordered event is found,
  unless two of the hashed texts collide.
\<close>

definition GENESIS_HASH :: string where
  "GENESIS_HASH = replicate 64 (CHR ''0'')"

definition PROHIBITED_KEYS :: "string list" where
  "PROHIBITED_KEYS = [''token'', ''credential'', ''nonce'', ''claims'', ''authorization_code'', ''cookie'', ''password'',
     ''private_key'', ''name'', ''email'', ''username'', ''page'', ''dom'', ''image'', ''form'', ''parameters'', ''machine_path'']"

definition ALLOWED_KEYS :: "string list" where
  "ALLOWED_KEYS = [''schema_version'', ''action_type'', ''risk_level'', ''parameter_hash'', ''request_id'', ''decision_id'',
     ''authority_id'', ''approval_role'', ''request_status'', ''grant_id'', ''grant_status'', ''execution_id'', ''reason'',
     ''http_status'', ''count'', ''version'', ''receipt_reference'', ''authorization_hash'', ''valid'', ''run_id'',
     ''run_status'', ''outbox_id'', ''outbox_status'', ''lease_id'', ''lease_status'', ''worker_reference'', ''workflow_hash'',
     ''fencing_token'', ''attempt_count'', ''retry_after'', ''duration_bucket'', ''latency_bucket'']"

definition payload_value_ok :: "json \<Rightarrow> bool" where
  "payload_value_ok j = (case j of JNull \<Rightarrow> True | JBool _ \<Rightarrow> True | JInt _ \<Rightarrow> True | JStr s \<Rightarrow> length s \<le> 120 | _ \<Rightarrow> False)"

definition closed_payload :: "json_dict \<Rightarrow> control_error + json_dict" where
  "closed_payload p =
     (if \<not> list_all (\<lambda>k. k \<in> set ALLOWED_KEYS) (map fst p) \<or> list_ex (\<lambda>k. k \<in> set PROHIBITED_KEYS) (map fst p)
      then Inl AuditPayloadRejected
      else if \<not> list_all payload_value_ok (map snd p) then Inl AuditPayloadRejected
      else if 2048 < length (canonical_json_bytes (JObj p)) then Inl AuditPayloadRejected
      else Inr p)"

text \<open>\<open>canonical_json_bytes(payload).decode("utf-8")\<close>\<close>

definition canonical_text :: "json_dict \<Rightarrow> string" where
  "canonical_text p = render False (sort_keys (JObj p))"

definition event_fields :: "string \<Rightarrow> string \<Rightarrow> int \<Rightarrow> audit_event_type \<Rightarrow> string \<Rightarrow> string \<Rightarrow> json_dict \<Rightarrow> string \<Rightarrow> datetime \<Rightarrow> json" where
  "event_fields event_id org n etype actor subject payload previous created = JObj [
     (''schema_version'', JStr ''w11-audit-event/1.0''),
     (''event_id'', JStr event_id),
     (''organization_id'', JStr org),
     (''sequence'', JInt n),
     (''event_type'', JStr (audit_event_name etype)),
     (''actor_reference'', JStr actor),
     (''subject_reference'', JStr subject),
     (''payload'', JObj payload),
     (''previous_hash'', JStr previous),
     (''created_at'', JStr (isoformat created))]"

subsection \<open>Appending\<close>

definition new_event :: "env \<Rightarrow> string \<Rightarrow> audit_event_type \<Rightarrow> string \<Rightarrow> string \<Rightarrow> json_dict \<Rightarrow> datetime \<Rightarrow> audit_chain_head \<Rightarrow> string
    \<Rightarrow> audit_event" where
  "new_event v org etype actor subject payload now h event_id =
     (let n = hd_head_sequence h + 1 in
      \<lparr>ev_organization_id = org, ev_sequence = n, ev_event_id = event_id, ev_event_type = etype,
       ev_actor_reference = actor, ev_subject_reference = subject, ev_payload_json = canonical_text payload,
       ev_payload_hash = stable_hash (v_sha v) (JObj payload), ev_previous_hash = hd_head_hash h,
       ev_event_hash = stable_hash (v_sha v) (event_fields event_id org n etype actor subject payload (hd_head_hash h) now),
       ev_created_at = now\<rparr>)"

definition advance_head :: "audit_event \<Rightarrow> datetime \<Rightarrow> audit_chain_head \<Rightarrow> audit_chain_head" where
  "advance_head e now h = h\<lparr>hd_head_sequence := ev_sequence e, hd_head_hash := ev_event_hash e,
     hd_version := hd_version h + 1, hd_updated_at := now\<rparr>"

definition append_audit_event :: "env \<Rightarrow> string \<Rightarrow> audit_event_type \<Rightarrow> string \<Rightarrow> string \<Rightarrow> json_dict \<Rightarrow> datetime
    \<Rightarrow> audit_event control" where
  "append_audit_event v org etype actor subject payload now =
     andthen (require (sha256_ok actor) AuditPayloadRejected) (\<lambda>_.
     andthen (require (1 \<le> length subject \<and> length subject \<le> 68) AuditPayloadRejected) (\<lambda>_.
     (case closed_payload payload of
        Inl e \<Rightarrow> raise e
      | Inr clean \<Rightarrow>
          andthen (scalar organizations (\<lambda>o'. og_organization_id o' = org)) (\<lambda>owner.
          andthen (require (owner \<noteq> None) AuditChainMissing) (\<lambda>_.
          andthen (scalar heads (\<lambda>h. hd_organization_id h = org)) (\<lambda>found.
          (case found of
             None \<Rightarrow> raise AuditChainMissing
           | Some h \<Rightarrow>
               andthen (opaque_id v ''aud'') (\<lambda>event_id.
               let e = new_event v org etype actor subject clean now h event_id in
               andthen (store (upd_events (\<lambda>es. es @ [e]))) (\<lambda>_.
               andthen (store (upd_heads (put_row hd_organization_id (advance_head e now h)))) (\<lambda>_.
               ret e))))))))))"

definition list_audit_events :: "string \<Rightarrow> nat \<Rightarrow> (audit_event list \<times> audit_chain_head) control" where
  "list_audit_events org limit =
     andthen (scalar heads (\<lambda>h. hd_organization_id h = org)) (\<lambda>found.
     (case found of None \<Rightarrow> raise AuditChainMissing
      | Some h \<Rightarrow> query (\<lambda>t. (take limit (sort_key ev_sequence (filter (\<lambda>e. ev_organization_id e = org) (events t))), h))))"

subsection \<open>Verifying\<close>

text \<open>One iteration of the loop: the failure it returns, if it returns.\<close>

definition check_event :: "(string \<Rightarrow> string) \<Rightarrow> int \<Rightarrow> string \<Rightarrow> audit_event \<Rightarrow> verification_reason option" where
  "check_event sha expected previous e =
     (if ev_sequence e \<noteq> expected then Some SequenceMismatch
      else if ev_previous_hash e \<noteq> previous then Some PreviousHashMismatch
      else (case loads (ev_payload_json e) of
          Some (JObj payload) \<Rightarrow> (case closed_payload payload of
              Inl _ \<Rightarrow> Some EventHashMismatch
            | Inr clean \<Rightarrow>
                if canonical_text clean \<noteq> ev_payload_json e then Some EventHashMismatch
                else if stable_hash sha (JObj clean) \<noteq> ev_payload_hash e then Some EventHashMismatch
                else if stable_hash sha (event_fields (ev_event_id e) (ev_organization_id e) (ev_sequence e) (ev_event_type e)
                    (ev_actor_reference e) (ev_subject_reference e) clean (ev_previous_hash e) (ev_created_at e)) \<noteq> ev_event_hash e
                then Some EventHashMismatch else None)
        | _ \<Rightarrow> Some EventHashMismatch))"

text \<open>The loop: the reason it stops with, or the hash of the last event.\<close>

fun check_events :: "(string \<Rightarrow> string) \<Rightarrow> int \<Rightarrow> string \<Rightarrow> audit_event list \<Rightarrow> verification_reason + string" where
  "check_events sha n previous [] = Inr previous"
| "check_events sha n previous (e # es) = (case check_event sha n previous e of
       Some why \<Rightarrow> Inl why | None \<Rightarrow> check_events sha (n + 1) (ev_event_hash e) es)"

definition verification :: "bool \<Rightarrow> audit_event list \<Rightarrow> audit_chain_head \<Rightarrow> verification_reason \<Rightarrow> audit_verification" where
  "verification valid es h why = \<lparr>av_valid = valid, av_event_count = length es, av_head_sequence = hd_head_sequence h,
     av_head_hash = hd_head_hash h, av_reason = why\<rparr>"

definition chain_of :: "string \<Rightarrow> tables \<Rightarrow> audit_event list" where
  "chain_of org t = sort_key ev_sequence (filter (\<lambda>e. ev_organization_id e = org) (events t))"

definition head_of :: "string \<Rightarrow> tables \<Rightarrow> audit_chain_head option" where
  "head_of org t = find (\<lambda>h. hd_organization_id h = org) (heads t)"

definition verify_chain :: "(string \<Rightarrow> string) \<Rightarrow> audit_event list \<Rightarrow> audit_chain_head \<Rightarrow> audit_verification" where
  "verify_chain sha es h = (case check_events sha 1 GENESIS_HASH es of
       Inl why \<Rightarrow> verification False es h why
     | Inr previous \<Rightarrow>
         if hd_head_sequence h \<noteq> int (length es) \<or> hd_head_hash h \<noteq> previous then verification False es h HeadMismatch
         else verification True es h ChainValid)"

definition verify_audit_chain :: "env \<Rightarrow> string \<Rightarrow> audit_verification control" where
  "verify_audit_chain v org =
     andthen (query (head_of org)) (\<lambda>found. (case found of None \<Rightarrow> raise AuditChainMissing
      | Some h \<Rightarrow> andthen (query (chain_of org)) (\<lambda>es. ret (verify_chain (v_sha v) es h))))"

subsection \<open>A payload survives its text\<close>

lemma closed_payload_same: "closed_payload p = Inr q \<Longrightarrow> q = p"
  by (simp add: closed_payload_def split: if_splits)

lemma payload_value_sort: "payload_value_ok j \<Longrightarrow> sort_keys j = j"
  by (cases j) (auto simp: payload_value_ok_def)

lemma sort_keys_payload:
  assumes "list_all payload_value_ok (map snd p)"
  shows "sort_keys (JObj p) = JObj (sort_key fst p)"
proof -
  have "map (\<lambda>(k, v). (k, sort_keys v)) p = p"
    using assms by (induction p) (auto simp: payload_value_sort)
  then show ?thesis by simp
qed

lemma closed_values: "closed_payload p = Inr q \<Longrightarrow> list_all payload_value_ok (map snd p)"
  by (simp add: closed_payload_def split: if_splits)

lemma sort_key_idem: "sort_key f (sort_key f xs) = sort_key f xs"
  by (rule sort_key_id_if_sorted) simp

lemma sorted_payload:
  assumes "closed_payload p = Inr p"
  shows "closed_payload (sort_key fst p) = Inr (sort_key fst p)"
    and "sort_keys (JObj (sort_key fst p)) = sort_keys (JObj p)"
proof -
  have v: "list_all payload_value_ok (map snd p)" using assms by (rule closed_values)
  then have v': "list_all payload_value_ok (map snd (sort_key fst p))" by (simp add: list_all_iff)
  show s: "sort_keys (JObj (sort_key fst p)) = sort_keys (JObj p)"
    by (simp only: sort_keys_payload [OF v] sort_keys_payload [OF v'] sort_key_idem)
  have "canonical_json_bytes (JObj (sort_key fst p)) = canonical_json_bytes (JObj p)"
    unfolding canonical_json_bytes_def s ..
  then show "closed_payload (sort_key fst p) = Inr (sort_key fst p)"
    using assms v' by (simp add: closed_payload_def list_all_iff list_ex_iff split: if_splits)
qed

lemma loads_canonical_text:
  assumes "closed_payload p = Inr p" and "distinct (map fst p)"
  shows "loads (canonical_text p) = Some (JObj (sort_key fst p))"
proof -
  have v: "list_all payload_value_ok (map snd p)" using assms(1) by (rule closed_values)
  have "distinct_keys (JObj (sort_key fst p))"
  proof -
    have "distinct_keys j" if "payload_value_ok j" for j using that by (cases j) (auto simp: payload_value_ok_def)
    moreover have "distinct (map fst (sort_key fst p))" using assms(2) by (metis distinct_map distinct_sort set_sort)
    ultimately show ?thesis using v by (auto simp: list_all_iff)
  qed
  then show ?thesis unfolding canonical_text_def sort_keys_payload [OF v] by (rule loads_render)
qed

subsection \<open>Appending keeps the chain valid\<close>

lemma check_new_event:
  assumes "closed_payload p = Inr p" and "distinct (map fst p)"
  shows "check_event (v_sha v) (hd_head_sequence h + 1) (hd_head_hash h) (new_event v org etype actor subject p now h event_id) = None"
proof -
  have st: "canonical_text (sort_key fst p) = canonical_text p"
    using sorted_payload(2) [OF assms(1)] by (simp only: canonical_text_def)
  have sh: "stable_hash (v_sha v) (JObj (sort_key fst p)) = stable_hash (v_sha v) (JObj p)"
    using sorted_payload(2) [OF assms(1)] by (simp only: stable_hash_def canonical_json_bytes_def)
  have fields: "stable_hash (v_sha v) (event_fields i o' n ty a s (sort_key fst p) pr c) = stable_hash (v_sha v) (event_fields i o' n ty a s p pr c)"
    for i o' n ty a s pr c
  proof -
    have "sort_keys (event_fields i o' n ty a s (sort_key fst p) pr c) = sort_keys (event_fields i o' n ty a s p pr c)"
      unfolding event_fields_def using sorted_payload(2) [OF assms(1)]
      by (simp only: sort_keys.simps(2) list.map prod.case)
    then show ?thesis by (simp only: stable_hash_def canonical_json_bytes_def)
  qed
  show ?thesis
    using loads_canonical_text [OF assms] sorted_payload(1) [OF assms(1)]
    by (simp add: check_event_def new_event_def Let_def st sh fields)
qed

lemma check_events_snoc:
  "check_events sha n h (es @ [e]) = (case check_events sha n h es of Inl why \<Rightarrow> Inl why
     | Inr h' \<Rightarrow> (case check_event sha (n + int (length es)) h' e of Some why \<Rightarrow> Inl why | None \<Rightarrow> Inr (ev_event_hash e)))"
  by (induction es arbitrary: n h) (auto split: option.splits sum.splits simp: ac_simps)

lemma check_event_sequence: "check_event sha n h e = None \<Longrightarrow> ev_sequence e = n"
  by (simp add: check_event_def split: if_splits)

lemma check_events_sequence:
  "check_events sha n h es = Inr h' \<Longrightarrow> e \<in> set es \<Longrightarrow> n \<le> ev_sequence e \<and> ev_sequence e < n + int (length es)"
proof (induction es arbitrary: n h)
  case (Cons x es)
  then show ?case by (fastforce split: option.splits dest: check_event_sequence)
qed simp

definition valid_chain :: "(string \<Rightarrow> string) \<Rightarrow> string \<Rightarrow> tables \<Rightarrow> bool" where
  "valid_chain sha org t = (case head_of org t of None \<Rightarrow> False
     | Some h \<Rightarrow> av_valid (verify_chain sha (chain_of org t) h))"

lemma verify_chain_valid_iff:
  "av_valid (verify_chain sha es h) \<longleftrightarrow>
     check_events sha 1 GENESIS_HASH es = Inr (hd_head_hash h) \<and> hd_head_sequence h = int (length es)"
  by (auto simp: verify_chain_def verification_def split: sum.splits)

lemma sort_key_snoc_max: "(\<And>y. y \<in> set xs \<Longrightarrow> f y \<le> f x) \<Longrightarrow> sort_key f (xs @ [x]) = sort_key f xs @ [x]"
proof (induction xs)
  case (Cons y xs)
  have ins: "insort_key f y (zs @ [x]) = insort_key f y zs @ [x]" if "f y \<le> f x" "sorted (map f zs)" for zs
    using that by (induction zs) auto
  have "sort_key f (xs @ [x]) = sort_key f xs @ [x]" using Cons by auto
  then show ?case using ins [of "sort_key f xs"] Cons.prems by simp
qed simp

lemma find_put_row_same:
  "find (\<lambda>r. key r = key x) rs \<noteq> None \<Longrightarrow> find (\<lambda>r. key r = key x) (put_row key x rs) = Some x"
  by (induction rs) (auto simp: put_row_def split: if_splits)

lemma find_put_row_other:
  "k \<noteq> key x \<Longrightarrow> find (\<lambda>r. key r = k) (put_row key x rs) = find (\<lambda>r. key r = k) rs"
  by (induction rs) (auto simp: put_row_def)

lemma append_events_valid:
  assumes valid: "valid_chain (v_sha v) org t" and h: "head_of org t = Some h"
    and p: "closed_payload p = Inr p" "distinct (map fst p)"
    and e: "e = new_event v org etype actor subject p now h event_id"
  shows "valid_chain (v_sha v) org (upd_heads (put_row hd_organization_id (advance_head e now h)) (upd_events (\<lambda>es. es @ [e]) t))"
proof -
  let ?es = "chain_of org t"
  have hd: "check_events (v_sha v) 1 GENESIS_HASH ?es = Inr (hd_head_hash h)" "hd_head_sequence h = int (length ?es)"
    using valid h by (simp_all add: valid_chain_def verify_chain_valid_iff)
  have seq: "ev_sequence e = hd_head_sequence h + 1" "ev_organization_id e = org"
    by (simp_all add: e new_event_def Let_def)
  have le: "ev_sequence x \<le> ev_sequence e" if "x \<in> set (filter (\<lambda>e. ev_organization_id e = org) (events t))" for x
    using check_events_sequence [OF hd(1), of x] that hd(2) seq by (simp add: chain_of_def)
  have chain: "chain_of org (upd_heads f (upd_events (\<lambda>es. es @ [e]) t)) = ?es @ [e]" for f
    using sort_key_snoc_max [of "filter (\<lambda>e. ev_organization_id e = org) (events t)" ev_sequence e] le seq
    by (simp add: chain_of_def upd_heads_def upd_events_def)
  have org: "hd_organization_id h = org" using h by (auto simp: head_of_def find_Some_iff)
  have head: "head_of org (upd_heads (put_row hd_organization_id (advance_head e now h)) (upd_events (\<lambda>es. es @ [e]) t)) =
      Some (advance_head e now h)"
    using find_put_row_same [of hd_organization_id "advance_head e now h" "heads t"] h org
    by (simp add: head_of_def upd_heads_def upd_events_def) (simp add: advance_head_def)
  have "check_event (v_sha v) (1 + int (length ?es)) (hd_head_hash h) e = None"
    using check_new_event [OF p, of v h org etype actor subject now event_id] hd(2) by (simp add: e add.commute)
  then show ?thesis
    using hd seq unfolding valid_chain_def head chain option.case verify_chain_valid_iff check_events_snoc
    by (simp add: advance_head_def)
qed

subsection \<open>What appending does\<close>

definition after_append :: "audit_event \<Rightarrow> datetime \<Rightarrow> audit_chain_head \<Rightarrow> session \<Rightarrow> session" where
  "after_append e now h s = s\<lparr>drawn := Suc (drawn s),
     current := upd_heads (put_row hd_organization_id (advance_head e now h)) (upd_events (\<lambda>es. es @ [e]) (current s))\<rparr>"

lemma append_audit_event_Inr:
  assumes "append_audit_event v org ty actor subject p now s = (Inr e, s')"
  shows "\<exists>h. head_of org (current s) = Some h \<and> closed_payload p = Inr p \<and> sha256_ok actor \<and> 1 \<le> length subject \<and> length subject \<le> 68 \<and>
     e = new_event v org ty actor subject p now h (''aud_'' @ v_token_hex v (drawn s)) \<and> s' = after_append e now h s"
proof (cases "closed_payload p")
  case (Inr q)
  then have "q = p" by (rule closed_payload_same)
  with Inr show ?thesis
    using assms unfolding append_audit_event_def
    by (auto simp: run_iff scalar_def head_of_def opaque_id_def Let_def after_append_def split: option.splits)
qed (use assms in \<open>simp add: append_audit_event_def run_iff\<close>)

lemma append_audit_event_Inl:
  "append_audit_event v org ty actor subject p now s = (Inl err, s') \<Longrightarrow> s' = s \<and> err \<in> {AuditPayloadRejected, AuditChainMissing}"
  by (auto simp: append_audit_event_def run_iff scalar_def opaque_id_def Let_def closed_payload_def split: option.splits sum.splits if_splits)

lemma append_ok:
  assumes "head_of org (current s) = Some h" and "find (\<lambda>o'. og_organization_id o' = org) (organizations (current s)) \<noteq> None"
    and "closed_payload p = Inr p" and "sha256_ok actor" and "1 \<le> length subject" "length subject \<le> 68"
  shows "append_audit_event v org ty actor subject p now s =
     (let e = new_event v org ty actor subject p now h (''aud_'' @ v_token_hex v (drawn s)) in (Inr e, after_append e now h s))"
  using assms by (auto simp: append_audit_event_def andthen_def require_def ret_def raise_def scalar_def query_def head_of_def
      opaque_id_def draw_def store_def modify_def Let_def after_append_def)

text \<open>What an append leaves alone: everything but the two audit tables, and the chains of other organizations.\<close>

lemma after_append_frame:
  assumes "head_of org (current s) = Some h"
    and "e = new_event v org ty actor subject p now h i"
  shows "\<And>org'. org' \<noteq> org \<Longrightarrow> chain_of org' (current (after_append e now h s)) = chain_of org' (current s) \<and>
      head_of org' (current (after_append e now h s)) = head_of org' (current s)"
    and "events (current (after_append e now h s)) = events (current s) @ [e]"
proof -
  have h: "hd_organization_id h = org" using assms(1) by (auto simp: head_of_def find_Some_iff)
  have e: "ev_organization_id e = org" by (simp add: assms(2) new_event_def Let_def)
  show "chain_of org' (current (after_append e now h s)) = chain_of org' (current s) \<and>
      head_of org' (current (after_append e now h s)) = head_of org' (current s)" if "org' \<noteq> org" for org'
    using that h e find_put_row_other [of org' hd_organization_id "advance_head e now h" "heads (current s)"]
    by (auto simp: after_append_def upd_heads_def upd_events_def chain_of_def head_of_def) (auto simp: advance_head_def)
  show "events (current (after_append e now h s)) = events (current s) @ [e]"
    by (simp add: after_append_def upd_heads_def upd_events_def)
qed

lemma append_keeps_valid:
  assumes "append_audit_event v org ty actor subject p now s = (Inr e, s')" and "distinct (map fst p)"
    and "valid_chain (v_sha v) org' (current s)"
  shows "valid_chain (v_sha v) org' (current s')"
proof -
  obtain h where h: "head_of org (current s) = Some h" "closed_payload p = Inr p"
    and e: "e = new_event v org ty actor subject p now h (''aud_'' @ v_token_hex v (drawn s))" and s': "s' = after_append e now h s"
    using append_audit_event_Inr [OF assms(1)] by blast
  show ?thesis
  proof (cases "org' = org")
    case True
    then show ?thesis using append_events_valid [OF _ h(1) h(2) assms(2) e] assms(3) by (simp add: s' after_append_def)
  next
    case False
    then show ?thesis using assms(3) unfolding valid_chain_def s' after_append_frame(1) [OF h(1) e False, THEN conjunct1]
      after_append_frame(1) [OF h(1) e False, THEN conjunct2] by simp
  qed
qed

subsection \<open>Tamper evidence\<close>

text \<open>
  A chain of entries in which every entry is checked against the state its predecessors leave. If an
  entry and the state before it are determined by the state after it, unless the hash is broken, then
  so is the whole chain by its final state.
\<close>

locale hash_chain =
  fixes ok :: "'s \<Rightarrow> 'e \<Rightarrow> bool" and step :: "'s \<Rightarrow> 'e \<Rightarrow> 's" and broken :: bool
  assumes link_determines: "ok s e \<Longrightarrow> ok s' e' \<Longrightarrow> step s e = step s' e' \<Longrightarrow> (s = s' \<and> e = e') \<or> broken"
begin

lemma chain_determined:
  assumes "length es = length es'"
    and "\<And>i. i < length es \<Longrightarrow> ok (foldl step s (take i es)) (es ! i)"
    and "\<And>i. i < length es' \<Longrightarrow> ok (foldl step s' (take i es')) (es' ! i)"
    and "foldl step s es = foldl step s' es'"
  shows "es = es' \<or> broken"
  using assms
proof (induction es arbitrary: es' rule: rev_induct)
  case (snoc x xs)
  obtain y ys where es': "es' = ys @ [y]" using snoc.prems(1) by (cases es' rule: rev_cases) auto
  note prems = snoc.prems [unfolded es']
  have len: "length xs = length ys" using prems(1) by simp
  have x: "ok (foldl step s xs) x" using prems(2) [of "length xs"] by simp
  have y: "ok (foldl step s' ys) y" using prems(3) [of "length ys"] by simp
  have "(foldl step s xs = foldl step s' ys \<and> x = y) \<or> broken"
    using link_determines [OF x y] prems(4) by simp
  moreover have "xs = ys \<or> broken" if "foldl step s xs = foldl step s' ys"
  proof (rule snoc.IH [OF len _ _ that])
    show "ok (foldl step s (take i xs)) (xs ! i)" if "i < length xs" for i
      using prems(2) [of i] that by (simp add: nth_append)
    show "ok (foldl step s' (take i ys)) (ys ! i)" if "i < length ys" for i
      using prems(3) [of i] that by (simp add: nth_append)
  qed
  ultimately show ?case unfolding es' by blast
qed auto

end

text \<open>Two texts that SHA-256 does not tell apart.\<close>

definition collide :: "(string \<Rightarrow> string) \<Rightarrow> string \<Rightarrow> string \<Rightarrow> bool" where
  "collide sha x y \<longleftrightarrow> x \<noteq> y \<and> sha x = sha y"

lemma stable_hash_eq:
  "stable_hash sha j = stable_hash sha j' \<Longrightarrow> sort_keys j = sort_keys j' \<or> collide sha (canonical_json_bytes j) (canonical_json_bytes j')"
  unfolding stable_hash_def collide_def by (metis canonical_json_bytes_inj)

lemma sort_keys_event_fields:
  "sort_keys (event_fields i o' n ty a s p pr c) = JObj [
     (''actor_reference'', JStr a), (''created_at'', JStr (isoformat c)), (''event_id'', JStr i),
     (''event_type'', JStr (audit_event_name ty)), (''organization_id'', JStr o'), (''payload'', sort_keys (JObj p)),
     (''previous_hash'', JStr pr), (''schema_version'', JStr ''w11-audit-event/1.0''), (''sequence'', JInt n),
     (''subject_reference'', JStr s)]"
  unfolding event_fields_def by (simp add: less_char_def)

text \<open>The text whose hash an event carries.\<close>

definition event_text :: "audit_event \<Rightarrow> string" where
  "event_text e = (case loads (ev_payload_json e) of
       Some (JObj p) \<Rightarrow> canonical_json_bytes (event_fields (ev_event_id e) (ev_organization_id e) (ev_sequence e) (ev_event_type e)
         (ev_actor_reference e) (ev_subject_reference e) p (ev_previous_hash e) (ev_created_at e))
     | _ \<Rightarrow> [])"

lemma check_event_None:
  assumes "check_event sha n h e = None"
  shows "\<exists>p. ev_sequence e = n \<and> ev_previous_hash e = h \<and> canonical_text p = ev_payload_json e \<and>
     stable_hash sha (JObj p) = ev_payload_hash e \<and>
     event_text e = canonical_json_bytes (event_fields (ev_event_id e) (ev_organization_id e) n (ev_event_type e)
       (ev_actor_reference e) (ev_subject_reference e) p h (ev_created_at e)) \<and>
     sha (event_text e) = ev_event_hash e"
  using assms
  by (auto simp: check_event_def event_text_def stable_hash_def split: if_splits option.splits json.splits sum.splits dest: closed_payload_same)

lemma event_determined:
  assumes "check_event sha n h e = None" and "check_event sha n h' e' = None" and "ev_event_hash e = ev_event_hash e'"
  shows "(h = h' \<and> e = e') \<or> collide sha (event_text e) (event_text e')"
proof -
  obtain p where e: "ev_sequence e = n" "ev_previous_hash e = h" "canonical_text p = ev_payload_json e"
    "stable_hash sha (JObj p) = ev_payload_hash e"
    "event_text e = canonical_json_bytes (event_fields (ev_event_id e) (ev_organization_id e) n (ev_event_type e)
       (ev_actor_reference e) (ev_subject_reference e) p h (ev_created_at e))" "sha (event_text e) = ev_event_hash e"
    using check_event_None [OF assms(1)] by blast
  obtain p' where e': "ev_sequence e' = n" "ev_previous_hash e' = h'" "canonical_text p' = ev_payload_json e'"
    "stable_hash sha (JObj p') = ev_payload_hash e'"
    "event_text e' = canonical_json_bytes (event_fields (ev_event_id e') (ev_organization_id e') n (ev_event_type e')
       (ev_actor_reference e') (ev_subject_reference e') p' h' (ev_created_at e'))" "sha (event_text e') = ev_event_hash e'"
    using check_event_None [OF assms(2)] by blast
  show ?thesis
  proof (cases "event_text e = event_text e'")
    case True
    then have "sort_keys (event_fields (ev_event_id e) (ev_organization_id e) n (ev_event_type e)
       (ev_actor_reference e) (ev_subject_reference e) p h (ev_created_at e)) =
      sort_keys (event_fields (ev_event_id e') (ev_organization_id e') n (ev_event_type e')
       (ev_actor_reference e') (ev_subject_reference e') p' h' (ev_created_at e'))"
      unfolding e(5) e'(5) by (rule canonical_json_bytes_inj)
    then have eq: "ev_event_id e = ev_event_id e'" "ev_organization_id e = ev_organization_id e'" "ev_event_type e = ev_event_type e'"
      "ev_actor_reference e = ev_actor_reference e'" "ev_subject_reference e = ev_subject_reference e'" "h = h'"
      "ev_created_at e = ev_created_at e'" and p: "sort_keys (JObj p) = sort_keys (JObj p')"
      unfolding sort_keys_event_fields by (simp_all add: audit_event_name_inj isoformat_inj del: sort_keys.simps)
    have "ev_payload_json e = ev_payload_json e'" using e(3) e'(3) p by (simp only: canonical_text_def)
    moreover have "ev_payload_hash e = ev_payload_hash e'"
      using e(4) e'(4) p by (simp only: stable_hash_def canonical_json_bytes_def)
    ultimately have "e = e'" using eq e(1,2) e'(1,2) assms(3) by (intro audit_event.equality) simp_all
    with eq show ?thesis by blast
  next
    case False
    then show ?thesis using e(6) e'(6) assms(3) by (simp add: collide_def)
  qed
qed

text \<open>The hash is broken on two texts of the events in \<open>E\<close>.\<close>

definition broken_on :: "(string \<Rightarrow> string) \<Rightarrow> audit_event set \<Rightarrow> bool" where
  "broken_on sha E \<longleftrightarrow> (\<exists>e \<in> E. \<exists>e' \<in> E. collide sha (event_text e) (event_text e'))"

definition event_linked :: "(string \<Rightarrow> string) \<Rightarrow> audit_event set \<Rightarrow> int \<times> string \<Rightarrow> audit_event \<Rightarrow> bool" where
  "event_linked sha E s e \<longleftrightarrow> e \<in> E \<and> check_event sha (fst s) (snd s) e = None"

definition event_link :: "int \<times> string \<Rightarrow> audit_event \<Rightarrow> int \<times> string" where
  "event_link s e = (fst s + 1, ev_event_hash e)"

interpretation audit_chain: hash_chain "event_linked sha E" event_link "broken_on sha E" for sha E
proof
  fix s s' e e'
  assume "event_linked sha E s e" and "event_linked sha E s' e'" and "event_link s e = event_link s' e'"
  then show "(s = s' \<and> e = e') \<or> broken_on sha E"
    using event_determined [of sha "fst s" "snd s" e "snd s'" e']
    by (auto simp: event_linked_def event_link_def prod_eq_iff broken_on_def)
qed

lemma check_events_links:
  assumes "check_events sha n h es = Inr h'" and "set es \<subseteq> E"
  shows "foldl event_link (n, h) es = (n + int (length es), h') \<and>
    (\<forall>i < length es. event_linked sha E (foldl event_link (n, h) (take i es)) (es ! i))"
  using assms
proof (induction es arbitrary: n h)
  case (Cons e es)
  then have e: "check_event sha n h e = None" "check_events sha (n + 1) (ev_event_hash e) es = Inr h'"
    by (auto split: option.splits)
  have link: "event_link (n, h) e = (n + 1, ev_event_hash e)" "event_linked sha E (n, h) e"
    using e(1) Cons.prems(2) by (simp_all add: event_link_def event_linked_def)
  have IH: "foldl event_link (n + 1, ev_event_hash e) es = (n + 1 + int (length es), h')"
    "\<forall>i < length es. event_linked sha E (foldl event_link (n + 1, ev_event_hash e) (take i es)) (es ! i)"
    using Cons.IH [OF e(2)] Cons.prems(2) by simp_all
  show ?case
  proof (intro conjI allI impI)
    show "foldl event_link (n, h) (e # es) = (n + int (length (e # es)), h')" using IH(1) link by simp
    show "event_linked sha E (foldl event_link (n, h) (take i (e # es))) ((e # es) ! i)" if "i < length (e # es)" for i
      using IH(2) link that by (cases i) simp_all
  qed
qed simp

lemma valid_chain_determined:
  assumes "valid_chain sha org t" and "valid_chain sha org' t'" and h: "head_of org t = Some h" "head_of org' t' = Some h'"
    and "hd_head_sequence h = hd_head_sequence h'" and "hd_head_hash h = hd_head_hash h'"
  shows "chain_of org t = chain_of org' t' \<or> broken_on sha (set (chain_of org t) \<union> set (chain_of org' t'))"
proof -
  let ?E = "set (chain_of org t) \<union> set (chain_of org' t')"
  have c: "check_events sha 1 GENESIS_HASH (chain_of org t) = Inr (hd_head_hash h)"
      "check_events sha 1 GENESIS_HASH (chain_of org' t') = Inr (hd_head_hash h)"
    and len: "length (chain_of org t) = length (chain_of org' t')"
    using assms by (simp_all add: valid_chain_def verify_chain_valid_iff)
  show ?thesis
    using check_events_links [OF c(1), of ?E] check_events_links [OF c(2), of ?E] len
    by (intro audit_chain.chain_determined [OF len, where s = "(1, GENESIS_HASH)" and s' = "(1, GENESIS_HASH)"]) simp_all
qed

end
