(* ===== verification/Risk.thy ===== *)
theory Risk
  imports Rbac AuditLog
begin

section \<open>Risk classification\<close>

text \<open>
  \<open>risk.py\<close>: the trusted classification of an action. A known action has a strict parameter model
  (unknown keys, missing fields and values of the wrong type are rejected) and a fixed level, raised
  for creating the account of an administrator; an unknown action is always at the highest level.
\<close>

subsection \<open>Parameter models\<close>

definition employee_reference_ok :: "json \<Rightarrow> bool" where
  "employee_reference_ok j = (case j of JInt i \<Rightarrow> 1 \<le> i \<and> i \<le> 999999 | _ \<Rightarrow> False)"

definition opaque_reference_ok :: "string \<Rightarrow> bool" where
  "opaque_reference_ok = pattern_ok lower_char code_char 2 79"

text \<open>A strict \<open>str\<close> field with a pattern.\<close>

definition str_ok :: "(string \<Rightarrow> bool) \<Rightarrow> json \<Rightarrow> bool" where
  "str_ok P j = (case j of JStr s \<Rightarrow> P s | _ \<Rightarrow> False)"

text \<open>The version literal of a model, and its other fields in order.\<close>

record parameter_model =
  pm_schema_version :: string
  pm_fields :: "(string \<times> (json \<Rightarrow> bool)) list"

definition InspectEmployeeParameters :: parameter_model where
  "InspectEmployeeParameters = \<lparr>pm_schema_version = ''w11-inspect-employee-parameters/1.0'',
     pm_fields = [(''employee_id'', employee_reference_ok)]\<rparr>"

definition TaskParameters :: parameter_model where
  "TaskParameters = \<lparr>pm_schema_version = ''w11-task-parameters/1.0'', pm_fields = [(''task_reference'', str_ok task_reference_ok)]\<rparr>"

definition CreateTicketParameters :: parameter_model where
  "CreateTicketParameters = \<lparr>pm_schema_version = ''w11-create-ticket-parameters/1.0'',
     pm_fields = [(''employee_id'', employee_reference_ok), (''ticket_code'', str_ok safe_code_ok)]\<rparr>"

definition CreateAccountParameters :: parameter_model where
  "CreateAccountParameters = \<lparr>pm_schema_version = ''w11-create-account-parameters/1.0'',
     pm_fields = [(''target_user_id'', str_ok user_id_ok), (''account_code'', str_ok safe_code_ok)]\<rparr>"

definition AssignAssetParameters :: parameter_model where
  "AssignAssetParameters = \<lparr>pm_schema_version = ''w11-assign-asset-parameters/1.0'',
     pm_fields = [(''employee_id'', employee_reference_ok), (''asset_code'', str_ok safe_code_ok)]\<rparr>"

definition CreateMailboxParameters :: parameter_model where
  "CreateMailboxParameters = \<lparr>pm_schema_version = ''w11-create-mailbox-parameters/1.0'',
     pm_fields = [(''employee_id'', employee_reference_ok), (''mailbox_code'', str_ok safe_code_ok)]\<rparr>"

definition TransferEmployeeParameters :: parameter_model where
  "TransferEmployeeParameters = \<lparr>pm_schema_version = ''w11-transfer-employee-parameters/1.0'',
     pm_fields = [(''employee_id'', employee_reference_ok), (''destination_code'', str_ok safe_code_ok)]\<rparr>"

definition EmployeeMutationParameters :: parameter_model where
  "EmployeeMutationParameters = \<lparr>pm_schema_version = ''w11-employee-mutation-parameters/1.0'',
     pm_fields = [(''employee_id'', employee_reference_ok)]\<rparr>"

definition GrantAdminParameters :: parameter_model where
  "GrantAdminParameters = \<lparr>pm_schema_version = ''w11-grant-admin-parameters/1.0'',
     pm_fields = [(''target_user_id'', str_ok user_id_ok), (''permission_code'', str_ok safe_code_ok)]\<rparr>"

definition TransferOwnershipParameters :: parameter_model where
  "TransferOwnershipParameters = \<lparr>pm_schema_version = ''w11-transfer-ownership-parameters/1.0'',
     pm_fields = [(''source_reference'', str_ok opaque_reference_ok), (''target_user_id'', str_ok user_id_ok)]\<rparr>"

definition ForbiddenParameters :: parameter_model where
  "ForbiddenParameters = \<lparr>pm_schema_version = ''w11-forbidden-parameters/1.0'', pm_fields = []\<rparr>"

definition ACTION_PARAMETER_MODELS :: "(string \<times> parameter_model) list" where
  "ACTION_PARAMETER_MODELS = [
     (''inspect_employee'', InspectEmployeeParameters),
     (''inspect_task'', TaskParameters),
     (''create_draft'', TaskParameters),
     (''generate_plan'', TaskParameters),
     (''create_ticket'', CreateTicketParameters),
     (''create_account'', CreateAccountParameters),
     (''assign_asset'', AssignAssetParameters),
     (''create_mailbox'', CreateMailboxParameters),
     (''transfer_employee'', TransferEmployeeParameters),
     (''close_ticket'', EmployeeMutationParameters),
     (''release_asset'', EmployeeMutationParameters),
     (''grant_admin_privilege'', GrantAdminParameters),
     (''revoke_account'', EmployeeMutationParameters),
     (''disable_employee'', EmployeeMutationParameters),
     (''disable_mailbox'', EmployeeMutationParameters),
     (''transfer_file_ownership'', TransferOwnershipParameters),
     (''physical_delete'', ForbiddenParameters),
     (''bypass_approval'', ForbiddenParameters),
     (''modify_audit'', ForbiddenParameters),
     (''cross_tenant_operation'', ForbiddenParameters),
     (''arbitrary_code_execution'', ForbiddenParameters)]"

definition ACTION_RISKS :: "(string \<times> risk_level) list" where
  "ACTION_RISKS = [
     (''inspect_employee'', L0), (''inspect_task'', L0),
     (''create_draft'', L1), (''generate_plan'', L1),
     (''create_ticket'', L2), (''create_account'', L2), (''assign_asset'', L2), (''create_mailbox'', L2),
     (''transfer_employee'', L2), (''close_ticket'', L2), (''release_asset'', L2),
     (''grant_admin_privilege'', L3), (''revoke_account'', L3), (''disable_employee'', L3), (''disable_mailbox'', L3),
     (''transfer_file_ownership'', L3),
     (''physical_delete'', L4), (''bypass_approval'', L4), (''modify_audit'', L4), (''cross_tenant_operation'', L4),
     (''arbitrary_code_execution'', L4)]"

text \<open>\<open>model_validate(parameters).model_dump(mode="json")\<close>, \<open>None\<close> for a \<open>ValidationError\<close>.\<close>

definition validate_parameters :: "parameter_model \<Rightarrow> json_dict \<Rightarrow> json_dict option" where
  "validate_parameters m d =
     (if list_all (\<lambda>k. k \<in> set (''schema_version'' # map fst (pm_fields m))) (map fst d) \<and>
         map_of d ''schema_version'' \<in> {None, Some (JStr (pm_schema_version m))} \<and>
         list_all (\<lambda>(f, P). case map_of d f of None \<Rightarrow> False | Some j \<Rightarrow> P j) (pm_fields m)
      then Some ((''schema_version'', JStr (pm_schema_version m)) # map (\<lambda>(f, P). (f, the (map_of d f))) (pm_fields m))
      else None)"

subsection \<open>Evaluation\<close>

record risk_evaluation =
  re_action_type :: string
  re_risk_level :: risk_level
  re_parameter_hash :: string
  re_validated_parameters :: json_dict
  re_required_roles :: "approval_role list"
  re_known_action :: bool

definition required_roles :: "risk_level \<Rightarrow> approval_role list" where
  "required_roles l = (if l = L2 then [Manager] else if l = L3 then [Manager, Security] else [])"

definition action_binding :: "string \<Rightarrow> json_dict \<Rightarrow> json" where
  "action_binding action params = JObj [
     (''schema_version'', JStr ''w11-action-binding/1.0''),
     (''action_type'', JStr action),
     (''parameters'', JObj params)]"

text \<open>The fact is \<open>RiskFacts.target_is_organization_administrator\<close>. \<open>ACTION_RISKS[action_type]\<close> cannot miss:
  the two tables have the same keys.\<close>

definition evaluate_risk :: "(string \<Rightarrow> string) \<Rightarrow> string \<Rightarrow> json_dict \<Rightarrow> bool \<Rightarrow> control_error + risk_evaluation" where
  "evaluate_risk hash action params admin_target =
     (case map_of ACTION_PARAMETER_MODELS action of
        None \<Rightarrow> Inr \<lparr>re_action_type = action, re_risk_level = L4, re_parameter_hash = stable_hash hash (action_binding action params),
            re_validated_parameters = params, re_required_roles = [], re_known_action = False\<rparr>
      | Some model \<Rightarrow>
          (case validate_parameters model params of
             None \<Rightarrow> Inl RiskSchemaRejected
           | Some validated \<Rightarrow>
               let level = the (map_of ACTION_RISKS action);
                   level' = (if action = ''create_account'' \<and> admin_target \<and> level < L3 then L3 else level)
               in Inr \<lparr>re_action_type = action, re_risk_level = level',
                   re_parameter_hash = stable_hash hash (action_binding action validated),
                   re_validated_parameters = validated, re_required_roles = required_roles level', re_known_action = True\<rparr>))"

definition recovery_binding_hash :: "(string \<Rightarrow> string) \<Rightarrow> string \<Rightarrow> string \<Rightarrow> risk_evaluation \<Rightarrow> string" where
  "recovery_binding_hash hash task step e = stable_hash hash (JObj [
     (''schema_version'', JStr ''w11-recovery-approval-binding/1.0''),
     (''task_id'', JStr task),
     (''step_id'', JStr step),
     (''action_type'', JStr (re_action_type e)),
     (''parameter_hash'', JStr (re_parameter_hash e)),
     (''risk_level'', JStr (risk_level_name (re_risk_level e)))])"

subsection \<open>What a classification guarantees\<close>

definition known_actions :: "string list" where
  "known_actions = map fst ACTION_PARAMETER_MODELS"

lemma known_actions_iff: "action \<in> set known_actions \<longleftrightarrow> map_of ACTION_PARAMETER_MODELS action \<noteq> None"
  by (simp add: known_actions_def in_keys_iff)

lemma level_of_known:
  assumes "map_of ACTION_PARAMETER_MODELS action = Some model"
  shows "\<exists>l. map_of ACTION_RISKS action = Some l \<and> (action, l) \<in> set ACTION_RISKS"
proof -
  have "action \<in> set (map fst ACTION_PARAMETER_MODELS)" using assms by (simp add: in_keys_iff)
  then have "action \<in> set (map fst ACTION_RISKS)" by (simp add: ACTION_PARAMETER_MODELS_def ACTION_RISKS_def)
  then obtain l where "map_of ACTION_RISKS action = Some l"
    by (metis list.set_map map_of_eq_None_iff not_Some_eq)
  then show ?thesis using map_of_SomeD by metis
qed

text \<open>The level of a known action, and its roles, satisfy the constraint of the request table.\<close>

definition approvable :: "risk_level \<Rightarrow> string \<Rightarrow> approval_role list \<Rightarrow> bool" where
  "approvable l action roles \<longleftrightarrow>
     (l = L2 \<and> roles = [Manager] \<and> action \<in> set L2_ACTIONS) \<or> (l = L3 \<and> roles = [Manager, Security] \<and> action \<in> set L3_ACTIONS)"

lemma evaluate_risk_cases:
  assumes "evaluate_risk h action params admin = Inr e"
  shows "re_action_type e = action \<and> re_known_action e = (action \<in> set known_actions) \<and>
    (\<not> re_known_action e \<longrightarrow> re_risk_level e = L4) \<and> re_required_roles e = required_roles (re_risk_level e) \<and>
    (re_risk_level e \<in> {L2, L3} \<longrightarrow> approvable (re_risk_level e) action (re_required_roles e)) \<and>
    re_parameter_hash e = stable_hash h (action_binding action (re_validated_parameters e))"
proof (cases "map_of ACTION_PARAMETER_MODELS action")
  case None
  then show ?thesis using assms
    by (auto simp: evaluate_risk_def known_actions_iff required_roles_def)
next
  case (Some model)
  then obtain l where l: "map_of ACTION_RISKS action = Some l" "(action, l) \<in> set ACTION_RISKS" using level_of_known by blast
  have known: "action \<in> set known_actions"
    using Some by (simp add: known_actions_iff)
  have "approvable L2 action [Manager]" if "l = L2"
    using l(2) that by (auto simp: ACTION_RISKS_def approvable_def L2_ACTIONS_def)
  moreover have "approvable L3 action [Manager, Security]" if "l = L3"
    using l(2) that by (auto simp: ACTION_RISKS_def approvable_def L3_ACTIONS_def)
  moreover have "approvable L3 action [Manager, Security]" if "action = ''create_account''"
    using that by (simp add: approvable_def L3_ACTIONS_def)
  ultimately show ?thesis using assms Some l known
    by (auto simp: evaluate_risk_def Let_def required_roles_def split: option.splits if_splits)
qed

lemma evaluate_risk_error: "evaluate_risk h action params admin = Inl e \<Longrightarrow> e = RiskSchemaRejected \<and> action \<in> set known_actions"
  by (auto simp: evaluate_risk_def Let_def known_actions_iff split: option.splits)

lemma sort_keys_action_binding:
  "sort_keys (action_binding a p) = JObj [(''action_type'', JStr a), (''parameters'', sort_keys (JObj p)),
     (''schema_version'', JStr ''w11-action-binding/1.0'')]"
  unfolding action_binding_def by (simp add: less_char_def)

lemma action_binding_determined:
  "stable_hash h (action_binding a p) = stable_hash h (action_binding a' p') \<Longrightarrow>
     (a = a' \<and> sort_keys (JObj p) = sort_keys (JObj p')) \<or>
     collide h (canonical_json_bytes (action_binding a p)) (canonical_json_bytes (action_binding a' p'))"
  by (drule stable_hash_eq) (auto simp: sort_keys_action_binding simp del: sort_keys.simps)

lemma admin_account_is_L3:
  "evaluate_risk h ''create_account'' params True = Inr e \<Longrightarrow> re_risk_level e = L3"
  by (auto simp: evaluate_risk_def Let_def ACTION_PARAMETER_MODELS_def ACTION_RISKS_def less_risk_level_def less_char_def
      split: option.splits)

end
