(* ===== verification/Approval.thy ===== *)
theory Approval
  imports Risk
begin

section \<open>Approvals and one-time grants\<close>

text \<open>
  \<open>approval.py\<close>: the execution gate classifies an action and, at the levels L2 and L3, opens a
  request; approvers decide it; the last approval issues a grant whose credential goes to the vault;
  the executor claims the grant once and completes it. Every operation writes its audit events in
  the same transaction. The functions have the names of the code; a body that the code writes inline
  is a definition of its own where it is a branch (\<open>expire_request\<close>, \<open>issue_grant\<close>, ...).
\<close>

definition REQUEST_TTL :: nat where "REQUEST_TTL = minutes 10"
definition GRANT_TTL :: nat where "GRANT_TTL = minutes 2"

definition require_actor_organization :: "actor_context \<Rightarrow> string \<Rightarrow> unit control" where
  "require_actor_organization actor org = require (a_organization_id actor = org) ResourceNotFound"

definition audit_payload :: "json_dict \<Rightarrow> json_dict" where
  "audit_payload extra = (''schema_version'', JStr ''w11-audit-payload/1.0'') # extra"

definition audit :: "env \<Rightarrow> actor_context \<Rightarrow> string \<Rightarrow> audit_event_type \<Rightarrow> string \<Rightarrow> json_dict \<Rightarrow> datetime \<Rightarrow> audit_event control" where
  "audit v actor org ty subject extra now = append_audit_event v org ty (a_authorization_hash actor) subject (audit_payload extra) now"

subsection \<open>Authorities\<close>

definition authority_order :: "approval_authority \<Rightarrow> string \<times> string" where
  "authority_order a = (approval_role_name (au_role a), au_authority_id a)"

definition list_authorities :: "actor_context \<Rightarrow> string \<Rightarrow> approval_authority list control" where
  "list_authorities actor org =
     andthen (require_actor_organization actor org) (\<lambda>_.
     query (\<lambda>t. take 100 (sort_key authority_order (filter (\<lambda>a. au_organization_id a = org) (authorities t)))))"

definition get_authority :: "actor_context \<Rightarrow> string \<Rightarrow> string \<Rightarrow> approval_authority control" where
  "get_authority actor org authority_id =
     andthen (require_actor_organization actor org) (\<lambda>_.
     andthen (scalar authorities (\<lambda>a. au_organization_id a = org \<and> au_authority_id a = authority_id)) (\<lambda>found.
     case found of None \<Rightarrow> raise ResourceNotFound | Some a \<Rightarrow> ret a))"

definition create_authority :: "env \<Rightarrow> actor_context \<Rightarrow> string \<Rightarrow> authority_create \<Rightarrow> approval_authority control" where
  "create_authority v actor org payload =
     andthen (require_actor_organization actor org) (\<lambda>_.
     andthen (scalar users (\<lambda>u. us_organization_id u = org \<and> us_user_id u = cr_user_id payload)) (\<lambda>user.
     andthen (require (user \<noteq> None) ResourceNotFound) (\<lambda>_.
     andthen (opaque_id v ''aut'') (\<lambda>i.
     let a = \<lparr>au_authority_id = i, au_organization_id = org, au_user_id = cr_user_id payload, au_role = cr_role payload,
              au_status = AuthorityActive, au_version = 1, au_created_at = v_db_now v, au_updated_at = v_db_now v\<rparr> in
     andthen (store (upd_authorities (\<lambda>as. as @ [a]))) (\<lambda>_.
     andthen (commit_or_conflict ResourceConflict) (\<lambda>_. ret a))))))"

definition find_request :: "string \<Rightarrow> string \<Rightarrow> approval_request option control" where
  "find_request org request_id = scalar requests (\<lambda>r. rq_organization_id r = org \<and> rq_request_id r = request_id)"

definition put_request :: "approval_request \<Rightarrow> unit control" where
  "put_request r = store (upd_requests (put_row rq_request_id r))"

definition put_grant :: "approval_grant \<Rightarrow> unit control" where
  "put_grant g = store (upd_grants (put_row gr_grant_id g))"

text \<open>The loop of \<open>disable_authority\<close> over the affected grants.\<close>

definition revoke_for_authority :: "env \<Rightarrow> actor_context \<Rightarrow> string \<Rightarrow> datetime \<Rightarrow> approval_grant \<Rightarrow> unit control" where
  "revoke_for_authority v actor org now g =
     andthen (put_grant (g\<lparr>gr_status := GrantRevoked, gr_version := gr_version g + 1, gr_updated_at := now\<rparr>)) (\<lambda>_.
     andthen (find_request org (gr_request_id g)) (\<lambda>found.
     case found of None \<Rightarrow> ret ()
     | Some r \<Rightarrow> if rq_status r \<noteq> RequestApproved then ret ()
         else (let r' = r\<lparr>rq_status := RequestInvalidated, rq_closed_reason := Some AuthorityInactive,
                   rq_version := rq_version r + 1, rq_updated_at := now\<rparr> in
           andthen (put_request r') (\<lambda>_.
           andthen (audit v actor org EvRequestInvalidated (rq_request_id r')
             [(''request_id'', JStr (rq_request_id r')), (''request_status'', JStr (request_status_name (rq_status r'))),
              (''reason'', JStr (approval_reason_name AuthorityInactive)), (''version'', JInt (rq_version r'))] now) (\<lambda>e.
           put_request (r'\<lparr>rq_audit_sequence := ev_sequence e\<rparr>))))))"

definition affected_grants :: "string \<Rightarrow> string \<Rightarrow> tables \<Rightarrow> approval_grant list" where
  "affected_grants org authority_id t = concat (map (\<lambda>g.
     map (\<lambda>_. g) (filter (\<lambda>d. decision_request d = grant_request g \<and> dc_authority_id d = authority_id) (decisions t)))
     (filter (\<lambda>g. gr_organization_id g = org \<and> gr_status g = GrantIssued) (grants t)))"

definition disable_authority :: "env \<Rightarrow> actor_context \<Rightarrow> string \<Rightarrow> string \<Rightarrow> int \<Rightarrow> datetime \<Rightarrow> approval_authority control" where
  "disable_authority v actor org authority_id expected now =
     andthen (require_actor_organization actor org) (\<lambda>_.
     andthen (scalar authorities (\<lambda>a. au_organization_id a = org \<and> au_authority_id a = authority_id)) (\<lambda>exists.
     andthen (require (exists \<noteq> None) ResourceNotFound) (\<lambda>_.
     andthen (update_returning authorities upd_authorities
       (\<lambda>a. au_organization_id a = org \<and> au_authority_id a = authority_id \<and> au_version a = expected \<and> au_status a = AuthorityActive)
       (\<lambda>a. a\<lparr>au_status := AuthorityDisabled, au_version := au_version a + 1, au_updated_at := now\<rparr>)) (\<lambda>found.
     case found of None \<Rightarrow> rollback_raise PreconditionFailed
     | Some record \<Rightarrow>
       andthen (query (affected_grants org authority_id)) (\<lambda>affected.
       andthen (for_each (revoke_for_authority v actor org now) affected) (\<lambda>_.
       andthen (audit v actor org EvAuthorityDisabled authority_id
         [(''authority_id'', JStr authority_id), (''approval_role'', JStr (approval_role_name (au_role record))),
          (''version'', JInt (au_version record))] now) (\<lambda>_.
       andthen commit (\<lambda>_.
       andthen (for_each (\<lambda>g. vault_discard (gr_grant_id g)) affected) (\<lambda>_.
       ret record)))))))))"

subsection \<open>The execution gate\<close>

text \<open>\<open>_risk_facts\<close>: the target of an account creation is an active administrator.\<close>

definition target_is_admin :: "string \<Rightarrow> string \<Rightarrow> tables \<Rightarrow> bool" where
  "target_is_admin org target t =
     (case find (\<lambda>m. mb_organization_id m = org \<and> mb_user_id m = target \<and> mb_status m = Active \<and>
         list_ex (\<lambda>u. us_organization_id u = mb_organization_id m \<and> us_user_id u = mb_user_id m \<and> us_status u = Active) (users t))
         (memberships t) of
        None \<Rightarrow> False | Some m \<Rightarrow> mb_role m = OrganizationAdmin)"

definition risk_facts :: "string \<Rightarrow> string \<Rightarrow> json_dict \<Rightarrow> bool control" where
  "risk_facts org action params =
     (if action \<noteq> ''create_account'' then ret False
      else case map_of params ''target_user_id'' of
          Some (JStr target) \<Rightarrow> query (target_is_admin org target)
        | _ \<Rightarrow> ret False)"

definition evaluated :: "control_error + 'a \<Rightarrow> 'a control" where
  "evaluated r = (case r of Inl e \<Rightarrow> raise e | Inr x \<Rightarrow> ret x)"

record gate_response =
  gt_status :: gate_status
  gt_risk_level :: risk_level
  gt_action_type :: string
  gt_parameter_hash :: string
  gt_request :: "approval_request option"
  gt_audit_sequence :: int

definition risk_fields :: "string \<Rightarrow> risk_evaluation \<Rightarrow> json_dict" where
  "risk_fields action e = [(''action_type'', JStr action), (''risk_level'', JStr (risk_level_name (re_risk_level e))),
     (''parameter_hash'', JStr (re_parameter_hash e))]"

definition deny_gate :: "env \<Rightarrow> actor_context \<Rightarrow> string \<Rightarrow> execution_gate_request \<Rightarrow> risk_evaluation \<Rightarrow> datetime \<Rightarrow> gate_response control" where
  "deny_gate v actor org p e now =
     andthen (audit v actor org EvL4Denied (eg_action_type p)
       (risk_fields (eg_action_type p) e @ [(''reason'', JStr ''permanently_denied''), (''http_status'', JInt 403)]) now) (\<lambda>_.
     andthen commit (\<lambda>_. raise RiskDenied))"

definition automatic_gate :: "env \<Rightarrow> actor_context \<Rightarrow> string \<Rightarrow> execution_gate_request \<Rightarrow> risk_evaluation \<Rightarrow> datetime \<Rightarrow> gate_response control" where
  "automatic_gate v actor org p e now =
     andthen (audit v actor org EvExecutionStarted (eg_action_type p) (risk_fields (eg_action_type p) e) now) (\<lambda>_.
     andthen (audit v actor org EvExecutionSucceeded (eg_action_type p) (risk_fields (eg_action_type p) e) now) (\<lambda>completed.
     andthen commit (\<lambda>_.
     ret \<lparr>gt_status = Automatic, gt_risk_level = re_risk_level e, gt_action_type = eg_action_type p,
       gt_parameter_hash = re_parameter_hash e, gt_request = None, gt_audit_sequence = ev_sequence completed\<rparr>)))"

definition open_request :: "env \<Rightarrow> actor_context \<Rightarrow> string \<Rightarrow> execution_gate_request \<Rightarrow> risk_evaluation \<Rightarrow> datetime \<Rightarrow> gate_response control" where
  "open_request v actor org p e now =
     andthen (opaque_id v ''apr'') (\<lambda>i.
     andthen (audit v actor org EvApprovalRequested i
       (risk_fields (eg_action_type p) e @ [(''request_id'', JStr i),
         (''request_status'', JStr (request_status_name RequestPending)), (''version'', JInt 1)]) now) (\<lambda>requested.
     let r = \<lparr>rq_request_id = i, rq_organization_id = org, rq_task_id = eg_task_id p, rq_step_id = eg_step_id p,
          rq_action_type = eg_action_type p, rq_parameter_hash = re_parameter_hash e, rq_risk_level = re_risk_level e,
          rq_requester_user_id = a_user_id actor, rq_executor_user_id = a_user_id actor, rq_required_roles = re_required_roles e,
          rq_status = RequestPending, rq_version = 1, rq_expires_at = now + REQUEST_TTL, rq_closed_reason = None,
          rq_audit_sequence = ev_sequence requested, rq_created_at = now, rq_updated_at = now\<rparr> in
     andthen (store (upd_requests (\<lambda>rs. rs @ [r]))) (\<lambda>_.
     andthen commit (\<lambda>_.
     ret \<lparr>gt_status = WaitingApproval, gt_risk_level = re_risk_level e, gt_action_type = eg_action_type p,
       gt_parameter_hash = re_parameter_hash e, gt_request = Some r, gt_audit_sequence = ev_sequence requested\<rparr>))))"

definition create_execution_gate :: "env \<Rightarrow> actor_context \<Rightarrow> string \<Rightarrow> execution_gate_request \<Rightarrow> datetime \<Rightarrow> gate_response control" where
  "create_execution_gate v actor org p now =
     andthen (require_actor_organization actor org) (\<lambda>_.
     andthen (risk_facts org (eg_action_type p) (eg_parameters p)) (\<lambda>facts.
     andthen (evaluated (evaluate_risk (v_sha v) (eg_action_type p) (eg_parameters p) facts)) (\<lambda>e.
     andthen (audit v actor org EvRiskClassified (eg_action_type p) (risk_fields (eg_action_type p) e) now) (\<lambda>_.
     if re_risk_level e = L4 then deny_gate v actor org p e now
     else if re_risk_level e \<in> {L0, L1} then automatic_gate v actor org p e now
     else open_request v actor org p e now))))"

definition list_requests :: "actor_context \<Rightarrow> string \<Rightarrow> approval_request list control" where
  "list_requests actor org =
     andthen (require_actor_organization actor org) (\<lambda>_.
     query (\<lambda>t. take 100 (sort_key (\<lambda>r. (rq_created_at r, rq_request_id r)) (filter (\<lambda>r. rq_organization_id r = org) (requests t)))))"

definition get_request :: "actor_context \<Rightarrow> string \<Rightarrow> string \<Rightarrow> approval_request control" where
  "get_request actor org request_id =
     andthen (require_actor_organization actor org) (\<lambda>_.
     andthen (find_request org request_id) (\<lambda>found. case found of None \<Rightarrow> raise ResourceNotFound | Some r \<Rightarrow> ret r))"

subsection \<open>Deciding a request\<close>

text \<open>The joined rows of \<open>_current_actor_authorities\<close> and \<open>_active_approval_set\<close>: the holder of an active
  authority is an active user with an active membership, not an auditor's, of an active organization.
  The unique keys of the joined tables give at most one row for an authority.\<close>

definition authority_in_force :: "tables \<Rightarrow> approval_authority \<Rightarrow> bool" where
  "authority_in_force t a = (au_status a = AuthorityActive \<and>
     list_ex (\<lambda>u. us_organization_id u = au_organization_id a \<and> us_user_id u = au_user_id a \<and> us_status u = Active) (users t) \<and>
     list_ex (\<lambda>m. mb_organization_id m = au_organization_id a \<and> mb_user_id m = au_user_id a \<and> mb_status m = Active \<and>
       mb_role m \<noteq> Auditor) (memberships t) \<and>
     list_ex (\<lambda>o'. og_organization_id o' = au_organization_id a \<and> og_status o' = Active) (organizations t))"

definition current_actor_authorities :: "actor_context \<Rightarrow> approval_role list \<Rightarrow> tables \<Rightarrow> approval_authority list" where
  "current_actor_authorities actor required t =
     (if a_role actor = Auditor then []
      else sort_key authority_order (filter (\<lambda>a. au_organization_id a = a_organization_id actor \<and> au_user_id a = a_user_id actor \<and>
        au_role a \<in> set required \<and> authority_in_force t a) (authorities t)))"

definition decisions_of :: "string \<Rightarrow> string \<Rightarrow> tables \<Rightarrow> approval_decision list" where
  "decisions_of org request_id t = filter (\<lambda>d. dc_organization_id d = org \<and> dc_request_id d = request_id) (decisions t)"

definition approved_decisions :: "string \<Rightarrow> string \<Rightarrow> tables \<Rightarrow> approval_decision list" where
  "approved_decisions org request_id t =
     sort_key (\<lambda>d. (approval_role_name (dc_approval_role d), dc_decision_id d))
       (filter (\<lambda>d. dc_decision d = Approved) (decisions_of org request_id t))"

definition approval_item :: "approval_decision \<Rightarrow> approval_authority \<Rightarrow> json" where
  "approval_item d a = JObj [(''decision_id'', JStr (dc_decision_id d)), (''approver_user_id'', JStr (dc_approver_user_id d)),
     (''authority_id'', JStr (dc_authority_id d)), (''approval_role'', JStr (approval_role_name (dc_approval_role d))),
     (''authority_version'', JInt (au_version a))]"

text \<open>The items with the role each is sorted by; \<open>None\<close> when an authority is missing.\<close>

fun approval_items :: "tables \<Rightarrow> string \<Rightarrow> approval_decision list \<Rightarrow> (string \<times> json) list option" where
  "approval_items t org [] = Some []"
| "approval_items t org (d # ds) =
     (case find (\<lambda>a. au_organization_id a = org \<and> au_authority_id a = dc_authority_id d) (authorities t) of
        None \<Rightarrow> None
      | Some a \<Rightarrow> map_option (\<lambda>items. (approval_role_name (dc_approval_role d), approval_item d a) # items) (approval_items t org ds))"

definition approval_set_hash :: "env \<Rightarrow> string \<Rightarrow> approval_decision list \<Rightarrow> string control" where
  "approval_set_hash v org ds = andthen (query (\<lambda>t. approval_items t org ds)) (\<lambda>found. case found of
       None \<Rightarrow> raise ApprovalStateConflict
     | Some items \<Rightarrow> ret (stable_hash (v_sha v) (JObj [(''schema_version'', JStr ''w11-required-approval-set/1.0''),
         (''approvals'', JArr (map snd (sort_key fst items)))])))"

definition new_credential :: "env \<Rightarrow> (string \<times> string \<times> string) control" where
  "new_credential v =
     andthen (draw (\<lambda>n. v_token_urlsafe v n 32)) (\<lambda>token.
     andthen (draw (\<lambda>n. v_token_urlsafe v n 18)) (\<lambda>nonce.
     ret (''w11.'' @ token @ CHR ''.'' # nonce, stable_hash_str (v_sha v) token, stable_hash_str (v_sha v) nonce)))"

definition expire_request :: "env \<Rightarrow> actor_context \<Rightarrow> string \<Rightarrow> approval_request \<Rightarrow> datetime \<Rightarrow> 'a control" where
  "expire_request v actor org r now =
     (let r' = r\<lparr>rq_status := RequestExpired, rq_closed_reason := Some RequestExpiry\<rparr> in
      andthen (put_request r') (\<lambda>_.
      andthen (audit v actor org EvRequestExpired (rq_request_id r)
        [(''request_id'', JStr (rq_request_id r)), (''request_status'', JStr (request_status_name (rq_status r'))),
         (''reason'', JStr (approval_reason_name RequestExpiry)), (''version'', JInt (rq_version r'))] now) (\<lambda>e.
      andthen (put_request (r'\<lparr>rq_audit_sequence := ev_sequence e\<rparr>)) (\<lambda>_.
      andthen commit (\<lambda>_. raise ApprovalStateConflict)))))"

definition new_grant :: "string \<Rightarrow> approval_request \<Rightarrow> datetime \<Rightarrow> string \<Rightarrow> string \<Rightarrow> string \<Rightarrow> string \<Rightarrow> approval_grant" where
  "new_grant org r now i set_hash token_hash nonce_hash = \<lparr>gr_grant_id = i, gr_organization_id = org, gr_request_id = rq_request_id r, gr_task_id = rq_task_id r,
     gr_step_id = rq_step_id r, gr_action_type = rq_action_type r, gr_parameter_hash = rq_parameter_hash r,
     gr_risk_level = rq_risk_level r, gr_approval_set_hash = set_hash, gr_executor_user_id = rq_executor_user_id r,
     gr_token_hash = token_hash, gr_nonce_hash = nonce_hash, gr_status = GrantIssued, gr_version = 1,
     gr_expires_at = min (rq_expires_at r) (now + GRANT_TTL), gr_execution_id = None, gr_authorization_hash = None,
     gr_receipt_reference = None, gr_claimed_at = None, gr_consumed_at = None, gr_created_at = now, gr_updated_at = now\<rparr>"

text \<open>The last approval: the request as it is left, and the grant with its credential.\<close>

definition issue_grant :: "env \<Rightarrow> actor_context \<Rightarrow> string \<Rightarrow> approval_request \<Rightarrow> datetime
    \<Rightarrow> (approval_request \<times> approval_grant \<times> string) control" where
  "issue_grant v actor org r now =
     (let r' = r\<lparr>rq_status := RequestApproved\<rparr> in
      andthen (put_request r') (\<lambda>_.
      andthen (query (approved_decisions org (rq_request_id r))) (\<lambda>ds.
      andthen (approval_set_hash v org ds) (\<lambda>set_hash.
      andthen (new_credential v) (\<lambda>(raw, token_hash, nonce_hash).
      andthen (opaque_id v ''grt'') (\<lambda>i.
      let g = new_grant org r now i set_hash token_hash nonce_hash in
      andthen (store (upd_grants (\<lambda>gs. gs @ [g]))) (\<lambda>_.
      andthen (audit v actor org EvGrantIssued i
        [(''request_id'', JStr (rq_request_id r)), (''grant_id'', JStr i), (''grant_status'', JStr (grant_status_name GrantIssued)),
         (''risk_level'', JStr (risk_level_name (rq_risk_level r))), (''parameter_hash'', JStr (rq_parameter_hash r)),
         (''version'', JInt 1)] now) (\<lambda>issued.
      let r'' = r'\<lparr>rq_audit_sequence := ev_sequence issued\<rparr> in
      andthen (put_request r'') (\<lambda>_. ret (r'', g, raw))))))))))"

record decision_result =
  ds_decision :: approval_decision
  ds_request :: approval_request
  ds_grant_issued :: bool

text \<open>\<open>try: session.commit() except Exception: session.rollback(); vault.discard(grant); raise\<close>\<close>

definition commit_or_discard :: "string option \<Rightarrow> unit control" where
  "commit_or_discard g = (\<lambda>s. case commit s of (Inr u, s') \<Rightarrow> (Inr u, s')
     | (Inl e, s') \<Rightarrow> andthen rollback (\<lambda>_. andthen (case g of None \<Rightarrow> ret () | Some i \<Rightarrow> vault_discard i) (\<lambda>_. raise e)) s')"

definition finish_decision :: "approval_decision \<Rightarrow> approval_request \<Rightarrow> (approval_grant \<times> string) option \<Rightarrow> decision_result control" where
  "finish_decision d r granted =
     andthen (case granted of None \<Rightarrow> ret () | Some (g, raw) \<Rightarrow> vault_put (gr_grant_id g) raw) (\<lambda>_.
     andthen (commit_or_discard (map_option (gr_grant_id \<circ> fst) granted)) (\<lambda>_.
     ret \<lparr>ds_decision = d, ds_request = r, ds_grant_issued = (granted \<noteq> None)\<rparr>))"

definition new_decision :: "string \<Rightarrow> approval_request \<Rightarrow> approval_decision_create \<Rightarrow> string \<Rightarrow> string \<Rightarrow> approval_authority \<Rightarrow> int \<Rightarrow> int
    \<Rightarrow> datetime \<Rightarrow> approval_decision" where
  "new_decision org r p i approver a expected n now = \<lparr>dc_decision_id = i, dc_organization_id = org, dc_request_id = rq_request_id r, dc_decision = dp_decision p,
     dc_approver_user_id = approver, dc_authority_id = au_authority_id a, dc_approval_role = au_role a,
     dc_request_version = expected, dc_action_type = rq_action_type r, dc_parameter_hash = rq_parameter_hash r,
     dc_reason = dp_reason p, dc_audit_sequence = n, dc_created_at = now\<rparr>"

text \<open>Once the authority is known: the event, the decision row, and what it does to the request.\<close>

definition record_decision :: "env \<Rightarrow> actor_context \<Rightarrow> string \<Rightarrow> approval_request \<Rightarrow> int \<Rightarrow> approval_decision_create
    \<Rightarrow> approval_decision list \<Rightarrow> approval_authority \<Rightarrow> datetime \<Rightarrow> decision_result control" where
  "record_decision v actor org r expected p prior a now =
     andthen (opaque_id v ''dec'') (\<lambda>i.
     andthen (audit v actor org (if dp_decision p = Approved then EvApprovalApproved else EvApprovalRejected) (rq_request_id r)
       [(''request_id'', JStr (rq_request_id r)), (''decision_id'', JStr i), (''authority_id'', JStr (au_authority_id a)),
        (''approval_role'', JStr (approval_role_name (au_role a))), (''action_type'', JStr (rq_action_type r)),
        (''parameter_hash'', JStr (rq_parameter_hash r)), (''reason'', JStr (approval_reason_name (dp_reason p))),
        (''version'', JInt expected)] now) (\<lambda>e.
     let d = new_decision org r p i (a_user_id actor) a expected (ev_sequence e) now;
         r1 = r\<lparr>rq_audit_sequence := ev_sequence e\<rparr> in
     andthen (store (upd_decisions (\<lambda>ds. ds @ [d]))) (\<lambda>_.
     andthen (put_request r1) (\<lambda>_.
     if dp_decision p = Rejected
     then (let r2 = r1\<lparr>rq_status := RequestRejected, rq_closed_reason := Some (dp_reason p)\<rparr> in
           andthen (put_request r2) (\<lambda>_. finish_decision d r2 None))
     else (let approved_roles = insert (au_role a) (dc_approval_role ` set (filter (\<lambda>x. dc_decision x = Approved) prior)) in
           if approved_roles = set (rq_required_roles r)
           then andthen (issue_grant v actor org r1 now) (\<lambda>(r2, g, raw). finish_decision d r2 (Some (g, raw)))
           else finish_decision d r1 None)))))"

definition decide_request :: "env \<Rightarrow> actor_context \<Rightarrow> string \<Rightarrow> string \<Rightarrow> int \<Rightarrow> approval_decision_create \<Rightarrow> datetime
    \<Rightarrow> decision_result control" where
  "decide_request v actor org request_id expected p now =
     andthen (require_actor_organization actor org) (\<lambda>_.
     andthen (find_request org request_id) (\<lambda>exists.
     andthen (require (exists \<noteq> None) ResourceNotFound) (\<lambda>_.
     andthen (update_returning requests upd_requests
       (\<lambda>r. rq_organization_id r = org \<and> rq_request_id r = request_id \<and> rq_version r = expected \<and> rq_status r = RequestPending)
       (\<lambda>r. r\<lparr>rq_version := rq_version r + 1, rq_updated_at := now\<rparr>)) (\<lambda>found.
     case found of None \<Rightarrow> rollback_raise PreconditionFailed
     | Some r \<Rightarrow>
       if rq_expires_at r \<le> now then expire_request v actor org r now
       else if a_user_id actor \<in> {rq_requester_user_id r, rq_executor_user_id r}
       then rollback_raise (AuthorizationDenied ''self_approval_denied'')
       else
         andthen (query (decisions_of org request_id)) (\<lambda>prior.
         if list_ex (\<lambda>d. dc_approver_user_id d = a_user_id actor) prior then rollback_raise ApprovalStateConflict
         else
           andthen (query (current_actor_authorities actor
             (filter (\<lambda>role. role \<notin> dc_approval_role ` set prior) (rq_required_roles r)))) (\<lambda>as.
           case as of [a] \<Rightarrow> record_decision v actor org r expected p prior a now
           | _ \<Rightarrow> rollback_raise (AuthorizationDenied ''approval_authority_denied'')))))))"

subsection \<open>Closing a request\<close>

definition revoke_grant :: "datetime \<Rightarrow> approval_grant \<Rightarrow> unit control" where
  "revoke_grant now g = put_grant (g\<lparr>gr_status := GrantRevoked, gr_version := gr_version g + 1, gr_updated_at := now\<rparr>)"

definition close_request :: "env \<Rightarrow> actor_context \<Rightarrow> string \<Rightarrow> string \<Rightarrow> int \<Rightarrow> approval_reason \<Rightarrow> bool \<Rightarrow> datetime
    \<Rightarrow> approval_request control" where
  "close_request v actor org request_id expected reason invalidate now =
     andthen (require_actor_organization actor org) (\<lambda>_.
     andthen (get_request actor org request_id) (\<lambda>r0.
     andthen (require (invalidate \<or> a_role actor = OrganizationAdmin \<or> rq_requester_user_id r0 = a_user_id actor)
       (AuthorizationDenied ''request_cancel_denied'')) (\<lambda>_.
     let target = (if invalidate then RequestInvalidated else RequestCancelled);
         event_type = (if invalidate then EvRequestInvalidated else EvRequestCancelled) in
     andthen (update_returning requests upd_requests
       (\<lambda>r. rq_organization_id r = org \<and> rq_request_id r = request_id \<and> rq_version r = expected \<and>
         rq_status r \<in> {RequestPending, RequestApproved})
       (\<lambda>r. r\<lparr>rq_status := target, rq_closed_reason := Some reason, rq_version := rq_version r + 1, rq_updated_at := now\<rparr>)) (\<lambda>found.
     case found of None \<Rightarrow> rollback_raise PreconditionFailed
     | Some r \<Rightarrow>
       andthen (audit v actor org event_type request_id
         [(''request_id'', JStr request_id), (''request_status'', JStr (request_status_name (rq_status r))),
          (''reason'', JStr (approval_reason_name reason)), (''version'', JInt (rq_version r))] now) (\<lambda>e.
       let r' = r\<lparr>rq_audit_sequence := ev_sequence e\<rparr> in
       andthen (put_request r') (\<lambda>_.
       andthen (query (\<lambda>t. filter (\<lambda>g. gr_organization_id g = org \<and> gr_request_id g = request_id \<and> gr_status g = GrantIssued)
         (grants t))) (\<lambda>gs.
       andthen (for_each (revoke_grant now) gs) (\<lambda>_.
       andthen commit (\<lambda>_.
       andthen (for_each (\<lambda>g. vault_discard (gr_grant_id g)) gs) (\<lambda>_. ret r'))))))))))"

subsection \<open>Claiming a grant\<close>

definition parse_credential :: "env \<Rightarrow> string \<Rightarrow> control_error + (string \<times> string)" where
  "parse_credential v credential = (case split_on (CHR ''.'') credential of
       [w, token, nonce] \<Rightarrow> if w \<noteq> ''w11'' \<or> token = [] \<or> nonce = [] then Inl GrantRejected
         else Inr (stable_hash_str (v_sha v) token, stable_hash_str (v_sha v) nonce)
     | _ \<Rightarrow> Inl GrantRejected)"

text \<open>The query of the loop in \<open>_active_approval_set\<close>.\<close>

definition decision_in_force :: "tables \<Rightarrow> approval_request \<Rightarrow> approval_decision \<Rightarrow> bool" where
  "decision_in_force t r d = list_ex (\<lambda>a. au_organization_id a = rq_organization_id r \<and> au_authority_id a = dc_authority_id d \<and>
     au_user_id a = dc_approver_user_id d \<and> au_role a = dc_approval_role d \<and> authority_in_force t a) (authorities t)"

definition active_approval_set :: "env \<Rightarrow> approval_request \<Rightarrow> (approval_decision list \<times> string) control" where
  "active_approval_set v r =
     andthen (query (approved_decisions (rq_organization_id r) (rq_request_id r))) (\<lambda>ds.
     andthen (require (dc_approval_role ` set ds = set (rq_required_roles r)) GrantRejected) (\<lambda>_.
     andthen (require (card (dc_approver_user_id ` set ds) = length ds) GrantRejected) (\<lambda>_.
     andthen (query (\<lambda>t. list_all (decision_in_force t r) ds)) (\<lambda>active.
     andthen (require active GrantRejected) (\<lambda>_.
     andthen (approval_set_hash v (rq_organization_id r) ds) (\<lambda>h. ret (ds, h)))))))"

definition find_grant :: "string \<Rightarrow> string \<Rightarrow> approval_grant option control" where
  "find_grant org request_id = scalar grants (\<lambda>g. gr_organization_id g = org \<and> gr_request_id g = request_id)"

definition rejection_fields :: "string \<Rightarrow> approval_grant \<Rightarrow> json_dict" where
  "rejection_fields request_id g = [(''request_id'', JStr request_id), (''grant_id'', JStr (gr_grant_id g)),
     (''grant_status'', JStr (grant_status_name (gr_status g))), (''parameter_hash'', JStr (gr_parameter_hash g)),
     (''reason'', JStr ''grant_rejected''), (''http_status'', JInt 409)]"

definition reject_claim :: "env \<Rightarrow> actor_context \<Rightarrow> string \<Rightarrow> string \<Rightarrow> json_dict \<Rightarrow> datetime \<Rightarrow> 'a control" where
  "reject_claim v actor org subject extra now =
     andthen (audit v actor org EvGrantRejected subject extra now) (\<lambda>_. andthen commit (\<lambda>_. raise GrantRejected))"

text \<open>The condition under which the body of \<open>claim_grant\<close> refuses.\<close>

definition claim_refused :: "approval_request \<Rightarrow> approval_grant \<Rightarrow> grant_claim_request \<Rightarrow> risk_evaluation
    \<Rightarrow> approval_decision list \<Rightarrow> string \<Rightarrow> string \<Rightarrow> string \<Rightarrow> datetime \<Rightarrow> bool" where
  "claim_refused r g p e ds set_hash token_hash nonce_hash now = (
     rq_status r \<noteq> RequestApproved \<or> gr_status g \<noteq> GrantIssued \<or> rq_expires_at r \<le> now \<or> gr_expires_at g \<le> now \<or>
     gc_task_id p \<noteq> rq_task_id r \<or> gc_step_id p \<noteq> rq_step_id r \<or> gc_action_type p \<noteq> rq_action_type r \<or>
     re_parameter_hash e \<noteq> rq_parameter_hash r \<or> re_risk_level e \<noteq> rq_risk_level r \<or>
     gr_task_id g \<noteq> rq_task_id r \<or> gr_step_id g \<noteq> rq_step_id r \<or> gr_action_type g \<noteq> rq_action_type r \<or>
     gr_parameter_hash g \<noteq> rq_parameter_hash r \<or> gr_approval_set_hash g \<noteq> set_hash \<or> gr_token_hash g \<noteq> token_hash \<or>
     gr_nonce_hash g \<noteq> nonce_hash \<or> length ds \<noteq> length (rq_required_roles r))"

type_synonym claim_hook = "approval_request \<Rightarrow> approval_grant \<Rightarrow> execution_claim_read \<Rightarrow> unit control"

text \<open>What the claim writes once the update of the grant succeeded.\<close>

definition record_claim :: "env \<Rightarrow> actor_context \<Rightarrow> string \<Rightarrow> approval_request \<Rightarrow> approval_grant \<Rightarrow> string \<Rightarrow> datetime
    \<Rightarrow> claim_hook option \<Rightarrow> execution_claim_read control" where
  "record_claim v actor org r c execution_id now on_claim =
     (let r1 = r\<lparr>rq_status := RequestClaimed, rq_version := rq_version r + 1, rq_updated_at := now\<rparr> in
      andthen (put_request r1) (\<lambda>_.
      andthen (audit v actor org EvGrantClaimed (gr_grant_id c)
        [(''request_id'', JStr (rq_request_id r)), (''grant_id'', JStr (gr_grant_id c)),
         (''grant_status'', JStr (grant_status_name (gr_status c))), (''execution_id'', JStr execution_id),
         (''parameter_hash'', JStr (rq_parameter_hash r)), (''authorization_hash'', JStr (a_authorization_hash actor)),
         (''version'', JInt (gr_version c))] now) (\<lambda>claimed_event.
      andthen (audit v actor org EvExecutionStarted execution_id
        [(''request_id'', JStr (rq_request_id r)), (''grant_id'', JStr (gr_grant_id c)), (''execution_id'', JStr execution_id),
         (''action_type'', JStr (rq_action_type r)), (''parameter_hash'', JStr (rq_parameter_hash r))] now) (\<lambda>_.
      let r2 = r1\<lparr>rq_audit_sequence := ev_sequence claimed_event\<rparr>;
          read = \<lparr>cl_execution_id = execution_id, cl_grant_id = gr_grant_id c, cl_request_id = rq_request_id r,
            cl_organization_id = org, cl_task_id = rq_task_id r, cl_step_id = rq_step_id r, cl_action_type = rq_action_type r,
            cl_parameter_hash = rq_parameter_hash r, cl_authorization_hash = a_authorization_hash actor,
            cl_grant_status = GrantClaimed, cl_grant_version = gr_version c, cl_claimed_at = now\<rparr> in
      andthen (put_request r2) (\<lambda>_.
      andthen (case on_claim of None \<Rightarrow> ret () | Some hook \<Rightarrow> hook r2 c read) (\<lambda>_.
      andthen commit (\<lambda>_.
      andthen (vault_discard (gr_grant_id c)) (\<lambda>_. ret read))))))))"

text \<open>The body of the \<open>try\<close>.\<close>

definition claim_body :: "env \<Rightarrow> actor_context \<Rightarrow> string \<Rightarrow> approval_request \<Rightarrow> approval_grant \<Rightarrow> grant_claim_request \<Rightarrow> datetime
    \<Rightarrow> claim_hook option \<Rightarrow> execution_claim_read control" where
  "claim_body v actor org r g p now on_claim =
     andthen (vault_peek (gr_grant_id g)) (\<lambda>found. case found of
       None \<Rightarrow> raise GrantRejected
     | Some credential \<Rightarrow>
       andthen (evaluated (parse_credential v credential)) (\<lambda>(token_hash, nonce_hash).
       andthen (risk_facts org (gc_action_type p) (gc_parameters p)) (\<lambda>facts.
       andthen (evaluated (evaluate_risk (v_sha v) (gc_action_type p) (gc_parameters p) facts)) (\<lambda>e.
       andthen (active_approval_set v r) (\<lambda>(ds, set_hash).
       andthen (require (\<not> claim_refused r g p e ds set_hash token_hash nonce_hash now) GrantRejected) (\<lambda>_.
       andthen (opaque_id v ''exe'') (\<lambda>execution_id.
       andthen (update_returning grants upd_grants
         (\<lambda>x. gr_organization_id x = org \<and> gr_grant_id x = gr_grant_id g \<and> gr_status x = GrantIssued \<and>
           gr_version x = gr_version g \<and> now < gr_expires_at x)
         (\<lambda>x. x\<lparr>gr_status := GrantClaimed, gr_version := gr_version x + 1, gr_execution_id := Some execution_id,
           gr_authorization_hash := Some (a_authorization_hash actor), gr_claimed_at := Some now, gr_updated_at := now\<rparr>)) (\<lambda>claimed.
       case claimed of None \<Rightarrow> raise GrantRejected
       | Some c \<Rightarrow> record_claim v actor org r c execution_id now on_claim))))))))"

text \<open>The handlers: a refusal is recorded in a transaction of its own, whose failure is suppressed.\<close>

definition claim_failed :: "env \<Rightarrow> actor_context \<Rightarrow> string \<Rightarrow> string \<Rightarrow> approval_grant \<Rightarrow> datetime \<Rightarrow> control_error \<Rightarrow> 'a control" where
  "claim_failed v actor org request_id g now err =
     andthen rollback (\<lambda>_.
     if err \<in> {GrantRejected, RiskSchemaRejected}
     then andthen (vault_discard (gr_grant_id g)) (\<lambda>_.
          andthen (\<lambda>s. case andthen (audit v actor org EvGrantRejected (gr_grant_id g) (rejection_fields request_id g) now) (\<lambda>_. commit) s of
              (Inl _, s') \<Rightarrow> rollback s' | (Inr u, s') \<Rightarrow> (Inr u, s')) (\<lambda>_. raise err))
     else raise err)"

definition claim_grant :: "env \<Rightarrow> actor_context \<Rightarrow> string \<Rightarrow> string \<Rightarrow> grant_claim_request \<Rightarrow> datetime \<Rightarrow> claim_hook option
    \<Rightarrow> execution_claim_read control" where
  "claim_grant v actor org request_id p now on_claim =
     andthen (require_actor_organization actor org) (\<lambda>_.
     andthen (find_request org request_id) (\<lambda>request.
     andthen (find_grant org request_id) (\<lambda>grant.
     case (request, grant) of
       (Some r, Some g) \<Rightarrow>
         if a_user_id actor \<noteq> rq_executor_user_id r
         then reject_claim v actor org (gr_grant_id g) (rejection_fields request_id g) now
         else andthen (scalar runs (\<lambda>u. pr_organization_id u = org \<and> pr_approval_request_id u = Some request_id)) (\<lambda>run.
           if run \<noteq> None \<and> on_claim = None
           then reject_claim v actor org (gr_grant_id g) (rejection_fields request_id g) now
           else (\<lambda>s. case claim_body v actor org r g p now on_claim s of
               (Inr c, s') \<Rightarrow> (Inr c, s') | (Inl err, s') \<Rightarrow> claim_failed v actor org request_id g now err s'))
     | (_, Some g) \<Rightarrow> reject_claim v actor org (gr_grant_id g) (rejection_fields request_id g) now
     | _ \<Rightarrow> reject_claim v actor org request_id
         [(''request_id'', JStr request_id), (''reason'', JStr ''grant_rejected''), (''http_status'', JInt 409)] now)))"

subsection \<open>Resuming and completing an execution\<close>

definition resume_execution_claim :: "env \<Rightarrow> actor_context \<Rightarrow> string \<Rightarrow> string \<Rightarrow> string \<Rightarrow> string \<Rightarrow> datetime
    \<Rightarrow> execution_claim_read control" where
  "resume_execution_claim v actor org execution_id parameter_hash authorization_hash now =
     andthen (require_actor_organization actor org) (\<lambda>_.
     andthen (scalar grants (\<lambda>g. gr_organization_id g = org \<and> gr_execution_id g = Some execution_id \<and> gr_status g = GrantClaimed)) (\<lambda>grant.
     case grant of None \<Rightarrow> raise GrantRejected
     | Some g \<Rightarrow>
       (case gr_claimed_at g of None \<Rightarrow> raise GrantRejected
        | Some claimed_at \<Rightarrow>
       andthen (require (gr_executor_user_id g = a_user_id actor \<and> gr_parameter_hash g = parameter_hash \<and>
         gr_authorization_hash g = Some authorization_hash \<and> a_authorization_hash actor = authorization_hash) GrantRejected) (\<lambda>_.
       andthen (scalar requests (\<lambda>r. rq_organization_id r = org \<and> rq_request_id r = gr_request_id g \<and> rq_status r = RequestClaimed)) (\<lambda>request.
       case request of None \<Rightarrow> raise GrantRejected
       | Some r \<Rightarrow>
         andthen (active_approval_set v r) (\<lambda>_.
         andthen (audit v actor org EvRecoveryResumed execution_id
           [(''request_id'', JStr (rq_request_id r)), (''grant_id'', JStr (gr_grant_id g)), (''execution_id'', JStr execution_id),
            (''parameter_hash'', JStr parameter_hash), (''authorization_hash'', JStr authorization_hash)] now) (\<lambda>_.
         andthen commit (\<lambda>_.
         ret \<lparr>cl_execution_id = execution_id, cl_grant_id = gr_grant_id g, cl_request_id = rq_request_id r,
           cl_organization_id = org, cl_task_id = rq_task_id r, cl_step_id = rq_step_id r, cl_action_type = rq_action_type r,
           cl_parameter_hash = parameter_hash, cl_authorization_hash = authorization_hash, cl_grant_status = GrantClaimed,
           cl_grant_version = gr_version g, cl_claimed_at = claimed_at\<rparr>))))))))"

definition receipt_reference_ok :: "string \<Rightarrow> bool" where
  "receipt_reference_ok s = (8 \<le> length s \<and> length s \<le> 80 \<and> take 4 s = ''rcp_'')"

definition complete_execution_claim :: "env \<Rightarrow> actor_context \<Rightarrow> string \<Rightarrow> string \<Rightarrow> string \<Rightarrow> datetime \<Rightarrow> unit control" where
  "complete_execution_claim v actor org execution_id receipt now =
     andthen (require_actor_organization actor org) (\<lambda>_.
     andthen (require (receipt_reference_ok receipt) GrantRejected) (\<lambda>_.
     andthen (update_returning grants upd_grants
       (\<lambda>g. gr_organization_id g = org \<and> gr_execution_id g = Some execution_id \<and> gr_executor_user_id g = a_user_id actor \<and>
         gr_status g = GrantClaimed)
       (\<lambda>g. g\<lparr>gr_status := GrantConsumed, gr_version := gr_version g + 1, gr_receipt_reference := Some receipt,
         gr_consumed_at := Some now, gr_updated_at := now\<rparr>)) (\<lambda>grant.
     case grant of None \<Rightarrow> rollback_raise GrantRejected
     | Some g \<Rightarrow>
       andthen (scalar requests (\<lambda>r. rq_organization_id r = org \<and> rq_request_id r = gr_request_id g \<and> rq_status r = RequestClaimed)) (\<lambda>request.
       case request of None \<Rightarrow> rollback_raise GrantRejected
       | Some r \<Rightarrow>
         (let r1 = r\<lparr>rq_status := RequestConsumed, rq_version := rq_version r + 1, rq_updated_at := now\<rparr> in
         andthen (put_request r1) (\<lambda>_.
         andthen (audit v actor org EvGrantConsumed (gr_grant_id g)
           [(''request_id'', JStr (rq_request_id r)), (''grant_id'', JStr (gr_grant_id g)),
            (''grant_status'', JStr (grant_status_name (gr_status g))), (''execution_id'', JStr execution_id),
            (''receipt_reference'', JStr receipt), (''version'', JInt (gr_version g))] now) (\<lambda>consumed.
         andthen (audit v actor org EvExecutionSucceeded execution_id
           [(''request_id'', JStr (rq_request_id r)), (''grant_id'', JStr (gr_grant_id g)), (''execution_id'', JStr execution_id),
            (''receipt_reference'', JStr receipt), (''action_type'', JStr (rq_action_type r)),
            (''parameter_hash'', JStr (rq_parameter_hash r))] now) (\<lambda>_.
         andthen (put_request (r1\<lparr>rq_audit_sequence := ev_sequence consumed\<rparr>)) (\<lambda>_. commit)))))))))"

end
