(* ===== verification/Etag.thy ===== *)
theory Etag
  imports Sessions
begin

section \<open>Entity tags\<close>

text \<open>
  \<open>etag.py\<close> and \<open>w11_etag.py\<close>: the strong ETag of a resource is its generation, kind, fingerprint and
  version; an \<open>If-Match\<close> header is accepted when it is such a tag of the same resource, and gives
  the version the write expects. The regular expressions are written out: the alternatives in their
  order, 24 lower-case hexadecimal digits, a decimal number without a leading zero, and the quotes.
\<close>

subsection \<open>Kinds\<close>

datatype resource_kind =
    KindOrganization | KindUser | KindMembership | KindMemory | KindMemoryCollection | KindProductionRun
  | KindObservabilityTrace

fun resource_kind_name :: "resource_kind \<Rightarrow> string" where
  "resource_kind_name KindOrganization = ''organization''"
| "resource_kind_name KindUser = ''user''"
| "resource_kind_name KindMembership = ''membership''"
| "resource_kind_name KindMemory = ''memory''"
| "resource_kind_name KindMemoryCollection = ''memory-collection''"
| "resource_kind_name KindProductionRun = ''production-run''"
| "resource_kind_name KindObservabilityTrace = ''observability-trace''"

datatype w11_resource_kind = W11Authority | W11ApprovalRequest | W11Grant

fun w11_kind_name :: "w11_resource_kind \<Rightarrow> string" where
  "w11_kind_name W11Authority = ''authority''"
| "w11_kind_name W11ApprovalRequest = ''approval-request''"
| "w11_kind_name W11Grant = ''grant''"

subsection \<open>The patterns\<close>

definition strip_prefix :: "string \<Rightarrow> string \<Rightarrow> string option" where
  "strip_prefix p s = (if take (length p) s = p then Some (drop (length p) s) else None)"

text \<open>\<open>(?P<fingerprint>[0-9a-f]{24})-v(?P<version>[1-9][0-9]*)"$\<close>\<close>

definition match_tail :: "string \<Rightarrow> (string \<times> string) option" where
  "match_tail s = (let f = take 24 s in
     if length f = 24 \<and> list_all hex_char f
     then (case strip_prefix ''-v'' (drop 24 s) of None \<Rightarrow> None
       | Some r \<Rightarrow> let ds = takeWhile is_digit r in
           if ds \<noteq> [] \<and> hd ds \<noteq> CHR ''0'' \<and> dropWhile is_digit r = [CHR 0x22] then Some (f, ds) else None)
     else None)"

fun match_alternatives :: "(string \<times> string) list \<Rightarrow> string \<Rightarrow> (string \<times> string \<times> string \<times> string) option" where
  "match_alternatives [] s = None"
| "match_alternatives ((g, k) # alts) s =
     (case strip_prefix (CHR 0x22 # g @ CHR ''-'' # k @ ''-'') s of
        None \<Rightarrow> match_alternatives alts s
      | Some r \<Rightarrow> (case match_tail r of None \<Rightarrow> match_alternatives alts s
          | Some (f, ds) \<Rightarrow> Some (g, k, f, ds)))"

definition pattern_kinds :: "string list" where
  "pattern_kinds = [''organization'', ''user'', ''membership'', ''memory'', ''memory-collection'', ''production-run'']"

definition ETAG_PATTERN :: "(string \<times> string) list" where
  "ETAG_PATTERN = List.product [''w10'', ''w12''] pattern_kinds"

definition W11_PATTERN :: "(string \<times> string) list" where
  "W11_PATTERN = List.product [''w11''] [''authority'', ''approval-request'', ''grant'']"

subsection \<open>Tags\<close>

definition fingerprint :: "(string \<Rightarrow> string) \<Rightarrow> string \<Rightarrow> string \<Rightarrow> string \<Rightarrow> string" where
  "fingerprint sha kind org rid = take 24 (sha (utf8 (kind @ CHR ''|'' # org @ CHR ''|'' # rid)))"

definition tag_text :: "string \<Rightarrow> string \<Rightarrow> string \<Rightarrow> int \<Rightarrow> string" where
  "tag_text g k f n = CHR 0x22 # g @ CHR ''-'' # k @ CHR ''-'' # f @ ''-v'' @ str_int n @ [CHR 0x22]"

definition generation :: "resource_kind \<Rightarrow> string" where
  "generation k = (if k = KindProductionRun then ''w12'' else ''w10'')"

definition strong_etag :: "(string \<Rightarrow> string) \<Rightarrow> resource_kind \<Rightarrow> string \<Rightarrow> string \<Rightarrow> int \<Rightarrow> control_error + string" where
  "strong_etag sha kind org rid version =
     (if version < 1 then Inl ValueError
      else Inr (tag_text (generation kind) (resource_kind_name kind) (fingerprint sha (resource_kind_name kind) org rid) version))"

definition strong_w11_etag :: "(string \<Rightarrow> string) \<Rightarrow> w11_resource_kind \<Rightarrow> string \<Rightarrow> string \<Rightarrow> int \<Rightarrow> control_error + string" where
  "strong_w11_etag sha kind org rid version =
     (if version < 1 then Inl ValueError
      else Inr (tag_text ''w11'' (w11_kind_name kind) (fingerprint sha (w11_kind_name kind) org rid) version))"

text \<open>What both functions reject before the pattern, and the largest version.\<close>

definition unusable_header :: "string \<Rightarrow> bool" where
  "unusable_header h = (take 2 h = ''W/'' \<or> h = ''*'' \<or> CHR '','' \<in> set h)"

definition expected_version :: "(string \<Rightarrow> string) \<Rightarrow> string option \<Rightarrow> resource_kind \<Rightarrow> string \<Rightarrow> string \<Rightarrow> control_error + int" where
  "expected_version sha value kind org rid = (case value of None \<Rightarrow> Inl PreconditionRequired
     | Some h \<Rightarrow>
       if unusable_header h then Inl PreconditionFailed
       else (case match_alternatives ETAG_PATTERN h of None \<Rightarrow> Inl PreconditionFailed
         | Some (g, k, f, ds) \<Rightarrow>
           if g \<noteq> generation kind \<or> k \<noteq> resource_kind_name kind then Inl PreconditionFailed
           else if f \<noteq> fingerprint sha (resource_kind_name kind) org rid then Inl PreconditionFailed
           else let version = int (digits_val ds) in
             if 2147483647 < version then Inl PreconditionFailed else Inr version))"

definition expected_w11_version :: "(string \<Rightarrow> string) \<Rightarrow> string option \<Rightarrow> w11_resource_kind \<Rightarrow> string \<Rightarrow> string \<Rightarrow> control_error + int" where
  "expected_w11_version sha value kind org rid = (case value of None \<Rightarrow> Inl PreconditionRequired
     | Some h \<Rightarrow>
       if unusable_header h then Inl PreconditionFailed
       else (case match_alternatives W11_PATTERN h of None \<Rightarrow> Inl PreconditionFailed
         | Some (g, k, f, ds) \<Rightarrow>
           if k \<noteq> w11_kind_name kind then Inl PreconditionFailed
           else if f \<noteq> fingerprint sha (w11_kind_name kind) org rid then Inl PreconditionFailed
           else let version = int (digits_val ds) in
             if 2147483647 < version then Inl PreconditionFailed else Inr version))"

subsection \<open>Decimal numbers\<close>

lemma digits_val_snoc: "digits_val (ds @ [d]) = 10 * digits_val ds + ((of_char d :: nat) - 48)"
  by (simp add: digits_val_def)

lemma digits_pos: "digits n = ds \<Longrightarrow> ds \<noteq> [] \<Longrightarrow> hd ds \<noteq> CHR ''0'' \<Longrightarrow> 1 \<le> n"
  by (cases n) (auto simp: digits_code_simps char_code_simps)

lemma hd_digits_pos: "1 \<le> n \<Longrightarrow> hd (digits n) \<noteq> CHR ''0''"
proof (induction n rule: digits.induct)
  case (1 n)
  show ?case
  proof (cases "n < 10")
    case True
    then show ?thesis using 1(2) by (simp add: digits_code_simps char_code_simps)
  next
    case False
    then have "1 \<le> n div 10" by simp
    then show ?thesis using 1(1) [OF False] False by (simp add: digits_code_simps)
  qed
qed

text \<open>A numeral without a leading zero is the numeral of its value.\<close>

lemma digits_of_val: "list_all is_digit ds \<Longrightarrow> ds \<noteq> [] \<Longrightarrow> hd ds \<noteq> CHR ''0'' \<Longrightarrow> digits (digits_val ds) = ds"
proof (induction ds rule: rev_induct)
  case (snoc d ds)
  let ?k = "(of_char d :: nat) - 48"
  have d: "48 \<le> (of_char d :: nat)" "?k < 10" "char_of (48 + ?k) = d" using snoc.prems(1) by (auto simp: is_digit_def)
  show ?case
  proof (cases "ds = []")
    case True
    then show ?thesis using d by (simp add: digits_val_def digits_code_simps)
  next
    case False
    then have ih: "digits (digits_val ds) = ds" using snoc by simp
    have "1 \<le> digits_val ds" using digits_pos [OF ih False] snoc.prems(3) False by simp
    then have "\<not> 10 * digits_val ds + ?k < 10" "(10 * digits_val ds + ?k) div 10 = digits_val ds" "(10 * digits_val ds + ?k) mod 10 = ?k"
      using d(2) by simp_all
    then show ?thesis unfolding digits_val_snoc using ih d(3) by (simp add: digits_code_simps(2))
  qed
qed simp

subsection \<open>What the patterns match\<close>

lemma strip_prefix_iff: "strip_prefix p s = Some r \<longleftrightarrow> s = p @ r"
  by (auto simp: strip_prefix_def) (metis append_take_drop_id)

definition numeral_ok :: "string \<Rightarrow> bool" where
  "numeral_ok ds \<longleftrightarrow> list_all is_digit ds \<and> ds \<noteq> [] \<and> hd ds \<noteq> CHR ''0''"

definition fingerprint_ok :: "string \<Rightarrow> bool" where
  "fingerprint_ok f \<longleftrightarrow> length f = 24 \<and> list_all hex_char f"

lemma quote_not_digit [simp]: "\<not> is_digit (CHR 0x22)"
  by (simp add: is_digit_def)

lemma split_digits:
  "list_all is_digit ds \<Longrightarrow> takeWhile is_digit (ds @ [CHR 0x22]) = ds \<and> dropWhile is_digit (ds @ [CHR 0x22]) = [CHR 0x22]"
  by (induction ds) auto

lemma match_tail_iff:
  "match_tail s = Some (f, ds) \<longleftrightarrow> s = f @ ''-v'' @ ds @ [CHR 0x22] \<and> fingerprint_ok f \<and> numeral_ok ds"
proof
  assume "match_tail s = Some (f, ds)"
  then obtain r where f: "f = take 24 s" "length f = 24" "list_all hex_char f" and r: "drop 24 s = ''-v'' @ r"
    and ds: "ds = takeWhile is_digit r" "ds \<noteq> []" "hd ds \<noteq> CHR ''0''" "dropWhile is_digit r = [CHR 0x22]"
    by (auto simp: match_tail_def Let_def strip_prefix_iff split: if_splits option.splits)
  have "r = ds @ [CHR 0x22]" using takeWhile_dropWhile_id [of is_digit r] ds by simp
  then have "s = f @ ''-v'' @ ds @ [CHR 0x22]" using append_take_drop_id [of 24 s] f(1) r by simp
  moreover have "list_all is_digit ds" using ds(1) set_takeWhileD by (fastforce simp: list_all_iff)
  ultimately show "s = f @ ''-v'' @ ds @ [CHR 0x22] \<and> fingerprint_ok f \<and> numeral_ok ds"
    using f ds by (simp add: fingerprint_ok_def numeral_ok_def)
next
  assume a: "s = f @ ''-v'' @ ds @ [CHR 0x22] \<and> fingerprint_ok f \<and> numeral_ok ds"
  then show "match_tail s = Some (f, ds)"
    using split_digits [of ds] by (simp add: match_tail_def strip_prefix_def fingerprint_ok_def numeral_ok_def)
qed

definition raw_tag :: "string \<Rightarrow> string \<Rightarrow> string \<Rightarrow> string \<Rightarrow> string" where
  "raw_tag g k f ds = CHR 0x22 # g @ CHR ''-'' # k @ CHR ''-'' # f @ ''-v'' @ ds @ [CHR 0x22]"

lemma split_version:
  assumes "p @ CHR ''v'' # ds = p' @ CHR ''v'' # ds'" and "list_all is_digit ds" and "list_all is_digit ds'"
  shows "p = p' \<and> ds = ds'"
proof -
  have v: "\<not> is_digit (CHR ''v'')" by (simp add: is_digit_def)
  have "takeWhile is_digit (rev (p @ CHR ''v'' # ds)) = rev ds" "takeWhile is_digit (rev (p' @ CHR ''v'' # ds')) = rev ds'"
    using assms(2,3) v takeWhile_append2 [of "rev ds" is_digit "CHR ''v'' # rev p"] takeWhile_append2 [of "rev ds'" is_digit "CHR ''v'' # rev p'"]
    by (simp_all add: list_all_iff)
  then have "ds = ds'" using assms(1) by (metis rev_rev_ident)
  then show ?thesis using assms(1) by simp
qed

text \<open>A tag is read in one way only.\<close>

lemma raw_tag_inj:
  assumes "raw_tag g k f ds = raw_tag g' k' f' ds'" and "length g = length g'" and "length f = length f'"
    and "list_all is_digit ds" and "list_all is_digit ds'"
  shows "g = g' \<and> k = k' \<and> f = f' \<and> ds = ds'"
proof -
  have "(CHR 0x22 # g @ CHR ''-'' # k @ CHR ''-'' # f @ ''-'') @ CHR ''v'' # ds =
      (CHR 0x22 # g' @ CHR ''-'' # k' @ CHR ''-'' # f' @ ''-'') @ CHR ''v'' # ds'"
    using assms(1) by (simp add: raw_tag_def)
  from split_version [OF this assms(4,5)] have ds: "ds = ds'" and
    front: "(g @ CHR ''-'' # k @ ''-'') @ f = (g' @ CHR ''-'' # k' @ ''-'') @ f'" by simp_all
  have both: "g @ CHR ''-'' # k @ ''-'' = g' @ CHR ''-'' # k' @ ''-'' \<and> f = f'"
    using front append_eq_append_conv [of "g @ CHR ''-'' # k @ ''-''" "g' @ CHR ''-'' # k' @ ''-''" f f'] assms(3) by blast
  then show ?thesis using ds assms(2) by simp
qed

lemma match_alternatives_iff:
  assumes "list_all (\<lambda>(g, k). length g = 3) alts"
  shows "match_alternatives alts s = Some (g, k, f, ds) \<longleftrightarrow>
    (g, k) \<in> set alts \<and> s = raw_tag g k f ds \<and> fingerprint_ok f \<and> numeral_ok ds"
  using assms
proof (induction alts)
  case (Cons a alts)
  obtain g0 k0 where a: "a = (g0, k0)" by (cases a)
  have ih: "match_alternatives alts s = Some (g, k, f, ds) \<longleftrightarrow>
      (g, k) \<in> set alts \<and> s = raw_tag g k f ds \<and> fingerprint_ok f \<and> numeral_ok ds" and len: "length g0 = 3"
    "\<forall>(g, k) \<in> set alts. length g = 3"
    using Cons a by (simp_all add: list_all_iff)
  show ?case
  proof (cases "\<exists>f0 ds0. s = raw_tag g0 k0 f0 ds0 \<and> fingerprint_ok f0 \<and> numeral_ok ds0")
    case True
    then obtain f0 ds0 where s: "s = raw_tag g0 k0 f0 ds0" and ok: "fingerprint_ok f0" "numeral_ok ds0" by blast
    have "strip_prefix (CHR 0x22 # g0 @ CHR ''-'' # k0 @ ''-'') s = Some (f0 @ ''-v'' @ ds0 @ [CHR 0x22])"
      by (simp add: strip_prefix_iff s raw_tag_def)
    then have "match_alternatives (a # alts) s = Some (g0, k0, f0, ds0)"
      using ok match_tail_iff [of "f0 @ ''-v'' @ ds0 @ [CHR 0x22]" f0 ds0] by (simp add: a)
    moreover have "g = g0 \<and> k = k0 \<and> f = f0 \<and> ds = ds0"
      if "(g, k) \<in> set (a # alts)" "s = raw_tag g k f ds" "fingerprint_ok f" "numeral_ok ds"
      using raw_tag_inj [of g k f ds g0 k0 f0 ds0] that s ok len a by (auto simp: fingerprint_ok_def numeral_ok_def)
    ultimately show ?thesis using s ok by (metis a list.set_intros(1) option.inject prod.inject)
  next
    case False
    have "(case strip_prefix (CHR 0x22 # g0 @ CHR ''-'' # k0 @ ''-'') s of None \<Rightarrow> None | Some r \<Rightarrow> match_tail r) = None"
    proof (rule ccontr)
      assume "(case strip_prefix (CHR 0x22 # g0 @ CHR ''-'' # k0 @ ''-'') s of None \<Rightarrow> None | Some r \<Rightarrow> match_tail r) \<noteq> None"
      then obtain r f0 ds0 where "s = (CHR 0x22 # g0 @ CHR ''-'' # k0 @ ''-'') @ r" "match_tail r = Some (f0, ds0)"
        by (auto simp: strip_prefix_iff split: option.splits)
      then show False using False by (auto simp: match_tail_iff raw_tag_def)
    qed
    then have "match_alternatives (a # alts) s = match_alternatives alts s" by (auto simp: a split: option.splits)
    then show ?thesis using ih False a by auto
  qed
qed simp

lemma patterns_generations: "list_all (\<lambda>(g, k). length g = 3) ETAG_PATTERN" "list_all (\<lambda>(g, k). length g = 3) W11_PATTERN"
  by (simp_all add: ETAG_PATTERN_def W11_PATTERN_def pattern_kinds_def)

subsection \<open>Accepted headers\<close>

lemma tag_text_raw: "1 \<le> n \<Longrightarrow> tag_text g k f n = raw_tag g k f (digits (nat n))"
  by (simp add: tag_text_def raw_tag_def str_int_def)

lemma digits_numeral_ok: "1 \<le> n \<Longrightarrow> numeral_ok (digits n)"
  using hd_digits_pos digits_are_digits by (auto simp: numeral_ok_def list_all_iff)

lemma raw_tag_version:
  assumes "numeral_ok ds" and "int (digits_val ds) = n"
  shows "1 \<le> n \<and> ds = digits (nat n)"
proof -
  have ds: "digits (digits_val ds) = ds" using assms(1) digits_of_val by (simp add: numeral_ok_def)
  moreover have "1 \<le> digits_val ds" using digits_pos [OF ds] assms(1) by (simp add: numeral_ok_def)
  ultimately show ?thesis using assms(2) by auto
qed

lemma comma_free: "CHR '','' \<notin> set (raw_tag g k f ds)"
  if "fingerprint_ok f" "list_all is_digit ds" "CHR '','' \<notin> set g" "CHR '','' \<notin> set k"
  using that by (auto simp: raw_tag_def fingerprint_ok_def list_all_iff hex_char_def is_digit_def code_def)

lemma fingerprint_is_ok:
  assumes "\<And>x. sha256_ok (sha x)"
  shows "fingerprint_ok (fingerprint sha k org rid)"
proof -
  have h: "length (sha y) = 64" "list_all hex_char (sha y)" for y using assms [of y] by (auto simp: sha256_ok_def)
  have "list_all hex_char (take 24 (sha y))" for y using h(2) [of y] by (metis append_take_drop_id list_all_append)
  then show ?thesis using h(1) by (simp add: fingerprint_def fingerprint_ok_def)
qed

text \<open>Both readers, over the pattern's alternatives.\<close>

lemma matched_version:
  assumes alts: "list_all (\<lambda>(g, k). length g = 3) alts" "(g, k) \<in> set alts" "CHR '','' \<notin> set g" "CHR '','' \<notin> set k"
    and f: "fingerprint_ok f"
  shows "(\<not> unusable_header h \<and> (\<exists>ds. match_alternatives alts h = Some (g, k, f, ds) \<and> int (digits_val ds) = n)) \<longleftrightarrow>
    1 \<le> n \<and> h = tag_text g k f n"
proof (intro iffI conjI)
  assume "\<not> unusable_header h \<and> (\<exists>ds. match_alternatives alts h = Some (g, k, f, ds) \<and> int (digits_val ds) = n)"
  then obtain ds where ds: "h = raw_tag g k f ds" "numeral_ok ds" "int (digits_val ds) = n"
    unfolding match_alternatives_iff [OF alts(1)] by blast
  show "1 \<le> n" using raw_tag_version [OF ds(2,3)] by simp
  then show "h = tag_text g k f n" using raw_tag_version [OF ds(2,3)] ds(1) by (simp add: tag_text_raw)
next
  assume a: "1 \<le> n \<and> h = tag_text g k f n"
  then have n: "1 \<le> nat n" by linarith
  have h: "h = raw_tag g k f (digits (nat n))" using a by (simp add: tag_text_raw)
  have ok: "numeral_ok (digits (nat n))" by (rule digits_numeral_ok [OF n])
  have "CHR '','' \<notin> set h" unfolding h by (rule comma_free [OF f _ alts(3,4)]) (use ok in \<open>simp add: numeral_ok_def\<close>)
  then show "\<not> unusable_header h" by (auto simp: unusable_header_def h raw_tag_def)
  have "match_alternatives alts h = Some (g, k, f, digits (nat n))"
    unfolding match_alternatives_iff [OF alts(1)] using alts(2) h f ok by simp
  then show "\<exists>ds. match_alternatives alts h = Some (g, k, f, ds) \<and> int (digits_val ds) = n"
    using a by (auto simp: digits_val_digits)
qed

lemma kind_in_pattern:
  "k \<noteq> KindObservabilityTrace \<Longrightarrow> (generation k, resource_kind_name k) \<in> set ETAG_PATTERN"
  "CHR '','' \<notin> set (generation k)" "CHR '','' \<notin> set (resource_kind_name k)"
  by (cases k; simp add: generation_def ETAG_PATTERN_def pattern_kinds_def)+

lemma w11_kind_in_pattern: "(''w11'', w11_kind_name k) \<in> set W11_PATTERN" "CHR '','' \<notin> set (w11_kind_name k)"
  by (cases k; simp add: W11_PATTERN_def)+

lemma w11_generation: "match_alternatives W11_PATTERN h = Some (g, k, f, ds) \<Longrightarrow> g = ''w11''"
  unfolding match_alternatives_iff [OF patterns_generations(2)] by (auto simp: W11_PATTERN_def)

lemma expected_version_Inr:
  "expected_version sha (Some h) k org rid = Inr n \<longleftrightarrow> \<not> unusable_header h \<and> n \<le> 2147483647 \<and>
     (\<exists>ds. match_alternatives ETAG_PATTERN h = Some (generation k, resource_kind_name k, fingerprint sha (resource_kind_name k) org rid, ds)
       \<and> int (digits_val ds) = n)"
  by (auto simp: expected_version_def Let_def split: option.splits)

lemma expected_w11_version_Inr:
  "expected_w11_version sha (Some h) k org rid = Inr n \<longleftrightarrow> \<not> unusable_header h \<and> n \<le> 2147483647 \<and>
     (\<exists>ds. match_alternatives W11_PATTERN h = Some (''w11'', w11_kind_name k, fingerprint sha (w11_kind_name k) org rid, ds)
       \<and> int (digits_val ds) = n)"
  by (auto simp: expected_w11_version_def Let_def split: option.splits dest: w11_generation)

lemma expected_version_cases:
  assumes "\<And>x. sha256_ok (sha x)" and "k \<noteq> KindObservabilityTrace"
  shows "expected_version sha (Some h) k org rid = Inr n \<longleftrightarrow> strong_etag sha k org rid n = Inr h \<and> n \<le> 2147483647"
  unfolding expected_version_Inr
  using matched_version [OF patterns_generations(1) kind_in_pattern(1) [OF assms(2)] kind_in_pattern(2,3) [of k] fingerprint_is_ok [where sha = sha and k = "resource_kind_name k" and org = org and rid = rid, OF assms(1)],
      where h = h and n = n]
  by (auto simp: strong_etag_def)

lemma expected_w11_version_cases:
  assumes "\<And>x. sha256_ok (sha x)"
  shows "expected_w11_version sha (Some h) k org rid = Inr n \<longleftrightarrow> strong_w11_etag sha k org rid n = Inr h \<and> n \<le> 2147483647"
  unfolding expected_w11_version_Inr
  using matched_version [OF patterns_generations(2) w11_kind_in_pattern(1) [of k] _ w11_kind_in_pattern(2) [of k] fingerprint_is_ok [where sha = sha and k = "w11_kind_name k" and org = org and rid = rid, OF assms],
      where h = h and n = n]
  by (auto simp: strong_w11_etag_def)

subsection \<open>The contract\<close>

definition zero_sha :: "string \<Rightarrow> string" where
  "zero_sha x = replicate 64 (CHR ''0'')"

lemma zero_sha_ok: "sha256_ok (zero_sha x)"
  by (simp add: zero_sha_def sha256_ok_def list_all_iff hex_char_def is_digit_def)

text \<open>
  C40. An \<open>If-Match\<close> header gives a version exactly when it is the strong ETag of that resource at that
  version, for every kind of resource with an ETag of its own, and the version fits a signed 32-bit integer.
\<close>

theorem expected_version_reads_etag:
  assumes "\<forall>x. sha256_ok (sha x)"
  shows "(if k = KindObservabilityTrace then True
     else expected_version sha (Some h) k org rid = Inr n \<longleftrightarrow> strong_etag sha k org rid n = Inr h \<and> n \<le> 2147483647) \<and>
    (expected_w11_version sha (Some h) k' org rid = Inr n \<longleftrightarrow> strong_w11_etag sha k' org rid n = Inr h \<and> n \<le> 2147483647)"
  using expected_version_cases [of sha k h org rid n] expected_w11_version_cases [of sha h k' org rid n] assms by simp

lemma expected_version_reads_etag_witness:
  "\<exists>h. strong_etag zero_sha KindMemory ''org_a'' ''mem_a'' 12 = Inr h \<and>
     expected_version zero_sha (Some h) KindMemory ''org_a'' ''mem_a'' = Inr 12 \<and> expected_version zero_sha (Some h) KindMemory ''org_a'' ''mem_a'' \<noteq> Inr 13"
proof -
  obtain h where h: "strong_etag zero_sha KindMemory ''org_a'' ''mem_a'' 12 = Inr h" by (simp add: strong_etag_def)
  show ?thesis
    using expected_version_reads_etag [of zero_sha KindMemory h "''org_a''" "''mem_a''"] h zero_sha_ok
    by (simp add: strong_etag_def tag_text_def str_int_def digits_code_simps) (auto simp: char_code_simps)
qed

end
