(* ===== verification/Repository.thy ===== *)
theory Repository
  imports Approval Etag
begin

section \<open>Organizations, users, memberships and memories\<close>

text \<open>
  \<open>repository.py\<close>: resolving a verified identity to the actor of a request, and the reads and atomic
  writes of the directory. A write names the version it expects; the update takes only the row at that
  version and raises it by one. Every write of a memory also raises the version of the organization's
  memory collection. Then \<open>context_projection.py\<close>, which reads the memories in force.
\<close>

subsection \<open>The actor\<close>

text \<open>\<open>VerifiedIdentity\<close> of \<open>auth.py\<close>, what the token verifier returns.\<close>

record verified_identity =
  vi_issuer_id :: string
  vi_issuer_hash :: string
  vi_subject_hash :: string
  vi_claimed_role :: role

definition authorization_hash :: "env \<Rightarrow> oidc_identity \<Rightarrow> organization \<Rightarrow> user \<Rightarrow> membership \<Rightarrow> approval_authority list \<Rightarrow> string" where
  "authorization_hash v i o' u m as = stable_hash (v_sha v) (JObj [
     (''schema_version'', JStr ''w10-authorization-fact/1.0''),
     (''identity_id'', JStr (id_identity_id i)), (''identity_version'', JInt (id_version i)),
     (''organization_id'', JStr (og_organization_id o')), (''organization_version'', JInt (og_version o')),
     (''user_id'', JStr (us_user_id u)), (''user_version'', JInt (us_version u)),
     (''membership_id'', JStr (mb_membership_id m)), (''membership_version'', JInt (mb_version m)),
     (''role'', JStr (role_name (mb_role m))),
     (''approval_authorities'', JArr (map (\<lambda>a. JObj [(''authority_id'', JStr (au_authority_id a)),
        (''role'', JStr (approval_role_name (au_role a))), (''version'', JInt (au_version a))]) as))])"

text \<open>The joined rows of the statement, all active.\<close>

definition identity_rows :: "verified_identity \<Rightarrow> tables \<Rightarrow> (oidc_identity \<times> user \<times> membership \<times> organization) list" where
  "identity_rows vi t = [(i, u, m, o').
     i \<leftarrow> filter (\<lambda>i. id_issuer_id i = vi_issuer_id vi \<and> id_issuer_hash i = vi_issuer_hash vi \<and>
            id_subject_hash i = vi_subject_hash vi \<and> id_status i = Active) (identities t),
     u \<leftarrow> filter (\<lambda>u. us_organization_id u = id_organization_id i \<and> us_user_id u = id_user_id i \<and> us_status u = Active) (users t),
     m \<leftarrow> filter (\<lambda>m. mb_organization_id m = us_organization_id u \<and> mb_user_id m = us_user_id u \<and> mb_status m = Active) (memberships t),
     o' \<leftarrow> filter (\<lambda>o'. og_organization_id o' = us_organization_id u \<and> og_status o' = Active) (organizations t)]"

definition active_authorities :: "string \<Rightarrow> string \<Rightarrow> tables \<Rightarrow> approval_authority list" where
  "active_authorities org uid t = sort_key authority_order (filter (\<lambda>a. au_organization_id a = org \<and> au_user_id a = uid \<and>
     au_status a = AuthorityActive) (authorities t))"

definition actor_of :: "env \<Rightarrow> permission list \<Rightarrow> oidc_identity \<Rightarrow> user \<Rightarrow> membership \<Rightarrow> organization \<Rightarrow> approval_authority list \<Rightarrow> actor_context" where
  "actor_of v ps i u m o' as = \<lparr>a_identity_id = id_identity_id i, a_issuer_hash = id_issuer_hash i, a_subject_hash = id_subject_hash i,
     a_user_id = us_user_id u, a_organization_id = og_organization_id o', a_membership_id = mb_membership_id m, a_role = mb_role m,
     a_permissions = ps, a_organization_version = og_version o', a_user_version = us_version u, a_membership_version = mb_version m,
     a_approval_authorities = map (\<lambda>a. \<lparr>ac_authority_id = au_authority_id a, ac_role = au_role a, ac_version = au_version a\<rparr>) as,
     a_authorization_hash = authorization_hash v i o' u m as\<rparr>"

text \<open>The column \<open>role\<close> holds a role, so \<open>Role(membership.role)\<close> never fails; the model \<open>ActorContext\<close> validates
  its fields.\<close>

definition resolve_actor :: "env \<Rightarrow> verified_identity \<Rightarrow> actor_context control" where
  "resolve_actor v vi =
     andthen (query (identity_rows vi)) (\<lambda>rows.
     andthen (one_or_none rows) (\<lambda>row.
     case row of None \<Rightarrow> raise (AuthorizationDenied ''inactive_or_unknown_identity'')
     | Some (i, u, m, o') \<Rightarrow>
       andthen (require (vi_claimed_role vi = mb_role m) (AuthorizationDenied ''role_claim_mismatch'')) (\<lambda>_.
       andthen (evaluated (permissions_for_role (mb_role m))) (\<lambda>ps.
       andthen (query (active_authorities (og_organization_id o') (us_user_id u))) (\<lambda>as.
       let actor = actor_of v ps i u m o' as in
       andthen (require (actor_context_ok actor) ValueError) (\<lambda>_. ret actor))))))"

subsection \<open>The write every resource shares\<close>

text \<open>\<open>update(...).returning(...)\<close>; without a row the transaction is rolled back and the precondition has failed.\<close>

definition update_expected :: "(tables \<Rightarrow> 'r list) \<Rightarrow> (('r list \<Rightarrow> 'r list) \<Rightarrow> tables \<Rightarrow> tables) \<Rightarrow> ('r \<Rightarrow> bool) \<Rightarrow> ('r \<Rightarrow> 'r) \<Rightarrow> 'r control" where
  "update_expected tbl upd P f =
     andthen (update_returning tbl upd P f) (\<lambda>found. case found of
       None \<Rightarrow> rollback_raise PreconditionFailed
     | Some r \<Rightarrow> andthen commit (\<lambda>_. ret r))"

definition found_or_missing :: "'r option \<Rightarrow> 'r control" where
  "found_or_missing r = (case r of None \<Rightarrow> raise ResourceNotFound | Some x \<Rightarrow> ret x)"

subsection \<open>Organizations\<close>

definition get_organization :: "actor_context \<Rightarrow> string \<Rightarrow> organization control" where
  "get_organization actor org =
     andthen (require_actor_organization actor org) (\<lambda>_.
     andthen (scalar organizations (\<lambda>r. og_organization_id r = a_organization_id actor)) found_or_missing)"

definition update_organization :: "env \<Rightarrow> actor_context \<Rightarrow> string \<Rightarrow> int \<Rightarrow> string \<Rightarrow> organization control" where
  "update_organization v actor org expected profile =
     andthen (require_actor_organization actor org) (\<lambda>_.
     update_expected organizations upd_organizations
       (\<lambda>r. og_organization_id r = a_organization_id actor \<and> og_version r = expected)
       (\<lambda>r. r\<lparr>og_profile_code := profile, og_version := og_version r + 1, og_updated_at := v_db_now v\<rparr>))"

definition disable_organization :: "env \<Rightarrow> actor_context \<Rightarrow> string \<Rightarrow> int \<Rightarrow> organization control" where
  "disable_organization v actor org expected =
     andthen (require_actor_organization actor org) (\<lambda>_.
     update_expected organizations upd_organizations
       (\<lambda>r. og_organization_id r = a_organization_id actor \<and> og_version r = expected \<and> og_status r = Active)
       (\<lambda>r. r\<lparr>og_status := Disabled, og_version := og_version r + 1, og_updated_at := v_db_now v\<rparr>))"

subsection \<open>Users\<close>

definition list_users :: "actor_context \<Rightarrow> string \<Rightarrow> user list control" where
  "list_users actor org =
     andthen (require_actor_organization actor org) (\<lambda>_.
     query (\<lambda>t. take 100 (sort_key us_user_id (filter (\<lambda>u. us_organization_id u = a_organization_id actor) (users t)))))"

definition count_users :: "actor_context \<Rightarrow> string \<Rightarrow> nat control" where
  "count_users actor org =
     andthen (require_actor_organization actor org) (\<lambda>_.
     query (\<lambda>t. length (filter (\<lambda>u. us_organization_id u = a_organization_id actor) (users t))))"

definition get_user :: "actor_context \<Rightarrow> string \<Rightarrow> string \<Rightarrow> user control" where
  "get_user actor org user_id =
     andthen (require_actor_organization actor org) (\<lambda>_.
     andthen (scalar users (\<lambda>u. us_organization_id u = a_organization_id actor \<and> us_user_id u = user_id)) found_or_missing)"

definition create_user :: "env \<Rightarrow> actor_context \<Rightarrow> string \<Rightarrow> string \<Rightarrow> user control" where
  "create_user v actor org profile =
     andthen (require_actor_organization actor org) (\<lambda>_.
     andthen (opaque_id v ''usr'') (\<lambda>i.
     let r = \<lparr>us_user_id = i, us_organization_id = a_organization_id actor, us_profile_code = profile, us_status = Active,
              us_version = 1, us_created_at = v_db_now v, us_updated_at = v_db_now v\<rparr> in
     andthen (store (upd_users (\<lambda>rs. rs @ [r]))) (\<lambda>_.
     andthen (commit_or_conflict ResourceConflict) (\<lambda>_. ret r))))"

definition update_user :: "env \<Rightarrow> actor_context \<Rightarrow> string \<Rightarrow> string \<Rightarrow> int \<Rightarrow> string \<Rightarrow> user control" where
  "update_user v actor org user_id expected profile =
     andthen (require_actor_organization actor org) (\<lambda>_.
     update_expected users upd_users
       (\<lambda>r. us_organization_id r = a_organization_id actor \<and> us_user_id r = user_id \<and> us_version r = expected)
       (\<lambda>r. r\<lparr>us_profile_code := profile, us_version := us_version r + 1, us_updated_at := v_db_now v\<rparr>))"

definition disable_user :: "env \<Rightarrow> actor_context \<Rightarrow> string \<Rightarrow> string \<Rightarrow> int \<Rightarrow> user control" where
  "disable_user v actor org user_id expected =
     andthen (require_actor_organization actor org) (\<lambda>_.
     update_expected users upd_users
       (\<lambda>r. us_organization_id r = a_organization_id actor \<and> us_user_id r = user_id \<and> us_version r = expected \<and> us_status r = Active)
       (\<lambda>r. r\<lparr>us_status := Disabled, us_version := us_version r + 1, us_updated_at := v_db_now v\<rparr>))"

subsection \<open>Memberships\<close>

definition list_memberships :: "actor_context \<Rightarrow> string \<Rightarrow> membership list control" where
  "list_memberships actor org =
     andthen (require_actor_organization actor org) (\<lambda>_.
     query (\<lambda>t. take 100 (sort_key mb_membership_id (filter (\<lambda>m. mb_organization_id m = a_organization_id actor) (memberships t)))))"

definition count_memberships :: "actor_context \<Rightarrow> string \<Rightarrow> nat control" where
  "count_memberships actor org =
     andthen (require_actor_organization actor org) (\<lambda>_.
     query (\<lambda>t. length (filter (\<lambda>m. mb_organization_id m = a_organization_id actor) (memberships t))))"

definition get_membership :: "actor_context \<Rightarrow> string \<Rightarrow> string \<Rightarrow> membership control" where
  "get_membership actor org membership_id =
     andthen (require_actor_organization actor org) (\<lambda>_.
     andthen (scalar memberships (\<lambda>m. mb_organization_id m = a_organization_id actor \<and> mb_membership_id m = membership_id))
       found_or_missing)"

record membership_create =
  mp_user_id :: string
  mp_role :: role

definition create_membership :: "env \<Rightarrow> actor_context \<Rightarrow> string \<Rightarrow> membership_create \<Rightarrow> membership control" where
  "create_membership v actor org p =
     andthen (require_actor_organization actor org) (\<lambda>_.
     andthen (scalar users (\<lambda>u. us_organization_id u = a_organization_id actor \<and> us_user_id u = mp_user_id p)) (\<lambda>user_exists.
     andthen (require (user_exists \<noteq> None) ResourceNotFound) (\<lambda>_.
     andthen (opaque_id v ''mbr'') (\<lambda>i.
     let r = \<lparr>mb_membership_id = i, mb_organization_id = a_organization_id actor, mb_user_id = mp_user_id p, mb_role = mp_role p,
              mb_status = Active, mb_version = 1, mb_created_at = v_db_now v, mb_updated_at = v_db_now v\<rparr> in
     andthen (store (upd_memberships (\<lambda>rs. rs @ [r]))) (\<lambda>_.
     andthen (commit_or_conflict ResourceConflict) (\<lambda>_. ret r))))))"

definition update_membership :: "env \<Rightarrow> actor_context \<Rightarrow> string \<Rightarrow> string \<Rightarrow> int \<Rightarrow> role \<Rightarrow> membership control" where
  "update_membership v actor org membership_id expected new_role =
     andthen (require_actor_organization actor org) (\<lambda>_.
     update_expected memberships upd_memberships
       (\<lambda>r. mb_organization_id r = a_organization_id actor \<and> mb_membership_id r = membership_id \<and> mb_version r = expected)
       (\<lambda>r. r\<lparr>mb_role := new_role, mb_version := mb_version r + 1, mb_updated_at := v_db_now v\<rparr>))"

definition disable_membership :: "env \<Rightarrow> actor_context \<Rightarrow> string \<Rightarrow> string \<Rightarrow> int \<Rightarrow> membership control" where
  "disable_membership v actor org membership_id expected =
     andthen (require_actor_organization actor org) (\<lambda>_.
     update_expected memberships upd_memberships
       (\<lambda>r. mb_organization_id r = a_organization_id actor \<and> mb_membership_id r = membership_id \<and> mb_version r = expected \<and>
         mb_status r = Active)
       (\<lambda>r. r\<lparr>mb_status := Disabled, mb_version := mb_version r + 1, mb_updated_at := v_db_now v\<rparr>))"

subsection \<open>Memories\<close>

fun memory_field_name :: "memory_field \<Rightarrow> string" where
  "memory_field_name Department = ''department''"
| "memory_field_name RoleField = ''role''"
| "memory_field_name LocationField = ''location''"
| "memory_field_name DevicePreference = ''device_preference''"
| "memory_field_name ApprovalChain = ''approval_chain''"

record memory_update =
  mu_safe_value :: string
  mu_valid_from :: datetime
  mu_expires_at :: "datetime option"

record memory_create = memory_update +
  mc_field :: memory_field

definition memory_update_ok :: "('a) memory_update_scheme \<Rightarrow> bool" where
  "memory_update_ok p = (safe_code_ok (mu_safe_value p) \<and>
     (case mu_expires_at p of None \<Rightarrow> True | Some e \<Rightarrow> mu_valid_from p < e))"

text \<open>The affected rows are counted.\<close>

definition charge_memory_collection :: "env \<Rightarrow> string \<Rightarrow> unit control" where
  "charge_memory_collection v org =
     andthen (query (\<lambda>t. length (filter (\<lambda>r. og_organization_id r = org) (organizations t)))) (\<lambda>rowcount.
     andthen (store (upd_organizations (update_rows (\<lambda>r. og_organization_id r = org)
       (\<lambda>r. r\<lparr>og_memory_version := og_memory_version r + 1, og_updated_at := v_db_now v\<rparr>)))) (\<lambda>_.
     require (rowcount = 1) ResourceNotFound))"

definition in_force_at :: "datetime option \<Rightarrow> organization_memory \<Rightarrow> bool" where
  "in_force_at as_of m = (case as_of of None \<Rightarrow> True
     | Some d \<Rightarrow> om_valid_from m \<le> d \<and> (case om_expires_at m of None \<Rightarrow> True | Some e \<Rightarrow> d < e))"

definition active_memories :: "string \<Rightarrow> tables \<Rightarrow> organization_memory list" where
  "active_memories org t = filter (\<lambda>m. om_organization_id m = org \<and> om_status m = MemoryActive) (memories t)"

definition list_memories :: "actor_context \<Rightarrow> string \<Rightarrow> datetime option \<Rightarrow> (organization_memory list \<times> int) control" where
  "list_memories actor org as_of =
     andthen (require_actor_organization actor org) (\<lambda>_.
     andthen (query (\<lambda>t. take 100 (sort_key (\<lambda>m. (memory_field_name (om_field m), om_memory_id m))
       (filter (in_force_at as_of) (active_memories (a_organization_id actor) t))))) (\<lambda>records.
     andthen (scalar organizations (\<lambda>r. og_organization_id r = a_organization_id actor)) (\<lambda>found.
     case found of None \<Rightarrow> raise ResourceNotFound | Some r \<Rightarrow> ret (records, og_memory_version r))))"

definition count_memories :: "actor_context \<Rightarrow> string \<Rightarrow> nat control" where
  "count_memories actor org =
     andthen (require_actor_organization actor org) (\<lambda>_.
     query (\<lambda>t. length (active_memories (a_organization_id actor) t)))"

definition get_memory :: "actor_context \<Rightarrow> string \<Rightarrow> string \<Rightarrow> organization_memory control" where
  "get_memory actor org memory_id =
     andthen (require_actor_organization actor org) (\<lambda>_.
     andthen (scalar memories (\<lambda>m. om_organization_id m = a_organization_id actor \<and> om_memory_id m = memory_id)) found_or_missing)"

definition create_memory :: "env \<Rightarrow> actor_context \<Rightarrow> string \<Rightarrow> memory_create \<Rightarrow> organization_memory control" where
  "create_memory v actor org p =
     andthen (require_actor_organization actor org) (\<lambda>_.
     andthen (opaque_id v ''mem'') (\<lambda>i.
     let r = \<lparr>om_memory_id = i, om_organization_id = a_organization_id actor, om_owner_user_id = a_user_id actor,
              om_field = mc_field p, om_safe_value = mu_safe_value p, om_status = MemoryActive, om_version = 1,
              om_valid_from = mu_valid_from p, om_expires_at = mu_expires_at p,
              om_content_hash = stable_hash_str (v_sha v) (mu_safe_value p),
              om_created_at = v_db_now v, om_updated_at = v_db_now v\<rparr> in
     andthen (charge_memory_collection v (a_organization_id actor)) (\<lambda>_.
     andthen (store (upd_memories (\<lambda>rs. rs @ [r]))) (\<lambda>_.
     andthen (commit_or_conflict ResourceConflict) (\<lambda>_. ret r)))))"

definition memory_at :: "string \<Rightarrow> string \<Rightarrow> int \<Rightarrow> organization_memory \<Rightarrow> bool" where
  "memory_at org memory_id expected r = (om_organization_id r = org \<and> om_memory_id r = memory_id \<and> om_version r = expected \<and>
     om_status r = MemoryActive)"

definition update_memory :: "env \<Rightarrow> actor_context \<Rightarrow> string \<Rightarrow> string \<Rightarrow> int \<Rightarrow> memory_update \<Rightarrow> organization_memory control" where
  "update_memory v actor org memory_id expected p =
     andthen (require_actor_organization actor org) (\<lambda>_.
     andthen (charge_memory_collection v (a_organization_id actor)) (\<lambda>_.
     update_expected memories upd_memories (memory_at (a_organization_id actor) memory_id expected)
       (\<lambda>r. r\<lparr>om_safe_value := mu_safe_value p, om_valid_from := mu_valid_from p, om_expires_at := mu_expires_at p,
         om_content_hash := stable_hash_str (v_sha v) (mu_safe_value p), om_version := om_version r + 1,
         om_updated_at := v_db_now v\<rparr>)))"

definition tombstone_hash :: "env \<Rightarrow> string \<Rightarrow> string \<Rightarrow> int \<Rightarrow> string" where
  "tombstone_hash v org memory_id n =
     stable_hash_str (v_sha v) (''tombstone.'' @ org @ CHR ''.'' # memory_id @ CHR ''.'' # str_int n)"

definition tombstone_memory :: "env \<Rightarrow> actor_context \<Rightarrow> string \<Rightarrow> string \<Rightarrow> int \<Rightarrow> organization_memory control" where
  "tombstone_memory v actor org memory_id expected =
     andthen (require_actor_organization actor org) (\<lambda>_.
     andthen (charge_memory_collection v (a_organization_id actor)) (\<lambda>_.
     update_expected memories upd_memories (memory_at (a_organization_id actor) memory_id expected)
       (\<lambda>r. r\<lparr>om_status := MemoryTombstone,
         om_content_hash := tombstone_hash v (a_organization_id actor) memory_id (expected + 1),
         om_version := om_version r + 1, om_updated_at := v_db_now v\<rparr>)))"

text \<open>The loop of \<open>reset_memories\<close> assigns to the mapped objects; the flush stamps \<open>updated_at\<close>.\<close>

definition entomb :: "env \<Rightarrow> string \<Rightarrow> organization_memory \<Rightarrow> organization_memory" where
  "entomb v org r = r\<lparr>om_status := MemoryTombstone, om_version := om_version r + 1,
     om_content_hash := tombstone_hash v org (om_memory_id r) (om_version r + 1), om_updated_at := v_db_now v\<rparr>"

definition reset_memories :: "env \<Rightarrow> actor_context \<Rightarrow> string \<Rightarrow> int \<Rightarrow> (nat \<times> int) control" where
  "reset_memories v actor org expected =
     andthen (require_actor_organization actor org) (\<lambda>_.
     andthen (update_returning organizations upd_organizations
       (\<lambda>r. og_organization_id r = a_organization_id actor \<and> og_memory_version r = expected)
       (\<lambda>r. r\<lparr>og_memory_version := og_memory_version r + 1, og_updated_at := v_db_now v\<rparr>)) (\<lambda>found.
     case found of None \<Rightarrow> rollback_raise PreconditionFailed
     | Some organization \<Rightarrow>
       andthen (query (\<lambda>t. sort_key om_memory_id (active_memories (a_organization_id actor) t))) (\<lambda>records.
       andthen (for_each (\<lambda>r. store (upd_memories (put_row om_memory_id (entomb v (a_organization_id actor) r)))) records) (\<lambda>_.
       andthen commit (\<lambda>_. ret (length records, og_memory_version organization))))))"

subsection \<open>The context projection\<close>

record memory_projection =
  mj_memory_id :: string
  mj_field :: memory_field
  mj_safe_value :: string
  mj_version :: int
  mj_valid_from :: datetime
  mj_expires_at :: "datetime option"
  mj_content_hash :: string

definition project_memory :: "organization_memory \<Rightarrow> memory_projection" where
  "project_memory r = \<lparr>mj_memory_id = om_memory_id r, mj_field = om_field r, mj_safe_value = om_safe_value r,
     mj_version = om_version r, mj_valid_from = om_valid_from r, mj_expires_at = om_expires_at r, mj_content_hash = om_content_hash r\<rparr>"

record context_projection =
  cx_organization_hash :: string
  cx_actor_hash :: string
  cx_authorization_hash :: string
  cx_as_of :: datetime
  cx_memory_items :: "memory_projection list"
  cx_projection_hash :: string

definition memory_item_json :: "memory_projection \<Rightarrow> json" where
  "memory_item_json m = JObj [(''memory_id'', JStr (mj_memory_id m)), (''field'', JStr (memory_field_name (mj_field m))),
     (''safe_value'', JStr (mj_safe_value m)), (''version'', JInt (mj_version m)), (''valid_from'', JStr (isoformat (mj_valid_from m))),
     (''expires_at'', case mj_expires_at m of None \<Rightarrow> JNull | Some e \<Rightarrow> JStr (isoformat e)), (''content_hash'', JStr (mj_content_hash m))]"

definition build_context_projection :: "env \<Rightarrow> actor_context \<Rightarrow> string \<Rightarrow> datetime \<Rightarrow> context_projection control" where
  "build_context_projection v actor org as_of =
     andthen (list_memories actor org (Some as_of)) (\<lambda>(records, _).
     let items = map project_memory (take 6 records);
         organization_hash = stable_hash_str (v_sha v) (a_organization_id actor);
         actor_hash = stable_hash (v_sha v) (JObj [(''schema_version'', JStr ''w10-actor-projection/1.0''),
           (''user_id'', JStr (a_user_id actor)), (''membership_id'', JStr (a_membership_id actor))]);
         fields = JObj [(''schema_version'', JStr ''w10-authorized-context-projection/1.0''),
           (''organization_hash'', JStr organization_hash), (''actor_hash'', JStr actor_hash),
           (''authorization_hash'', JStr (a_authorization_hash actor)), (''as_of'', JStr (isoformat as_of)),
           (''memory_items'', JArr (map memory_item_json items))] in
     ret \<lparr>cx_organization_hash = organization_hash, cx_actor_hash = actor_hash,
       cx_authorization_hash = a_authorization_hash actor, cx_as_of = as_of, cx_memory_items = items,
       cx_projection_hash = stable_hash (v_sha v) fields\<rparr>)"

end
