(* ===== verification/Approval_Steps.thy ===== *)
theory Approval_Steps
  imports Approval
begin

section \<open>What an approval operation does to the database\<close>

text \<open>
  The abstract specification of the approval workflow: \<open>effect\<close> relates the tables before and after
  an operation, without the monad, the audit trail and the vault. The lemmas \<open>*_effect\<close> show that
  every operation either leaves all tables but the audit trail as they are, or commits one effect.
  They are proved by symbolic execution with the rules of \<open>commits\<close>.
\<close>

subsection \<open>Symbolic execution up to the audit trail\<close>

definition no_audit :: "tables \<Rightarrow> tables" where
  "no_audit t = t\<lparr>events := [], heads := []\<rparr>"

text \<open>A table function that does not look at the audit trail.\<close>

definition blind :: "(tables \<Rightarrow> 'a) \<Rightarrow> bool" where
  "blind f \<longleftrightarrow> (\<forall>t. f (no_audit t) = f t)"

definition open_at :: "tables \<Rightarrow> tables \<Rightarrow> session \<Rightarrow> bool" where
  "open_at t0 t s \<longleftrightarrow> committed s = t0 \<and> no_audit (current s) = no_audit t"

text \<open>From the open transaction \<open>t\<close> over \<open>t0\<close>, the method ends with committed tables in \<open>D\<close>.\<close>

definition commits :: "(tables \<Rightarrow> bool) \<Rightarrow> tables \<Rightarrow> tables \<Rightarrow> 'a control \<Rightarrow> bool" where
  "commits D t0 t m \<longleftrightarrow> (\<forall>s. open_at t0 t s \<longrightarrow> D (committed (snd (m s))))"

lemma blindD: "blind f \<Longrightarrow> no_audit t = no_audit t' \<Longrightarrow> f t = f t'"
  unfolding blind_def by metis

lemma no_audit_fields [simp]:
  "organizations (no_audit t) = organizations t" "users (no_audit t) = users t" "identities (no_audit t) = identities t"
  "memberships (no_audit t) = memberships t" "memories (no_audit t) = memories t" "authorities (no_audit t) = authorities t"
  "requests (no_audit t) = requests t" "decisions (no_audit t) = decisions t" "grants (no_audit t) = grants t" "runs (no_audit t) = runs t"
  by (simp_all add: no_audit_def)

lemma blind_fields [intro!]:
  "blind users" "blind memberships" "blind organizations" "blind authorities" "blind requests" "blind decisions" "blind grants" "blind runs"
  by (simp_all add: blind_def)

lemma commitsI: "(\<And>s. open_at t0 t s \<Longrightarrow> D (committed (snd (m s)))) \<Longrightarrow> commits D t0 t m"
  by (simp add: commits_def)

lemma commitsD: "commits D t0 t m \<Longrightarrow> open_at t0 t s \<Longrightarrow> D (committed (snd (m s)))"
  by (simp add: commits_def)

lemma open_at_start: "open_at t0 t s \<Longrightarrow> committed s = t0"
  by (simp add: open_at_def)

lemma commits_then:
  assumes m: "triple (open_at t0 t) m (\<lambda>x. open_at t0 t') (\<lambda>_. open_at t0 t)" and "\<And>x. commits D t0 t' (f x)" and "D t0"
  shows "commits D t0 t (andthen m f)"
proof (rule commitsI)
  fix s assume s: "open_at t0 t s"
  show "D (committed (snd (andthen m f s)))"
  proof (cases "m s")
    case (Pair r s')
    show ?thesis
    proof (cases r)
      case (Inl e)
      then show ?thesis using triple_Inl [OF m s, of e s'] Pair assms(3) by (simp add: andthen_def open_at_def)
    next
      case (Inr x)
      then show ?thesis using triple_Inr [OF m s, of x s'] Pair commitsD [OF assms(2), of s' x] by (simp add: andthen_def)
    qed
  qed
qed

lemma commits_raise: "D t0 \<Longrightarrow> commits D t0 t (raise e)" and commits_ret: "D t0 \<Longrightarrow> commits D t0 t (ret x)"
  by (simp_all add: commits_def open_at_def meth_defs)

lemma commits_rollback_raise: "D t0 \<Longrightarrow> commits D t0 t (rollback_raise e)"
  by (simp add: commits_def open_at_def rollback_raise_def rollback_def meth_defs)

lemma commits_require: "(b \<Longrightarrow> commits D t0 t (f ())) \<Longrightarrow> D t0 \<Longrightarrow> commits D t0 t (andthen (require b e) f)"
  by (cases b) (simp_all add: commits_def andthen_def require_def ret_def raise_def open_at_def)

lemma commits_query:
  assumes "blind g" and "commits D t0 t (f (g t))"
  shows "commits D t0 t (andthen (query g) f)"
proof (rule commitsI)
  fix s assume s: "open_at t0 t s"
  have "g (current s) = g t" using blindD [OF assms(1), of "current s" t] s by (simp add: open_at_def)
  then show "D (committed (snd (andthen (query g) f s)))" using commitsD [OF assms(2) s] by (simp add: andthen_def query_def)
qed

lemma commits_store:
  assumes "blind (\<lambda>t. no_audit (h t))" and "commits D t0 (h t) (f ())"
  shows "commits D t0 t (andthen (store h) f)"
proof (rule commitsI)
  fix s assume s: "open_at t0 t s"
  have "no_audit (h (current s)) = no_audit (h t)" using blindD [OF assms(1), of "current s" t] s by (simp add: open_at_def)
  then have "open_at t0 (h t) (s\<lparr>current := h (current s)\<rparr>)" using s by (simp add: open_at_def)
  from commitsD [OF assms(2) this] show "D (committed (snd (andthen (store h) f s)))"
    by (simp add: andthen_def store_def modify_def)
qed

lemma commits_draw: "(\<And>x. commits D t0 t (f x)) \<Longrightarrow> commits D t0 t (andthen (draw g) f)"
  by (simp add: commits_def andthen_def draw_def open_at_def)

lemma commits_opaque_id: "(\<And>x. commits D t0 t (f x)) \<Longrightarrow> commits D t0 t (andthen (opaque_id v pre) f)"
  unfolding opaque_id_def by (rule commits_draw)

lemma commits_scalar: "blind tbl \<Longrightarrow> commits D t0 t (f (find P (tbl t))) \<Longrightarrow> commits D t0 t (andthen (scalar tbl P) f)"
  unfolding scalar_def by (rule commits_query) (auto simp: blind_def)

lemma no_audit_after_append: "no_audit (current (after_append e now h s)) = no_audit (current s)"
  by (simp add: after_append_def no_audit_def upd_heads_def upd_events_def)

lemma audit_triple: "triple (open_at t0 t) (audit v actor org ty subject extra now) (\<lambda>_. open_at t0 t) (\<lambda>_. open_at t0 t)"
proof (rule tripleI)
  fix s err s' assume "open_at t0 t s" and "audit v actor org ty subject extra now s = (Inl err, s')"
  then show "open_at t0 t s'" using append_audit_event_Inl unfolding audit_def by metis
next
  fix s e s' assume a: "open_at t0 t s" and e: "audit v actor org ty subject extra now s = (Inr e, s')"
  obtain h where "s' = after_append e now h s" using append_audit_event_Inr [OF e [unfolded audit_def]] by blast
  then show "open_at t0 t s'" using a no_audit_after_append [of e now h s] by (simp add: open_at_def) (simp add: after_append_def)
qed

lemma commits_audit:
  "(\<And>e. commits D t0 t (f e)) \<Longrightarrow> D t0 \<Longrightarrow> commits D t0 t (andthen (audit v actor org ty subject extra now) f)"
  by (rule commits_then [OF audit_triple])

text \<open>After the commit nothing is committed any more.\<close>

definition settled :: "'a control \<Rightarrow> bool" where
  "settled m \<longleftrightarrow> (\<forall>s. committed (snd (m s)) = committed s)"

lemma settled_simps [intro]: "settled (ret x)" "settled (raise e)" "settled (vault_discard g)" "settled (vault_put g c)"
  by (auto simp: settled_def meth_defs vault_discard_def vault_put_def)

lemma settled_andthen [intro]: "settled m \<Longrightarrow> (\<And>x. settled (f x)) \<Longrightarrow> settled (andthen m f)"
  by (auto simp: settled_def andthen_def split: prod.splits sum.splits) (metis snd_conv)+

lemma settled_for_each [intro]: "(\<And>x. settled (f x)) \<Longrightarrow> settled (for_each f xs)"
  by (induction xs) auto

text \<open>What a commit of \<open>t\<close> over \<open>t0\<close> gives: tables that satisfy the constraints and are \<open>t\<close> up to the audit trail.\<close>

definition committed_as :: "tables \<Rightarrow> tables \<Rightarrow> bool" where
  "committed_as t c \<longleftrightarrow> tables_valid c \<and> no_audit c = no_audit t"

lemma commits_commit:
  assumes "\<And>c. committed_as t c \<Longrightarrow> D c" and "D t0" and "settled (f ())"
  shows "commits D t0 t (andthen commit f)"
proof (rule commitsI)
  fix s assume a: "open_at t0 t s"
  show "D (committed (snd (andthen commit f s)))"
  proof (cases "tables_valid (current s)")
    case True
    let ?s = "s\<lparr>committed := current s\<rparr>"
    have "D (committed ?s)" using assms(1) a True by (simp add: committed_as_def open_at_def)
    moreover have "committed (snd (f () ?s)) = committed ?s" using assms(3) unfolding settled_def by blast
    ultimately show ?thesis using True by (simp add: andthen_def commit_def)
  next
    case False
    then show ?thesis using a assms(2) by (simp add: andthen_def commit_def open_at_def)
  qed
qed

lemma commits_commit_end: "(\<And>c. committed_as t c \<Longrightarrow> D c) \<Longrightarrow> D t0 \<Longrightarrow> commits D t0 t commit"
  by (auto simp: commits_def commit_def committed_as_def open_at_def)

lemma commits_one_or_none:
  "(\<And>r. rs = [r] \<Longrightarrow> commits D t0 t (f (Some r))) \<Longrightarrow> (rs = [] \<Longrightarrow> commits D t0 t (f None)) \<Longrightarrow> D t0 \<Longrightarrow>
   commits D t0 t (andthen (one_or_none rs) f)"
  by (auto simp: one_or_none_def commits_def andthen_def ret_def raise_def open_at_def split: list.splits)

lemma method_assoc: "andthen (andthen m f) g = andthen m (\<lambda>x. andthen (f x) g)"
  by (auto simp: andthen_def fun_eq_iff split: prod.splits sum.splits)

lemma commits_update_returning:
  assumes "blind tbl" and "blind (\<lambda>t. no_audit (upd (update_rows P h) t))"
    and "\<And>r. filter P (tbl t) = [r] \<Longrightarrow> commits D t0 (upd (update_rows P h) t) (f (Some (h r)))"
    and "filter P (tbl t) = [] \<Longrightarrow> commits D t0 (upd (update_rows P h) t) (f None)" and "D t0"
  shows "commits D t0 t (andthen (update_returning tbl upd P h) f)"
  unfolding update_returning_def method_assoc
  by (rule commits_query, use assms(1) in \<open>force simp: blind_def\<close>, rule commits_store, rule assms(2), rule commits_one_or_none)
    (use assms(3,4,5) in \<open>auto\<close>)

lemmas commits_rules = commits_raise commits_ret commits_rollback_raise commits_require commits_query commits_scalar
  commits_store commits_draw commits_opaque_id commits_audit commits_update_returning

lemma blind_upd [intro!]:
  "blind (\<lambda>t. no_audit (upd_requests f t))" "blind (\<lambda>t. no_audit (upd_decisions g t))" "blind (\<lambda>t. no_audit (upd_grants h t))"
  "blind (\<lambda>t. no_audit (upd_authorities k t))"
  by (simp_all add: blind_def no_audit_def upd_defs)

subsection \<open>Effects\<close>

definition request_update :: "request_status \<Rightarrow> approval_reason option \<Rightarrow> int \<Rightarrow> datetime \<Rightarrow> approval_request \<Rightarrow> approval_request" where
  "request_update st why n now r = r\<lparr>rq_status := st, rq_closed_reason := why, rq_version := rq_version r + 1,
     rq_audit_sequence := n, rq_updated_at := now\<rparr>"

definition grant_update :: "grant_status \<Rightarrow> datetime \<Rightarrow> approval_grant \<Rightarrow> approval_grant" where
  "grant_update st now g = g\<lparr>gr_status := st, gr_version := gr_version g + 1, gr_updated_at := now\<rparr>"

definition pending_at :: "string \<Rightarrow> datetime \<Rightarrow> tables \<Rightarrow> approval_request \<Rightarrow> bool" where
  "pending_at org now t r \<longleftrightarrow> r \<in> set (requests t) \<and> rq_organization_id r = org \<and> rq_status r = RequestPending \<and> now < rq_expires_at r"

text \<open>User \<open>u\<close> may decide request \<open>r\<close> with decision \<open>d\<close>.\<close>

definition decides :: "string \<Rightarrow> string \<Rightarrow> datetime \<Rightarrow> tables \<Rightarrow> approval_request \<Rightarrow> approval_decision \<Rightarrow> bool" where
  "decides org u now t r d \<longleftrightarrow> pending_at org now t r \<and>
     u \<notin> {rq_requester_user_id r, rq_executor_user_id r} \<and>
     decision_request d = org_request r \<and> dc_approver_user_id d = u \<and>
     dc_approval_role d \<in> set (rq_required_roles r) \<and>
     (\<forall>x \<in> set (decisions_of org (rq_request_id r) t). dc_approver_user_id x \<noteq> u \<and> dc_approval_role x \<noteq> dc_approval_role d) \<and>
     (\<exists>a \<in> set (authorities t). au_organization_id a = org \<and> au_user_id a = u \<and> au_authority_id a = dc_authority_id d \<and>
        au_role a = dc_approval_role d \<and> authority_in_force t a)"

definition approved_roles :: "string \<Rightarrow> string \<Rightarrow> tables \<Rightarrow> approval_role set" where
  "approved_roles org i t = dc_approval_role ` set (approved_decisions org i t)"

text \<open>The grant binds what the request binds.\<close>

definition grant_of :: "approval_request \<Rightarrow> approval_grant \<Rightarrow> bool" where
  "grant_of r g \<longleftrightarrow> grant_request g = org_request r \<and> gr_task_id g = rq_task_id r \<and> gr_step_id g = rq_step_id r \<and>
     gr_action_type g = rq_action_type r \<and> gr_parameter_hash g = rq_parameter_hash r \<and> gr_risk_level g = rq_risk_level r \<and>
     gr_executor_user_id g = rq_executor_user_id r \<and> gr_expires_at g \<le> rq_expires_at r"

inductive effect :: "string \<Rightarrow> string \<Rightarrow> datetime \<Rightarrow> tables \<Rightarrow> tables \<Rightarrow> bool" for org u now where
  eff_authority: "au_organization_id a = org \<Longrightarrow> effect org u now t (upd_authorities (\<lambda>as. as @ [a]) t)"
| eff_open: "rq_organization_id r = org \<Longrightarrow> rq_requester_user_id r = u \<Longrightarrow> rq_executor_user_id r = u \<Longrightarrow>
    rq_status r = RequestPending \<Longrightarrow> rq_expires_at r = now + REQUEST_TTL \<Longrightarrow>
    approvable (rq_risk_level r) (rq_action_type r) (rq_required_roles r) \<Longrightarrow>
    effect org u now t (upd_requests (\<lambda>rs. rs @ [r]) t)"
| eff_expire: "r \<in> set (requests t) \<Longrightarrow> rq_organization_id r = org \<Longrightarrow> rq_status r = RequestPending \<Longrightarrow> rq_expires_at r \<le> now \<Longrightarrow>
    effect org u now t (upd_requests (put_row rq_request_id (request_update RequestExpired (Some RequestExpiry) n now r)) t)"
| eff_reject: "decides org u now t r d \<Longrightarrow> dc_decision d = Rejected \<Longrightarrow>
    effect org u now t (upd_requests (put_row rq_request_id (request_update RequestRejected (Some (dc_reason d)) n now r))
      (upd_decisions (\<lambda>ds. ds @ [d]) t))"
| eff_approve: "decides org u now t r d \<Longrightarrow> dc_decision d = Approved \<Longrightarrow>
    insert (dc_approval_role d) (approved_roles org (rq_request_id r) t) \<noteq> set (rq_required_roles r) \<Longrightarrow>
    effect org u now t (upd_requests (put_row rq_request_id (request_update RequestPending (rq_closed_reason r) n now r))
      (upd_decisions (\<lambda>ds. ds @ [d]) t))"
| eff_grant: "decides org u now t r d \<Longrightarrow> dc_decision d = Approved \<Longrightarrow>
    insert (dc_approval_role d) (approved_roles org (rq_request_id r) t) = set (rq_required_roles r) \<Longrightarrow>
    grant_of r g \<Longrightarrow> gr_status g = GrantIssued \<Longrightarrow> gr_expires_at g \<le> now + GRANT_TTL \<Longrightarrow> gr_execution_id g = None \<Longrightarrow>
    effect org u now t (upd_grants (\<lambda>gs. gs @ [g])
      (upd_requests (put_row rq_request_id (request_update RequestApproved (rq_closed_reason r) n now r))
      (upd_decisions (\<lambda>ds. ds @ [d]) t)))"
| eff_close: "r \<in> set (requests t) \<Longrightarrow> rq_organization_id r = org \<Longrightarrow> rq_status r \<in> {RequestPending, RequestApproved} \<Longrightarrow>
    st \<in> {RequestCancelled, RequestInvalidated} \<Longrightarrow>
    effect org u now t (upd_grants (update_rows (\<lambda>g. grant_request g = org_request r \<and> gr_status g = GrantIssued) (grant_update GrantRevoked now))
      (upd_requests (put_row rq_request_id (request_update st (Some why) n now r)) t))"
| eff_disable: "list_all2 (\<lambda>g g'. g' = g \<or> (gr_organization_id g = org \<and> gr_status g = GrantIssued \<and> g' = grant_update GrantRevoked now g))
      (grants t) gs' \<Longrightarrow>
    list_all2 (\<lambda>r r'. r' = r \<or> (rq_organization_id r = org \<and> rq_status r = RequestApproved \<and>
      (\<exists>n. r' = request_update RequestInvalidated (Some AuthorityInactive) n now r))) (requests t) rs' \<Longrightarrow>
    list_all2 (\<lambda>a a'. a' = a \<or> (au_organization_id a = org \<and> au_status a = AuthorityActive \<and>
      a' = a\<lparr>au_status := AuthorityDisabled, au_version := au_version a + 1, au_updated_at := now\<rparr>)) (authorities t) as' \<Longrightarrow>
    effect org u now t (t\<lparr>authorities := as', grants := gs', requests := rs'\<rparr>)"
| eff_claim: "r \<in> set (requests t) \<Longrightarrow> g \<in> set (grants t) \<Longrightarrow> grant_request g = org_request r \<Longrightarrow> rq_organization_id r = org \<Longrightarrow>
    rq_executor_user_id r = u \<Longrightarrow> rq_status r = RequestApproved \<Longrightarrow> gr_status g = GrantIssued \<Longrightarrow>
    now < rq_expires_at r \<Longrightarrow> now < gr_expires_at g \<Longrightarrow>
    approved_roles org (rq_request_id r) t = set (rq_required_roles r) \<Longrightarrow>
    list_all (decision_in_force t r) (approved_decisions org (rq_request_id r) t) \<Longrightarrow>
    effect org u now t (upd_requests (put_row rq_request_id (request_update RequestClaimed (rq_closed_reason r) n now r))
      (upd_grants (put_row gr_grant_id ((grant_update GrantClaimed now g)\<lparr>gr_execution_id := Some x, gr_authorization_hash := Some h,
         gr_claimed_at := Some now\<rparr>)) t))"
| eff_complete: "r \<in> set (requests t) \<Longrightarrow> g \<in> set (grants t) \<Longrightarrow> grant_request g = org_request r \<Longrightarrow> rq_organization_id r = org \<Longrightarrow>
    gr_executor_user_id g = u \<Longrightarrow> rq_status r = RequestClaimed \<Longrightarrow> gr_status g = GrantClaimed \<Longrightarrow>
    effect org u now t (upd_requests (put_row rq_request_id (request_update RequestConsumed (rq_closed_reason r) n now r))
      (upd_grants (put_row gr_grant_id ((grant_update GrantConsumed now g)\<lparr>gr_receipt_reference := Some x, gr_consumed_at := Some now\<rparr>)) t))"

text \<open>What an operation of \<open>u\<close> may leave committed.\<close>

definition effect_or_same :: "string \<Rightarrow> string \<Rightarrow> datetime \<Rightarrow> tables \<Rightarrow> tables \<Rightarrow> bool" where
  "effect_or_same org u now t0 c \<longleftrightarrow> c = t0 \<or>
     (tables_valid c \<and> (no_audit c = no_audit t0 \<or> (\<exists>t'. effect org u now t0 t' \<and> no_audit c = no_audit t')))"

lemma effect_or_same_refl [simp]: "effect_or_same org u now t0 t0"
  by (simp add: effect_or_same_def)

lemma effect_or_sameI: "committed_as t c \<Longrightarrow> effect org u now t0 t \<Longrightarrow> effect_or_same org u now t0 c"
  by (auto simp: effect_or_same_def committed_as_def)

lemma effect_or_same_auditI: "committed_as t0 c \<Longrightarrow> effect_or_same org u now t0 c"
  by (auto simp: effect_or_same_def committed_as_def)

lemma put_update: "(\<And>x. P x \<Longrightarrow> key x = key r) \<Longrightarrow> (\<And>x. key (f x) = key x) \<Longrightarrow> put_row key r (update_rows P f rs) = put_row key r rs"
  by (auto simp: put_row_def update_rows_def)

lemma put_put: "key r' = key r \<Longrightarrow> put_row key r' (put_row key r rs) = put_row key r' rs"
  by (auto simp: put_row_def)

lemma commits_commit_or_conflict:
  assumes "\<And>c. committed_as t c \<Longrightarrow> D c" and "D t0" and "settled (f ())"
  shows "commits D t0 t (andthen (commit_or_conflict e) f)"
proof (rule commitsI)
  fix s assume a: "open_at t0 t s"
  show "D (committed (snd (andthen (commit_or_conflict e) f s)))"
  proof (cases "tables_valid (current s)")
    case True
    then have "commit_or_conflict e s = commit s" by (simp add: commit_or_conflict_def commit_def)
    then show ?thesis using commitsD [OF commits_commit [of t D t0 f, OF assms] a] by (simp add: andthen_def)
  next
    case False
    then show ?thesis using a assms(2)
      by (simp add: andthen_def commit_or_conflict_def commit_def open_at_def rollback_raise_def rollback_def meth_defs)
  qed
qed

lemma commits_put_request:
  "commits D t0 (upd_requests (put_row rq_request_id r) t) (f ()) \<Longrightarrow> commits D t0 t (andthen (put_request r) f)"
  unfolding put_request_def by (rule commits_store) auto

lemma commits_put_grant:
  "commits D t0 (upd_grants (put_row gr_grant_id g) t) (f ()) \<Longrightarrow> commits D t0 t (andthen (put_grant g) f)"
  unfolding put_grant_def by (rule commits_store) auto

lemma commits_find_request:
  "commits D t0 t (f (find (\<lambda>r. rq_organization_id r = org \<and> rq_request_id r = i) (requests t))) \<Longrightarrow>
   commits D t0 t (andthen (find_request org i) f)"
  unfolding find_request_def by (rule commits_scalar) auto

lemma commits_evaluated:
  "(\<And>x. r = Inr x \<Longrightarrow> commits D t0 t (f x)) \<Longrightarrow> D t0 \<Longrightarrow> commits D t0 t (andthen (evaluated r) f)"
  by (cases r) (auto simp: evaluated_def commits_def andthen_def ret_def raise_def open_at_def)

lemma commits_organization:
  "(a_organization_id actor = org \<Longrightarrow> commits D t0 t (f ())) \<Longrightarrow> D t0 \<Longrightarrow> commits D t0 t (andthen (require_actor_organization actor org) f)"
  unfolding require_actor_organization_def by (rule commits_require)

lemma commits_risk_facts: "(\<And>b. commits D t0 t (f b)) \<Longrightarrow> D t0 \<Longrightarrow> commits D t0 t (andthen (risk_facts org action params) f)"
proof (rule commits_then [where t' = t])
  show "triple (open_at t0 t) (risk_facts org action params) (\<lambda>x. open_at t0 t) (\<lambda>_. open_at t0 t)"
    by (auto simp: triple_def risk_facts_def ret_def query_def split: option.split json.split)
qed

lemma commits_if: "(b \<Longrightarrow> commits D t0 t m) \<Longrightarrow> (\<not> b \<Longrightarrow> commits D t0 t m') \<Longrightarrow> commits D t0 t (if b then m else m')"
  by simp

subsection \<open>Authorities and the gate\<close>

lemma create_authority_effect:
  "commits (effect_or_same org (a_user_id actor) now t0) t0 t0 (create_authority v actor org payload)"
  unfolding create_authority_def Let_def
  by (intro commits_organization commits_scalar commits_require commits_opaque_id commits_store commits_commit_or_conflict)
    (auto intro!: effect_or_sameI eff_authority)

lemma deny_gate_effect: "commits (effect_or_same org u now t0) t0 t0 (deny_gate v actor org p e now)"
  unfolding deny_gate_def by (intro commits_audit commits_commit) (auto intro: effect_or_same_auditI)

lemma automatic_gate_effect: "commits (effect_or_same org u now t0) t0 t0 (automatic_gate v actor org p e now)"
  unfolding automatic_gate_def by (intro commits_audit commits_commit) (auto intro: effect_or_same_auditI)

lemma open_request_effect:
  assumes "approvable (re_risk_level e) (eg_action_type p) (re_required_roles e)"
  shows "commits (effect_or_same org (a_user_id actor) now t0) t0 t0 (open_request v actor org p e now)"
  unfolding open_request_def Let_def
  by (intro commits_opaque_id commits_audit commits_store commits_commit)
    (use assms in \<open>auto intro!: effect_or_sameI eff_open\<close>)

lemma create_execution_gate_effect:
  "commits (effect_or_same org (a_user_id actor) now t0) t0 t0 (create_execution_gate v actor org p now)"
  unfolding create_execution_gate_def
proof (intro commits_organization commits_risk_facts commits_evaluated commits_audit commits_if)
  fix facts e
  assume e: "evaluate_risk (v_sha v) (eg_action_type p) (eg_parameters p) facts = Inr e" and "re_risk_level e \<noteq> L4" "re_risk_level e \<notin> {L0, L1}"
  then have "re_risk_level e \<in> {L2, L3}" by (cases "re_risk_level e") auto
  then show "commits (effect_or_same org (a_user_id actor) now t0) t0 t0 (open_request v actor org p e now)"
    using evaluate_risk_cases [OF e] by (intro open_request_effect) blast
qed (rule deny_gate_effect automatic_gate_effect effect_or_same_refl)+

subsection \<open>Deciding\<close>

lemma upd_requests_twice: "upd_requests f (upd_requests g t) = upd_requests (\<lambda>rs. f (g rs)) t"
  by (simp add: upd_requests_def)

lemma upd_commute:
  "upd_requests f (upd_decisions g t) = upd_decisions g (upd_requests f t)"
  "upd_requests f (upd_grants h t) = upd_grants h (upd_requests f t)"
  "upd_decisions g (upd_grants h t) = upd_grants h (upd_decisions g t)"
  by (simp_all add: upd_defs)

lemma upd_fields [simp]:
  "requests (upd_requests f t) = f (requests t)" "decisions (upd_requests f t) = decisions t" "grants (upd_requests f t) = grants t"
  "authorities (upd_requests f t) = authorities t" "requests (upd_decisions g t) = requests t" "decisions (upd_decisions g t) = g (decisions t)"
  "grants (upd_decisions g t) = grants t" "requests (upd_grants h t) = requests t" "decisions (upd_grants h t) = decisions t"
  "grants (upd_grants h t) = h (grants t)" "authorities (upd_grants h t) = authorities t" "authorities (upd_decisions g t) = authorities t"
  "users (upd_requests f t) = users t" "memberships (upd_requests f t) = memberships t" "organizations (upd_requests f t) = organizations t"
  "users (upd_grants h t) = users t" "memberships (upd_grants h t) = memberships t" "organizations (upd_grants h t) = organizations t"
  "authorities (upd_authorities k t) = k (authorities t)" "requests (upd_authorities k t) = requests t" "decisions (upd_authorities k t) = decisions t"
  "grants (upd_authorities k t) = grants t" "runs (upd_requests f t) = runs t" "runs (upd_grants h t) = runs t"
  by (simp_all add: upd_defs)

lemma blind_decisions_of [intro!]: "blind (decisions_of org i)" and blind_approved_decisions [intro!]: "blind (approved_decisions org i)"
  by (simp_all add: blind_def decisions_of_def approved_decisions_def)

lemma in_force_cong:
  "users t = users t' \<Longrightarrow> memberships t = memberships t' \<Longrightarrow> organizations t = organizations t' \<Longrightarrow>
   authority_in_force t a = authority_in_force t' a"
  by (simp add: authority_in_force_def)

lemma blind_current_authorities [intro!]: "blind (current_actor_authorities actor roles)"
  unfolding blind_def current_actor_authorities_def using in_force_cong [of "no_audit t" t for t] by simp

lemma current_authorities_upd [simp]: "current_actor_authorities actor roles (upd_requests f t) = current_actor_authorities actor roles t"
  unfolding current_actor_authorities_def using in_force_cong [of "upd_requests f t" t] by simp

lemma decisions_of_upd [simp]:
  "decisions_of org i (upd_requests f t) = decisions_of org i t" "approved_decisions org i (upd_requests f t) = approved_decisions org i t"
  by (simp_all add: decisions_of_def approved_decisions_def)

text \<open>The decided request and what the update of its row leaves.\<close>

definition touched :: "datetime \<Rightarrow> approval_request \<Rightarrow> approval_request" where
  "touched now r = r\<lparr>rq_version := rq_version r + 1, rq_updated_at := now\<rparr>"

definition matches :: "string \<Rightarrow> string \<Rightarrow> int \<Rightarrow> approval_request \<Rightarrow> bool" where
  "matches org i n r \<longleftrightarrow> rq_organization_id r = org \<and> rq_request_id r = i \<and> rq_version r = n \<and> rq_status r = RequestPending"

lemma put_touched:
  "rq_request_id r = i \<Longrightarrow> put_row rq_request_id r (update_rows (matches org i n) (touched now) rs) = put_row rq_request_id r rs"
  by (rule put_update) (simp_all add: matches_def touched_def)

lemma commits_finish_decision:
  assumes "\<And>c. committed_as t c \<Longrightarrow> D c" and "D t0"
  shows "commits D t0 t (finish_decision d r granted)"
  unfolding finish_decision_def
proof (rule commits_then [where t' = t])
  show "triple (open_at t0 t) (case granted of None \<Rightarrow> ret () | Some (g, raw) \<Rightarrow> vault_put (gr_grant_id g) raw) (\<lambda>x. open_at t0 t) (\<lambda>_. open_at t0 t)"
    by (auto simp: triple_def ret_def vault_put_def open_at_def split: option.split)
  show "commits D t0 t (andthen (commit_or_discard g) (\<lambda>_. ret x))" for g and x :: decision_result
  proof (rule commitsI)
    fix s assume a: "open_at t0 t s"
    show "D (committed (snd (andthen (commit_or_discard g) (\<lambda>_. ret x) s)))"
    proof (cases "tables_valid (current s)")
      case True
      then show ?thesis using assms(1) [of "current s"] a
        by (simp add: commit_or_discard_def commit_def andthen_def ret_def committed_as_def open_at_def)
    next
      case False
      then show ?thesis using assms(2) a
        by (cases g) (simp_all add: commit_or_discard_def commit_def andthen_def ret_def raise_def open_at_def rollback_def
            modify_def vault_discard_def)
    qed
  qed
qed (rule assms(2))

lemma commits_approval_set_hash:
  "(\<And>h. commits D t0 t (f h)) \<Longrightarrow> D t0 \<Longrightarrow> commits D t0 t (andthen (approval_set_hash v org ds) f)"
proof (rule commits_then [where t' = t])
  show "triple (open_at t0 t) (approval_set_hash v org ds) (\<lambda>x. open_at t0 t) (\<lambda>_. open_at t0 t)"
    by (auto simp: triple_def approval_set_hash_def andthen_def ret_def raise_def query_def split: option.split)
qed

lemma commits_new_credential: "(\<And>x y z. commits D t0 t (f (x, y, z))) \<Longrightarrow> commits D t0 t (andthen (new_credential v) f)"
  unfolding new_credential_def method_assoc by (intro commits_draw) (simp add: andthen_def ret_def)

lemma ret_then [simp]: "andthen (ret x) f = f x"
  by (simp add: andthen_def ret_def)

text \<open>What is known of a new grant.\<close>

definition issued_grant :: "approval_request \<Rightarrow> datetime \<Rightarrow> approval_grant \<Rightarrow> bool" where
  "issued_grant r now g \<longleftrightarrow> grant_of r g \<and> gr_status g = GrantIssued \<and> gr_expires_at g \<le> now + GRANT_TTL \<and> gr_execution_id g = None"

lemma commits_issue_grant:
  assumes "\<And>n g raw. issued_grant r now g \<Longrightarrow>
      commits D t0 (upd_grants (\<lambda>gs. gs @ [g]) (upd_requests (put_row rq_request_id (r\<lparr>rq_status := RequestApproved, rq_audit_sequence := n\<rparr>)) t))
        (k (r\<lparr>rq_status := RequestApproved, rq_audit_sequence := n\<rparr>, g, raw))"
    and "rq_organization_id r = org" and "D t0"
  shows "commits D t0 t (andthen (issue_grant v actor org r now) k)"
proof -
  have put: "upd_requests (put_row rq_request_id (r\<lparr>rq_status := RequestApproved, rq_audit_sequence := n\<rparr>))
      (upd_grants g (upd_requests (put_row rq_request_id (r\<lparr>rq_status := RequestApproved\<rparr>)) t)) =
    upd_grants g (upd_requests (put_row rq_request_id (r\<lparr>rq_status := RequestApproved, rq_audit_sequence := n\<rparr>)) t)" for n g
    by (simp add: upd_commute upd_requests_twice put_put)
  show ?thesis
    unfolding issue_grant_def Let_def method_assoc
  proof (intro commits_put_request commits_query blind_approved_decisions commits_approval_set_hash commits_new_credential assms(3),
      simp only: prod.case method_assoc,
      intro commits_opaque_id commits_store blind_upd commits_audit commits_put_request assms(3))
    fix h raw token nonce i e
    show "commits D t0
     (upd_requests (put_row rq_request_id (r\<lparr>rq_status := RequestApproved, rq_audit_sequence := ev_sequence e\<rparr>))
        (upd_grants (\<lambda>gs. gs @ [new_grant org r now i h token nonce])
          (upd_requests (put_row rq_request_id (r\<lparr>rq_status := RequestApproved\<rparr>)) t)))
     (andthen (ret (r\<lparr>rq_status := RequestApproved, rq_audit_sequence := ev_sequence e\<rparr>, new_grant org r now i h token nonce, raw)) k)"
      unfolding put ret_then by (rule assms(1)) (use assms(2) in \<open>simp add: issued_grant_def grant_of_def new_grant_def\<close>)
  qed
qed

lemma touched_update:
  "(touched now r)\<lparr>rq_status := st, rq_closed_reason := why, rq_audit_sequence := n\<rparr> = request_update st why n now r"
  by (simp add: touched_def request_update_def)

lemma expire_request_effect:
  assumes r: "r \<in> set (requests t0)" "matches org i n r" and "rq_expires_at r \<le> now"
  shows "commits (effect_or_same org u now t0) t0 (upd_requests (update_rows (matches org i n) (touched now)) t0)
     (expire_request v actor org (touched now r) now)"
proof -
  let ?r = "\<lambda>e :: audit_event. request_update RequestExpired (Some RequestExpiry) (ev_sequence e) now r"
  have eq: "(touched now r)\<lparr>rq_status := RequestExpired, rq_closed_reason := Some RequestExpiry, rq_audit_sequence := ev_sequence e\<rparr> = ?r e" for e
    by (rule touched_update)
  have i: "rq_request_id r = i" "rq_organization_id r = org" "rq_status r = RequestPending" using r(2) by (simp_all add: matches_def)
  have put: "upd_requests (put_row rq_request_id (?r e))
      (upd_requests (put_row rq_request_id ((touched now r)\<lparr>rq_status := RequestExpired, rq_closed_reason := Some RequestExpiry\<rparr>))
        (upd_requests (update_rows (matches org i n) (touched now)) t0)) = upd_requests (put_row rq_request_id (?r e)) t0" for e
    by (simp add: upd_requests_twice put_put put_touched i request_update_def touched_def)
  show ?thesis
    unfolding expire_request_def Let_def
    by (intro commits_put_request commits_audit commits_commit effect_or_same_refl settled_simps)
      (simp only: eq put, erule effect_or_sameI, use r(1) i assms(3) in \<open>blast intro: eff_expire\<close>)
qed

end
