(* ===== verification/Approval_Effects.thy ===== *)
theory Approval_Effects
  imports Approval_Steps
begin

section \<open>Every approval operation commits one effect or none\<close>

text \<open>
  The symbolic executions of the decision, of closing a request, of disabling an authority and of the
  claim, its resumption and its completion, and the refinement of all operations by \<open>effect\<close>.
\<close>

subsection \<open>Recording a decision\<close>

lemma collapse_touched:
  "rq_request_id r' = i \<Longrightarrow> upd_requests (put_row rq_request_id r') (upd_decisions g (upd_requests (update_rows (matches org i n) (touched now)) t)) =
   upd_requests (put_row rq_request_id r') (upd_decisions g t)"
  by (simp add: upd_commute upd_requests_twice put_touched)

lemma collapse_put:
  "rq_request_id r' = rq_request_id r \<Longrightarrow> upd_requests (put_row rq_request_id r') (upd_requests (put_row rq_request_id r) t) =
   upd_requests (put_row rq_request_id r') t"
  by (simp add: upd_requests_twice put_put)

lemma current_authority_member:
  assumes "current_actor_authorities actor roles t = [a]"
  shows "a \<in> set (authorities t) \<and> au_organization_id a = a_organization_id actor \<and> au_user_id a = a_user_id actor \<and>
    au_role a \<in> set roles \<and> authority_in_force t a"
proof -
  have "a \<in> set (current_actor_authorities actor roles t)" using assms by simp
  then show ?thesis by (auto simp: current_actor_authorities_def split: if_splits)
qed

lemma approved_roles_alt:
  "approved_roles org i t = dc_approval_role ` set (filter (\<lambda>x. dc_decision x = Approved) (decisions_of org i t))"
  by (simp add: approved_roles_def approved_decisions_def)

lemma record_decision_effect:
  assumes r: "r \<in> set (requests t0)" "matches org i n r" "now < rq_expires_at r"
    and u: "a_user_id actor \<notin> {rq_requester_user_id r, rq_executor_user_id r}" "a_organization_id actor = org"
    and prior: "\<not> list_ex (\<lambda>d. dc_approver_user_id d = a_user_id actor) (decisions_of org i t0)"
    and a: "current_actor_authorities actor (filter (\<lambda>role. role \<notin> dc_approval_role ` set (decisions_of org i t0)) (rq_required_roles r)) t0 = [a]"
  shows "commits (effect_or_same org (a_user_id actor) now t0) t0 (upd_requests (update_rows (matches org i n) (touched now)) t0)
     (record_decision v actor org (touched now r) n p (decisions_of org i t0) a now)"
proof -
  have i: "rq_request_id r = i" "rq_organization_id r = org" "rq_status r = RequestPending" using r(2) by (simp_all add: matches_def)
  define d where "d = (\<lambda>x (e :: audit_event). new_decision org (touched now r) p x (a_user_id actor) a n (ev_sequence e) now)"
  have d: "decides org (a_user_id actor) now t0 r (d x e)" for x e
    using current_authority_member [OF a] r(1,3) i u prior
    by (auto simp: decides_def pending_at_def d_def new_decision_def touched_def list_ex_iff image_iff)
  have dd: "dc_decision (d x e) = dp_decision p" "dc_reason (d x e) = dp_reason p" "dc_approval_role (d x e) = au_role a" for x e
    by (simp_all add: d_def new_decision_def)
  have touch: "rq_request_id (touched now r) = i" "rq_organization_id (touched now r) = org" "rq_required_roles (touched now r) = rq_required_roles r"
    using i by (simp_all add: touched_def)
  have fin: "request_update RequestPending (rq_closed_reason r) m now r = (touched now r)\<lparr>rq_audit_sequence := m\<rparr>"
    "request_update RequestRejected w m now r = (touched now r)\<lparr>rq_audit_sequence := m, rq_status := RequestRejected, rq_closed_reason := w\<rparr>"
    "request_update RequestApproved (rq_closed_reason r) m' now r =
      (touched now r)\<lparr>rq_audit_sequence := m, rq_status := RequestApproved, rq_audit_sequence := m'\<rparr>" for m m' w
    using i(3) by (simp_all add: request_update_def touched_def)
  have fold_d: "new_decision org (touched now r) p x (a_user_id actor) a n (ev_sequence e) now = d x e" for x e
    by (simp add: d_def)
  let ?t = "\<lambda>x e. upd_decisions (\<lambda>ds. ds @ [d x e]) (upd_requests (update_rows (matches org i n) (touched now)) t0)"
  let ?r = "\<lambda>e :: audit_event. (touched now r)\<lparr>rq_audit_sequence := ev_sequence e\<rparr>"
  show ?thesis
    unfolding record_decision_def Let_def fold_d
  proof (intro commits_opaque_id commits_audit effect_or_same_refl commits_store blind_upd commits_put_request commits_if
      commits_finish_decision, goal_cases rejected granted pending)
    case (rejected x e c)
    then show ?case
      using eff_reject [OF d, of x e "ev_sequence e"] touch i by (simp add: collapse_put collapse_touched dd fin effect_or_sameI)
  next
    case (granted x e)
    show ?case
    proof (rule commits_issue_grant, goal_cases)
      case (1 m g raw)
      have "effect org (a_user_id actor) now t0 (upd_grants (\<lambda>gs. gs @ [g])
        (upd_requests (put_row rq_request_id (?r e\<lparr>rq_status := RequestApproved, rq_audit_sequence := m\<rparr>))
        (upd_decisions (\<lambda>ds. ds @ [d x e]) t0)))"
        unfolding fin(3) [of m "ev_sequence e", symmetric]
        by (rule eff_grant [OF d]) (use granted 1 i in \<open>auto simp: dd approved_roles_alt issued_grant_def grant_of_def touched_def\<close>,
            (cases "dp_decision p"; simp))
      then show ?case
        unfolding prod.case
        by (intro commits_finish_decision effect_or_same_refl)
          (use touch in \<open>simp add: collapse_put collapse_touched effect_or_sameI\<close>)
    qed (use touch in simp_all)
  next
    case (pending x e c)
    moreover have "dp_decision p = Approved" using pending(1) by (cases "dp_decision p") simp_all
    ultimately show ?case
      using eff_approve [OF d, of x e "ev_sequence e"] touch i
      by (simp add: collapse_put collapse_touched dd fin effect_or_sameI approved_roles_alt)
  qed
qed

lemma matches_eta: "(\<lambda>r. rq_organization_id r = org \<and> rq_request_id r = i \<and> rq_version r = n \<and> rq_status r = RequestPending) = matches org i n"
  and touched_eta: "(\<lambda>r. r\<lparr>rq_version := rq_version r + 1, rq_updated_at := now\<rparr>) = touched now"
  by (simp_all add: fun_eq_iff matches_def touched_def)

lemma filter_single: "filter P xs = [r] \<Longrightarrow> r \<in> set xs \<and> P r"
  by (auto simp: filter_eq_Cons_iff)

lemma decide_request_effect:
  "commits (effect_or_same org (a_user_id actor) now t0) t0 t0 (decide_request v actor org i n p now)"
  unfolding decide_request_def matches_eta touched_eta
proof (intro commits_organization commits_find_request commits_require commits_update_returning effect_or_same_refl
    blind_fields blind_upd, goal_cases found missing)
  case (found r)
  then have r: "r \<in> set (requests t0)" "matches org i n r" using filter_single by fast+
  have same: "rq_expires_at (touched now r) = rq_expires_at r" "rq_requester_user_id (touched now r) = rq_requester_user_id r"
    "rq_executor_user_id (touched now r) = rq_executor_user_id r" "rq_required_roles (touched now r) = rq_required_roles r"
    by (simp_all add: touched_def)
  show ?case
    unfolding option.case same
  proof (intro commits_if commits_rollback_raise commits_query effect_or_same_refl blind_decisions_of blind_current_authorities,
      goal_cases expired live)
    case expired
    then show ?case using expire_request_effect [OF r, of now] by simp
  next
    case live
    then show ?case
      unfolding current_authorities_upd decisions_of_upd
      using record_decision_effect [OF r, of now actor _ v p] found(1)
      by (auto intro: commits_rollback_raise split: list.split)
  qed
qed (simp add: commits_rollback_raise)

subsection \<open>Rows under a unique key\<close>

lemma unique_on_inj: "unique_on key rs \<Longrightarrow> x \<in> set rs \<Longrightarrow> y \<in> set rs \<Longrightarrow> key x = key y \<Longrightarrow> x = y"
  by (simp add: unique_on_def distinct_map inj_on_def)

lemma foldl_put_rows:
  assumes "unique_on key rs" and "set ys \<subseteq> set rs" and "\<And>x. key (h x) = key x"
  shows "foldl (\<lambda>xs g. put_row key (h g) xs) rs ys = update_rows (\<lambda>x. x \<in> set ys) h rs"
  using assms(2)
proof (induction ys rule: rev_induct)
  case (snoc g gs)
  then have "(key x = key g) = (x = g)" if "x \<in> set rs" for x using unique_on_inj [OF assms(1) that, of g] by auto
  then show ?case using snoc by (simp add: update_rows_def put_row_def assms(3))
qed (simp add: update_rows_def)

lemma update_one_row:
  assumes "unique_on key rs" and "filter P rs = [g]" and "key (h g) = key g"
  shows "update_rows P h rs = put_row key (h g) rs"
proof -
  have "P x \<longleftrightarrow> x = g" if "x \<in> set rs" for x
  proof -
    have "P x \<longleftrightarrow> x \<in> set (filter P rs)" using that by simp
    also have "\<dots> \<longleftrightarrow> x = g" unfolding assms(2) by simp
    finally show ?thesis .
  qed
  moreover have "key x = key g \<longleftrightarrow> x = g" if "x \<in> set rs" for x
    using unique_on_inj [OF assms(1) that, of g] filter_single [OF assms(2)] by auto
  ultimately show ?thesis by (auto simp: update_rows_def put_row_def assms(3))
qed

lemma list_all2_put_row:
  assumes "list_all2 R xs ys" and "unique_on key xs" and "\<And>x y. R x y \<Longrightarrow> key y = key x" and "x \<in> set xs" and "R x z"
  shows "list_all2 R xs (put_row key z ys)"
proof (rule list_all2_all_nthI)
  show "length xs = length (put_row key z ys)" using assms(1) by (simp add: put_row_def list_all2_lengthD)
  fix i assume i: "i < length xs"
  then have R: "R (xs ! i) (ys ! i)" using assms(1) by (simp add: list_all2_conv_all_nth)
  have "xs ! i = x" if "key (ys ! i) = key z"
    using unique_on_inj [OF assms(2), of "xs ! i" x] i assms(3) [OF R] assms(3) [OF assms(5)] assms(4) that by simp
  then show "R (xs ! i) (put_row key z ys ! i)"
    using R i assms(5) list_all2_lengthD [OF assms(1)] by (auto simp: put_row_def)
qed

lemma tables_valid_unique:
  assumes "tables_valid t"
  shows "unique_on gr_grant_id (grants t)" "unique_on rq_request_id (requests t)" "unique_on grant_request (grants t)"
    "unique_on au_authority_id (authorities t)"
  using assms by (simp_all add: tables_valid_def grants_keys_ok_def requests_keys_ok_def authorities_keys_ok_def)

lemma upd_grants_cong: "f (grants t) = g (grants t) \<Longrightarrow> upd_grants f t = upd_grants g t"
  by (simp add: upd_grants_def)

subsection \<open>Closing a request\<close>

lemma commits_put_grants:
  "commits D t0 (upd_grants (\<lambda>rs. foldl (\<lambda>xs g. put_row gr_grant_id (h g) xs) rs gs) t) (k ()) \<Longrightarrow>
   commits D t0 t (andthen (for_each (\<lambda>g. put_grant (h g)) gs) k)"
proof (induction gs arbitrary: t)
  case Nil
  then show ?case by (simp add: upd_grants_def)
next
  case (Cons g gs)
  then show ?case by (simp add: method_assoc commits_put_grant Cons.IH upd_grants_def)
qed

lemma commits_get_request:
  assumes "\<And>r. r \<in> set (requests t) \<Longrightarrow> rq_organization_id r = org \<Longrightarrow> rq_request_id r = i \<Longrightarrow> commits D t0 t (f r)" and "D t0"
  shows "commits D t0 t (andthen (get_request actor org i) f)"
  unfolding get_request_def method_assoc
proof (intro commits_organization commits_find_request assms(2))
  show "commits D t0 t (andthen (case find (\<lambda>r. rq_organization_id r = org \<and> rq_request_id r = i) (requests t) of
      None \<Rightarrow> raise ResourceNotFound | Some r \<Rightarrow> ret r) f)"
    using assms by (auto simp: find_Some_iff commits_def andthen_def raise_def ret_def open_at_def split: option.split)
qed

text \<open>The rows \<open>close_request\<close> updates, and how.\<close>

definition closes :: "string \<Rightarrow> string \<Rightarrow> int \<Rightarrow> approval_request \<Rightarrow> bool" where
  "closes org i n r \<longleftrightarrow> rq_organization_id r = org \<and> rq_request_id r = i \<and> rq_version r = n \<and> rq_status r \<in> {RequestPending, RequestApproved}"

definition closed_row :: "request_status \<Rightarrow> approval_reason \<Rightarrow> datetime \<Rightarrow> approval_request \<Rightarrow> approval_request" where
  "closed_row st why now r = r\<lparr>rq_status := st, rq_closed_reason := Some why, rq_version := rq_version r + 1, rq_updated_at := now\<rparr>"

lemma closes_eta: "(\<lambda>r. rq_organization_id r = org \<and> rq_request_id r = i \<and> rq_version r = n \<and> rq_status r \<in> {RequestPending, RequestApproved}) = closes org i n"
  and closed_row_eta: "(\<lambda>r. r\<lparr>rq_status := st, rq_closed_reason := Some why, rq_version := rq_version r + 1, rq_updated_at := now\<rparr>) = closed_row st why now"
  by (simp_all only: fun_eq_iff closes_def closed_row_def) simp_all

lemma collapse_closed:
  "rq_request_id r' = i \<Longrightarrow> upd_requests (put_row rq_request_id r') (upd_requests (update_rows (closes org i n) (closed_row st why now)) t) =
   upd_requests (put_row rq_request_id r') t"
  by (subst upd_requests_twice, subst put_update) (simp_all add: closes_def closed_row_def)

lemma close_request_effect:
  assumes "tables_valid t0"
  shows "commits (effect_or_same org (a_user_id actor) now t0) t0 t0 (close_request v actor org i n why invalidate now)"
  unfolding close_request_def Let_def closes_eta closed_row_eta
proof (intro commits_organization commits_get_request commits_require commits_update_returning effect_or_same_refl blind_fields blind_upd,
    goal_cases found missing)
  case (found r0 r)
  let ?st = "if invalidate then RequestInvalidated else RequestCancelled"
  let ?gs = "filter (\<lambda>g. gr_organization_id g = org \<and> gr_request_id g = i \<and> gr_status g = GrantIssued) (grants t0)"
  let ?r = "\<lambda>e :: audit_event. request_update ?st (Some why) (ev_sequence e) now r"
  have r: "r \<in> set (requests t0)" "closes org i n r" using filter_single [OF found(6)] by simp_all
  then have i: "rq_request_id r = i" "rq_organization_id r = org" by (simp_all add: closes_def)
  have seq: "(closed_row ?st why now r)\<lparr>rq_audit_sequence := m\<rparr> = request_update ?st (Some why) m now r" for m
    by (simp add: closed_row_def request_update_def)
  have revoke: "revoke_grant now = (\<lambda>g. put_grant (grant_update GrantRevoked now g))"
    by (simp add: fun_eq_iff revoke_grant_def grant_update_def)
  have fold: "upd_grants (\<lambda>rs. foldl (\<lambda>xs g. put_row gr_grant_id (grant_update GrantRevoked now g) xs) rs ?gs) (upd_requests f t0) =
      upd_grants (update_rows (\<lambda>g. grant_request g = org_request r \<and> gr_status g = GrantIssued) (grant_update GrantRevoked now)) (upd_requests f t0)" for f
    by (rule upd_grants_cong, subst foldl_put_rows)
      (use tables_valid_unique [OF assms] i in \<open>auto simp: grant_update_def update_rows_def\<close>)
  show ?case
    unfolding option.case seq revoke
  proof (intro commits_audit commits_put_request commits_query effect_or_same_refl commits_put_grants commits_commit
      settled_andthen settled_for_each settled_simps, goal_cases blind committed)
    case blind
    show ?case by (simp add: blind_def)
  next
    case (committed e c)
    have "rq_request_id (?r e) = i" using i by (simp add: request_update_def)
    then show ?case
      using committed(1) eff_close [OF r(1), of org ?st "a_user_id actor" now why "ev_sequence e"] r(2)
      by (auto simp: collapse_closed fold closes_def intro: effect_or_sameI)
  qed
qed (simp add: commits_rollback_raise)

subsection \<open>Disabling an authority\<close>

lemma commits_for_each:
  assumes step: "\<And>x t (k :: unit \<Rightarrow> 'b control). x \<in> set xs \<Longrightarrow> J t \<Longrightarrow> (\<And>t'. J t' \<Longrightarrow> commits D t0 t' (k ())) \<Longrightarrow> commits D t0 t (andthen (f x) k)"
    and "J t" and k: "\<And>t'. J t' \<Longrightarrow> commits D t0 t' (k () :: 'b control)"
  shows "commits D t0 t (andthen (for_each f xs) k)"
  using assms(2) step
proof (induction xs arbitrary: t)
  case (Cons x xs)
  show ?case
    unfolding for_each.simps method_assoc
    by (rule Cons.prems(2)) (use Cons in \<open>auto\<close>)
qed (simp add: k)

definition revoked_from :: "string \<Rightarrow> datetime \<Rightarrow> approval_grant \<Rightarrow> approval_grant \<Rightarrow> bool" where
  "revoked_from org now g g' \<longleftrightarrow> g' = g \<or> (gr_organization_id g = org \<and> gr_status g = GrantIssued \<and> g' = grant_update GrantRevoked now g)"

definition invalidated_from :: "string \<Rightarrow> datetime \<Rightarrow> approval_request \<Rightarrow> approval_request \<Rightarrow> bool" where
  "invalidated_from org now r r' \<longleftrightarrow> r' = r \<or> (rq_organization_id r = org \<and> rq_status r = RequestApproved \<and>
     (\<exists>n. r' = request_update RequestInvalidated (Some AuthorityInactive) n now r))"

definition disabled_from :: "string \<Rightarrow> datetime \<Rightarrow> approval_authority \<Rightarrow> approval_authority \<Rightarrow> bool" where
  "disabled_from org now a a' \<longleftrightarrow> a' = a \<or> (au_organization_id a = org \<and> au_status a = AuthorityActive \<and>
     a' = a\<lparr>au_status := AuthorityDisabled, au_version := au_version a + 1, au_updated_at := now\<rparr>)"

text \<open>The loop invariant: some grants are revoked, some requests invalidated.\<close>

definition revoking :: "string \<Rightarrow> datetime \<Rightarrow> tables \<Rightarrow> tables \<Rightarrow> bool" where
  "revoking org now t t' \<longleftrightarrow> (\<exists>gs' rs'. list_all2 (revoked_from org now) (grants t) gs' \<and>
     list_all2 (invalidated_from org now) (requests t) rs' \<and> t' = t\<lparr>grants := gs', requests := rs'\<rparr>)"

lemma revoking_refl: "revoking org now t t"
  unfolding revoking_def
  by (intro exI [of _ "grants t"] exI [of _ "requests t"]) (simp add: list_all2_same revoked_from_def invalidated_from_def)

lemma revoking_put_grant:
  assumes "revoking org now t t'" "unique_on gr_grant_id (grants t)" "g \<in> set (grants t)" "gr_organization_id g = org" "gr_status g = GrantIssued"
  shows "revoking org now t (upd_grants (put_row gr_grant_id (grant_update GrantRevoked now g)) t')"
proof -
  obtain gs' rs' where J: "list_all2 (revoked_from org now) (grants t) gs'" "list_all2 (invalidated_from org now) (requests t) rs'"
    "t' = t\<lparr>grants := gs', requests := rs'\<rparr>" using assms(1) by (auto simp: revoking_def)
  have "list_all2 (revoked_from org now) (grants t) (put_row gr_grant_id (grant_update GrantRevoked now g) gs')"
    by (rule list_all2_put_row [OF J(1) assms(2) _ assms(3)])
      (use assms in \<open>auto simp: revoked_from_def grant_update_def\<close>)
  then show ?thesis unfolding revoking_def
    by (intro exI [of _ "put_row gr_grant_id (grant_update GrantRevoked now g) gs'"] exI [of _ rs']) (simp add: J upd_grants_def)
qed

lemma revoking_put_request:
  assumes "revoking org now t t'" "unique_on rq_request_id (requests t)" "r \<in> set (requests t')" "rq_organization_id r = org"
    "rq_status r = RequestApproved"
  shows "revoking org now t (upd_requests (put_row rq_request_id (request_update RequestInvalidated (Some AuthorityInactive) n now r)) t')"
proof -
  obtain gs' rs' where J: "list_all2 (revoked_from org now) (grants t) gs'" "list_all2 (invalidated_from org now) (requests t) rs'"
    "t' = t\<lparr>grants := gs', requests := rs'\<rparr>" using assms(1) by (auto simp: revoking_def)
  obtain i where i: "i < length rs'" "r = rs' ! i" using assms(3) J(3) by (auto simp: in_set_conv_nth)
  then have "invalidated_from org now (requests t ! i) r" using J(2) by (simp add: list_all2_conv_all_nth)
  then have "r = requests t ! i" using assms(5) by (auto simp: invalidated_from_def request_update_def)
  then have r: "r \<in> set (requests t)" using i list_all2_lengthD [OF J(2)] by simp
  have "list_all2 (invalidated_from org now) (requests t)
      (put_row rq_request_id (request_update RequestInvalidated (Some AuthorityInactive) n now r) rs')"
    by (rule list_all2_put_row [OF J(2) assms(2) _ r]) (use assms in \<open>auto simp: invalidated_from_def request_update_def\<close>)
  then show ?thesis unfolding revoking_def
    by (intro exI [of _ gs'] exI [of _ "put_row rq_request_id (request_update RequestInvalidated (Some AuthorityInactive) n now r) rs'"])
      (simp add: J upd_requests_def)
qed

lemma commits_revoke_for_authority:
  assumes "revoking org now t1 t" "tables_valid t0" "grants t1 = grants t0" "requests t1 = requests t0"
    "g \<in> set (grants t1)" "gr_organization_id g = org" "gr_status g = GrantIssued"
    and k: "\<And>t'. revoking org now t1 t' \<Longrightarrow> commits D t0 t' (k ())" and "D t0"
  shows "commits D t0 t (andthen (revoke_for_authority v actor org now g) k)"
proof -
  note u = tables_valid_unique(1,2) [OF assms(2), folded assms(3,4)]
  let ?t = "upd_grants (put_row gr_grant_id (grant_update GrantRevoked now g)) t"
  have J: "revoking org now t1 ?t" using revoking_put_grant [OF assms(1) u(1) assms(5,6,7)] .
  have fold: "g\<lparr>gr_status := GrantRevoked, gr_version := gr_version g + 1, gr_updated_at := now\<rparr> = grant_update GrantRevoked now g"
    by (simp add: grant_update_def)
  show ?thesis
    unfolding revoke_for_authority_def method_assoc fold
  proof (intro commits_put_grant commits_find_request, goal_cases)
    case 1
    let ?found = "find (\<lambda>r. rq_organization_id r = org \<and> rq_request_id r = gr_request_id g) (requests ?t)"
    show ?case
    proof (cases "\<exists>r. ?found = Some r \<and> rq_status r = RequestApproved")
      case True
      then obtain r where r: "?found = Some r" "rq_status r = RequestApproved" by blast
      then have in_t: "r \<in> set (requests ?t)" "rq_organization_id r = org" by (auto simp: find_Some_iff)
      have seq: "r\<lparr>rq_status := RequestInvalidated, rq_closed_reason := Some AuthorityInactive, rq_version := rq_version r + 1,
          rq_updated_at := now, rq_audit_sequence := n\<rparr> = request_update RequestInvalidated (Some AuthorityInactive) n now r" for n
        by (simp add: request_update_def)
      show ?thesis
        unfolding r(1) option.case Let_def method_assoc
        apply (simp only: r(2) simp_thms if_False method_assoc)
        apply (intro commits_put_request commits_audit assms(9))
        unfolding seq
        apply (subst collapse_put, simp add: request_update_def)
        apply (rule k, rule revoking_put_request [OF J u(2) in_t r(2)])
        done
    next
      case False
      then show ?thesis using k [OF J] by (auto split: option.split)
    qed
  qed
qed

lemma disable_authority_effect:
  assumes "tables_valid t0"
  shows "commits (effect_or_same org (a_user_id actor) now t0) t0 t0 (disable_authority v actor org aid n now)"
  unfolding disable_authority_def
proof (intro commits_organization commits_scalar commits_require commits_update_returning effect_or_same_refl blind_fields blind_upd,
    goal_cases found missing)
  case (found a)
  define P where "P = (\<lambda>a :: approval_authority. au_organization_id a = org \<and> au_authority_id a = aid \<and> au_version a = n \<and> au_status a = AuthorityActive)"
  define h where "h = (\<lambda>a :: approval_authority. a\<lparr>au_status := AuthorityDisabled, au_version := au_version a + 1, au_updated_at := now\<rparr>)"
  define t1 where "t1 = upd_authorities (update_rows P h) t0"
  have t1: "grants t1 = grants t0" "requests t1 = requests t0" "authorities t1 = update_rows P h (authorities t0)"
    by (simp_all add: t1_def)
  have disabled: "list_all2 (disabled_from org now) (authorities t0) (update_rows P h (authorities t0))"
    by (auto simp: update_rows_def list_all2_conv_all_nth disabled_from_def P_def h_def)
  have D: "effect_or_same org (a_user_id actor) now t0 c" if "revoking org now t1 t'" "committed_as t' c" for t' c
  proof -
    obtain gs' rs' where J: "list_all2 (revoked_from org now) (grants t0) gs'" "list_all2 (invalidated_from org now) (requests t0) rs'"
      "t' = t1\<lparr>grants := gs', requests := rs'\<rparr>" using \<open>revoking org now t1 t'\<close> t1 by (auto simp: revoking_def)
    have "t' = t0\<lparr>authorities := update_rows P h (authorities t0), grants := gs', requests := rs'\<rparr>"
      using J(3) by (simp add: t1_def upd_defs)
    then show ?thesis
      using eff_disable [OF J(1,2) [unfolded revoked_from_def invalidated_from_def] disabled [unfolded disabled_from_def]] that(2)
      by (auto intro: effect_or_sameI)
  qed
  show ?case
    unfolding option.case P_def [symmetric] h_def [symmetric] t1_def [symmetric]
  proof (rule commits_query, goal_cases)
    case 1
    show ?case by (simp add: blind_def affected_grants_def)
  next
    case 2
    show ?case
    proof (rule commits_for_each [where J = "revoking org now t1"], goal_cases)
      case (1 g t k)
      then show ?case
        by (intro commits_revoke_for_authority [OF _ assms t1(1,2)]) (auto simp: affected_grants_def)
    next
      case 2
      show ?case by (rule revoking_refl)
    next
      case (3 t')
      then show ?case
        by (intro commits_audit commits_commit effect_or_same_refl settled_andthen settled_for_each settled_simps) (rule D)
    qed
  qed
qed (simp add: commits_rollback_raise)

subsection \<open>Claiming\<close>

text \<open>A method that raises has not committed.\<close>

definition fails_clean :: "'a control \<Rightarrow> bool" where
  "fails_clean m \<longleftrightarrow> (\<forall>s e s'. m s = (Inl e, s') \<longrightarrow> committed s' = committed s)"

definition never_fails :: "'a control \<Rightarrow> bool" where
  "never_fails m \<longleftrightarrow> (\<forall>s e s'. m s \<noteq> (Inl e, s'))"

lemma fails_clean_settled [intro]: "settled m \<Longrightarrow> fails_clean m"
  unfolding settled_def fails_clean_def by (metis snd_conv)

lemma fails_clean_then [intro]: "settled m \<Longrightarrow> (\<And>x. fails_clean (f x)) \<Longrightarrow> fails_clean (andthen m f)"
  unfolding settled_def fails_clean_def by (auto simp: run_iff) (metis snd_conv)+

lemma fails_clean_commit [intro]: "(\<And>x. never_fails (f x)) \<Longrightarrow> fails_clean (andthen commit f)"
  by (auto simp: fails_clean_def never_fails_def commit_def run_iff split: if_splits)

lemma never_fails_simps [intro]: "never_fails (ret x)" "never_fails (vault_discard g)"
  "never_fails m \<Longrightarrow> (\<And>x. never_fails (f x)) \<Longrightarrow> never_fails (andthen m f)"
  by (auto simp: never_fails_def vault_discard_def modify_def run_iff)

lemma settled_statements [intro]:
  "settled (query q)" "settled (store h)" "settled (require b e)" "settled (draw g)" "settled (vault_peek i)" "settled (one_or_none rs)"
  "settled (scalar tbl P)" "settled (evaluated r)" "settled (risk_facts org action params)"
  by (auto simp: settled_def meth_defs query_def store_def require_def draw_def vault_peek_def one_or_none_def scalar_def evaluated_def
      risk_facts_def split: list.split sum.split option.split json.split)

lemma settled_audit [intro]: "settled (audit v actor org ty subject extra now)"
  unfolding settled_def
proof
  fix s
  have a: "open_at (committed s) (current s) s" by (simp add: open_at_def)
  show "committed (snd (audit v actor org ty subject extra now s)) = committed s"
  proof (cases "audit v actor org ty subject extra now s")
    case (Pair r s')
    then have "open_at (committed s) (current s) s'"
      using triple_Inl [OF audit_triple a] triple_Inr [OF audit_triple a] by (cases r) blast+
    then show ?thesis using Pair by (simp add: open_at_start)
  qed
qed

lemma settled_cases: "settled a \<Longrightarrow> (\<And>x. settled (b x)) \<Longrightarrow> settled (case_option a b found)"
  and settled_prod: "(\<And>x y. settled (c x y)) \<Longrightarrow> settled (case_prod c p)"
  by (auto split: option.split prod.split)

lemmas settled_rules = settled_andthen settled_statements settled_simps settled_audit settled_for_each settled_cases settled_prod

lemma settled_methods:
  "settled (opaque_id v pre)" "settled (update_returning tbl upd P h)" "settled (put_request r)" "settled (put_grant g)"
  "settled (approval_set_hash v org ds)" "settled (active_approval_set v r)"
  unfolding opaque_id_def update_returning_def put_request_def put_grant_def approval_set_hash_def active_approval_set_def
  by (intro settled_rules)+

lemma fails_clean_cases: "fails_clean a \<Longrightarrow> (\<And>x. fails_clean (b x)) \<Longrightarrow> fails_clean (case_option a b found)"
  and fails_clean_prod: "(\<And>x y. fails_clean (c x y)) \<Longrightarrow> fails_clean (case_prod c p)"
  by (auto split: option.split prod.split)

lemmas fails_clean_rules = fails_clean_then fails_clean_commit never_fails_simps fails_clean_cases fails_clean_prod settled_methods
  settled_rules fails_clean_settled

lemma record_claim_clean: "fails_clean (record_claim v actor org r c x now None)"
  unfolding record_claim_def Let_def option.case by (intro fails_clean_rules)

lemma claim_body_clean: "fails_clean (claim_body v actor org r g p now None)"
  unfolding claim_body_def by (intro fails_clean_rules record_claim_clean)

text \<open>A method with a handler that starts by rolling back.\<close>

lemma commits_catch:
  assumes "commits D t0 t m" "fails_clean m" and h: "\<And>e s. committed s = t0 \<Longrightarrow> D (committed (snd (h e s)))"
  shows "commits D t0 t (\<lambda>s. case m s of (Inr c, s') \<Rightarrow> (Inr c, s') | (Inl e, s') \<Rightarrow> h e s')"
proof (rule commitsI)
  fix s assume s: "open_at t0 t s"
  show "D (committed (snd (case m s of (Inr c, s') \<Rightarrow> (Inr c, s') | (Inl e, s') \<Rightarrow> h e s')))"
  proof (cases "m s")
    case (Pair r s')
    show ?thesis
    proof (cases r)
      case (Inl e)
      then have "committed s' = t0" using assms(2) Pair open_at_start [OF s] by (simp add: fails_clean_def)
      then show ?thesis using h Pair Inl by simp
    next
      case (Inr c)
      then show ?thesis using commitsD [OF assms(1) s] Pair by simp
    qed
  qed
qed

lemma commits_suppress:
  assumes "commits D t0 t m"
  shows "commits D t0 t (andthen (\<lambda>s. case m s of (Inl _, s') \<Rightarrow> rollback s' | (Inr u, s') \<Rightarrow> (Inr u, s')) (\<lambda>_. raise e))"
proof (rule commitsI)
  fix s assume s: "open_at t0 t s"
  show "D (committed (snd (andthen (\<lambda>s. case m s of (Inl _, s') \<Rightarrow> rollback s' | (Inr u, s') \<Rightarrow> (Inr u, s')) (\<lambda>_. raise e) s)))"
    using commitsD [OF assms s] by (auto simp: andthen_def rollback_def modify_def raise_def split: prod.splits sum.splits)
qed

lemma commits_vault_discard: "commits D t0 t (f ()) \<Longrightarrow> commits D t0 t (andthen (vault_discard g) f)"
  by (simp add: commits_def andthen_def vault_discard_def modify_def open_at_def)

lemma commits_vault_peek: "(\<And>c. commits D t0 t (f c)) \<Longrightarrow> commits D t0 t (andthen (vault_peek g) f)"
  by (simp add: commits_def andthen_def vault_peek_def)

lemma claim_failed_effect:
  assumes "committed s = t0"
  shows "effect_or_same org u now t0 (committed (snd (claim_failed v actor org i g now e s)))"
proof -
  have open0: "open_at t0 t0 (s\<lparr>current := committed s\<rparr>)" using assms by (simp add: open_at_def)
  have "commits (effect_or_same org u now t0) t0 t0 (if e \<in> {GrantRejected, RiskSchemaRejected}
     then andthen (vault_discard (gr_grant_id g)) (\<lambda>_.
          andthen (\<lambda>s. case andthen (audit v actor org EvGrantRejected (gr_grant_id g) (rejection_fields i g) now) (\<lambda>_. commit) s of
              (Inl _, s') \<Rightarrow> rollback s' | (Inr u, s') \<Rightarrow> (Inr u, s')) (\<lambda>_. raise e))
     else (raise e :: 'a control))"
    by (intro commits_if commits_vault_discard commits_suppress commits_audit commits_commit_end commits_raise effect_or_same_refl)
      (rule effect_or_same_auditI)
  from commitsD [OF this open0] show ?thesis
    unfolding claim_failed_def by (simp add: andthen_def rollback_def modify_def)
qed

lemma commits_active_approval_set:
  assumes "\<And>h. dc_approval_role ` set (approved_decisions (rq_organization_id r) (rq_request_id r) t) = set (rq_required_roles r) \<Longrightarrow>
      list_all (decision_in_force t r) (approved_decisions (rq_organization_id r) (rq_request_id r) t) \<Longrightarrow>
      commits D t0 t (f (approved_decisions (rq_organization_id r) (rq_request_id r) t, h))"
    and "D t0"
  shows "commits D t0 t (andthen (active_approval_set v r) f)"
  unfolding active_approval_set_def method_assoc
proof (intro commits_query blind_approved_decisions commits_require commits_approval_set_hash assms(2), goal_cases)
  case (1)
  show ?case
    unfolding blind_def decision_in_force_def using in_force_cong [of "no_audit t" t for t] by simp
next
  case (2 h)
  then show ?case by (simp add: assms(1))
qed

lemma find_row: "find P xs = Some x \<Longrightarrow> x \<in> set xs \<and> P x"
  by (auto simp: find_Some_iff)

definition claimed_grant :: "datetime \<Rightarrow> string \<Rightarrow> string \<Rightarrow> approval_grant \<Rightarrow> approval_grant" where
  "claimed_grant now x h g = (grant_update GrantClaimed now g)\<lparr>gr_execution_id := Some x, gr_authorization_hash := Some h, gr_claimed_at := Some now\<rparr>"

lemma claimed_grant_eta: "(\<lambda>x. x\<lparr>gr_status := GrantClaimed, gr_version := gr_version x + 1, gr_execution_id := Some i,
    gr_authorization_hash := Some h, gr_claimed_at := Some now, gr_updated_at := now\<rparr>) = claimed_grant now i h"
  by (simp add: fun_eq_iff claimed_grant_def grant_update_def)

lemma collapse_put_grants:
  "rq_request_id r' = rq_request_id r \<Longrightarrow> upd_requests (put_row rq_request_id r') (upd_requests (put_row rq_request_id r) (upd_grants h t)) =
   upd_requests (put_row rq_request_id r') (upd_grants h t)"
  by (rule collapse_put)

lemma commits_prod: "(\<And>x y. p = (x, y) \<Longrightarrow> commits D t0 t (f x y)) \<Longrightarrow> commits D t0 t (case_prod f p)"
  by (cases p) simp

lemma claim_body_effect:
  assumes valid: "tables_valid t0"
    and r: "r \<in> set (requests t0)" "rq_organization_id r = org" "rq_request_id r = i" "rq_executor_user_id r = a_user_id actor"
    and g: "g \<in> set (grants t0)" "gr_organization_id g = org" "gr_request_id g = i"
  shows "commits (effect_or_same org (a_user_id actor) now t0) t0 t0 (claim_body v actor org r g p now None)"
  unfolding claim_body_def claimed_grant_eta
proof (intro commits_vault_peek, goal_cases)
  case (1 c)
  show ?case
  proof (cases c)
    case (Some credential)
    let ?h = "a_authorization_hash actor"
    show ?thesis
      unfolding Some option.case
    proof (intro commits_evaluated commits_prod commits_risk_facts commits_active_approval_set commits_require commits_opaque_id
        commits_update_returning effect_or_same_refl blind_fields blind_upd, goal_cases found missing)
      case (found parsed token_hash nonce_hash facts e h ds set_hash x y)
      note reqs = found(5,4) and accepted = found(7)
      have y: "y = g" using filter_single [OF found(8)] unique_on_inj [OF tables_valid_unique(1) [OF valid], of y g] g by auto
      have put: "upd_grants (update_rows (\<lambda>x. gr_organization_id x = org \<and> gr_grant_id x = gr_grant_id g \<and> gr_status x = GrantIssued \<and>
           gr_version x = gr_version g \<and> now < gr_expires_at x) (claimed_grant now x ?h)) t0 =
        upd_grants (put_row gr_grant_id (claimed_grant now x ?h g)) t0"
        by (rule upd_grants_cong, rule update_one_row [OF tables_valid_unique(1) [OF valid] found(8) [unfolded y]])
          (simp add: claimed_grant_def grant_update_def)
      have eff: "effect org (a_user_id actor) now t0 (upd_requests (put_row rq_request_id (request_update RequestClaimed (rq_closed_reason r) n now r))
          (upd_grants (put_row gr_grant_id (claimed_grant now x ?h g)) t0))" for n
        unfolding claimed_grant_def
        by (rule eff_claim) (use r g accepted reqs in \<open>auto simp: claim_refused_def approved_roles_def\<close>)
      have seq: "r\<lparr>rq_status := RequestClaimed, rq_version := rq_version r + 1, rq_updated_at := now, rq_audit_sequence := n\<rparr> =
        request_update RequestClaimed (rq_closed_reason r) n now r" for n
        by (simp add: request_update_def)
      show ?case
        unfolding option.case y put record_claim_def Let_def seq
        apply (intro commits_put_request commits_audit effect_or_same_refl)
        apply (simp only: ret_then)
        apply (intro commits_commit effect_or_same_refl settled_rules)
        apply (subst (asm) collapse_put, simp add: request_update_def)
        apply (erule effect_or_sameI, rule eff)
        done
    next
      case (missing parsed facts e h x)
      then show ?case by (simp add: commits_raise)
    qed
  qed (simp add: commits_raise)
qed

lemma reject_claim_effect: "commits (effect_or_same org u now t0) t0 t0 (reject_claim v actor org' subject extra now)"
  unfolding reject_claim_def by (intro commits_audit commits_commit effect_or_same_refl settled_simps) (rule effect_or_same_auditI)

lemma claim_grant_effect:
  assumes "tables_valid t0"
  shows "commits (effect_or_same org (a_user_id actor) now t0) t0 t0 (claim_grant v actor org i p now None)"
  unfolding claim_grant_def find_grant_def
proof (intro commits_organization commits_find_request commits_scalar blind_fields effect_or_same_refl, goal_cases)
  case 1
  let ?r = "find (\<lambda>r. rq_organization_id r = org \<and> rq_request_id r = i) (requests t0)"
  let ?g = "find (\<lambda>g. gr_organization_id g = org \<and> gr_request_id g = i) (grants t0)"
  show ?case
  proof (cases "?r \<noteq> None \<and> ?g \<noteq> None")
    case True
    then obtain r g where rg: "?r = Some r" "?g = Some g" by blast
    then have r: "r \<in> set (requests t0)" "rq_organization_id r = org" "rq_request_id r = i"
      and g: "g \<in> set (grants t0)" "gr_organization_id g = org" "gr_request_id g = i"
      by (auto dest!: find_row)
    show ?thesis
      unfolding rg prod.case option.case
      by (intro commits_if commits_scalar blind_fields reject_claim_effect commits_catch claim_body_effect [OF assms r _ g]
          claim_body_clean claim_failed_effect) simp
  next
    case False
    then show ?thesis by (auto intro: reject_claim_effect split: option.split)
  qed
qed

subsection \<open>Resuming and completing\<close>

lemma resume_execution_claim_effect:
  "commits (effect_or_same org u now t0) t0 t0 (resume_execution_claim v actor org x ph ah now)"
proof -
  have resumed: "commits (effect_or_same org u now t0) t0 t0 (case found of None \<Rightarrow> raise GrantRejected
       | Some r \<Rightarrow> andthen (active_approval_set v r) (\<lambda>_. andthen (audit v actor org EvRecoveryResumed x (pay r) now) (\<lambda>_.
         andthen commit (\<lambda>_. ret (res r)))))" for found pay and res :: "approval_request \<Rightarrow> execution_claim_read"
    by (cases found) (auto intro!: commits_raise commits_active_approval_set commits_audit commits_commit intro: effect_or_same_auditI)
  have checked: "commits (effect_or_same org u now t0) t0 t0 (case found of None \<Rightarrow> raise GrantRejected
       | Some g \<Rightarrow> (case gr_claimed_at g of None \<Rightarrow> raise GrantRejected | Some at' \<Rightarrow> f g at'))"
    if "\<And>g at'. commits (effect_or_same org u now t0) t0 t0 (f g at')" for found and f :: "approval_grant \<Rightarrow> datetime \<Rightarrow> execution_claim_read control"
    by (cases found) (auto intro: that commits_raise split: option.split)
  show ?thesis
    unfolding resume_execution_claim_def
    by (intro commits_organization commits_scalar checked commits_require resumed blind_fields effect_or_same_refl)
qed

definition consumed_grant :: "datetime \<Rightarrow> string \<Rightarrow> approval_grant \<Rightarrow> approval_grant" where
  "consumed_grant now x g = (grant_update GrantConsumed now g)\<lparr>gr_receipt_reference := Some x, gr_consumed_at := Some now\<rparr>"

lemma consumed_grant_eta: "(\<lambda>g. g\<lparr>gr_status := GrantConsumed, gr_version := gr_version g + 1, gr_receipt_reference := Some x,
    gr_consumed_at := Some now, gr_updated_at := now\<rparr>) = consumed_grant now x"
  by (simp add: fun_eq_iff consumed_grant_def grant_update_def)

lemma complete_execution_claim_effect:
  assumes valid: "tables_valid t0"
  shows "commits (effect_or_same org (a_user_id actor) now t0) t0 t0 (complete_execution_claim v actor org x receipt now)"
  unfolding complete_execution_claim_def consumed_grant_eta
proof (intro commits_organization commits_require commits_update_returning effect_or_same_refl blind_fields blind_upd, goal_cases found missing)
  case (found g)
  let ?P = "\<lambda>g. gr_organization_id g = org \<and> gr_execution_id g = Some x \<and> gr_executor_user_id g = a_user_id actor \<and> gr_status g = GrantClaimed"
  have g: "g \<in> set (grants t0)" "?P g" using filter_single [OF found(3)] by simp_all
  have put: "upd_grants (update_rows ?P (consumed_grant now receipt)) t0 = upd_grants (put_row gr_grant_id (consumed_grant now receipt g)) t0"
    by (rule upd_grants_cong, rule update_one_row [OF tables_valid_unique(1) [OF valid] found(3)])
      (simp add: consumed_grant_def grant_update_def)
  show ?case
    unfolding option.case put
  proof (intro commits_scalar blind_fields, goal_cases)
    case 1
    let ?r = "find (\<lambda>r. rq_organization_id r = org \<and> rq_request_id r = gr_request_id (consumed_grant now receipt g) \<and> rq_status r = RequestClaimed)
      (requests (upd_grants (put_row gr_grant_id (consumed_grant now receipt g)) t0))"
    show ?case
    proof (cases ?r)
      case None
      show ?thesis unfolding None option.case by (rule commits_rollback_raise) simp
    next
      case (Some r)
      then have r: "r \<in> set (requests t0)" "rq_organization_id r = org" "grant_request g = org_request r" "rq_status r = RequestClaimed"
        using g(2) by (auto dest!: find_row simp: consumed_grant_def grant_update_def)
      have seq: "r\<lparr>rq_status := RequestConsumed, rq_version := rq_version r + 1, rq_updated_at := now, rq_audit_sequence := n\<rparr> =
        request_update RequestConsumed (rq_closed_reason r) n now r" for n
        by (simp add: request_update_def)
      have eff: "effect org (a_user_id actor) now t0 (upd_requests (put_row rq_request_id (request_update RequestConsumed (rq_closed_reason r) n now r))
          (upd_grants (put_row gr_grant_id (consumed_grant now receipt g)) t0))" for n
        unfolding consumed_grant_def by (rule eff_complete) (use r g in auto)
      show ?thesis
        unfolding Some option.case Let_def seq
        apply (intro commits_put_request commits_audit commits_commit_end effect_or_same_refl)
        apply (subst (asm) collapse_put, simp add: request_update_def)
        apply (erule effect_or_sameI, rule eff)
        done
    qed
  qed
qed (simp add: commits_rollback_raise)

end
