(* ===== verification/Directory.thy ===== *)
theory Directory
  imports Repository Approval_Effects
begin

section \<open>Versions of the directory\<close>

text \<open>
  What the versions of the directory's resources mean. A call of \<open>repository.py\<close> either leaves the
  committed tables as they are, or every resource it changes gets a greater version, so a version
  determines a representation; and a call that names a version takes it, so no two calls that
  expect the same version of a resource both succeed.
\<close>

subsection \<open>Calls\<close>

datatype directory_call =
    UpdateOrganization int string
  | DisableOrganization int
  | CreateUser string
  | UpdateUser string int string
  | DisableUser string int
  | CreateMembership membership_create
  | UpdateMembership string int role
  | DisableMembership string int
  | CreateMemory memory_create
  | UpdateMemory string int memory_update
  | TombstoneMemory string int
  | ResetMemories int

fun directory_method :: "env \<Rightarrow> actor_context \<Rightarrow> string \<Rightarrow> directory_call \<Rightarrow> unit control" where
  "directory_method v actor org (UpdateOrganization n p) = andthen (update_organization v actor org n p) (\<lambda>_. ret ())"
| "directory_method v actor org (DisableOrganization n) = andthen (disable_organization v actor org n) (\<lambda>_. ret ())"
| "directory_method v actor org (CreateUser p) = andthen (create_user v actor org p) (\<lambda>_. ret ())"
| "directory_method v actor org (UpdateUser i n p) = andthen (update_user v actor org i n p) (\<lambda>_. ret ())"
| "directory_method v actor org (DisableUser i n) = andthen (disable_user v actor org i n) (\<lambda>_. ret ())"
| "directory_method v actor org (CreateMembership p) = andthen (create_membership v actor org p) (\<lambda>_. ret ())"
| "directory_method v actor org (UpdateMembership i n r) = andthen (update_membership v actor org i n r) (\<lambda>_. ret ())"
| "directory_method v actor org (DisableMembership i n) = andthen (disable_membership v actor org i n) (\<lambda>_. ret ())"
| "directory_method v actor org (CreateMemory p) = andthen (create_memory v actor org p) (\<lambda>_. ret ())"
| "directory_method v actor org (UpdateMemory i n p) = andthen (update_memory v actor org i n p) (\<lambda>_. ret ())"
| "directory_method v actor org (TombstoneMemory i n) = andthen (tombstone_memory v actor org i n) (\<lambda>_. ret ())"
| "directory_method v actor org (ResetMemories n) = andthen (reset_memories v actor org n) (\<lambda>_. ret ())"

definition directory :: "env \<Rightarrow> actor_context \<Rightarrow> string \<Rightarrow> directory_call \<Rightarrow> unit control" where
  "directory v actor org c = in_session (directory_method v actor org c)"

subsection \<open>Resources\<close>

datatype resource = TheOrganization | TheUser string | TheMembership string | TheMemory string | TheCollection

text \<open>The fields of the organization that only memory writes change are not part of its body.\<close>

datatype representation =
    OrganizationBody string active_status datetime
  | UserBody user
  | MembershipBody membership
  | MemoryBody organization_memory
  | CollectionBody "organization_memory list"

definition organization_body :: "organization \<Rightarrow> representation" where
  "organization_body r = OrganizationBody (og_profile_code r) (og_status r) (og_created_at r)"

abbreviation "org_membership m \<equiv> (mb_organization_id m, mb_membership_id m)"
abbreviation "org_memory m \<equiv> (om_organization_id m, om_memory_id m)"

text \<open>The version of a resource and what it represents.\<close>

fun state_of :: "string \<Rightarrow> resource \<Rightarrow> tables \<Rightarrow> (int \<times> representation) option" where
  "state_of org TheOrganization t =
     map_option (\<lambda>r. (og_version r, organization_body r)) (find (\<lambda>r. og_organization_id r = org) (organizations t))"
| "state_of org (TheUser i) t = map_option (\<lambda>r. (us_version r, UserBody r)) (find (\<lambda>r. org_user r = (org, i)) (users t))"
| "state_of org (TheMembership i) t =
     map_option (\<lambda>r. (mb_version r, MembershipBody r)) (find (\<lambda>r. org_membership r = (org, i)) (memberships t))"
| "state_of org (TheMemory i) t = map_option (\<lambda>r. (om_version r, MemoryBody r)) (find (\<lambda>r. org_memory r = (org, i)) (memories t))"
| "state_of org TheCollection t =
     map_option (\<lambda>r. (og_memory_version r, CollectionBody (active_memories org t))) (find (\<lambda>r. og_organization_id r = org) (organizations t))"

text \<open>The resource and version a call expects.\<close>

fun expects :: "directory_call \<Rightarrow> (resource \<times> int) option" where
  "expects (UpdateOrganization n p) = Some (TheOrganization, n)"
| "expects (DisableOrganization n) = Some (TheOrganization, n)"
| "expects (UpdateUser i n p) = Some (TheUser i, n)"
| "expects (DisableUser i n) = Some (TheUser i, n)"
| "expects (UpdateMembership i n r) = Some (TheMembership i, n)"
| "expects (DisableMembership i n) = Some (TheMembership i, n)"
| "expects (UpdateMemory i n p) = Some (TheMemory i, n)"
| "expects (TombstoneMemory i n) = Some (TheMemory i, n)"
| "expects (ResetMemories n) = Some (TheCollection, n)"
| "expects c = None"

subsection \<open>What an update gives\<close>

lemma update_returning_Inr:
  "update_returning tbl upd P f s = (Inr found, s') \<longleftrightarrow> s' = s\<lparr>current := upd (update_rows P f) (current s)\<rparr> \<and>
     ((filter P (tbl (current s)) = [] \<and> found = None) \<or> (\<exists>r. filter P (tbl (current s)) = [r] \<and> found = Some (f r)))"
  by (auto simp: update_returning_def run_iff one_or_none_def split: list.splits)

lemma rollback_raise_fails [simp]: "rollback_raise e s \<noteq> (Inr x, s')"
  by (auto simp: rollback_raise_def run_iff)

lemma commit_Inr: "commit s = (Inr u, s') \<longleftrightarrow> tables_valid (current s) \<and> s' = s\<lparr>committed := current s\<rparr>"
  by (auto simp: commit_def)

lemma commit_or_conflict_Inr: "commit_or_conflict e s = (Inr u, s') \<longleftrightarrow> tables_valid (current s) \<and> s' = s\<lparr>committed := current s\<rparr>"
  by (auto simp: commit_or_conflict_def commit_def)

lemma update_expected_Inr:
  "update_expected tbl upd P f s = (Inr x, s') \<Longrightarrow> \<exists>r. filter P (tbl (current s)) = [r] \<and> x = f r \<and>
     committed s' = upd (update_rows P f) (current s) \<and> tables_valid (committed s')"
  by (auto simp: update_expected_def run_iff update_returning_Inr commit_Inr split: option.splits)

subsection \<open>Tables with versioned rows\<close>

text \<open>Every row is still there, unchanged in its body or with a greater version.\<close>

definition progress :: "('r \<Rightarrow> 'k) \<Rightarrow> ('r \<Rightarrow> int) \<Rightarrow> ('r \<Rightarrow> 'b) \<Rightarrow> ('r \<Rightarrow> 'b) \<Rightarrow> 'r list \<Rightarrow> 'r list \<Rightarrow> bool" where
  "progress key version body body' rs rs' \<longleftrightarrow> (\<forall>r \<in> set rs. \<exists>r' \<in> set rs'. key r' = key r \<and>
     (version r < version r' \<or> (version r' = version r \<and> body' r' = body r)))"

lemma progress_refl [simp]: "progress key version body body rs rs"
  by (auto simp: progress_def)

lemma progress_trans:
  "progress key version b b' rs rs' \<Longrightarrow> progress key version b' b'' rs' rs'' \<Longrightarrow> progress key version b b'' rs rs''"
  unfolding progress_def by (smt (verit, best))

lemma progress_append: "progress key version body body rs (rs @ xs)"
  by (auto simp: progress_def)

lemma progress_map:
  "(\<And>r. r \<in> set rs \<Longrightarrow> key (f r) = key r \<and> (version r < version (f r) \<or> (version (f r) = version r \<and> body' (f r) = body r))) \<Longrightarrow>
   progress key version body body' rs (map f rs)"
  by (auto simp: progress_def)

lemma progress_update_rows:
  "(\<And>r. P r \<Longrightarrow> key (f r) = key r \<and> (version r < version (f r) \<or> (version (f r) = version r \<and> body (f r) = body r))) \<Longrightarrow>
   progress key version body body rs (update_rows P f rs)"
  unfolding update_rows_def by (rule progress_map) auto

text \<open>What a table promises: an update touches it alone, and its rows have one key each.\<close>

locale versioned_table =
  fixes tbl :: "tables \<Rightarrow> 'r list" and upd :: "('r list \<Rightarrow> 'r list) \<Rightarrow> tables \<Rightarrow> tables" and key :: "'r \<Rightarrow> 'k"
    and version :: "'r \<Rightarrow> int"
  assumes tbl_upd: "tbl (upd f t) = f (tbl t)"
    and one_key: "tables_valid t \<Longrightarrow> distinct (map key (tbl t))"
begin

lemma find_key: "tables_valid t \<Longrightarrow> r \<in> set (tbl t) \<Longrightarrow> find (\<lambda>x. key x = key r) (tbl t) = Some r"
proof -
  assume t: "tables_valid t" and r: "r \<in> set (tbl t)"
  obtain x where x: "find (\<lambda>x. key x = key r) (tbl t) = Some x" using r by (cases "find (\<lambda>x. key x = key r) (tbl t)") (auto simp: find_None_iff)
  then have "x \<in> set (tbl t)" "key x = key r" by (auto simp: find_Some_iff)
  then have "x = r" using one_key [OF t] r by (auto simp: distinct_map inj_on_def)
  then show ?thesis using x by simp
qed

lemma find_progress:
  assumes "progress key version body body' (tbl t) (tbl t')" and "tables_valid t'" and "find (\<lambda>x. key x = k) (tbl t) = Some r"
  shows "\<exists>r'. find (\<lambda>x. key x = k) (tbl t') = Some r' \<and> (version r < version r' \<or> (version r' = version r \<and> body' r' = body r))"
proof -
  have "r \<in> set (tbl t)" "key r = k" using assms(3) by (auto simp: find_Some_iff)
  then obtain r' where "r' \<in> set (tbl t')" "key r' = k" "version r < version r' \<or> (version r' = version r \<and> body' r' = body r)"
    using assms(1) unfolding progress_def by blast
  then show ?thesis using find_key [OF assms(2)] by blast
qed

text \<open>A write that expects a version takes the row at that version.\<close>

lemma taken:
  assumes filter: "filter P (tbl t) = [r]" and t': "tables_valid t'" "tbl t' = update_rows P f (tbl t)" and t: "tables_valid t"
    and P: "\<And>r. P r \<Longrightarrow> key r = k \<and> version r = n" and f: "\<And>r. key (f r) = key r \<and> version (f r) = version r + 1"
  shows "map_option version (find (\<lambda>x. key x = k) (tbl t)) = Some n \<and> map_option version (find (\<lambda>x. key x = k) (tbl t')) = Some (n + 1)"
proof -
  have r: "r \<in> set (tbl t)" "P r" using filter filter_single by fastforce+
  then have fr: "f r \<in> set (tbl t')" unfolding t'(2) update_rows_def by auto
  show ?thesis using find_key [OF t r(1)] find_key [OF t'(1) fr] P [OF r(2)] f [of r] by simp
qed

lemma written:
  assumes run: "update_expected tbl upd P f s = (Inr x, s')" and t: "tables_valid (current s)"
    and P: "\<And>r. P r \<Longrightarrow> key r = k \<and> version r = n" and f: "\<And>r. key (f r) = key r \<and> version (f r) = version r + 1"
  shows "committed s' = upd (update_rows P f) (current s) \<and> tables_valid (committed s') \<and>
    progress key version body body (tbl (current s)) (tbl (committed s')) \<and>
    map_option version (find (\<lambda>x. key x = k) (tbl (current s))) = Some n \<and>
    map_option version (find (\<lambda>x. key x = k) (tbl (committed s'))) = Some (n + 1)"
proof -
  obtain r where r: "filter P (tbl (current s)) = [r]" and t': "committed s' = upd (update_rows P f) (current s)"
    and valid: "tables_valid (committed s')" using update_expected_Inr [OF run] by blast
  have tbl: "tbl (committed s') = update_rows P f (tbl (current s))" by (simp add: t' tbl_upd)
  have "progress key version body body (tbl (current s)) (tbl (committed s'))"
    unfolding tbl by (rule progress_update_rows) (simp add: f)
  then show ?thesis using taken [OF r valid tbl t P f] valid t' by simp
qed

end

lemma pair_unique: "distinct (map f xs) \<Longrightarrow> distinct (map (\<lambda>x. (g x, f x)) xs)"
  by (induction xs) auto

interpretation org_table: versioned_table organizations upd_organizations og_organization_id og_version
  by unfold_locales (auto simp: upd_defs tables_valid_def users_keys_ok_def unique_on_def)

interpretation collection_table: versioned_table organizations upd_organizations og_organization_id og_memory_version
  by unfold_locales (auto simp: upd_defs tables_valid_def users_keys_ok_def unique_on_def)

interpretation user_table: versioned_table users upd_users org_user us_version
  by unfold_locales (auto simp: upd_defs tables_valid_def users_keys_ok_def unique_on_def intro: pair_unique)

interpretation membership_table: versioned_table memberships upd_memberships org_membership mb_version
  by unfold_locales (auto simp: upd_defs tables_valid_def memberships_keys_ok_def unique_on_def intro: pair_unique)

interpretation memory_table: versioned_table memories upd_memories org_memory om_version
  by unfold_locales (auto simp: upd_defs tables_valid_def memories_keys_ok_def unique_on_def intro: pair_unique)

subsection \<open>Advancing tables\<close>

definition advances :: "tables \<Rightarrow> tables \<Rightarrow> bool" where
  "advances t t' \<longleftrightarrow>
     progress og_organization_id og_version organization_body organization_body (organizations t) (organizations t') \<and>
     progress org_user us_version UserBody UserBody (users t) (users t') \<and>
     progress org_membership mb_version MembershipBody MembershipBody (memberships t) (memberships t') \<and>
     progress org_memory om_version MemoryBody MemoryBody (memories t) (memories t') \<and>
     progress og_organization_id og_memory_version (\<lambda>r. CollectionBody (active_memories (og_organization_id r) t))
       (\<lambda>r. CollectionBody (active_memories (og_organization_id r) t')) (organizations t) (organizations t')"

lemma advances_refl [simp]: "advances t t"
  by (simp add: advances_def)

lemma advances_trans: "advances t t' \<Longrightarrow> advances t' t'' \<Longrightarrow> advances t t''"
  unfolding advances_def by (blast intro: progress_trans)

lemma find_org_user: "(\<lambda>r. org_user r = (org, i)) = (\<lambda>r. us_organization_id r = org \<and> us_user_id r = i)"
  by auto

lemma advances_state:
  assumes "advances t t'" and "tables_valid t'" and "state_of org res t = Some (n, b)"
  shows "\<exists>n' b'. state_of org res t' = Some (n', b') \<and> (n < n' \<or> (n' = n \<and> b' = b))"
proof (cases res)
  case TheOrganization
  then obtain r where r: "find (\<lambda>r. og_organization_id r = org) (organizations t) = Some r" "n = og_version r" "b = organization_body r"
    using assms(3) by auto
  show ?thesis
    using org_table.find_progress [OF _ assms(2) r(1), of organization_body organization_body] assms(1)
    by (auto simp: TheOrganization r advances_def)
next
  case (TheUser i)
  then obtain r where r: "find (\<lambda>r. org_user r = (org, i)) (users t) = Some r" "n = us_version r" "b = UserBody r"
    using assms(3) by auto
  show ?thesis
    using user_table.find_progress [OF _ assms(2) r(1), of UserBody UserBody] assms(1) by (auto simp: TheUser r(2,3) advances_def)
next
  case (TheMembership i)
  then obtain r where r: "find (\<lambda>r. org_membership r = (org, i)) (memberships t) = Some r" "n = mb_version r" "b = MembershipBody r"
    using assms(3) by auto
  show ?thesis
    using membership_table.find_progress [OF _ assms(2) r(1), of MembershipBody MembershipBody] assms(1)
    by (auto simp: TheMembership r(2,3) advances_def)
next
  case (TheMemory i)
  then obtain r where r: "find (\<lambda>r. org_memory r = (org, i)) (memories t) = Some r" "n = om_version r" "b = MemoryBody r"
    using assms(3) by auto
  show ?thesis
    using memory_table.find_progress [OF _ assms(2) r(1), of MemoryBody MemoryBody] assms(1) by (auto simp: TheMemory r(2,3) advances_def)
next
  case TheCollection
  then obtain r where r: "find (\<lambda>r. og_organization_id r = org) (organizations t) = Some r" "n = og_memory_version r"
      "b = CollectionBody (active_memories org t)" using assms(3) by auto
  have i: "og_organization_id r = org" using r(1) by (auto simp: find_Some_iff)
  show ?thesis
    using collection_table.find_progress [OF _ assms(2) r(1), of "\<lambda>r. CollectionBody (active_memories (og_organization_id r) t)"
        "\<lambda>r. CollectionBody (active_memories (og_organization_id r) t')"] assms(1)
    by (auto simp: TheCollection r(2,3) i advances_def find_Some_iff)
qed

subsection \<open>A call that raises commits nothing\<close>

lemma rollback_settled [intro]: "settled (rollback_raise e)"
  by (auto simp: settled_def rollback_raise_def rollback_def meth_defs)

lemma conflict_clean [intro]: "(\<And>x. never_fails (f x)) \<Longrightarrow> fails_clean (andthen (commit_or_conflict e) f)"
  by (auto simp: fails_clean_def never_fails_def commit_or_conflict_def commit_def run_iff rollback_raise_def rollback_def modify_def
      split: if_splits)

lemma update_expected_clean [intro]: "(\<And>x. never_fails (k x)) \<Longrightarrow> fails_clean (andthen (update_expected tbl upd P f) k)"
  unfolding update_expected_def method_assoc
  by (rule fails_clean_then, rule settled_methods) 
    (auto simp: fails_clean_def run_iff commit_def never_fails_def rollback_raise_def rollback_def modify_def split: option.splits if_splits)

lemma charge_settled [intro]: "settled (charge_memory_collection v org)"
  unfolding charge_memory_collection_def by (intro settled_rules)

lemma require_organization_settled [intro]: "settled (require_actor_organization actor org)"
  unfolding require_actor_organization_def by (rule settled_statements)

lemma never_fails_ret [intro]: "never_fails (ret x)"
  by (simp add: never_fails_def)

lemma store_never_fails [intro]: "never_fails (store f)"
  by (simp add: never_fails_def)

lemma fails_clean_case:
  "(found = None \<Longrightarrow> fails_clean (andthen a k)) \<Longrightarrow> (\<And>x. found = Some x \<Longrightarrow> fails_clean (andthen (b x) k)) \<Longrightarrow>
   fails_clean (andthen (case_option a b found) k)"
  by (cases found) auto

lemma directory_clean: "fails_clean (directory_method v actor org c)"
proof (cases c)
  case (ResetMemories n)
  show ?thesis
    unfolding ResetMemories directory_method.simps reset_memories_def method_assoc
    by (rule fails_clean_then, rule require_organization_settled, rule fails_clean_then, rule settled_methods, rule fails_clean_case)
      (blast, unfold method_assoc, intro fails_clean_then settled_statements settled_for_each fails_clean_commit never_fails_ret never_fails_simps)
qed (simp_all only: directory_method.simps update_organization_def disable_organization_def create_user_def update_user_def
    disable_user_def create_membership_def update_membership_def disable_membership_def create_memory_def update_memory_def
    tombstone_memory_def Let_def method_assoc,
  (rule conflict_clean update_expected_clean never_fails_simps require_organization_settled charge_settled settled_methods
    settled_statements fails_clean_then)+)

text \<open>A call that returns leaves tables that satisfy the constraints and advance, and takes the version it expects.\<close>

definition takes :: "string \<Rightarrow> (resource \<times> int) option \<Rightarrow> tables \<Rightarrow> tables \<Rightarrow> bool" where
  "takes org want t t' \<longleftrightarrow> (case want of None \<Rightarrow> True
     | Some (res, n) \<Rightarrow> map_option fst (state_of org res t) = Some n \<and> map_option fst (state_of org res t') = Some (n + 1))"

definition moves :: "string \<Rightarrow> directory_call \<Rightarrow> tables \<Rightarrow> tables \<Rightarrow> bool" where
  "moves org c t t' \<longleftrightarrow> tables_valid t' \<and> advances t t' \<and> takes org (expects c) t t'"

lemma active_memories_upd [simp]:
  "active_memories org (upd_organizations f t) = active_memories org t" "active_memories org (upd_users g t) = active_memories org t"
  "active_memories org (upd_memberships h t) = active_memories org t"
  by (simp_all add: active_memories_def upd_defs)

lemma state_version:
  "map_option fst (state_of org TheOrganization t) = map_option og_version (find (\<lambda>r. og_organization_id r = org) (organizations t))"
  "map_option fst (state_of org (TheUser i) t) = map_option us_version (find (\<lambda>r. org_user r = (org, i)) (users t))"
  "map_option fst (state_of org (TheMembership i) t) = map_option mb_version (find (\<lambda>r. org_membership r = (org, i)) (memberships t))"
  "map_option fst (state_of org (TheMemory i) t) = map_option om_version (find (\<lambda>r. org_memory r = (org, i)) (memories t))"
  "map_option fst (state_of org TheCollection t) = map_option og_memory_version (find (\<lambda>r. og_organization_id r = org) (organizations t))"
  by (simp_all add: option.map_comp o_def)

text \<open>A write of the organization, a user or a membership.\<close>

lemma organization_moves:
  assumes run: "update_expected organizations upd_organizations P f s = (Inr x, s')" and t: "tables_valid (current s)"
    and want: "expects c = Some (TheOrganization, n)" and P: "\<And>r. P r \<Longrightarrow> og_organization_id r = org \<and> og_version r = n"
    and f: "\<And>r. og_organization_id (f r) = og_organization_id r \<and> og_version (f r) = og_version r + 1"
      "\<And>r. og_memory_version (f r) = og_memory_version r"
  shows "moves org c (current s) (committed s')"
proof -
  note w = org_table.written [OF run t P f(1), where body = organization_body]
  then have t': "committed s' = upd_organizations (update_rows P f) (current s)" by blast
  have "progress og_organization_id og_memory_version (\<lambda>r. CollectionBody (active_memories (og_organization_id r) (current s)))
     (\<lambda>r. CollectionBody (active_memories (og_organization_id r) (current s))) (organizations (current s)) (update_rows P f (organizations (current s)))"
    by (rule progress_update_rows) (simp add: f)
  then have "advances (current s) (committed s')"
    using w by (simp add: t' advances_def upd_defs active_memories_def)
  then show ?thesis using w unfolding moves_def takes_def want option.case prod.case state_version by blast
qed

lemma user_moves:
  assumes run: "update_expected users upd_users P f s = (Inr x, s')" and t: "tables_valid (current s)"
    and want: "expects c = Some (TheUser i, n)" and P: "\<And>r. P r \<Longrightarrow> org_user r = (org, i) \<and> us_version r = n"
    and f: "\<And>r. org_user (f r) = org_user r \<and> us_version (f r) = us_version r + 1"
  shows "moves org c (current s) (committed s')"
proof -
  note w = user_table.written [OF run t P f, where body = UserBody]
  then have t': "committed s' = upd_users (update_rows P f) (current s)" by blast
  have "advances (current s) (committed s')" using w by (simp add: t' advances_def upd_defs active_memories_def)
  then show ?thesis using w unfolding moves_def takes_def want option.case prod.case state_version by blast
qed

lemma membership_moves:
  assumes run: "update_expected memberships upd_memberships P f s = (Inr x, s')" and t: "tables_valid (current s)"
    and want: "expects c = Some (TheMembership i, n)" and P: "\<And>r. P r \<Longrightarrow> org_membership r = (org, i) \<and> mb_version r = n"
    and f: "\<And>r. org_membership (f r) = org_membership r \<and> mb_version (f r) = mb_version r + 1"
  shows "moves org c (current s) (committed s')"
proof -
  note w = membership_table.written [OF run t P f, where body = MembershipBody]
  then have t': "committed s' = upd_memberships (update_rows P f) (current s)" by blast
  have "advances (current s) (committed s')" using w by (simp add: t' advances_def upd_defs active_memories_def)
  then show ?thesis using w unfolding moves_def takes_def want option.case prod.case state_version by blast
qed

text \<open>A write of memories, after the charge: only memories of the organization change.\<close>

definition charged :: "env \<Rightarrow> string \<Rightarrow> tables \<Rightarrow> tables" where
  "charged v org = upd_organizations (update_rows (\<lambda>r. og_organization_id r = org)
     (\<lambda>r. r\<lparr>og_memory_version := og_memory_version r + 1, og_updated_at := v_db_now v\<rparr>))"

lemma charge_Inr:
  "charge_memory_collection v org s = (Inr u, s') \<longleftrightarrow>
     length (filter (\<lambda>r. og_organization_id r = org) (organizations (current s))) = 1 \<and> s' = s\<lparr>current := charged v org (current s)\<rparr>"
  by (auto simp: charge_memory_collection_def charged_def run_iff)

lemma charged_advances:
  assumes "progress org_memory om_version MemoryBody MemoryBody (memories t) (g (memories t))"
    and "\<And>org'. org' \<noteq> org \<Longrightarrow> filter (\<lambda>m. om_organization_id m = org') (g (memories t)) = filter (\<lambda>m. om_organization_id m = org') (memories t)"
  shows "advances t (upd_memories g (charged v org t))"
proof -
  let ?t' = "upd_memories g (charged v org t)"
  have same: "active_memories org' ?t' = active_memories org' t" if "org' \<noteq> org" for org'
  proof -
    have "active_memories org' t = filter (\<lambda>m. om_status m = MemoryActive) (filter (\<lambda>m. om_organization_id m = org') (memories t))"
      "active_memories org' ?t' = filter (\<lambda>m. om_status m = MemoryActive) (filter (\<lambda>m. om_organization_id m = org') (g (memories t)))"
      by (simp_all add: active_memories_def upd_defs charged_def conj_commute)
    then show ?thesis using assms(2) [OF that] by simp
  qed
  have orgs: "organizations ?t' = update_rows (\<lambda>r. og_organization_id r = org)
     (\<lambda>r. r\<lparr>og_memory_version := og_memory_version r + 1, og_updated_at := v_db_now v\<rparr>) (organizations t)"
    by (simp add: upd_defs charged_def)
  have "progress og_organization_id og_version organization_body organization_body (organizations t) (organizations ?t')"
    by (simp add: orgs) (rule progress_update_rows; simp add: organization_body_def)
  moreover have "progress og_organization_id og_memory_version (\<lambda>r. CollectionBody (active_memories (og_organization_id r) t))
       (\<lambda>r. CollectionBody (active_memories (og_organization_id r) ?t')) (organizations t) (organizations ?t')"
    unfolding orgs update_rows_def by (rule progress_map) (auto simp: same)
  ultimately show ?thesis using assms(1) by (simp add: advances_def upd_defs charged_def)
qed

lemma filter_update_rows_other:
  "(\<And>r. P r \<Longrightarrow> om_organization_id r = org) \<Longrightarrow> (\<And>r. om_organization_id (f r) = om_organization_id r) \<Longrightarrow> org' \<noteq> org \<Longrightarrow>
   filter (\<lambda>m. om_organization_id m = org') (update_rows P f ms) = filter (\<lambda>m. om_organization_id m = org') ms"
  by (induction ms) (auto simp: update_rows_def)

lemma memory_moves:
  assumes charge: "charge_memory_collection v org s = (Inr u, s1)"
    and run: "update_expected memories upd_memories (memory_at org i n) f s1 = (Inr x, s')" and t: "tables_valid (current s)"
    and want: "expects c = Some (TheMemory i, n)"
    and f: "\<And>r. org_memory (f r) = org_memory r \<and> om_version (f r) = om_version r + 1"
  shows "moves org c (current s) (committed s')"
proof -
  have s1: "current s1 = charged v org (current s)" using charge by (simp add: charge_Inr)
  obtain r where r: "filter (memory_at org i n) (memories (current s1)) = [r]" and
    t': "committed s' = upd_memories (update_rows (memory_at org i n) f) (charged v org (current s))" and valid: "tables_valid (committed s')"
    using update_expected_Inr [OF run] s1 by auto
  have m: "memories (current s1) = memories (current s)" "memories (committed s') = update_rows (memory_at org i n) f (memories (current s))"
    by (simp_all add: s1 t' charged_def upd_defs)
  have "advances (current s) (committed s')"
    unfolding t' by (rule charged_advances, rule progress_update_rows, use f in \<open>simp add: memory_at_def\<close>)
      (rule filter_update_rows_other [of _ org], use f in \<open>auto simp: memory_at_def\<close>)
  moreover have "map_option om_version (find (\<lambda>x. org_memory x = (org, i)) (memories (current s))) = Some n \<and>
      map_option om_version (find (\<lambda>x. org_memory x = (org, i)) (memories (committed s'))) = Some (n + 1)"
    by (rule memory_table.taken [OF r [unfolded m(1)] valid m(2) t _ f]) (simp add: memory_at_def)
  ultimately show ?thesis using valid unfolding moves_def takes_def want option.case prod.case state_version by blast
qed

lemma create_memory_moves:
  assumes charge: "charge_memory_collection v org s = (Inr u, s1)" and "om_organization_id r = org" and "expects c = None"
    and "tables_valid (upd_memories (\<lambda>rs. rs @ [r]) (current s1))" and t: "current s = t"
  shows "moves org c t (upd_memories (\<lambda>rs. rs @ [r]) (current s1))"
proof -
  have s1: "current s1 = charged v org t" using charge t by (simp add: charge_Inr)
  have "advances t (upd_memories (\<lambda>rs. rs @ [r]) (charged v org t))"
    by (rule charged_advances) (simp_all add: progress_append assms(2))
  then show ?thesis using assms(3,4) by (simp add: moves_def takes_def s1)
qed

subsection \<open>The reset\<close>

lemma put_row_one:
  assumes "distinct (map key rs)" and "r \<in> set rs" and "key (g r) = key r"
  shows "put_row key (g r) rs = map (\<lambda>x. if x = r then g r else x) rs"
  unfolding put_row_def using assms by (auto simp: distinct_map inj_on_def)

lemma fold_put_rows:
  assumes "distinct (map key ms)" and "distinct rs" and "set rs \<subseteq> set ms" and g: "\<And>r. key (g r) = key r"
  shows "fold (\<lambda>r. put_row key (g r)) rs ms = map (\<lambda>m. if m \<in> set rs then g m else m) ms"
  using assms(1-3)
proof (induction rs arbitrary: ms)
  case (Cons r rs)
  let ?ms = "map (\<lambda>x. if x = r then g r else x) ms"
  have r: "r \<in> set ms" and inj: "inj_on key (set ms)" using Cons.prems by (simp_all add: distinct_map)
  have step: "put_row key (g r) ms = ?ms" by (rule put_row_one [where g = g, OF Cons.prems(1) r g])
  have keys: "map key ?ms = map key ms" by (simp add: g)
  have gr: "g r \<notin> set rs"
  proof
    assume "g r \<in> set rs"
    then have "g r \<in> set ms" using Cons.prems(3) by auto
    then have "g r = r" using inj r g by (auto simp: inj_on_def)
    then show False using \<open>g r \<in> set rs\<close> Cons.prems(2) by simp
  qed
  have "set rs \<subseteq> set ?ms" using Cons.prems(2,3) by (auto simp: image_iff)
  then have "fold (\<lambda>r. put_row key (g r)) rs ?ms = map (\<lambda>m. if m \<in> set rs then g m else m) ?ms"
    using Cons.IH [of ?ms] Cons.prems(1,2) by (simp only: keys) simp
  also have "\<dots> = map (\<lambda>m. if m \<in> set (r # rs) then g m else m) ms" using gr by auto
  finally show ?case using step by simp
qed simp

lemma store_eq: "store f s = (Inr (), s\<lparr>current := f (current s)\<rparr>)"
  by (simp add: store_def modify_def)

lemma for_each_store:
  "for_each (\<lambda>r. store (upd_memories (h r))) rs s = (Inr (), s\<lparr>current := upd_memories (fold h rs) (current s)\<rparr>)"
proof (induction rs arbitrary: s)
  case (Cons r rs)
  have "for_each (\<lambda>r. store (upd_memories (h r))) (r # rs) s =
      for_each (\<lambda>r. store (upd_memories (h r))) rs (s\<lparr>current := upd_memories (h r) (current s)\<rparr>)"
    unfolding for_each.simps(2) andthen_def store_eq [of "upd_memories (h r)" s] by simp
  also have "\<dots> = (Inr (), s\<lparr>current := upd_memories (fold h (r # rs)) (current s)\<rparr>)"
    unfolding Cons.IH by (simp add: upd_defs)
  finally show ?case .
qed (simp add: ret_def upd_defs)

lemma active_memories_subset: "set (active_memories org t) \<subseteq> set (memories t)"
  by (auto simp: active_memories_def)

lemma reset_moves:
  assumes run: "reset_memories v actor org n s = (Inr x, s')" and t: "tables_valid (current s)"
  shows "moves org (ResetMemories n) (current s) (committed s')"
proof -
  let ?P = "\<lambda>r. og_organization_id r = org \<and> og_memory_version r = n"
  let ?f = "\<lambda>r :: organization. r\<lparr>og_memory_version := og_memory_version r + 1, og_updated_at := v_db_now v\<rparr>"
  let ?t = "upd_organizations (update_rows ?P ?f) (current s)"
  let ?rs = "sort_key om_memory_id (active_memories org (current s))"
  obtain r where r: "filter ?P (organizations (current s)) = [r]"
    and valid: "tables_valid (committed s')"
    and t': "committed s' = upd_memories (fold (\<lambda>r. put_row om_memory_id (entomb v org r)) ?rs) ?t"
    using run
    by (auto simp: reset_memories_def require_actor_organization_def run_iff update_returning_Inr commit_Inr for_each_store
        split: option.splits)
  have one: "og_organization_id x = org \<Longrightarrow> x \<in> set (organizations (current s)) \<Longrightarrow> ?P x" for x
  proof -
    assume x: "og_organization_id x = org" "x \<in> set (organizations (current s))"
    have "r \<in> set (organizations (current s))" "?P r" using r filter_single by fastforce+
    then have "x = r" using x org_table.find_key [OF t] by (metis option.inject)
    then show "?P x" using \<open>?P r\<close> by simp
  qed
  have charge: "?t = charged v org (current s)"
    using one by (simp add: charged_def upd_defs update_rows_def)
  have keys: "distinct (map om_memory_id (memories (current s)))"
    using t by (simp add: tables_valid_def memories_keys_ok_def unique_on_def)
  have fold: "fold (\<lambda>r. put_row om_memory_id (entomb v org r)) ?rs (memories (current s)) =
      update_rows (\<lambda>m. om_organization_id m = org \<and> om_status m = MemoryActive) (entomb v org) (memories (current s))"
    using fold_put_rows [of om_memory_id "memories (current s)" ?rs "entomb v org"] keys
    by (auto simp: distinct_map entomb_def active_memories_def update_rows_def)
  have adv: "advances (current s) (committed s')"
    unfolding t' charge
  proof (rule charged_advances; unfold fold)
    show "progress org_memory om_version MemoryBody MemoryBody (memories (current s))
       (update_rows (\<lambda>m. om_organization_id m = org \<and> om_status m = MemoryActive) (entomb v org) (memories (current s)))"
      by (rule progress_update_rows) (simp add: entomb_def)
  qed (rule filter_update_rows_other [of _ org], auto simp: entomb_def)
  have "map_option og_memory_version (find (\<lambda>x. og_organization_id x = org) (organizations (current s))) = Some n \<and>
      map_option og_memory_version (find (\<lambda>x. og_organization_id x = org) (organizations (committed s'))) = Some (n + 1)"
  proof (rule collection_table.taken [OF r valid _ t])
    show "organizations (committed s') = update_rows ?P ?f (organizations (current s))" by (simp add: t' upd_defs)
  qed (simp, simp)
  then show ?thesis using valid adv unfolding moves_def takes_def expects.simps option.case prod.case state_version by blast
qed

subsection \<open>Every call\<close>

lemma appended_moves:
  assumes "tables_valid t'" and "expects c = None" and "t' = upd_users (\<lambda>rs. rs @ [u]) t \<or> t' = upd_memberships (\<lambda>rs. rs @ [m]) t"
  shows "moves org c t t'"
proof -
  have "advances t t'" using assms(3) by (auto simp: advances_def upd_defs active_memories_def intro: progress_append)
  then show ?thesis using assms(1,2) by (simp add: moves_def takes_def)
qed

lemmas method_runs = run_iff require_actor_organization_def commit_or_conflict_Inr opaque_id_def Let_def

lemma directory_moves:
  assumes run: "directory_method v actor org c s = (Inr (), s')" and t: "tables_valid (current s)"
  shows "a_organization_id actor = org \<and> moves org c (current s) (committed s')"
proof (cases c)
  case (UpdateOrganization n p)
  obtain x where a: "a_organization_id actor = org" and "update_organization v actor org n p s = (Inr x, s')"
    using run by (auto simp: UpdateOrganization update_organization_def method_runs)
  then show ?thesis unfolding UpdateOrganization update_organization_def
    by (auto simp: method_runs intro!: organization_moves [OF _ t])
next
  case (DisableOrganization n)
  obtain x where a: "a_organization_id actor = org" and "disable_organization v actor org n s = (Inr x, s')"
    using run by (auto simp: DisableOrganization disable_organization_def method_runs)
  then show ?thesis unfolding DisableOrganization disable_organization_def
    by (auto simp: method_runs intro!: organization_moves [OF _ t])
next
  case (CreateUser p)
  show ?thesis using run by (auto simp: CreateUser create_user_def method_runs intro!: appended_moves)
next
  case (UpdateUser i n p)
  obtain x where a: "a_organization_id actor = org" and "update_user v actor org i n p s = (Inr x, s')"
    using run by (auto simp: UpdateUser update_user_def method_runs)
  then show ?thesis unfolding UpdateUser update_user_def by (auto simp: method_runs intro!: user_moves [OF _ t])
next
  case (DisableUser i n)
  obtain x where a: "a_organization_id actor = org" and "disable_user v actor org i n s = (Inr x, s')"
    using run by (auto simp: DisableUser disable_user_def method_runs)
  then show ?thesis unfolding DisableUser disable_user_def by (auto simp: method_runs intro!: user_moves [OF _ t])
next
  case (CreateMembership p)
  show ?thesis using run by (auto simp: CreateMembership create_membership_def scalar_def method_runs intro!: appended_moves)
next
  case (UpdateMembership i n r)
  obtain x where a: "a_organization_id actor = org" and "update_membership v actor org i n r s = (Inr x, s')"
    using run by (auto simp: UpdateMembership update_membership_def method_runs)
  then show ?thesis unfolding UpdateMembership update_membership_def by (auto simp: method_runs intro!: membership_moves [OF _ t])
next
  case (DisableMembership i n)
  obtain x where a: "a_organization_id actor = org" and "disable_membership v actor org i n s = (Inr x, s')"
    using run by (auto simp: DisableMembership disable_membership_def method_runs)
  then show ?thesis unfolding DisableMembership disable_membership_def by (auto simp: method_runs intro!: membership_moves [OF _ t])
next
  case (CreateMemory p)
  show ?thesis using run
    by (auto simp: CreateMemory create_memory_def method_runs intro!: create_memory_moves)
next
  case (UpdateMemory i n p)
  show ?thesis using run
    by (auto simp: UpdateMemory update_memory_def method_runs intro!: memory_moves [OF _ _ t])
next
  case (TombstoneMemory i n)
  show ?thesis using run
    by (auto simp: TombstoneMemory tombstone_memory_def method_runs intro!: memory_moves [OF _ _ t])
next
  case (ResetMemories n)
  obtain x where x: "reset_memories v actor org n s = (Inr x, s')" using run by (auto simp: ResetMemories run_iff)
  moreover from x have "a_organization_id actor = org" by (auto simp: reset_memories_def method_runs)
  ultimately show ?thesis using reset_moves [OF _ t] by (simp add: ResetMemories)
qed

text \<open>A disabled user is never enabled again.\<close>

definition stays_disabled :: "tables \<Rightarrow> tables \<Rightarrow> bool" where
  "stays_disabled t t' \<longleftrightarrow> (\<forall>r \<in> set (users t). \<exists>r' \<in> set (users t'). us_user_id r' = us_user_id r \<and>
     (us_status r = Disabled \<longrightarrow> us_status r' = Disabled))"

lemma stays_disabled_same: "users t' = users t \<Longrightarrow> stays_disabled t t'"
  by (auto simp: stays_disabled_def)

lemma stays_disabled_update:
  "users t' = update_rows P f (users t) \<Longrightarrow>
   (\<And>r. us_user_id (f r) = us_user_id r \<and> (us_status r = Disabled \<longrightarrow> us_status (f r) = Disabled)) \<Longrightarrow> stays_disabled t t'"
  by (auto simp: stays_disabled_def update_rows_def)

lemma update_expected_committed:
  "update_expected tbl upd P f s = (Inr x, s') \<Longrightarrow> committed s' = upd (update_rows P f) (current s)"
  by (drule update_expected_Inr) blast

lemma directory_stays_disabled:
  assumes run: "directory_method v actor org c s = (Inr (), s')"
  shows "stays_disabled (current s) (committed s')"
proof (cases c)
  case (CreateUser p)
  show ?thesis using run by (auto simp: CreateUser create_user_def method_runs stays_disabled_def upd_defs)
next
  case (UpdateUser i n p)
  show ?thesis using run
    by (auto simp: UpdateUser update_user_def method_runs upd_defs dest!: update_expected_committed intro!: stays_disabled_update)
next
  case (DisableUser i n)
  show ?thesis using run
    by (auto simp: DisableUser disable_user_def method_runs upd_defs dest!: update_expected_committed intro!: stays_disabled_update)
next
  case (ResetMemories n)
  show ?thesis using run
    by (auto simp: ResetMemories reset_memories_def method_runs update_returning_Inr commit_Inr for_each_store upd_defs
        intro!: stays_disabled_same split: option.splits)
qed (use run in \<open>auto simp: update_organization_def disable_organization_def create_membership_def update_membership_def
    disable_membership_def create_memory_def update_memory_def tombstone_memory_def scalar_def method_runs charge_Inr charged_def upd_defs
    dest!: update_expected_committed intro!: stays_disabled_same\<close>)

subsection \<open>Sequences of events\<close>

definition directory_rows :: "tables \<Rightarrow> organization list \<times> user list \<times> membership list \<times> organization_memory list" where
  "directory_rows t = (organizations t, users t, memberships t, memories t)"

text \<open>A call, or a commit of another component, which leaves the directory alone.\<close>

datatype directory_event = DirectoryCalled env actor_context string directory_call | OtherCommit tables

fun do_directory :: "directory_event \<Rightarrow> session \<Rightarrow> bool \<times> session" where
  "do_directory (DirectoryCalled v actor org c) s =
     (case directory v actor org c s of (Inr _, s') \<Rightarrow> (True, s') | (Inl _, s') \<Rightarrow> (False, s'))"
| "do_directory (OtherCommit t) s =
     (False, if directory_rows t = directory_rows (committed s) \<and> tables_valid t then s\<lparr>committed := t\<rparr> else s)"

fun directory_events :: "directory_event list \<Rightarrow> session \<Rightarrow> session" where
  "directory_events [] s = s"
| "directory_events (e # es) s = directory_events es (snd (do_directory e s))"

lemma directory_result:
  assumes "directory v actor org c s = (r, s')" and "tables_valid (committed s)"
  shows "(\<exists>e. r = Inl e \<and> committed s' = committed s) \<or>
    (r = Inr () \<and> a_organization_id actor = org \<and> moves org c (committed s) (committed s') \<and> stays_disabled (committed s) (committed s'))"
proof -
  let ?s = "s\<lparr>current := committed s\<rparr>"
  obtain s1 where m: "directory_method v actor org c ?s = (r, s1)" and s': "committed s' = committed s1"
    using assms(1) by (auto simp: directory_def in_session_def split: prod.splits)
  show ?thesis
  proof (cases r)
    case (Inl e)
    then have "committed s1 = committed ?s" using directory_clean [of v actor org c] m unfolding fails_clean_def by blast
    then show ?thesis using Inl s' by simp
  next
    case (Inr u)
    then show ?thesis using directory_moves [of v actor org c ?s s1] directory_stays_disabled [of v actor org c ?s s1] m s' assms(2) by simp
  qed
qed

lemma event_advances:
  assumes "tables_valid (committed s)"
  shows "tables_valid (committed (snd (do_directory e s))) \<and> advances (committed s) (committed (snd (do_directory e s))) \<and>
    stays_disabled (committed s) (committed (snd (do_directory e s)))"
proof (cases e)
  case (DirectoryCalled v actor org c)
  obtain r s' where d: "directory v actor org c s = (r, s')" by fastforce
  then have "committed (snd (do_directory e s)) = committed s'" by (simp add: DirectoryCalled split: sum.split)
  then show ?thesis using directory_result [OF d assms] assms by (auto simp: moves_def stays_disabled_same)
next
  case (OtherCommit t)
  then show ?thesis using assms
    by (auto simp: directory_rows_def advances_def active_memories_def stays_disabled_same)
qed

lemma events_advance:
  "tables_valid (committed s) \<Longrightarrow> tables_valid (committed (directory_events es s)) \<and> advances (committed s) (committed (directory_events es s))"
proof (induction es arbitrary: s)
  case (Cons e es)
  show ?case using Cons.IH event_advances [OF Cons.prems, of e] by (auto intro: advances_trans)
qed simp

subsection \<open>No lost updates\<close>

fun expects_at :: "string \<Rightarrow> resource \<Rightarrow> int \<Rightarrow> directory_event \<Rightarrow> bool" where
  "expects_at org res n (DirectoryCalled v actor org' c) = (org' = org \<and> expects c = Some (res, n))"
| "expects_at org res n (OtherCommit t) = False"

fun writes_granted :: "string \<Rightarrow> resource \<Rightarrow> int \<Rightarrow> directory_event list \<Rightarrow> session \<Rightarrow> nat" where
  "writes_granted org res n [] s = 0"
| "writes_granted org res n (e # es) s = (let (ok, s') = do_directory e s in
     (if ok \<and> expects_at org res n e then 1 else 0) + writes_granted org res n es s')"

lemma granted_takes:
  assumes "do_directory e s = (True, s')" and "expects_at org res n e" and "tables_valid (committed s)"
  shows "map_option fst (state_of org res (committed s)) = Some n \<and> map_option fst (state_of org res (committed s')) = Some (n + 1)"
proof (cases e)
  case (DirectoryCalled v actor org' c)
  then have "directory v actor org c s = (Inr (), s')" "expects c = Some (res, n)" "org' = org"
    using assms(1,2) by (auto split: prod.splits sum.splits)
  then show ?thesis using directory_result [of v actor org c s "Inr ()" s'] assms(3) by (auto simp: moves_def takes_def)
qed (use assms(1) in simp)

text \<open>Once the resource is past the version, no write that expects it succeeds.\<close>

lemma writes_granted_past:
  "tables_valid (committed s) \<Longrightarrow> state_of org res (committed s) = Some (k, b) \<Longrightarrow> n < k \<Longrightarrow> writes_granted org res n es s = 0"
proof (induction es arbitrary: s k b)
  case (Cons e es)
  obtain ok s' where d: "do_directory e s = (ok, s')" by fastforce
  have adv: "tables_valid (committed s')" "advances (committed s) (committed s')" using event_advances [OF Cons.prems(1), of e] d by simp_all
  obtain k' b' where k: "state_of org res (committed s') = Some (k', b')" "k \<le> k'"
    using advances_state [OF adv(2,1) Cons.prems(2)] by force
  have no: "\<not> (ok \<and> expects_at org res n e)" using granted_takes [of e s s' org res n] d Cons.prems by auto
  have "writes_granted org res n es s' = 0" using Cons.IH [OF adv(1) k(1)] k(2) Cons.prems(3) by simp
  then show ?case using no by (auto simp: d)
qed simp

lemma writes_granted_bound: "tables_valid (committed s) \<Longrightarrow> writes_granted org res n es s \<le> 1"
proof (induction es arbitrary: s)
  case (Cons e es)
  obtain ok s' where d: "do_directory e s = (ok, s')" by fastforce
  have valid: "tables_valid (committed s')" using event_advances [OF Cons.prems, of e] d by simp
  show ?case
  proof (cases "ok \<and> expects_at org res n e")
    case True
    then obtain b where "state_of org res (committed s') = Some (n + 1, b)"
      using granted_takes [of e s s' org res n] d Cons.prems by auto
    then show ?thesis using writes_granted_past [OF valid, of org res "n + 1" b n es] d by simp
  next
    case False
    then show ?thesis using Cons.IH [OF valid] by (auto simp: d)
  qed
qed simp

subsection \<open>Locked out\<close>

lemma events_stay_disabled:
  "tables_valid (committed s) \<Longrightarrow> \<exists>r \<in> set (users (committed s)). us_user_id r = i \<and> us_status r = Disabled \<Longrightarrow>
   \<exists>r \<in> set (users (committed (directory_events es s))). us_user_id r = i \<and> us_status r = Disabled"
proof (induction es arbitrary: s)
  case (Cons e es)
  have "\<exists>r \<in> set (users (committed (snd (do_directory e s)))). us_user_id r = i \<and> us_status r = Disabled"
    using event_advances [OF Cons.prems(1), of e] Cons.prems(2) unfolding stays_disabled_def by metis
  then show ?case using Cons.IH event_advances [OF Cons.prems(1), of e] by simp
qed simp

lemma resolved_user_active:
  assumes "resolve_actor v vi s = (Inr actor, s')"
  shows "\<exists>u \<in> set (users (current s)). us_user_id u = a_user_id actor \<and> us_status u = Active"
proof -
  obtain i u m o' where "(i, u, m, o') \<in> set (identity_rows vi (current s))" and "a_user_id actor = us_user_id u"
    using assms by (auto simp: resolve_actor_def one_or_none_def run_iff Let_def actor_of_def split: list.splits option.splits)
  then show ?thesis by (auto simp: identity_rows_def)
qed

lemma disable_user_disables:
  assumes "directory v actor org (DisableUser i n) s = (Inr u, s')"
  shows "\<exists>r \<in> set (users (committed s')). us_user_id r = i \<and> us_status r = Disabled"
proof -
  obtain r where r: "filter (\<lambda>r. us_organization_id r = a_organization_id actor \<and> us_user_id r = i \<and> us_version r = n \<and> us_status r = Active)
      (users (committed s)) = [r]"
    and s': "users (committed s') = update_rows (\<lambda>r. us_organization_id r = a_organization_id actor \<and> us_user_id r = i \<and>
        us_version r = n \<and> us_status r = Active) (\<lambda>r. r\<lparr>us_status := Disabled, us_version := us_version r + 1,
        us_updated_at := v_db_now v\<rparr>) (users (committed s))"
    using assms
    by (auto simp: directory_def in_session_def disable_user_def method_runs upd_defs dest!: update_expected_Inr split: prod.splits)
  have "r \<in> set (users (committed s))" "us_user_id r = i" "us_organization_id r = a_organization_id actor" "us_version r = n" "us_status r = Active"
    using r filter_single by fastforce+
  then have "r\<lparr>us_status := Disabled, us_version := us_version r + 1, us_updated_at := v_db_now v\<rparr> \<in> set (users (committed s'))"
    unfolding s' update_rows_def set_map by (intro image_eqI [of _ _ r]) simp_all
  then show ?thesis using \<open>us_user_id r = i\<close> by (rule_tac bexI) simp_all
qed

end
