(* ===== verification/Approval_Safety.thy ===== *)
theory Approval_Safety
  imports Approval_Effects
begin

section \<open>What the approval workflow guarantees\<close>

text \<open>
  The operations as calls on a session, the refinement of a call by \<open>effect\<close>, and the invariants of
  every database that calls, interleaved with anything the other components commit, can produce:
  every grant has its approvals by distinct people other than the requester and the executor, and a
  request is claimed at most once.
\<close>

subsection \<open>Calls\<close>

datatype approval_call =
    CreateAuthority authority_create
  | DisableAuthority string int
  | OpenGate execution_gate_request
  | Decide string int approval_decision_create
  | CloseRequest string int approval_reason bool
  | ClaimGrant string grant_claim_request
  | ResumeClaim string string string
  | CompleteClaim string string

definition void :: "'a control \<Rightarrow> unit control" where
  "void m = andthen m (\<lambda>_. ret ())"

fun method_of :: "env \<Rightarrow> actor_context \<Rightarrow> string \<Rightarrow> datetime \<Rightarrow> approval_call \<Rightarrow> unit control" where
  "method_of v actor org now (CreateAuthority p) = void (create_authority v actor org p)"
| "method_of v actor org now (DisableAuthority i n) = void (disable_authority v actor org i n now)"
| "method_of v actor org now (OpenGate p) = void (create_execution_gate v actor org p now)"
| "method_of v actor org now (Decide i n p) = void (decide_request v actor org i n p now)"
| "method_of v actor org now (CloseRequest i n why invalidate) = void (close_request v actor org i n why invalidate now)"
| "method_of v actor org now (ClaimGrant i p) = void (claim_grant v actor org i p now None)"
| "method_of v actor org now (ResumeClaim x ph ah) = void (resume_execution_claim v actor org x ph ah now)"
| "method_of v actor org now (CompleteClaim x receipt) = complete_execution_claim v actor org x receipt now"

definition perform :: "env \<Rightarrow> actor_context \<Rightarrow> string \<Rightarrow> datetime \<Rightarrow> approval_call \<Rightarrow> unit control" where
  "perform v actor org now c = in_session (method_of v actor org now c)"

lemma commits_void: "commits D t0 t m \<Longrightarrow> commits D t0 t (void m)"
  unfolding void_def commits_def andthen_def ret_def
  by (auto split: prod.split sum.split)

lemma method_effect:
  assumes "tables_valid t0"
  shows "commits (effect_or_same org (a_user_id actor) now t0) t0 t0 (method_of v actor org now c)"
  by (cases c)
    (use assms in \<open>auto intro!: commits_void create_authority_effect disable_authority_effect create_execution_gate_effect
        decide_request_effect close_request_effect claim_grant_effect resume_execution_claim_effect complete_execution_claim_effect\<close>)

lemma perform_effect:
  assumes "tables_valid (committed s)"
  shows "effect_or_same org (a_user_id actor) now (committed s) (committed (snd (perform v actor org now c s)))"
proof -
  have "open_at (committed s) (committed s) (s\<lparr>current := committed s\<rparr>)" by (simp add: open_at_def)
  from commitsD [OF method_effect [OF assms] this] show ?thesis
    by (simp add: perform_def in_session_def case_prod_beta Let_def)
qed

lemma effect_or_same_valid: "effect_or_same org u now t0 c \<Longrightarrow> tables_valid t0 \<Longrightarrow> tables_valid c"
  by (auto simp: effect_or_same_def)

subsection \<open>The invariant of the approval tables\<close>

text \<open>The statuses of a grant and of its request go together.\<close>

definition statuses_agree :: "request_status \<Rightarrow> grant_status \<Rightarrow> bool" where
  "statuses_agree rs gs \<longleftrightarrow> rs \<noteq> RequestPending \<and> (gs = GrantClaimed \<longrightarrow> rs = RequestClaimed) \<and>
     (gs = GrantConsumed \<longrightarrow> rs = RequestConsumed) \<and> (gs = GrantIssued \<longrightarrow> rs \<notin> {RequestClaimed, RequestConsumed})"

definition granted :: "tables \<Rightarrow> approval_request \<Rightarrow> approval_grant \<Rightarrow> bool" where
  "granted t r g \<longleftrightarrow> grant_of r g \<and> statuses_agree (rq_status r) (gr_status g) \<and>
     set (rq_required_roles r) \<subseteq> approved_roles (rq_organization_id r) (rq_request_id r) t"

definition approvals_ok :: "tables \<Rightarrow> bool" where
  "approvals_ok t \<longleftrightarrow>
     (\<forall>d \<in> set (decisions t). \<forall>r \<in> set (requests t). decision_request d = org_request r \<longrightarrow>
        dc_approver_user_id d \<notin> {rq_requester_user_id r, rq_executor_user_id r}) \<and>
     (\<forall>g \<in> set (grants t). \<exists>r \<in> set (requests t). granted t r g)"

text \<open>The columns of a request, and of a grant, that no operation changes.\<close>

definition same_request :: "approval_request \<Rightarrow> approval_request \<Rightarrow> bool" where
  "same_request r r' \<longleftrightarrow> org_request r' = org_request r \<and> rq_task_id r' = rq_task_id r \<and> rq_step_id r' = rq_step_id r \<and>
     rq_action_type r' = rq_action_type r \<and> rq_parameter_hash r' = rq_parameter_hash r \<and> rq_risk_level r' = rq_risk_level r \<and>
     rq_requester_user_id r' = rq_requester_user_id r \<and> rq_executor_user_id r' = rq_executor_user_id r \<and>
     rq_required_roles r' = rq_required_roles r \<and> rq_expires_at r' = rq_expires_at r"

definition same_grant :: "approval_grant \<Rightarrow> approval_grant \<Rightarrow> bool" where
  "same_grant g g' \<longleftrightarrow> grant_request g' = grant_request g \<and> gr_task_id g' = gr_task_id g \<and> gr_step_id g' = gr_step_id g \<and>
     gr_action_type g' = gr_action_type g \<and> gr_parameter_hash g' = gr_parameter_hash g \<and> gr_risk_level g' = gr_risk_level g \<and>
     gr_executor_user_id g' = gr_executor_user_id g \<and> gr_expires_at g' = gr_expires_at g"

lemma same_refl [simp]: "same_request r r" "same_grant g g"
  by (simp_all add: same_request_def same_grant_def)

lemma same_updates [simp]:
  "same_request r (request_update st why n now r)" "same_grant g (grant_update gs now g)"
  "same_grant g (claimed_grant now x h g)" "same_grant g (consumed_grant now x g)"
  by (simp_all add: same_request_def same_grant_def request_update_def grant_update_def claimed_grant_def consumed_grant_def)

lemma update_statuses [simp]:
  "rq_status (request_update st why n now r) = st" "gr_status (grant_update gs now g) = gs"
  "gr_status (claimed_grant now x h g) = GrantClaimed" "gr_status (consumed_grant now x g) = GrantConsumed"
  "rq_request_id (request_update st why n now r) = rq_request_id r" "gr_grant_id (claimed_grant now x h g) = gr_grant_id g"
  "gr_grant_id (grant_update gs now g) = gr_grant_id g" "gr_grant_id (consumed_grant now x g) = gr_grant_id g"
  "rq_organization_id (request_update st why n now r) = rq_organization_id r"
  by (simp_all add: request_update_def grant_update_def claimed_grant_def consumed_grant_def)

lemma approved_roles_mono:
  "set (decisions t) \<subseteq> set (decisions t') \<Longrightarrow> approved_roles org i t \<subseteq> approved_roles org i t'"
  by (auto simp: approved_roles_alt decisions_of_def)

lemma granted_mono:
  assumes "granted t r g" "same_request r r'" "same_grant g g'" "set (decisions t) \<subseteq> set (decisions t')"
    and "statuses_agree (rq_status r') (gr_status g')"
  shows "granted t' r' g'"
  using assms approved_roles_mono [OF assms(4), of "rq_organization_id r" "rq_request_id r"]
  by (auto simp: granted_def same_request_def same_grant_def grant_of_def)

lemma put_row_other: "x \<in> set rs \<Longrightarrow> key x \<noteq> key r \<Longrightarrow> x \<in> set (put_row key r rs)"
  and put_row_self: "x \<in> set rs \<Longrightarrow> key x = key r \<Longrightarrow> r \<in> set (put_row key r rs)"
  by (force simp: put_row_def)+

text \<open>Changing rows without touching decisions: the first conjunct of the invariant is kept.\<close>

definition refreshed :: "tables \<Rightarrow> tables \<Rightarrow> bool" where
  "refreshed t t' \<longleftrightarrow> decisions t' = decisions t \<and> (\<forall>r' \<in> set (requests t'). \<exists>r \<in> set (requests t). same_request r r')"

lemma refreshed_ok:
  assumes "approvals_ok t" "refreshed t t'"
    and "\<And>g'. g' \<in> set (grants t') \<Longrightarrow> \<exists>r g r'. g \<in> set (grants t) \<and> granted t r g \<and> r' \<in> set (requests t') \<and> same_request r r' \<and>
      same_grant g g' \<and> statuses_agree (rq_status r') (gr_status g')"
  shows "approvals_ok t'"
  unfolding approvals_ok_def
proof (intro conjI ballI impI)
  fix d r' assume d: "d \<in> set (decisions t')" "r' \<in> set (requests t')" "decision_request d = org_request r'"
  then obtain r where r: "r \<in> set (requests t)" "same_request r r'" using assms(2) by (auto simp: refreshed_def)
  with d assms(2) have "d \<in> set (decisions t)" "decision_request d = org_request r"
    by (simp_all add: refreshed_def same_request_def)
  with r assms(1) have "dc_approver_user_id d \<notin> {rq_requester_user_id r, rq_executor_user_id r}"
    unfolding approvals_ok_def by blast
  then show "dc_approver_user_id d \<notin> {rq_requester_user_id r', rq_executor_user_id r'}"
    using r(2) by (simp add: same_request_def)
next
  fix g' assume "g' \<in> set (grants t')"
  with assms(3) obtain r g r' where "granted t r g" "r' \<in> set (requests t')" "same_request r r'" "same_grant g g'"
    "statuses_agree (rq_status r') (gr_status g')" by blast
  then show "\<exists>r \<in> set (requests t'). granted t' r g'"
    using granted_mono [of t r g r' g' t'] assms(2) by (auto simp: refreshed_def)
qed

lemma put_same_request:
  "r \<in> set rs \<Longrightarrow> q \<in> set (put_row rq_request_id (request_update st why n now r) rs) \<Longrightarrow> \<exists>r \<in> set rs. same_request r q"
  using same_refl(1) same_updates(1) by (drule_tac set_put_row) blast

lemma request_of_put:
  assumes "unique_on rq_request_id (requests t)" "r \<in> set (requests t)" "q \<in> set (requests t)" "r' = request_update st why n now r"
  shows "\<exists>q' \<in> set (put_row rq_request_id r' (requests t)). same_request q q' \<and> (q' = q \<and> q \<noteq> r \<or> q' = r' \<and> q = r)"
proof (cases "q = r")
  case True
  then show ?thesis using put_row_self [of r "requests t" rq_request_id r'] assms by auto
next
  case False
  then have "rq_request_id q \<noteq> rq_request_id r'" using unique_on_inj [OF assms(1,3,2)] assms(4) by auto
  then show ?thesis using put_row_other [OF assms(3)] False by (auto intro!: bexI [of _ q])
qed

text \<open>The request a grant was given for.\<close>

lemma grant_request_row:
  assumes "approvals_ok t" "g \<in> set (grants t)"
  obtains q where "q \<in> set (requests t)" "granted t q g" "grant_request g = org_request q"
  using assms unfolding approvals_ok_def granted_def grant_of_def by blast

lemma request_row_unique:
  "unique_on rq_request_id (requests t) \<Longrightarrow> q \<in> set (requests t) \<Longrightarrow> r \<in> set (requests t) \<Longrightarrow> org_request q = org_request r \<Longrightarrow> q = r"
  using unique_on_inj [of rq_request_id "requests t" q r] by auto

text \<open>One request changes, and only grants of that request.\<close>

lemma put_request_ok:
  assumes valid: "unique_on rq_request_id (requests t)" and ok: "approvals_ok t" and r: "r \<in> set (requests t)"
    and eq: "requests t' = put_row rq_request_id (request_update st why n now r) (requests t)" "decisions t' = decisions t"
    and gs: "\<And>g'. g' \<in> set (grants t') \<Longrightarrow> \<exists>g \<in> set (grants t). same_grant g g' \<and>
      (if grant_request g = org_request r then statuses_agree (rq_status r) (gr_status g) \<longrightarrow> statuses_agree st (gr_status g') else g' = g)"
  shows "approvals_ok t'"
proof (rule refreshed_ok [OF ok])
  show "refreshed t t'" using put_same_request [OF r] by (simp add: refreshed_def eq)
  fix g' assume "g' \<in> set (grants t')"
  then obtain g where g: "g \<in> set (grants t)" "same_grant g g'"
    "if grant_request g = org_request r then statuses_agree (rq_status r) (gr_status g) \<longrightarrow> statuses_agree st (gr_status g') else g' = g"
    using gs by blast
  obtain q where q: "q \<in> set (requests t)" "granted t q g" "grant_request g = org_request q" using ok g(1) by (rule grant_request_row)
  obtain q' where q': "q' \<in> set (requests t')" "same_request q q'"
    "q' = q \<and> q \<noteq> r \<or> q' = request_update st why n now r \<and> q = r"
    using request_of_put [OF valid r q(1) refl, of st why n now] eq(1) by auto
  have "statuses_agree (rq_status q') (gr_status g')"
  proof (cases "q = r")
    case True
    then show ?thesis using q'(3) g(3) q(2,3) by (simp add: granted_def)
  next
    case False
    then have "g' = g" using g(3) q(3) request_row_unique [OF valid q(1) r] by (simp split: if_splits)
    then show ?thesis using q'(3) q(2) False by (simp add: granted_def)
  qed
  then show "\<exists>r g r'. g \<in> set (grants t) \<and> granted t r g \<and> r' \<in> set (requests t') \<and> same_request r r' \<and>
      same_grant g g' \<and> statuses_agree (rq_status r') (gr_status g')"
    using g q q' by blast
qed

text \<open>A decision is added.\<close>

lemma add_decision_ok:
  assumes valid: "unique_on rq_request_id (requests t)" and ok: "approvals_ok t" and d: "decides org u now t r d"
  shows "approvals_ok (upd_decisions (\<lambda>ds. ds @ [d]) t)"
  unfolding approvals_ok_def
proof (intro conjI ballI impI)
  fix e q assume e: "e \<in> set (decisions (upd_decisions (\<lambda>ds. ds @ [d]) t))" "q \<in> set (requests (upd_decisions (\<lambda>ds. ds @ [d]) t))"
    "decision_request e = org_request q"
  show "dc_approver_user_id e \<notin> {rq_requester_user_id q, rq_executor_user_id q}"
  proof (cases "e = d")
    case True
    have "q = r"
      by (rule request_row_unique [OF valid]) (use d e True in \<open>simp_all add: decides_def pending_at_def\<close>)
    then show ?thesis using d True by (simp add: decides_def)
  next
    case False
    then show ?thesis using ok e unfolding approvals_ok_def by auto
  qed
next
  fix g assume g: "g \<in> set (grants (upd_decisions (\<lambda>ds. ds @ [d]) t))"
  then obtain q where q: "q \<in> set (requests t)" "granted t q g" using ok by (auto elim: grant_request_row)
  have "granted (upd_decisions (\<lambda>ds. ds @ [d]) t) q g"
    by (rule granted_mono [OF q(2)]) (use q(2) in \<open>auto simp: granted_def\<close>)
  then show "\<exists>r \<in> set (requests (upd_decisions (\<lambda>ds. ds @ [d]) t)). granted (upd_decisions (\<lambda>ds. ds @ [d]) t) r g"
    using q(1) by auto
qed

text \<open>A grant is added for a request that is approved.\<close>

lemma add_grant_ok: "approvals_ok t \<Longrightarrow> r \<in> set (requests t) \<Longrightarrow> granted t r g \<Longrightarrow> approvals_ok (upd_grants (\<lambda>gs. gs @ [g]) t)"
proof -
  have eq: "granted (upd_grants (\<lambda>gs. gs @ [g]) t) q x = granted t q x" for q x
    by (simp add: granted_def approved_roles_alt decisions_of_def)
  show "approvals_ok t \<Longrightarrow> r \<in> set (requests t) \<Longrightarrow> granted t r g \<Longrightarrow> approvals_ok (upd_grants (\<lambda>gs. gs @ [g]) t)"
    unfolding approvals_ok_def eq by auto
qed

lemma grant_of_put:
  assumes "tables_valid t" "g \<in> set (grants t)" "x \<in> set (put_row gr_grant_id g' (grants t))" "same_grant g g'" "gr_grant_id g' = gr_grant_id g"
  shows "x = g' \<or> (x \<in> set (grants t) \<and> x \<noteq> g \<and> grant_request x \<noteq> grant_request g)"
  using set_put_row [OF assms(3)] assms(5) unique_on_inj [OF tables_valid_unique(3) [OF assms(1)] _ assms(2), of x] by auto

lemma one_grant_ok:
  assumes valid: "tables_valid t" and ok: "approvals_ok t" and r: "r \<in> set (requests t)" and g: "g \<in> set (grants t)"
    and same: "same_grant g g'" "gr_grant_id g' = gr_grant_id g" and st: "grant_request g = org_request r" "statuses_agree st (gr_status g')"
  shows "approvals_ok (upd_requests (put_row rq_request_id (request_update st why n now r)) (upd_grants (put_row gr_grant_id g') t))"
proof (rule put_request_ok [OF tables_valid_unique(2) [OF valid] ok r])
  fix x assume "x \<in> set (grants (upd_requests (put_row rq_request_id (request_update st why n now r)) (upd_grants (put_row gr_grant_id g') t)))"
  then have "x = g' \<or> (x \<in> set (grants t) \<and> x \<noteq> g \<and> grant_request x \<noteq> grant_request g)"
    using grant_of_put [OF valid g _ same, of x] by simp
  then show "\<exists>y \<in> set (grants t). same_grant y x \<and>
      (if grant_request y = org_request r then statuses_agree (rq_status r) (gr_status y) \<longrightarrow> statuses_agree st (gr_status x) else x = y)"
  proof
    assume "x = g'"
    then show ?thesis using g same(1) st by (intro bexI [of _ g]) simp_all
  next
    assume "x \<in> set (grants t) \<and> x \<noteq> g \<and> grant_request x \<noteq> grant_request g"
    then show ?thesis using st(1) by (intro bexI [of _ x]) auto
  qed
qed simp_all

lemma decision_request_row:
  assumes "tables_valid t" "d \<in> set (decisions t)"
  shows "\<exists>q \<in> set (requests t). decision_request d = org_request q"
proof -
  have "references (\<lambda>d. (decision_request d, dc_action_type d, dc_parameter_hash d)) (decisions t)
       (\<lambda>r. (org_request r, rq_action_type r, rq_parameter_hash r)) (requests t)"
    using assms(1) by (simp add: tables_valid_def decisions_keys_ok_def)
  then have "(decision_request d, dc_action_type d, dc_parameter_hash d) \<in>
      (\<lambda>r. (org_request r, rq_action_type r, rq_parameter_hash r)) ` set (requests t)"
    using assms(2) by (simp add: references_def image_subset_iff)
  then show ?thesis by blast
qed

lemma list_all2_counterpart: "list_all2 R xs ys \<Longrightarrow> y \<in> set ys \<Longrightarrow> \<exists>x \<in> set xs. R x y"
  and list_all2_image: "list_all2 R xs ys \<Longrightarrow> x \<in> set xs \<Longrightarrow> \<exists>y \<in> set ys. R x y"
  by (induction rule: list_all2_induct) auto

lemma disabling_ok:
  assumes ok: "approvals_ok t" and gs: "list_all2 (revoked_from org now) (grants t) gs'"
    and rs: "list_all2 (invalidated_from org now) (requests t) rs'"
  shows "approvals_ok (t\<lparr>authorities := as', grants := gs', requests := rs'\<rparr>)"
proof (rule refreshed_ok [OF ok])
  have same: "same_request r r'" if "invalidated_from org now r r'" for r r' using that by (auto simp: invalidated_from_def)
  then show "refreshed t (t\<lparr>authorities := as', grants := gs', requests := rs'\<rparr>)"
    using list_all2_counterpart [OF rs] by (fastforce simp: refreshed_def)
  fix g' assume "g' \<in> set (grants (t\<lparr>authorities := as', grants := gs', requests := rs'\<rparr>))"
  then obtain g where g: "g \<in> set (grants t)" "revoked_from org now g g'" using list_all2_counterpart [OF gs] by auto
  obtain q where q: "q \<in> set (requests t)" "granted t q g" using ok g(1) by (rule grant_request_row)
  obtain q' where q': "q' \<in> set rs'" "invalidated_from org now q q'" using list_all2_image [OF rs q(1)] by blast
  have "statuses_agree (rq_status q') (gr_status g')"
    using g(2) q(2) q'(2) by (auto simp: revoked_from_def invalidated_from_def granted_def statuses_agree_def)
  moreover have "same_grant g g'" using g(2) by (auto simp: revoked_from_def)
  ultimately show "\<exists>r g r'. g \<in> set (grants t) \<and> granted t r g \<and> r' \<in> set (requests (t\<lparr>authorities := as', grants := gs', requests := rs'\<rparr>)) \<and>
      same_request r r' \<and> same_grant g g' \<and> statuses_agree (rq_status r') (gr_status g')"
    using g(1) q(2) q'(1) same [OF q'(2)] by (intro exI [of _ q] exI [of _ g] exI [of _ q']) simp
qed

lemma effect_keeps_ok:
  assumes eff: "effect org u now t t'" and valid: "tables_valid t" and ok: "approvals_ok t"
    and valid': "unique_on rq_request_id (requests t')"
  shows "approvals_ok t'"
  using eff
proof cases
  case (eff_authority a)
  then show ?thesis using ok by (simp add: approvals_ok_def granted_def approved_roles_alt decisions_of_def upd_defs)
next
  case (eff_open r)
  have new: "decision_request d \<noteq> org_request r" if "d \<in> set (decisions t)" for d
  proof
    assume "decision_request d = org_request r"
    moreover have "\<exists>q \<in> set (requests t). decision_request d = org_request q" by (rule decision_request_row [OF valid that])
    ultimately have "rq_request_id r \<in> rq_request_id ` set (requests t)" by auto
    with valid' eff_open(1) show False by (simp add: unique_on_def)
  qed
  have eq: "granted t' q x = granted t q x" for q x
    by (simp add: eff_open(1) granted_def approved_roles_alt decisions_of_def)
  show ?thesis using ok new unfolding approvals_ok_def eq by (auto simp: eff_open(1))
next
  case (eff_expire r n)
  show ?thesis
    by (rule put_request_ok [OF tables_valid_unique(2) [OF valid] ok eff_expire(2)])
      (auto simp: eff_expire(1,4) statuses_agree_def intro: same_refl(2))
next
  case (eff_reject r d n)
  then have r: "r \<in> set (requests t)" "rq_status r = RequestPending" by (simp_all add: decides_def pending_at_def)
  show ?thesis
    by (rule put_request_ok [OF _ add_decision_ok [OF tables_valid_unique(2) [OF valid] ok eff_reject(2)]])
      (use tables_valid_unique(2) [OF valid] r in \<open>auto simp: eff_reject(1) statuses_agree_def upd_commute intro: same_refl(2)\<close>)
next
  case (eff_approve r d n)
  then have r: "r \<in> set (requests t)" "rq_status r = RequestPending" by (simp_all add: decides_def pending_at_def)
  show ?thesis
    by (rule put_request_ok [OF _ add_decision_ok [OF tables_valid_unique(2) [OF valid] ok eff_approve(2)]])
      (use tables_valid_unique(2) [OF valid] r in \<open>auto simp: eff_approve(1) statuses_agree_def upd_commute intro: same_refl(2)\<close>)
next
  case (eff_grant r d g n)
  then have r: "r \<in> set (requests t)" "rq_status r = RequestPending" "rq_organization_id r = org"
    "decision_request d = org_request r" by (simp_all add: decides_def pending_at_def)
  let ?r = "request_update RequestApproved (rq_closed_reason r) n now r"
  let ?t = "upd_requests (put_row rq_request_id ?r) (upd_decisions (\<lambda>ds. ds @ [d]) t)"
  have ok': "approvals_ok ?t"
    by (rule put_request_ok [OF _ add_decision_ok [OF tables_valid_unique(2) [OF valid] ok eff_grant(2)]])
      (use tables_valid_unique(2) [OF valid] r in \<open>auto simp: statuses_agree_def upd_commute intro: same_refl(2)\<close>)
  have mem: "?r \<in> set (requests ?t)"
    using put_row_self [OF r(1), of rq_request_id ?r] by (simp add: upd_commute)
  have "approved_roles org (rq_request_id r) ?t \<supseteq> insert (dc_approval_role d) (approved_roles org (rq_request_id r) t)"
    using eff_grant(3) r by (auto simp: approved_roles_alt decisions_of_def upd_commute)
  then have "granted ?t ?r g"
    using eff_grant r by (auto simp: granted_def statuses_agree_def grant_of_def request_update_def)
  then show ?thesis using add_grant_ok [OF ok' mem] by (simp add: eff_grant(1))
next
  case (eff_close r st why n)
  show ?thesis
  proof (rule put_request_ok [OF tables_valid_unique(2) [OF valid] ok eff_close(2)])
    show "requests t' = put_row rq_request_id (request_update st (Some why) n now r) (requests t)" "decisions t' = decisions t"
      by (simp_all add: eff_close(1))
    fix g' assume "g' \<in> set (grants t')"
    then have "g' \<in> set (update_rows (\<lambda>g. grant_request g = org_request r \<and> gr_status g = GrantIssued) (grant_update GrantRevoked now) (grants t))"
      by (simp add: eff_close(1) HOL.induct_conj_def)
    then consider g where "g \<in> set (grants t)" "grant_request g = org_request r" "g' = grant_update GrantRevoked now g"
      | "g' \<in> set (grants t)" "\<not> (grant_request g' = org_request r \<and> gr_status g' = GrantIssued)"
      using set_update_rows by fast
    then show "\<exists>g \<in> set (grants t). same_grant g g' \<and>
      (if grant_request g = org_request r then statuses_agree (rq_status r) (gr_status g) \<longrightarrow> statuses_agree st (gr_status g') else g' = g)"
    proof cases
      case 1
      then show ?thesis using eff_close(5) by (intro bexI [of _ g]) (auto simp: statuses_agree_def)
    next
      case 2
      then show ?thesis using eff_close(4,5) by (intro bexI [of _ g']) (auto simp: statuses_agree_def)
    qed
  qed
next
  case (eff_disable gs' rs' as')
  show ?thesis
    unfolding eff_disable(1)
    by (rule disabling_ok [OF ok, unfolded revoked_from_def invalidated_from_def,
          OF eff_disable(2,3) [unfolded HOL.induct_conj_def]])
next
  case (eff_claim r g n x h)
  show ?thesis
    unfolding eff_claim(1) claimed_grant_def [symmetric]
    by (rule one_grant_ok [OF valid ok eff_claim(2,3)]) (use eff_claim(4) in \<open>simp_all add: statuses_agree_def HOL.induct_conj_def\<close>)
next
  case (eff_complete r g n x)
  show ?thesis
    unfolding eff_complete(1) consumed_grant_def [symmetric]
    by (rule one_grant_ok [OF valid ok eff_complete(2,3)]) (use eff_complete(4) in \<open>simp_all add: statuses_agree_def HOL.induct_conj_def\<close>)
qed

end
