(* ===== verification/Claim_Once.thy ===== *)
theory Claim_Once
  imports Approval_Safety
begin

section \<open>A request is claimed at most once\<close>

text \<open>
  Events of the running system, the four-eyes property of every grant, and the count of successful
  claims of a request: at most one, whatever happens in between.
\<close>

subsection \<open>Events\<close>

definition approval_rows :: "tables \<Rightarrow> approval_authority list \<times> approval_request list \<times> approval_decision list \<times> approval_grant list" where
  "approval_rows t = (authorities t, requests t, decisions t, grants t)"

text \<open>A call of an approval operation, or a commit of another component, which leaves the approval tables alone.\<close>

datatype workflow_event = Called env actor_context string datetime approval_call | Elsewhere tables

fun do_event :: "workflow_event \<Rightarrow> session \<Rightarrow> bool \<times> session" where
  "do_event (Called v actor org now c) s = (case perform v actor org now c s of (Inr _, s') \<Rightarrow> (True, s') | (Inl _, s') \<Rightarrow> (False, s'))"
| "do_event (Elsewhere t) s = (False, if approval_rows t = approval_rows (committed s) \<and> tables_valid t then s\<lparr>committed := t\<rparr> else s)"

definition workflow_move :: "session \<Rightarrow> session \<Rightarrow> bool" where
  "workflow_move s s' \<longleftrightarrow> (\<exists>e. s' = snd (do_event e s))"

definition consistent :: "tables \<Rightarrow> bool" where
  "consistent t \<longleftrightarrow> tables_valid t \<and> approvals_ok t"

lemma approvals_ok_rows:
  "approvals_ok t \<Longrightarrow> requests t' = requests t \<Longrightarrow> decisions t' = decisions t \<Longrightarrow> grants t' = grants t \<Longrightarrow> approvals_ok t'"
  by (simp add: approvals_ok_def granted_def approved_roles_alt decisions_of_def)

lemma no_audit_rows:
  assumes "no_audit t = no_audit t'"
  shows "requests t = requests t'" "decisions t = decisions t'" "grants t = grants t'" "authorities t = authorities t'"
  using arg_cong [OF assms, of requests] arg_cong [OF assms, of decisions] arg_cong [OF assms, of grants]
    arg_cong [OF assms, of authorities] by simp_all

lemma effect_or_same_ok:
  assumes eff: "effect_or_same org u now t c" and t: "consistent t"
  shows "consistent c"
proof -
  have valid: "tables_valid c" using effect_or_same_valid [OF eff] t by (simp add: consistent_def)
  consider "c = t" | "no_audit c = no_audit t" | t' where "effect org u now t t'" "no_audit c = no_audit t'"
    using eff by (auto simp: effect_or_same_def)
  then have "approvals_ok c"
  proof cases
    case 3
    have "approvals_ok t'"
      by (rule effect_keeps_ok [OF 3(1)])
        (use t tables_valid_unique(2) [OF valid] no_audit_rows(1) [OF 3(2)] in \<open>simp_all add: consistent_def\<close>)
    then show ?thesis using no_audit_rows(1,2,3) [OF 3(2)] by (rule approvals_ok_rows)
  qed (use t in \<open>auto simp: consistent_def intro: approvals_ok_rows no_audit_rows\<close>)
  with valid show ?thesis by (simp add: consistent_def)
qed

lemma committed_event:
  "committed (snd (do_event (Called v actor org now c) s)) = committed (snd (perform v actor org now c s))"
  by (auto split: prod.split sum.split)

lemma event_keeps_consistent: "consistent (committed s) \<Longrightarrow> consistent (committed (snd (do_event e s)))"
proof (cases e)
  case (Called v actor org now c)
  assume "consistent (committed s)"
  then show ?thesis
    unfolding Called committed_event using effect_or_same_ok [OF perform_effect] by (simp add: consistent_def)
next
  case (Elsewhere t)
  assume "consistent (committed s)"
  then show ?thesis
    by (auto simp: Elsewhere consistent_def approval_rows_def intro: approvals_ok_rows)
qed

interpretation workflow: invariant_system "\<lambda>s. consistent (committed s)" workflow_move "\<lambda>s. consistent (committed s)"
  by unfold_locales (auto simp: workflow_move_def intro: event_keeps_consistent)

subsection \<open>Four eyes\<close>

text \<open>A grant has its one request, which it binds, and approvals in all required roles by distinct users who
  neither asked for the action nor execute it.\<close>

definition four_eyes :: "tables \<Rightarrow> approval_grant \<Rightarrow> bool" where
  "four_eyes t g = (case filter (\<lambda>r. org_request r = grant_request g) (requests t) of
       [r] \<Rightarrow> let ds = approved_decisions (rq_organization_id r) (rq_request_id r) t in
         grant_of r g \<and> set (rq_required_roles r) \<subseteq> dc_approval_role ` set ds \<and> length (rq_required_roles r) \<le> length ds \<and>
         distinct (map dc_approver_user_id ds) \<and>
         list_all (\<lambda>d. dc_approver_user_id d \<notin> {rq_requester_user_id r, gr_executor_user_id g}) ds
     | _ \<Rightarrow> False)"

lemma filter_unique: "unique_on key rs \<Longrightarrow> r \<in> set rs \<Longrightarrow> P r \<Longrightarrow> (\<And>x. x \<in> set rs \<Longrightarrow> P x \<Longrightarrow> key x = key r) \<Longrightarrow> filter P rs = [r]"
proof (induction rs)
  case (Cons x rs)
  have u: "unique_on key rs" and notin: "key x \<notin> key ` set rs" using Cons.prems(1) by (simp_all add: unique_on_def)
  show ?case
  proof (cases "r = x")
    case True
    then have "filter P rs = []" using Cons.prems(4) notin by (fastforce simp: filter_empty_conv image_iff)
    then show ?thesis using True Cons.prems(3) by simp
  next
    case False
    then have r: "r \<in> set rs" using Cons.prems(2) by simp
    then have "\<not> P x" using Cons.prems(4) [of x] notin by auto
    then show ?thesis using Cons.IH [OF u r Cons.prems(3)] Cons.prems(4) by simp
  qed
qed simp

lemma approved_decisions_set:
  "d \<in> set (approved_decisions org i t) \<longleftrightarrow> d \<in> set (decisions t) \<and> decision_request d = (org, i) \<and> dc_decision d = Approved"
  by (auto simp: approved_decisions_def decisions_of_def)

lemma distinct_map_sort_filter: "distinct (map f (filter P xs)) \<Longrightarrow> distinct (map f (sort_key k (filter P xs)))"
  by (simp add: distinct_map)

lemma approvers_distinct:
  assumes "tables_valid t"
  shows "distinct (map dc_approver_user_id (approved_decisions org i t))"
proof -
  have "distinct (map (\<lambda>d. (decision_request d, dc_approver_user_id d)) (decisions t))"
    using assms by (simp add: tables_valid_def decisions_keys_ok_def unique_on_def)
  then have "inj_on (\<lambda>d. (decision_request d, dc_approver_user_id d)) (set (decisions t))" "distinct (decisions t)"
    by (simp_all add: distinct_map)
  then have "inj_on dc_approver_user_id (set (filter (\<lambda>d. dc_decision d = Approved) (decisions_of org i t)))" "distinct (decisions t)"
    by (auto simp: inj_on_def decisions_of_def)
  then show ?thesis unfolding approved_decisions_def by (simp add: distinct_map decisions_of_def)
qed

lemma consistent_four_eyes:
  assumes "consistent t" "g \<in> set (grants t)"
  shows "four_eyes t g"
proof -
  have ok: "approvals_ok t" and valid: "tables_valid t" using assms(1) by (simp_all add: consistent_def)
  obtain r where r: "r \<in> set (requests t)" "granted t r g" "grant_request g = org_request r" using ok assms(2) by (rule grant_request_row)
  have one: "filter (\<lambda>r. org_request r = grant_request g) (requests t) = [r]"
    by (rule filter_unique [OF tables_valid_unique(2) [OF valid] r(1)]) (simp_all add: r(3))
  let ?ds = "approved_decisions (rq_organization_id r) (rq_request_id r) t"
  have roles: "set (rq_required_roles r) \<subseteq> dc_approval_role ` set ?ds" and gr: "grant_of r g"
    using r(2) by (simp_all add: granted_def approved_roles_def)
  have "request_row_ok r" using valid r(1) by (simp add: tables_valid_def rows_ok_def list_all_iff)
  then have "distinct (rq_required_roles r)" by (auto simp: request_row_ok_def)
  then have "length (rq_required_roles r) \<le> card (dc_approval_role ` set ?ds)"
    using card_mono [OF _ roles] by (simp add: distinct_card)
  also have "\<dots> \<le> length ?ds" using card_image_le [of "set ?ds" dc_approval_role] card_length [of ?ds] by simp
  finally have len: "length (rq_required_roles r) \<le> length ?ds" .
  have others: "dc_approver_user_id d \<notin> {rq_requester_user_id r, gr_executor_user_id g}" if "d \<in> set ?ds" for d
  proof -
    have "dc_approver_user_id d \<notin> {rq_requester_user_id r, rq_executor_user_id r}"
      using ok r(1) that unfolding approvals_ok_def approved_decisions_set by blast
    then show ?thesis using gr by (simp add: grant_of_def)
  qed
  show ?thesis
    unfolding four_eyes_def one using roles gr len others approvers_distinct [OF valid] by (simp add: list_all_iff)
qed

subsection \<open>What a successful claim has checked, and what it leaves\<close>

lemma audit_Inr:
  assumes "audit v actor org ty subject extra now s = (Inr e, s')"
  shows "no_audit (current s') = no_audit (current s)" "committed s' = committed s"
  using triple_Inr [OF audit_triple [of "committed s" "current s" v actor org ty subject extra now] _ assms]
  by (simp_all add: open_at_def)

lemma active_approval_set_Inr: "active_approval_set v r s = (Inr x, s') \<Longrightarrow> s' = s"
  by (auto simp: active_approval_set_def approval_set_hash_def run_iff split: option.splits)

lemma evaluated_Inr [simp]: "evaluated r s = (Inr x, s') \<longleftrightarrow> r = Inr x \<and> s' = s"
  by (auto simp: evaluated_def split: sum.splits)

lemma risk_facts_Inr: "risk_facts org action params s = (Inr b, s') \<Longrightarrow> s' = s"
  by (auto simp: risk_facts_def query_def ret_def split: if_splits option.splits json.splits)

lemma vault_peek_iff [simp]: "vault_peek g s = (Inr x, s') \<longleftrightarrow> x = map_of (vault s) g \<and> s' = s"
  by (auto simp: vault_peek_def)

lemma put_request_iff [simp]: "put_request r s = (Inr u, s') \<longleftrightarrow> s' = s\<lparr>current := upd_requests (put_row rq_request_id r) (current s)\<rparr>"
  by (simp add: put_request_def)

lemma commit_iff [simp]: "commit s = (Inr u, s') \<longleftrightarrow> tables_valid (current s) \<and> s' = s\<lparr>committed := current s\<rparr>"
  by (auto simp: commit_def)

lemma scalar_iff [simp]: "scalar tbl P s = (Inr x, s') \<longleftrightarrow> x = find P (tbl (current s)) \<and> s' = s"
  by (simp add: scalar_def)

lemma opaque_id_iff [simp]: "opaque_id v pre s = (Inr x, s') \<longleftrightarrow> x = pre @ CHR ''_'' # v_token_hex v (drawn s) \<and> s' = s\<lparr>drawn := Suc (drawn s)\<rparr>"
  by (simp add: opaque_id_def)

lemma record_claim_Inr:
  assumes "record_claim v actor org r c x now None s = (Inr read, s')"
  shows "\<exists>n. requests (committed s') = put_row rq_request_id (request_update RequestClaimed (rq_closed_reason r) n now r) (requests (current s))"
proof -
  let ?r1 = "r\<lparr>rq_status := RequestClaimed, rq_version := rq_version r + 1, rq_updated_at := now\<rparr>"
  obtain e1 s1 e2 s2 where a: "audit v actor org EvGrantClaimed (gr_grant_id c)
        [(''request_id'', JStr (rq_request_id r)), (''grant_id'', JStr (gr_grant_id c)),
         (''grant_status'', JStr (grant_status_name (gr_status c))), (''execution_id'', JStr x),
         (''parameter_hash'', JStr (rq_parameter_hash r)), (''authorization_hash'', JStr (a_authorization_hash actor)),
         (''version'', JInt (gr_version c))] now (s\<lparr>current := upd_requests (put_row rq_request_id ?r1) (current s)\<rparr>) = (Inr e1, s1)"
    and b: "audit v actor org EvExecutionStarted x
        [(''request_id'', JStr (rq_request_id r)), (''grant_id'', JStr (gr_grant_id c)), (''execution_id'', JStr x),
         (''action_type'', JStr (rq_action_type r)), (''parameter_hash'', JStr (rq_parameter_hash r))] now s1 = (Inr e2, s2)"
    and c: "committed s' = upd_requests (put_row rq_request_id (?r1\<lparr>rq_audit_sequence := ev_sequence e1\<rparr>)) (current s2)"
    using assms unfolding record_claim_def Let_def option.case by (auto simp: run_iff vault_discard_def modify_def)
  have "requests (current s2) = put_row rq_request_id ?r1 (requests (current s))"
    using no_audit_rows(1) [OF audit_Inr(1) [OF b]] no_audit_rows(1) [OF audit_Inr(1) [OF a]] by simp
  then have "requests (committed s') = put_row rq_request_id (?r1\<lparr>rq_audit_sequence := ev_sequence e1\<rparr>) (requests (current s))"
    unfolding c by (simp add: put_put)
  moreover have "?r1\<lparr>rq_audit_sequence := ev_sequence e1\<rparr> = request_update RequestClaimed (rq_closed_reason r) (ev_sequence e1) now r"
    by (simp add: request_update_def)
  ultimately show ?thesis by auto
qed

lemma claim_body_Inr:
  assumes "claim_body v actor org r g p now None s = (Inr read, s')"
  shows "\<exists>ds h th nh e. \<not> claim_refused r g p e ds h th nh now"
    and "\<exists>n. requests (committed s') = put_row rq_request_id (request_update RequestClaimed (rq_closed_reason r) n now r) (requests (current s))"
  using assms unfolding claim_body_def
  by (auto simp: run_iff update_returning_def one_or_none_def split: option.splits prod.splits list.splits
      dest!: active_approval_set_Inr risk_facts_Inr record_claim_Inr) blast+

lemma reject_claim_fails: "reject_claim v actor org subject extra now s \<noteq> (Inr x, s')"
  by (auto simp: reject_claim_def run_iff)

lemma claim_failed_fails: "claim_failed v actor org i g now err s \<noteq> (Inr x, s')"
  by (auto simp: claim_failed_def run_iff split: if_splits)

text \<open>The request is claimed or completed.\<close>

definition spent :: "string \<Rightarrow> string \<Rightarrow> tables \<Rightarrow> bool" where
  "spent org i t = list_ex (\<lambda>r. org_request r = (org, i) \<and> rq_status r \<in> {RequestClaimed, RequestConsumed}) (requests t)"

lemma claim_grant_Inr:
  assumes "claim_grant v actor org i p now None s = (Inr read, s')"
  shows "\<exists>r \<in> set (requests (current s)). org_request r = (org, i) \<and> rq_status r = RequestApproved"
    and "spent org i (committed s')"
proof -
  obtain r g where r: "find (\<lambda>r. rq_organization_id r = org \<and> rq_request_id r = i) (requests (current s)) = Some r"
    and body: "claim_body v actor org r g p now None s = (Inr read, s')"
    using assms
    by (auto simp: claim_grant_def run_iff require_actor_organization_def find_request_def find_grant_def reject_claim_fails
        claim_failed_fails split: option.splits if_splits prod.splits sum.splits)
  obtain ds h th nh e where "\<not> claim_refused r g p e ds h th nh now" using claim_body_Inr(1) [OF body] by blast
  then have "rq_status r = RequestApproved" by (simp add: claim_refused_def)
  moreover have in_t: "r \<in> set (requests (current s))" "org_request r = (org, i)" using find_row [OF r] by simp_all
  ultimately show "\<exists>r \<in> set (requests (current s)). org_request r = (org, i) \<and> rq_status r = RequestApproved" by blast
  obtain n where n: "requests (committed s') =
      put_row rq_request_id (request_update RequestClaimed (rq_closed_reason r) n now r) (requests (current s))"
    using claim_body_Inr(2) [OF body] by blast
  have "request_update RequestClaimed (rq_closed_reason r) n now r \<in> set (requests (committed s'))"
    unfolding n by (rule put_row_self [OF in_t(1)]) simp
  moreover have "org_request (request_update RequestClaimed (rq_closed_reason r) n now r) = (org, i)"
    using in_t(2) by simp
  ultimately show "spent org i (committed s')" unfolding spent_def list_ex_iff
    by (intro bexI [of _ "request_update RequestClaimed (rq_closed_reason r) n now r"]) simp_all
qed

text \<open>A spent request stays spent.\<close>

lemma spent_put:
  assumes "unique_on rq_request_id (requests t)" "spent org i t" "r \<in> set (requests t)" "requests t' = put_row rq_request_id (request_update st why n now r) (requests t)"
    and "rq_status r \<in> {RequestClaimed, RequestConsumed} \<longrightarrow> st \<in> {RequestClaimed, RequestConsumed}"
  shows "spent org i t'"
proof -
  obtain q where q: "q \<in> set (requests t)" "org_request q = (org, i)" "rq_status q \<in> {RequestClaimed, RequestConsumed}"
    using assms(2) by (auto simp: spent_def list_ex_iff)
  obtain q' where q': "q' \<in> set (requests t')" "same_request q q'" "q' = q \<and> q \<noteq> r \<or> q' = request_update st why n now r \<and> q = r"
    using request_of_put [OF assms(1,3) q(1) refl, of st why n now] assms(4) by auto
  have "rq_status q' \<in> {RequestClaimed, RequestConsumed}" using q'(3) q(3) assms(5) by auto
  moreover have "org_request q' = (org, i)" using q'(2) q(2) by (simp add: same_request_def)
  ultimately show ?thesis using q'(1) unfolding spent_def list_ex_iff by blast
qed

lemma spent_rows: "spent org i t \<Longrightarrow> requests t' = requests t \<Longrightarrow> spent org i t'"
  by (simp add: spent_def)

lemma effect_keeps_spent:
  assumes eff: "effect org' u now t t'" and valid: "tables_valid t" and sp: "spent org i t"
  shows "spent org i t'"
  using eff
proof cases
  case (eff_authority a)
  then show ?thesis using sp by (simp add: spent_def upd_defs)
next
  case (eff_open r)
  then show ?thesis using sp by (simp add: spent_def)
next
  case (eff_expire r n)
  then show ?thesis by (intro spent_put [OF tables_valid_unique(2) [OF valid] sp]) auto
next
  case (eff_reject r d n)
  then show ?thesis
    by (intro spent_put [OF tables_valid_unique(2) [OF valid] sp, of r]) (auto simp: decides_def pending_at_def)
next
  case (eff_approve r d n)
  then show ?thesis
    by (intro spent_put [OF tables_valid_unique(2) [OF valid] sp, of r]) (auto simp: decides_def pending_at_def)
next
  case (eff_grant r d g n)
  then show ?thesis
    by (intro spent_put [OF tables_valid_unique(2) [OF valid] sp, of r]) (auto simp: decides_def pending_at_def)
next
  case (eff_close r st why n)
  then show ?thesis by (intro spent_put [OF tables_valid_unique(2) [OF valid] sp, of r]) auto
next
  case (eff_disable gs' rs' as')
  obtain q where q: "q \<in> set (requests t)" "org_request q = (org, i)" "rq_status q \<in> {RequestClaimed, RequestConsumed}"
    using sp by (auto simp: spent_def list_ex_iff)
  with list_all2_image [OF eff_disable(3) q(1)] have "q \<in> set rs'" by (auto simp: HOL.induct_conj_def)
  then show ?thesis using q by (auto simp: eff_disable(1) spent_def list_ex_iff)
next
  case (eff_claim r g n x h)
  then show ?thesis by (intro spent_put [OF tables_valid_unique(2) [OF valid] sp, of r]) auto
next
  case (eff_complete r g n x)
  then show ?thesis by (intro spent_put [OF tables_valid_unique(2) [OF valid] sp, of r]) auto
qed

lemma effect_or_same_spent:
  assumes eff: "effect_or_same org' u now t c" and "tables_valid t" "spent org i t"
  shows "spent org i c"
proof -
  consider "c = t" | "no_audit c = no_audit t" | t' where "effect org' u now t t'" "no_audit c = no_audit t'"
    using eff by (auto simp: effect_or_same_def)
  then show ?thesis
  proof cases
    case 3
    show ?thesis using effect_keeps_spent [OF 3(1) assms(2,3)] no_audit_rows(1) [OF 3(2)] by (rule spent_rows)
  next
    case 2
    then show ?thesis using assms(3) no_audit_rows(1) by (blast intro: spent_rows)
  qed (use assms(3) in simp)
qed

subsection \<open>Counting claims\<close>

fun claims_of :: "string \<Rightarrow> string \<Rightarrow> workflow_event \<Rightarrow> bool" where
  "claims_of org i (Called v actor org' now (ClaimGrant i' p)) \<longleftrightarrow> org' = org \<and> i' = i"
| "claims_of org i _ \<longleftrightarrow> False"

text \<open>How many claims of the request succeed in a sequence of events.\<close>

fun claims_granted :: "string \<Rightarrow> string \<Rightarrow> workflow_event list \<Rightarrow> session \<Rightarrow> nat" where
  "claims_granted org i [] s = 0"
| "claims_granted org i (e # es) s = (let (success, s') = do_event e s in
     (if claims_of org i e \<and> success then 1 else 0) + claims_granted org i es s')"

lemma event_keeps_spent:
  assumes "tables_valid (committed s)" "spent org i (committed s)"
  shows "spent org i (committed (snd (do_event e s)))"
proof (cases e)
  case (Called v actor org' now c)
  show ?thesis unfolding Called committed_event by (rule effect_or_same_spent [OF perform_effect [OF assms(1)] assms])
next
  case (Elsewhere t)
  then show ?thesis using assms(2) by (auto simp: approval_rows_def intro: spent_rows)
qed

lemma event_keeps_valid: "tables_valid (committed s) \<Longrightarrow> tables_valid (committed (snd (do_event e s)))"
proof (cases e)
  case (Called v actor org' now c)
  assume "tables_valid (committed s)"
  then show ?thesis unfolding Called committed_event using effect_or_same_valid [OF perform_effect] by blast
qed auto

lemma claim_event:
  assumes "claims_of org i e" "do_event e s = (True, s')" "tables_valid (committed s)"
  shows "\<not> spent org i (committed s) \<and> spent org i (committed s')"
proof -
  obtain v actor now p where e: "e = Called v actor org now (ClaimGrant i p)"
    using assms(1) by (cases "(org, i, e)" rule: claims_of.cases) auto
  obtain x t where m: "method_of v actor org now (ClaimGrant i p) (s\<lparr>current := committed s\<rparr>) = (Inr x, t)" "s' = t\<lparr>current := committed t\<rparr>"
    using assms(2) by (auto simp: e perform_def in_session_def Let_def split: prod.splits sum.splits)
  then obtain y where c: "claim_grant v actor org i p now None (s\<lparr>current := committed s\<rparr>) = (Inr y, t)"
    by (auto simp: void_def run_iff)
  obtain r where r: "r \<in> set (requests (committed s))" "org_request r = (org, i)" "rq_status r = RequestApproved"
    using claim_grant_Inr(1) [OF c] by auto
  have "q = r" if "q \<in> set (requests (committed s))" "org_request q = (org, i)" for q
    using request_row_unique [OF tables_valid_unique(2) [OF assms(3)] that(1) r(1)] that(2) r(2) by simp
  then have "\<not> spent org i (committed s)" using r(3) by (auto simp: spent_def list_ex_iff)
  then show ?thesis using claim_grant_Inr(2) [OF c] m(2) by simp
qed

lemma claims_granted_bound:
  assumes "tables_valid (committed s)"
  shows "claims_granted org i es s \<le> (if spent org i (committed s) then 0 else 1)"
  using assms
proof (induction es arbitrary: s)
  case (Cons e es)
  obtain success s' where e: "do_event e s = (success, s')" by fastforce
  have valid: "tables_valid (committed s')" using event_keeps_valid [OF Cons.prems, of e] e by simp
  have keep: "spent org i (committed s) \<Longrightarrow> spent org i (committed s')" using event_keeps_spent [OF Cons.prems, of org i e] e by simp
  show ?case
    using Cons.IH [OF valid] keep claim_event [of org i e s s'] e Cons.prems by (auto split: if_splits)
qed simp

end
