(* ===== verification/Audit_Trail.thy ===== *)
theory Audit_Trail
  imports Claim_Once
begin

section \<open>The audit trail of the approval workflow\<close>

text \<open>
  Every operation only appends events of its own organization and keeps every chain that was valid
  valid, whether it returns or raises. The rows of other organizations stay as they are.
\<close>

subsection \<open>Extending the trail\<close>

definition extends_trail :: "(string \<Rightarrow> string) \<Rightarrow> string \<Rightarrow> tables \<Rightarrow> tables \<Rightarrow> bool" where
  "extends_trail sha org t t' \<longleftrightarrow>
     (\<exists>es. events t' = events t @ es \<and> list_all (\<lambda>e. ev_organization_id e = org) es) \<and>
     (\<forall>org'. org' \<noteq> org \<longrightarrow> head_of org' t' = head_of org' t) \<and>
     (\<forall>org'. valid_chain sha org' t \<longrightarrow> valid_chain sha org' t')"

definition trail_kept :: "(string \<Rightarrow> string) \<Rightarrow> string \<Rightarrow> tables \<Rightarrow> session \<Rightarrow> bool" where
  "trail_kept sha org t s \<longleftrightarrow> extends_trail sha org t (current s) \<and> extends_trail sha org t (committed s)"

lemma extends_refl: "extends_trail sha org t t"
  by (simp add: extends_trail_def)

text \<open>A change of the other tables does not matter.\<close>

lemma extends_frame: "events t'' = events t' \<Longrightarrow> heads t'' = heads t' \<Longrightarrow> extends_trail sha org t t' \<Longrightarrow> extends_trail sha org t t''"
proof -
  assume eq: "events t'' = events t'" "heads t'' = heads t'"
  have h: "head_of org' t'' = head_of org' t'" and c: "chain_of org' t'' = chain_of org' t'" for org'
    by (simp_all add: head_of_def chain_of_def eq)
  show "extends_trail sha org t t' \<Longrightarrow> extends_trail sha org t t''"
    unfolding extends_trail_def valid_chain_def h c eq .
qed

definition trail_blind :: "(tables \<Rightarrow> tables) \<Rightarrow> bool" where
  "trail_blind f \<longleftrightarrow> (\<forall>t. events (f t) = events t \<and> heads (f t) = heads t)"

lemma trail_blind_upd [simp]:
  "trail_blind (upd_requests f1)" "trail_blind (upd_decisions f2)" "trail_blind (upd_grants f3)" "trail_blind (upd_authorities f4)"
  by (simp_all add: trail_blind_def upd_defs)

lemma extends_append:
  assumes "append_audit_event v org ty actor subject p now s = (Inr e, s')" and "distinct (map fst p)"
    and "extends_trail (v_sha v) org t (current s)"
  shows "extends_trail (v_sha v) org t (current s')"
proof -
  obtain h where h: "head_of org (current s) = Some h"
    and e: "e = new_event v org ty actor subject p now h (''aud_'' @ v_token_hex v (drawn s))" and s': "s' = after_append e now h s"
    using append_audit_event_Inr [OF assms(1)] by blast
  have "ev_organization_id e = org" by (simp add: e new_event_def Let_def)
  then show ?thesis
    using assms(3) after_append_frame [OF h e] append_keeps_valid [OF assms(1,2)]
    unfolding extends_trail_def s' by auto
qed

subsection \<open>Rules that hold for every property\<close>

lemma keeps_case_option: "keeps Q a \<Longrightarrow> (\<And>x. keeps Q (b x)) \<Longrightarrow> keeps Q (case_option a b found)"
  and keeps_case_prod: "(\<And>x y. keeps Q (c x y)) \<Longrightarrow> keeps Q (case_prod c p)"
  and keeps_if: "keeps Q m \<Longrightarrow> keeps Q m' \<Longrightarrow> keeps Q (if cond then m else m')"
  by (auto split: option.split prod.split)

lemma keeps_for_each: "(\<And>x. keeps Q (f x)) \<Longrightarrow> keeps Q (for_each f xs)"
  by (induction xs) (auto intro: keeps_andthen)

lemma keeps_catch:
  assumes "keeps Q m" "\<And>e. keeps Q (h e)"
  shows "keeps Q (\<lambda>s. case m s of (Inr c, s') \<Rightarrow> (Inr c, s') | (Inl e, s') \<Rightarrow> h e s')"
  unfolding keeps_def
proof (intro allI impI)
  fix s assume "Q s"
  then have "Q (snd (m s))" using assms(1) by (rule keepsD [rotated])
  then show "Q (snd (case m s of (Inr c, s') \<Rightarrow> (Inr c, s') | (Inl e, s') \<Rightarrow> h e s'))"
    using keepsD [OF assms(2)] by (auto split: prod.split sum.split)
qed

lemma keeps_suppress:
  assumes "keeps Q m" "keeps Q h"
  shows "keeps Q (\<lambda>s. case m s of (Inl e, s') \<Rightarrow> h s' | (Inr u, s') \<Rightarrow> (Inr u, s'))"
  unfolding keeps_def
proof (intro allI impI)
  fix s assume "Q s"
  then have "Q (snd (m s))" using assms(1) by (rule keepsD [rotated])
  then show "Q (snd (case m s of (Inl e, s') \<Rightarrow> h s' | (Inr u, s') \<Rightarrow> (Inr u, s')))"
    using keepsD [OF assms(2)] by (auto split: prod.split sum.split)
qed

subsection \<open>Invariants of a session\<close>

text \<open>
  A property of sessions that every statement keeps. The client is the code of all operations; the
  provider proves the laws for one property of the tables, the trail or the vault.
\<close>

locale control_invariant =
  fixes Q :: "session \<Rightarrow> bool" and v :: env and org :: string
  assumes Q_store: "trail_blind h \<Longrightarrow> Q s \<Longrightarrow> Q (s\<lparr>current := h (current s)\<rparr>)"
    and Q_drawn: "Q s \<Longrightarrow> Q (s\<lparr>drawn := n\<rparr>)"
    and Q_rollback: "Q s \<Longrightarrow> Q (s\<lparr>current := committed s\<rparr>)"
    and Q_commit: "tables_valid (current s) \<Longrightarrow> Q s \<Longrightarrow> Q (s\<lparr>committed := current s\<rparr>)"
    and Q_put: "Q s \<Longrightarrow> Q (snd (vault_put i c s))"
    and Q_discard: "Q s \<Longrightarrow> Q (snd (vault_discard i s))"
    and Q_append: "append_audit_event v org ty actor subject p now s = (Inr e, s') \<Longrightarrow> distinct (map fst p) \<Longrightarrow> Q s \<Longrightarrow> Q s'"
begin

lemma keeps_statements:
  "keeps Q (query q)" "trail_blind h \<Longrightarrow> keeps Q (store h)" "keeps Q (require b e)" "keeps Q (draw g)" "keeps Q rollback"
  "keeps Q commit" "keeps Q (one_or_none rs)" "keeps Q (vault_put i c)" "keeps Q (vault_peek i)" "keeps Q (vault_discard i)"
  using Q_put Q_discard
  by (auto simp: keeps_def query_def store_def require_def draw_def rollback_def commit_def one_or_none_def vault_peek_def
      modify_def ret_def raise_def intro: Q_store Q_drawn Q_rollback Q_commit split: list.split)

lemma keeps_audit:
  assumes "distinct (map fst (audit_payload extra))"
  shows "keeps Q (audit v actor org ty subject extra now)"
  unfolding keeps_def
proof (intro allI impI)
  fix s assume s: "Q s"
  show "Q (snd (audit v actor org ty subject extra now s))"
  proof (cases "audit v actor org ty subject extra now s")
    case (Pair r s')
    show ?thesis
    proof (cases r)
      case (Inl e)
      then have "s' = s" using append_audit_event_Inl Pair unfolding audit_def by blast
      then show ?thesis using s Pair by simp
    next
      case (Inr e)
      then show ?thesis using Pair Q_append [OF _ assms s] by (simp add: audit_def)
    qed
  qed
qed

lemma keeps_simple:
  "keeps Q (ret x)" "keeps Q (raise e)"
  "keeps Q (rollback_raise e)"
  by (auto simp: rollback_raise_def intro: keeps_andthen keeps_statements)

lemma keeps_commit_or_conflict: "keeps Q (commit_or_conflict e)"
  by (auto simp: keeps_def commit_or_conflict_def commit_def rollback_raise_def rollback_def andthen_def modify_def raise_def
      intro: Q_commit Q_rollback)

lemma keeps_commit_or_discard: "keeps Q (commit_or_discard g)"
proof -
  have "keeps Q (\<lambda>s. case commit s of (Inr u, s') \<Rightarrow> (Inr u, s')
     | (Inl e, s') \<Rightarrow> andthen rollback (\<lambda>_. andthen (case g of None \<Rightarrow> ret () | Some i \<Rightarrow> vault_discard i) (\<lambda>_. raise e)) s')"
    by (rule keeps_catch) (auto intro!: keeps_andthen keeps_statements keeps_case_option)
  then show ?thesis by (simp add: commit_or_discard_def)
qed

lemmas trail_rules = keeps_andthen keeps_simple keeps_statements keeps_audit keeps_case_option keeps_case_prod keeps_if keeps_for_each
  keeps_commit_or_conflict keeps_commit_or_discard keeps_catch keeps_suppress trail_blind_upd

lemma keeps_evaluated: "keeps Q (evaluated r)"
  and keeps_risk_facts: "keeps Q (risk_facts org' action params)"
  by (auto simp: evaluated_def risk_facts_def keeps_statements keeps_simple split: sum.split option.split json.split)

lemma keeps_helpers:
  "keeps Q (scalar tbl P)" "keeps Q (opaque_id v pre)"
  "keeps Q (put_request q)" "keeps Q (put_grant g)"
  "keeps Q (approval_set_hash v org' ds)" "keeps Q (active_approval_set v q)"
  "keeps Q (require_actor_organization actor org')" "keeps Q (new_credential v)"
  unfolding scalar_def opaque_id_def put_request_def put_grant_def approval_set_hash_def active_approval_set_def
    require_actor_organization_def new_credential_def
  by (intro trail_rules)+

lemma keeps_find:
  "keeps Q (find_request org' i)" "keeps Q (find_grant org' i)"
  "keeps Q (get_request actor org' i)"
  unfolding find_request_def find_grant_def get_request_def by (intro trail_rules keeps_helpers)+

lemma keeps_update_returning:
  "(\<And>f. trail_blind (upd f)) \<Longrightarrow> keeps Q (update_returning tbl upd P h)"
  unfolding update_returning_def by (intro trail_rules)

lemmas op_rules = trail_rules keeps_evaluated keeps_risk_facts keeps_helpers keeps_find keeps_update_returning

subsection \<open>Every operation\<close>

lemma trail_authority: "keeps Q (create_authority v actor org p)"
  unfolding create_authority_def Let_def by (intro op_rules)

lemma trail_disable: "keeps Q (disable_authority v actor org i n now)"
  unfolding disable_authority_def revoke_for_authority_def Let_def
  by (intro op_rules) (simp_all add: audit_payload_def)

lemma trail_gate: "keeps Q (create_execution_gate v actor org p now)"
  unfolding create_execution_gate_def deny_gate_def automatic_gate_def open_request_def Let_def
  by (intro op_rules) (simp_all add: audit_payload_def risk_fields_def)

lemma trail_decide: "keeps Q (decide_request v actor org i n p now)"
proof -
  have single: "keeps Q (case xs of [a] \<Rightarrow> f a | _ \<Rightarrow> m)" if "\<And>a. keeps Q (f a)" "keeps Q m" for Q f m and xs :: "approval_authority list"
    using that by (auto split: list.split)
  show ?thesis
    unfolding decide_request_def expire_request_def record_decision_def issue_grant_def finish_decision_def Let_def
    by (intro op_rules single) (simp_all add: audit_payload_def)
qed

lemma trail_close: "keeps Q (close_request v actor org i n why invalidate now)"
  unfolding close_request_def revoke_grant_def Let_def by (intro op_rules) (simp_all add: audit_payload_def)

lemma trail_claim: "keeps Q (claim_grant v actor org i p now None)"
  unfolding claim_grant_def reject_claim_def claim_body_def claim_failed_def record_claim_def Let_def option.case
  by (intro op_rules) (simp_all add: audit_payload_def rejection_fields_def)

lemma trail_resume: "keeps Q (resume_execution_claim v actor org x ph ah now)"
  unfolding resume_execution_claim_def by (intro op_rules) (simp_all add: audit_payload_def)

lemma trail_complete: "keeps Q (complete_execution_claim v actor org x receipt now)"
  unfolding complete_execution_claim_def Let_def by (intro op_rules) (simp_all add: audit_payload_def)

lemma trail_method: "keeps Q (method_of v actor org now c)"
  by (cases c) (simp_all add: void_def keeps_andthen keeps_simple trail_authority trail_disable trail_gate trail_decide trail_close
      trail_claim trail_resume trail_complete)

lemma keeps_perform: "Q s \<Longrightarrow> Q (snd (perform v actor org now c s))"
  using keepsD [OF trail_method Q_rollback] Q_rollback
  by (simp add: perform_def in_session_def case_prod_beta Let_def)

end

subsection \<open>Two invariants\<close>

interpretation trail: control_invariant "trail_kept (v_sha v) org t" v org for v org t
proof
  show "trail_kept (v_sha v) org t s'" if "append_audit_event v org ty actor subject p now s = (Inr e, s')" "distinct (map fst p)"
    "trail_kept (v_sha v) org t s" for ty actor subject p now s e s'
  proof -
    have "committed s' = committed s" using append_audit_event_Inr [OF that(1)] by (auto simp: after_append_def)
    then show ?thesis using that extends_append [OF that(1,2)] by (simp add: trail_kept_def)
  qed
qed (auto simp: trail_kept_def trail_blind_def vault_put_def vault_discard_def modify_def intro: extends_frame)

text \<open>The vault holds at most its capacity, one credential for each grant.\<close>

definition vault_ok :: "session \<Rightarrow> bool" where
  "vault_ok s \<longleftrightarrow> length (vault s) \<le> capacity s \<and> distinct (map fst (vault s))"

interpretation bounded_vault: control_invariant vault_ok v org for v org
proof
  show "vault_ok (snd (vault_discard i s))" if "vault_ok s" for i s
    using that by (auto simp: vault_ok_def vault_discard_def modify_def distinct_map_filter intro: le_trans [OF length_filter_le])
  show "vault_ok s'" if "append_audit_event v org ty actor subject p now s = (Inr e, s')" "vault_ok s" for ty actor subject p now s e s'
    using append_audit_event_Inr [OF that(1)] that(2) by (auto simp: vault_ok_def after_append_def)
qed (auto simp: vault_ok_def vault_put_def)

lemma perform_extends: "extends_trail (v_sha v) org (committed s) (committed (snd (perform v actor org now c s)))"
proof -
  have "trail_kept (v_sha v) org (committed s) (s\<lparr>current := committed s\<rparr>)" by (simp add: trail_kept_def extends_refl)
  then have "trail_kept (v_sha v) org (committed s) (snd (perform v actor org now c (s\<lparr>current := committed s\<rparr>)))"
    by (rule trail.keeps_perform)
  then show ?thesis
    by (simp add: perform_def in_session_def case_prod_beta Let_def trail_kept_def)
qed

end
