(* ===== verification/Tenants.thy ===== *)
theory Tenants
  imports Audit_Trail
begin

section \<open>Tenants do not touch each other\<close>

text \<open>
  The rows of the approval tables that belong to other organizations, and that no call changes them:
  an effect works on the rows of one organization, and an actor who names another organization than
  his own gets \<open>ResourceNotFound\<close> before anything is read.
\<close>

definition foreign :: "string \<Rightarrow> tables \<Rightarrow> approval_authority list \<times> approval_request list \<times> approval_decision list \<times> approval_grant list" where
  "foreign org t = (filter (\<lambda>a. au_organization_id a \<noteq> org) (authorities t), filter (\<lambda>r. rq_organization_id r \<noteq> org) (requests t),
     filter (\<lambda>d. dc_organization_id d \<noteq> org) (decisions t), filter (\<lambda>g. gr_organization_id g \<noteq> org) (grants t))"

lemma foreign_put:
  assumes "unique_on key rs" "r \<in> set rs" "f r = org" "f r' = org" "key r' = key r"
  shows "filter (\<lambda>x. f x \<noteq> org) (put_row key r' rs) = filter (\<lambda>x. f x \<noteq> org) rs"
proof -
  have "f x = org" if "x \<in> set rs" "key x = key r'" for x using unique_on_inj [OF assms(1) that(1) assms(2)] that assms(3,5) by simp
  then show ?thesis unfolding put_row_def by (induction rs) (auto simp: assms(4))
qed

lemma foreign_list_all2:
  "list_all2 (\<lambda>x y. y = x \<or> (f x = org \<and> f y = org)) xs ys \<Longrightarrow> filter (\<lambda>x. f x \<noteq> org) ys = filter (\<lambda>x. f x \<noteq> org) xs"
  by (induction rule: list_all2_induct) auto

lemma foreign_update: "(\<And>x. P x \<Longrightarrow> f x = org \<and> f (h x) = org) \<Longrightarrow> filter (\<lambda>x. f x \<noteq> org) (update_rows P h rs) = filter (\<lambda>x. f x \<noteq> org) rs"
  by (induction rs) (auto simp: update_rows_def)

lemma update_organizations [simp]:
  "gr_organization_id (grant_update gs now g) = gr_organization_id g"
  "gr_organization_id ((grant_update gs now g)\<lparr>gr_execution_id := a, gr_authorization_hash := b, gr_claimed_at := c\<rparr>) = gr_organization_id g"
  "gr_organization_id ((grant_update gs now g)\<lparr>gr_receipt_reference := b, gr_consumed_at := c\<rparr>) = gr_organization_id g"
  "gr_grant_id ((grant_update gs now g)\<lparr>gr_execution_id := a, gr_authorization_hash := b, gr_claimed_at := c\<rparr>) = gr_grant_id g"
  "gr_grant_id ((grant_update gs now g)\<lparr>gr_receipt_reference := b, gr_consumed_at := c\<rparr>) = gr_grant_id g"
  by (simp_all add: grant_update_def)

lemma effect_foreign:
  assumes "effect org u now t t'" and valid: "tables_valid t"
  shows "foreign org t' = foreign org t"
proof -
  note u = tables_valid_unique [OF valid]
  note put = foreign_put [OF u(2), where f = rq_organization_id] foreign_put [OF u(1), where f = gr_organization_id]
  show ?thesis
    using assms(1)
  proof cases
    case (eff_reject r d n)
    then have "r \<in> set (requests t)" "rq_organization_id r = org" "dc_organization_id d = org" by (auto simp: decides_def pending_at_def)
    then show ?thesis using put(1) by (simp add: eff_reject(1) foreign_def upd_commute)
  next
    case (eff_approve r d n)
    then have "r \<in> set (requests t)" "rq_organization_id r = org" "dc_organization_id d = org" by (auto simp: decides_def pending_at_def)
    then show ?thesis using put(1) by (simp add: eff_approve(1) foreign_def upd_commute)
  next
    case (eff_grant r d g n)
    then have "r \<in> set (requests t)" "rq_organization_id r = org" "dc_organization_id d = org" "gr_organization_id g = org"
      by (auto simp: decides_def pending_at_def grant_of_def)
    then show ?thesis using put(1) by (simp add: eff_grant(1) foreign_def upd_commute)
  next
    case (eff_close r st why n)
    have "filter (\<lambda>x. gr_organization_id x \<noteq> org)
       (update_rows (\<lambda>g. grant_request g = org_request r \<and> gr_status g = GrantIssued) (grant_update GrantRevoked now) (grants t)) =
      filter (\<lambda>x. gr_organization_id x \<noteq> org) (grants t)"
      by (rule foreign_update) (use eff_close(3) in simp)
    then show ?thesis using put(1) eff_close(2,3) by (simp add: eff_close(1) foreign_def HOL.induct_conj_def)
  next
    case (eff_disable gs' rs' as')
    have "filter (\<lambda>x. gr_organization_id x \<noteq> org) gs' = filter (\<lambda>x. gr_organization_id x \<noteq> org) (grants t)"
      by (rule foreign_list_all2, rule list_all2_mono [OF eff_disable(2)]) (auto simp: HOL.induct_conj_def)
    moreover have "filter (\<lambda>x. rq_organization_id x \<noteq> org) rs' = filter (\<lambda>x. rq_organization_id x \<noteq> org) (requests t)"
      by (rule foreign_list_all2, rule list_all2_mono [OF eff_disable(3)]) (auto simp: HOL.induct_conj_def)
    moreover have "filter (\<lambda>x. au_organization_id x \<noteq> org) as' = filter (\<lambda>x. au_organization_id x \<noteq> org) (authorities t)"
      by (rule foreign_list_all2, rule list_all2_mono [OF eff_disable(4)]) (auto simp: HOL.induct_conj_def)
    ultimately show ?thesis by (simp add: eff_disable(1) foreign_def)
  next
    case (eff_expire r n)
    then show ?thesis using put(1) [OF eff_expire(2,3)] by (simp add: foreign_def)
  next
    case (eff_claim r g n x h)
    have g: "gr_organization_id g = org" using eff_claim(4,5) by (simp add: HOL.induct_conj_def)
    show ?thesis using put(1) [OF eff_claim(2,5)] put(2) [OF eff_claim(3) g] eff_claim(5) g by (simp add: eff_claim(1) foreign_def)
  next
    case (eff_complete r g n x)
    have g: "gr_organization_id g = org" using eff_complete(4,5) by (simp add: HOL.induct_conj_def)
    show ?thesis using put(1) [OF eff_complete(2,5)] put(2) [OF eff_complete(3) g] eff_complete(5) g
      by (simp add: eff_complete(1) foreign_def)
  next
    case (eff_authority a)
    show ?thesis unfolding eff_authority(1) by (simp add: foreign_def eff_authority(2) upd_authorities_def)
  next
    case (eff_open r)
    show ?thesis unfolding eff_open(1) by (simp add: foreign_def eff_open(2))
  qed
qed

lemma effect_or_same_foreign:
  assumes "effect_or_same org u now t c" and valid: "tables_valid t"
  shows "foreign org c = foreign org t"
proof -
  have same: "foreign org c = foreign org t'" if "no_audit c = no_audit t'" for t'
    using no_audit_rows [OF that] by (simp add: foreign_def)
  consider "c = t" | "no_audit c = no_audit t" | t' where "effect org u now t t'" "no_audit c = no_audit t'"
    using assms(1) by (auto simp: effect_or_same_def)
  then show ?thesis
  proof cases
    case 3
    show ?thesis using same [OF 3(2)] effect_foreign [OF 3(1) valid] by simp
  qed (simp_all add: same)
qed

lemma perform_other_organization:
  assumes "org \<noteq> a_organization_id actor"
  shows "perform v actor org now c s = (Inl ResourceNotFound, s\<lparr>current := committed s\<rparr>)"
proof -
  have "require_actor_organization actor org s' = (Inl ResourceNotFound, s')" for s'
    using assms by (simp add: require_actor_organization_def require_def raise_def)
  then have "method_of v actor org now c s' = (Inl ResourceNotFound, s')" for s'
    by (cases c) (simp_all add: void_def andthen_def create_authority_def disable_authority_def create_execution_gate_def decide_request_def
        close_request_def claim_grant_def resume_execution_claim_def complete_execution_claim_def)
  then show ?thesis by (simp add: perform_def in_session_def)
qed

lemma perform_foreign:
  assumes "tables_valid (committed s)"
  shows "foreign (a_organization_id actor) (committed (snd (perform v actor org now c s))) = foreign (a_organization_id actor) (committed s)"
proof (cases "org = a_organization_id actor")
  case True
  then show ?thesis using effect_or_same_foreign [OF perform_effect [OF assms] assms] by blast
next
  case False
  then show ?thesis by (simp add: perform_other_organization)
qed

end
