(* ===== verification/Control_Props.thy ===== *)
theory Control_Props
  imports Tenants
begin

section \<open>Properties of the control plane\<close>

text \<open>
  The properties of the approval workflow and of its audit trail, and a small database on which their
  hypotheses hold: one organization whose operator has asked for a ticket, whose manager has approved,
  and whose grant is issued.
\<close>

subsection \<open>A database\<close>

definition demo_hash :: string where "demo_hash = replicate 64 (CHR ''0'')"

definition demo_user :: "string \<Rightarrow> user" where
  "demo_user i = \<lparr>us_user_id = i, us_organization_id = ''org_a'', us_profile_code = ''p'', us_status = Active, us_version = 1,
     us_created_at = 0, us_updated_at = 0\<rparr>"

definition demo_membership :: "string \<Rightarrow> string \<Rightarrow> role \<Rightarrow> membership" where
  "demo_membership i u r = \<lparr>mb_membership_id = i, mb_organization_id = ''org_a'', mb_user_id = u, mb_role = r, mb_status = Active,
     mb_version = 1, mb_created_at = 0, mb_updated_at = 0\<rparr>"

definition demo_authority :: approval_authority where
  "demo_authority = \<lparr>au_authority_id = ''aut_a'', au_organization_id = ''org_a'', au_user_id = ''usr_m'', au_role = Manager,
     au_status = AuthorityActive, au_version = 1, au_created_at = 0, au_updated_at = 0\<rparr>"

definition demo_request :: approval_request where
  "demo_request = \<lparr>rq_request_id = ''apr_a'', rq_organization_id = ''org_a'', rq_task_id = ''task'', rq_step_id = ''step'',
     rq_action_type = ''close_ticket'', rq_parameter_hash = demo_hash, rq_risk_level = L2, rq_requester_user_id = ''usr_o'',
     rq_executor_user_id = ''usr_o'', rq_required_roles = [Manager], rq_status = RequestApproved, rq_version = 2,
     rq_expires_at = REQUEST_TTL, rq_closed_reason = None, rq_audit_sequence = 1, rq_created_at = 0, rq_updated_at = 0\<rparr>"

definition demo_decision :: approval_decision where
  "demo_decision = \<lparr>dc_decision_id = ''dec_a'', dc_organization_id = ''org_a'', dc_request_id = ''apr_a'', dc_decision = Approved,
     dc_approver_user_id = ''usr_m'', dc_authority_id = ''aut_a'', dc_approval_role = Manager, dc_request_version = 1,
     dc_action_type = ''close_ticket'', dc_parameter_hash = demo_hash, dc_reason = PolicySatisfied, dc_audit_sequence = 1, dc_created_at = 0\<rparr>"

definition demo_grant :: approval_grant where
  "demo_grant = \<lparr>gr_grant_id = ''grt_a'', gr_organization_id = ''org_a'', gr_request_id = ''apr_a'', gr_task_id = ''task'',
     gr_step_id = ''step'', gr_action_type = ''close_ticket'', gr_parameter_hash = demo_hash, gr_risk_level = L2,
     gr_approval_set_hash = demo_hash, gr_executor_user_id = ''usr_o'', gr_token_hash = demo_hash, gr_nonce_hash = demo_hash,
     gr_status = GrantIssued, gr_version = 1, gr_expires_at = GRANT_TTL, gr_execution_id = None, gr_authorization_hash = None,
     gr_receipt_reference = None, gr_claimed_at = None, gr_consumed_at = None, gr_created_at = 0, gr_updated_at = 0\<rparr>"

definition demo_tables :: tables where
  "demo_tables = \<lparr>organizations = [\<lparr>og_organization_id = ''org_a'', og_profile_code = ''p'', og_status = Active, og_version = 1,
       og_memory_version = 1, og_created_at = 0, og_updated_at = 0\<rparr>],
     users = [demo_user ''usr_o'', demo_user ''usr_m''], identities = [],
     memberships = [demo_membership ''mbr_o'' ''usr_o'' Operator, demo_membership ''mbr_m'' ''usr_m'' OrganizationAdmin],
     memories = [], authorities = [demo_authority], requests = [demo_request], decisions = [demo_decision], grants = [demo_grant],
     heads = [\<lparr>hd_organization_id = ''org_a'', hd_head_sequence = 0, hd_head_hash = GENESIS_HASH, hd_version = 1, hd_updated_at = 0\<rparr>],
     events = [], runs = [], outbox = [], leases = [], partitions = [], buckets = [], idempotency = [], traces = []\<rparr>"

definition demo_session :: session where
  "demo_session = \<lparr>committed = demo_tables, current = demo_tables, vault = [(''grt_a'', ''w11.t.n'')], capacity = 64, drawn = 0\<rparr>"

definition demo_env :: env where
  "demo_env = \<lparr>v_sha = (\<lambda>x. x), v_token_hex = (\<lambda>n. ''00''), v_token_urlsafe = (\<lambda>n k. ''t''), v_db_now = 0\<rparr>"

definition demo_actor :: actor_context where
  "demo_actor = \<lparr>a_identity_id = ''idn_o'', a_issuer_hash = demo_hash, a_subject_hash = demo_hash, a_user_id = ''usr_o'',
     a_organization_id = ''org_a'', a_membership_id = ''mbr_o'', a_role = Operator, a_permissions = [], a_organization_version = 1,
     a_user_version = 1, a_membership_version = 1, a_approval_authorities = [], a_authorization_hash = demo_hash\<rparr>"

definition demo_claim :: approval_call where
  "demo_claim = ClaimGrant ''apr_a'' \<lparr>gc_task_id = ''task'', gc_step_id = ''step'', gc_action_type = ''close_ticket'',
     gc_parameters = [(''employee_id'', JInt 7)]\<rparr>"

text \<open>Someone claims twice, and a request is closed between the claims.\<close>

definition demo_calls :: "(actor_context \<times> string \<times> datetime \<times> approval_call) list" where
  "demo_calls = [(demo_actor, ''org_a'', 5, demo_claim), (demo_actor, ''org_a'', 6, CloseRequest ''apr_a'' 2 RequesterCancelled False),
     (demo_actor, ''org_a'', 7, demo_claim)]"

definition demo_events :: "workflow_event list" where
  "demo_events = map (\<lambda>(actor, org, now, c). Called demo_env actor org now c) demo_calls"

lemma demo_hash_length [simp]: "length demo_hash = 64"
  by (simp add: demo_hash_def)

lemmas demo_defs = demo_session_def demo_tables_def demo_grant_def demo_decision_def demo_request_def demo_authority_def
  demo_membership_def demo_user_def

lemma demo_valid: "tables_valid demo_tables"
  by (simp add: demo_defs tables_valid_def rows_ok_def organization_row_ok_def user_row_ok_def membership_row_ok_def authority_row_ok_def
      request_row_ok_def decision_row_ok_def grant_row_ok_def head_row_ok_def hash_or_null_def users_keys_ok_def memberships_keys_ok_def
      memories_keys_ok_def authorities_keys_ok_def requests_keys_ok_def decisions_keys_ok_def grants_keys_ok_def audit_keys_ok_def
      runs_keys_ok_def queue_keys_ok_def admission_keys_ok_def unique_on_def unique_present_def references_def L2_ACTIONS_def L3_ACTIONS_def GENESIS_HASH_def)

lemma demo_consistent: "consistent demo_tables"
  unfolding consistent_def
  by (intro conjI demo_valid)
    (simp add: demo_defs approvals_ok_def granted_def grant_of_def statuses_agree_def approved_roles_alt decisions_of_def
      GRANT_TTL_def REQUEST_TTL_def minutes_def)

lemma demo_committed [simp]: "committed demo_session = demo_tables"
  by (simp add: demo_session_def)

lemma demo_chain: "valid_chain sha ''org_a'' demo_tables"
  by (simp add: demo_defs valid_chain_def head_of_def chain_of_def verify_chain_valid_iff GENESIS_HASH_def)

subsection \<open>What a successful claim has checked\<close>

text \<open>The claim \<open>p\<close> of \<open>actor\<close> for the request, in the state \<open>s\<close>, with the answer \<open>c\<close>.\<close>

definition claim_justified :: "env \<Rightarrow> actor_context \<Rightarrow> string \<Rightarrow> string \<Rightarrow> grant_claim_request \<Rightarrow> datetime \<Rightarrow> session
    \<Rightarrow> execution_claim_read \<Rightarrow> bool" where
  "claim_justified v actor org i p now s c \<longleftrightarrow> (\<exists>r g e credential facts. let t = current s; ds = approved_decisions org i t in
     r \<in> set (requests t) \<and> org_request r = (org, i) \<and> rq_status r = RequestApproved \<and> now < rq_expires_at r \<and>
     rq_executor_user_id r = a_user_id actor \<and> a_organization_id actor = org \<and>
     g \<in> set (grants t) \<and> grant_request g = (org, i) \<and> gr_status g = GrantIssued \<and> now < gr_expires_at g \<and>
     evaluate_risk (v_sha v) (gc_action_type p) (gc_parameters p) facts = Inr e \<and>
     gc_task_id p = rq_task_id r \<and> gc_step_id p = rq_step_id r \<and> gc_action_type p = rq_action_type r \<and>
     re_parameter_hash e = rq_parameter_hash r \<and> re_risk_level e = rq_risk_level r \<and>
     map_of (vault s) (gr_grant_id g) = Some credential \<and> parse_credential v credential = Inr (gr_token_hash g, gr_nonce_hash g) \<and>
     dc_approval_role ` set ds = set (rq_required_roles r) \<and> list_all (decision_in_force t r) ds \<and>
     cl_grant_id c = gr_grant_id g \<and> cl_request_id c = i \<and> cl_organization_id c = org \<and> cl_task_id c = rq_task_id r \<and>
     cl_step_id c = rq_step_id r \<and> cl_action_type c = rq_action_type r \<and> cl_parameter_hash c = rq_parameter_hash r \<and>
     cl_authorization_hash c = a_authorization_hash actor \<and> cl_claimed_at c = now)"

lemma active_approval_set_checks:
  "active_approval_set v r s = (Inr (ds, h), s') \<Longrightarrow> s' = s \<and> ds = approved_decisions (rq_organization_id r) (rq_request_id r) (current s) \<and>
     dc_approval_role ` set ds = set (rq_required_roles r) \<and> list_all (decision_in_force (current s) r) ds"
  by (auto simp: active_approval_set_def approval_set_hash_def run_iff split: option.splits)

lemma record_claim_read:
  "record_claim v actor org r c x now None s = (Inr read, s') \<Longrightarrow>
     cl_grant_id read = gr_grant_id c \<and> cl_request_id read = rq_request_id r \<and> cl_organization_id read = org \<and>
     cl_task_id read = rq_task_id r \<and> cl_step_id read = rq_step_id r \<and> cl_action_type read = rq_action_type r \<and>
     cl_parameter_hash read = rq_parameter_hash r \<and> cl_authorization_hash read = a_authorization_hash actor \<and> cl_claimed_at read = now"
  by (auto simp: record_claim_def Let_def run_iff)

lemma claim_body_checks:
  assumes "claim_body v actor org r g p now None s = (Inr read, s')"
  shows "\<exists>e credential facts th nh ds h. map_of (vault s) (gr_grant_id g) = Some credential \<and>
     parse_credential v credential = Inr (th, nh) \<and>
     evaluate_risk (v_sha v) (gc_action_type p) (gc_parameters p) facts = Inr e \<and>
     ds = approved_decisions (rq_organization_id r) (rq_request_id r) (current s) \<and>
     dc_approval_role ` set ds = set (rq_required_roles r) \<and> list_all (decision_in_force (current s) r) ds \<and>
     \<not> claim_refused r g p e ds h th nh now \<and> cl_grant_id read = gr_grant_id g \<and>
      cl_request_id read = rq_request_id r \<and> cl_organization_id read = org \<and>
     cl_task_id read = rq_task_id r \<and> cl_step_id read = rq_step_id r \<and> cl_action_type read = rq_action_type r \<and>
     cl_parameter_hash read = rq_parameter_hash r \<and> cl_authorization_hash read = a_authorization_hash actor \<and> cl_claimed_at read = now"
proof -
  let ?ds = "approved_decisions (rq_organization_id r) (rq_request_id r) (current s)"
  obtain credential th nh facts e h c x s3 where
    steps: "map_of (vault s) (gr_grant_id g) = Some credential" "parse_credential v credential = Inr (th, nh)"
      "evaluate_risk (v_sha v) (gc_action_type p) (gc_parameters p) facts = Inr e"
      "dc_approval_role ` set ?ds = set (rq_required_roles r)" "list_all (decision_in_force (current s) r) ?ds"
      "\<not> claim_refused r g p e ?ds h th nh now"
      "record_claim v actor org r c x now None s3 = (Inr read, s')" "gr_grant_id c = gr_grant_id g"
    using assms unfolding claim_body_def
    by (auto simp: run_iff update_returning_def one_or_none_def split: option.splits prod.splits list.splits
        dest!: risk_facts_Inr active_approval_set_checks filter_single)
  show ?thesis
    by (rule exI [of _ e], rule exI [of _ credential], rule exI [of _ facts], rule exI [of _ th], rule exI [of _ nh], rule exI [of _ ?ds],
        rule exI [of _ h]) (simp add: steps(1-6,8) record_claim_read [OF steps(7)])
qed

lemma claim_grant_justified:
  assumes "claim_grant v actor org i p now None s = (Inr c, s')"
  shows "claim_justified v actor org i p now s c"
proof -
  obtain r g where r: "find (\<lambda>r. rq_organization_id r = org \<and> rq_request_id r = i) (requests (current s)) = Some r"
    and g: "find (\<lambda>g. gr_organization_id g = org \<and> gr_request_id g = i) (grants (current s)) = Some g"
    and u: "a_user_id actor = rq_executor_user_id r" "a_organization_id actor = org"
    and body: "claim_body v actor org r g p now None s = (Inr c, s')"
    using assms
    by (auto simp: claim_grant_def run_iff require_actor_organization_def find_request_def find_grant_def reject_claim_fails
        claim_failed_fails split: option.splits if_splits prod.splits sum.splits)
  obtain e credential facts th nh ds h where chk: "map_of (vault s) (gr_grant_id g) = Some credential"
     "parse_credential v credential = Inr (th, nh)" "evaluate_risk (v_sha v) (gc_action_type p) (gc_parameters p) facts = Inr e"
     "ds = approved_decisions (rq_organization_id r) (rq_request_id r) (current s)"
     "dc_approval_role ` set ds = set (rq_required_roles r)" "list_all (decision_in_force (current s) r) ds"
     "\<not> claim_refused r g p e ds h th nh now"
     "cl_grant_id c = gr_grant_id g" "cl_request_id c = rq_request_id r" "cl_organization_id c = org" "cl_task_id c = rq_task_id r"
     "cl_step_id c = rq_step_id r" "cl_action_type c = rq_action_type r" "cl_parameter_hash c = rq_parameter_hash r"
     "cl_authorization_hash c = a_authorization_hash actor" "cl_claimed_at c = now"
    using claim_body_checks [OF body] by (elim exE conjE) (rule that; simp)
  show ?thesis
    unfolding claim_justified_def
    by (rule exI [of _ r], rule exI [of _ g], rule exI [of _ e], rule exI [of _ credential], rule exI [of _ facts])
      (use chk u find_row [OF r] find_row [OF g] in \<open>simp add: claim_refused_def\<close>)
qed

subsection \<open>What the gate answers\<close>

text \<open>The answer \<open>x\<close> of the gate, from the tables \<open>t\<close> to the tables \<open>t'\<close>.\<close>

definition gate_answers :: "actor_context \<Rightarrow> string \<Rightarrow> execution_gate_request \<Rightarrow> datetime \<Rightarrow> tables \<Rightarrow> gate_response \<Rightarrow> tables \<Rightarrow> bool" where
  "gate_answers actor org p now t x t' \<longleftrightarrow> a_organization_id actor = org \<and> eg_action_type p \<in> set known_actions \<and>
     (case gt_request x of
        None \<Rightarrow> gt_status x = Automatic \<and> gt_risk_level x \<in> {L0, L1} \<and> requests t' = requests t
      | Some r \<Rightarrow> gt_status x = WaitingApproval \<and> gt_risk_level x \<in> {L2, L3} \<and> requests t' = requests t @ [r] \<and>
          rq_organization_id r = org \<and> rq_status r = RequestPending \<and> rq_requester_user_id r = a_user_id actor \<and>
          rq_executor_user_id r = a_user_id actor \<and> rq_expires_at r = now + minutes 10 \<and> rq_risk_level r = gt_risk_level x \<and>
          rq_action_type r = eg_action_type p \<and> rq_parameter_hash r = gt_parameter_hash x \<and>
          rq_required_roles r = required_roles (gt_risk_level x))"

lemma deny_gate_fails: "deny_gate v actor org p e now s \<noteq> (Inr x, s')"
  by (auto simp: deny_gate_def run_iff)

lemma create_execution_gate_answers:
  assumes "create_execution_gate v actor org p now s = (Inr x, s')"
  shows "gate_answers actor org p now (current s) x (committed s')"
proof -
  obtain facts e ev s1 where org: "a_organization_id actor = org"
    and e: "evaluate_risk (v_sha v) (eg_action_type p) (eg_parameters p) facts = Inr e"
    and a: "audit v actor org EvRiskClassified (eg_action_type p) (risk_fields (eg_action_type p) e) now s = (Inr ev, s1)"
    and go: "(if re_risk_level e \<in> {L0, L1} then automatic_gate v actor org p e now else open_request v actor org p e now) s1 = (Inr x, s')"
    and l4: "re_risk_level e \<noteq> L4"
    using assms
    by (auto simp: create_execution_gate_def require_actor_organization_def run_iff deny_gate_fails split: if_splits dest!: risk_facts_Inr)
  have known: "eg_action_type p \<in> set known_actions" and roles: "re_required_roles e = required_roles (re_risk_level e)"
    using evaluate_risk_cases [OF e] l4 by auto
  have s1: "requests (current s1) = requests (current s)" using no_audit_rows(1) [OF audit_Inr(1) [OF a]] .
  show ?thesis
  proof (cases "re_risk_level e \<in> {L0, L1}")
    case True
    obtain e1 s2 e2 s3 where steps: "audit v actor org EvExecutionStarted (eg_action_type p) (risk_fields (eg_action_type p) e) now s1 = (Inr e1, s2)"
      "audit v actor org EvExecutionSucceeded (eg_action_type p) (risk_fields (eg_action_type p) e) now s2 = (Inr e2, s3)"
      and c: "committed s' = current s3" and x: "gt_request x = None" "gt_status x = Automatic" "gt_risk_level x = re_risk_level e"
      using go True by (auto simp: automatic_gate_def run_iff)
    have "requests (committed s') = requests (current s)"
      using no_audit_rows(1) [OF audit_Inr(1) [OF steps(1)]] no_audit_rows(1) [OF audit_Inr(1) [OF steps(2)]] s1 c by simp
    then show ?thesis using True org known x by (simp add: gate_answers_def)
  next
    case False
    then have l: "re_risk_level e \<in> {L2, L3}" using l4 by (cases "re_risk_level e") auto
    obtain i e1 s2 r where steps: "audit v actor org EvApprovalRequested i
       (risk_fields (eg_action_type p) e @ [(''request_id'', JStr i),
         (''request_status'', JStr (request_status_name RequestPending)), (''version'', JInt 1)]) now
        (s1\<lparr>drawn := Suc (drawn s1)\<rparr>) = (Inr e1, s2)"
      and c: "requests (committed s') = requests (current s2) @ [r]"
      and x: "gt_request x = Some r" "gt_status x = WaitingApproval" "gt_risk_level x = re_risk_level e" "gt_parameter_hash x = re_parameter_hash e"
      and r: "rq_organization_id r = org" "rq_status r = RequestPending" "rq_requester_user_id r = a_user_id actor"
        "rq_executor_user_id r = a_user_id actor" "rq_expires_at r = now + REQUEST_TTL" "rq_risk_level r = re_risk_level e"
        "rq_action_type r = eg_action_type p" "rq_parameter_hash r = re_parameter_hash e" "rq_required_roles r = re_required_roles e"
      using go False by (auto simp: open_request_def Let_def run_iff)
    have "requests (current s2) = requests (current s)" using no_audit_rows(1) [OF audit_Inr(1) [OF steps]] s1 by simp
    then show ?thesis using l org known x r c roles by (simp add: gate_answers_def REQUEST_TTL_def)
  qed
qed

subsection \<open>A chain read declaratively\<close>

text \<open>The event \<open>e\<close> is in its place: number \<open>n\<close> after an event with hash \<open>previous\<close>, its payload the canonical text of
  a closed payload, and both hashes as recomputed.\<close>

definition event_in_place :: "(string \<Rightarrow> string) \<Rightarrow> int \<Rightarrow> string \<Rightarrow> audit_event \<Rightarrow> bool" where
  "event_in_place sha n previous e \<longleftrightarrow> ev_sequence e = n \<and> ev_previous_hash e = previous \<and>
     (\<exists>p. loads (ev_payload_json e) = Some (JObj p) \<and> closed_payload p = Inr p \<and> canonical_text p = ev_payload_json e \<and>
       stable_hash sha (JObj p) = ev_payload_hash e \<and>
       stable_hash sha (event_fields (ev_event_id e) (ev_organization_id e) n (ev_event_type e) (ev_actor_reference e)
         (ev_subject_reference e) p previous (ev_created_at e)) = ev_event_hash e)"

definition hash_before :: "audit_event list \<Rightarrow> nat \<Rightarrow> string" where
  "hash_before es i = (if i = 0 then GENESIS_HASH else ev_event_hash (es ! (i - 1)))"

definition chain_contract :: "(string \<Rightarrow> string) \<Rightarrow> audit_event list \<Rightarrow> audit_chain_head \<Rightarrow> bool" where
  "chain_contract sha es h \<longleftrightarrow> hd_head_sequence h = int (length es) \<and> hd_head_hash h = hash_before es (length es) \<and>
     (\<forall>i < length es. event_in_place sha (int i + 1) (hash_before es i) (es ! i))"

lemma check_event_in_place: "check_event sha n previous e = None \<longleftrightarrow> event_in_place sha n previous e"
  by (auto simp: check_event_def event_in_place_def split: option.splits json.splits sum.splits if_splits dest: closed_payload_same)

text \<open>The hash the loop has reached, and what every prefix has checked.\<close>

lemma check_events_places:
  "check_events sha n g es = Inr g' \<longleftrightarrow> g' = (if es = [] then g else ev_event_hash (last es)) \<and>
     (\<forall>i < length es. event_in_place sha (n + int i) (if i = 0 then g else ev_event_hash (es ! (i - 1))) (es ! i))"
proof (induction es arbitrary: n g)
  case (Cons e es)
  have shift: "(\<forall>i < length (e # es). P i) \<longleftrightarrow> P 0 \<and> (\<forall>i < length es. P (Suc i))" for P
    by (auto simp: less_Suc_eq_0_disj)
  have places: "(\<forall>i < length es. event_in_place sha (n + int (Suc i)) (if Suc i = 0 then g else ev_event_hash ((e # es) ! (Suc i - 1))) ((e # es) ! Suc i)) \<longleftrightarrow>
      (\<forall>i < length es. event_in_place sha (n + 1 + int i) (if i = 0 then ev_event_hash e else ev_event_hash (es ! (i - 1))) (es ! i))"
    by (intro all_cong1 imp_cong refl) (auto simp: nth_Cons' algebra_simps)
  show ?case
  proof (cases "check_event sha n g e")
    case None
    then have step: "check_events sha n g (e # es) = Inr g' \<longleftrightarrow> check_events sha (n + 1) (ev_event_hash e) es = Inr g'" by simp
    have place: "event_in_place sha n g e" using None by (simp add: check_event_in_place)
    show ?thesis unfolding step Cons.IH shift places using place by simp
  next
    case (Some why)
    then have "\<not> event_in_place sha n g e" by (simp flip: check_event_in_place)
    then show ?thesis using Some unfolding shift by simp
  qed
qed auto

lemma verify_chain_contract: "av_valid (verify_chain sha es h) \<longleftrightarrow> chain_contract sha es h"
proof -
  have "(if es = [] then GENESIS_HASH else ev_event_hash (last es)) = hash_before es (length es)"
    by (simp add: hash_before_def last_conv_nth)
  then show ?thesis
    unfolding verify_chain_valid_iff check_events_places chain_contract_def hash_before_def by (auto simp: add.commute)
qed

subsection \<open>Sequences of calls\<close>

definition perform_all :: "env \<Rightarrow> (actor_context \<times> string \<times> datetime \<times> approval_call) list \<Rightarrow> session \<Rightarrow> session" where
  "perform_all v cs s = foldl (\<lambda>s (actor, org, now, c). snd (perform v actor org now c s)) s cs"

lemma perform_all_chains:
  "valid_chain (v_sha v) org' (committed s) \<Longrightarrow> valid_chain (v_sha v) org' (committed (perform_all v cs s))"
proof (induction cs arbitrary: s)
  case (Cons x cs)
  obtain actor org now c where x: "x = (actor, org, now, c)" by (cases x)
  have "valid_chain (v_sha v) org' (committed (snd (perform v actor org now c s)))"
    using perform_extends [of v org s actor now c] Cons.prems by (simp add: extends_trail_def)
  then show ?case using Cons.IH by (simp add: perform_all_def x)
qed (simp add: perform_all_def)

lemma perform_all_vault: "vault_ok s \<Longrightarrow> vault_ok (perform_all v cs s)"
proof (induction cs arbitrary: s)
  case (Cons x cs)
  obtain actor org now c where x: "x = (actor, org, now, c)" by (cases x)
  show ?case using Cons.IH [OF bounded_vault.keeps_perform [OF Cons.prems, of v actor org now c]] by (simp add: perform_all_def x)
qed (simp add: perform_all_def)

subsection \<open>Approvals\<close>





text \<open>
  C7. A claim that returns has checked everything: there are an approved, unexpired request of the actor's
  organization executed by the actor, an issued, unexpired grant of it, a credential in the vault whose
  hashes the grant stores, approvals in force in exactly the required roles, and parameters whose
  classification has the bound hash and level; and the answer carries these bindings.
\<close>

theorem claim_is_justified:
  "case claim_grant v actor org i p now None s of (Inl e, s') \<Rightarrow> True | (Inr c, s') \<Rightarrow> claim_justified v actor org i p now s c"
  using claim_grant_justified [of v actor org i p now s] by (auto split: prod.split sum.split)


text \<open>
  C13. Every call refines the abstract specification: what it leaves committed is what was committed, or
  differs from it by audit rows only, or by audit rows and one effect of the actor.
\<close>

theorem call_refines_effect:
  assumes "tables_valid (committed s)"
  shows "effect_or_same org (a_user_id actor) now (committed s) (committed (snd (perform v actor org now c s)))"
  using assms by (rule perform_effect)

lemma call_refines_effect_witness:
  "effect_or_same ''org_a'' ''usr_o'' 5 demo_tables (committed (snd (perform demo_env demo_actor ''org_a'' 5 demo_claim demo_session)))"
  using call_refines_effect [of demo_session "''org_a''" demo_actor 5 demo_env demo_claim]
  by (simp add: demo_valid) (simp add: demo_actor_def)

text \<open>
  C18. Tenants are isolated: a call leaves the approval rows of every other organization as they are, and a
  call that names another organization than the actor's raises \<open>ResourceNotFound\<close> and changes nothing.
\<close>

theorem call_stays_in_tenant:
  assumes "tables_valid (committed s)"
  shows "foreign (a_organization_id actor) (committed (snd (perform v actor org now c s))) = foreign (a_organization_id actor) (committed s) \<and>
    (if org = a_organization_id actor then True
     else perform v actor org now c s = (Inl ResourceNotFound, s\<lparr>current := committed s\<rparr>))"
  using perform_foreign [OF assms] perform_other_organization by simp

lemma call_stays_in_tenant_witness:
  "foreign ''org_a'' (committed (snd (perform demo_env demo_actor ''org_b'' 5 demo_claim demo_session))) = foreign ''org_a'' demo_tables"
  using call_stays_in_tenant [of demo_session demo_actor demo_env "''org_b''" 5 demo_claim]
  by (simp add: demo_valid) (simp add: demo_actor_def)

subsection \<open>The audit trail\<close>

text \<open>
  The audit trail is append-only: after a call, returning or raising, the committed events are the
  earlier ones followed by events of the named organization.
\<close>

lemma audit_trail_append_only:
  "let t = committed s; t' = committed (snd (perform v actor org now c s)) in
     take (length (events t)) (events t') = events t \<and>
     list_all (\<lambda>e. ev_organization_id e = org) (drop (length (events t)) (events t'))"
  using perform_extends [of v org s actor now c] by (auto simp: extends_trail_def Let_def)

text \<open>
  C32. Calls keep audit chains valid: an organization's chain that verifies still verifies after any
  sequence of calls of any organization, failed ones included.
\<close>

theorem calls_keep_chains_valid:
  assumes "valid_chain (v_sha v) org (committed s)"
  shows "valid_chain (v_sha v) org (committed (perform_all v cs s))"
  using assms by (rule perform_all_chains)

lemma calls_keep_chains_valid_witness: "valid_chain (v_sha demo_env) ''org_a'' (committed (perform_all demo_env demo_calls demo_session))"
  by (rule calls_keep_chains_valid) (simp add: demo_chain)

text \<open>
  C10. Verification decides the contract: \<open>verify_audit_chain\<close>'s loop accepts exactly the event lists whose
  events are numbered from one, each linked to the hash before it from the genesis hash on, with a closed,
  canonical payload and both hashes as recomputed, and whose length and last hash are those of the head.
\<close>

theorem verification_decides_contract: "av_valid (verify_chain sha es h) \<longleftrightarrow> chain_contract sha es h"
  by (rule verify_chain_contract)

text \<open>
  C14. Tampering is evident: two chains that verify and whose heads agree are equal, event by event, unless
  two of their hashed texts collide.
\<close>

theorem tampering_is_evident:
  assumes "valid_chain sha org t" and "valid_chain sha org' t'" and "head_of org t = Some h" and "head_of org' t' = Some h'"
    and "hd_head_sequence h = hd_head_sequence h'" and "hd_head_hash h = hd_head_hash h'"
  shows "chain_of org t = chain_of org' t' \<or> broken_on sha (set (chain_of org t) \<union> set (chain_of org' t'))"
  using assms by (rule valid_chain_determined)

definition demo_payload :: json_dict where
  "demo_payload = audit_payload [(''version'', JInt 1)]"

definition demo_event :: audit_event where
  "demo_event = new_event demo_env ''org_a'' EvRiskClassified demo_hash ''x'' demo_payload 0 (hd (heads demo_tables)) ''aud_0''"

definition demo_trail :: tables where
  "demo_trail = upd_heads (put_row hd_organization_id (advance_head demo_event 0 (hd (heads demo_tables))))
     (upd_events (\<lambda>es. es @ [demo_event]) demo_tables)"

lemma demo_trail_head: "head_of ''org_a'' demo_tables = Some (hd (heads demo_tables))"
  by (simp add: demo_defs head_of_def)

lemma demo_payload_closed: "closed_payload demo_payload = Inr demo_payload"
  by code_simp

lemma demo_trail_valid: "valid_chain (\<lambda>x. x) ''org_a'' demo_trail"
  using append_events_valid [OF demo_chain demo_trail_head demo_payload_closed _ demo_event_def]
  by (simp add: demo_trail_def demo_env_def demo_payload_def audit_payload_def)

lemma tampering_is_evident_witness:
  "length (chain_of ''org_a'' demo_trail) = 1 \<and> (chain_of ''org_a'' demo_trail = chain_of ''org_a'' (upd_requests (\<lambda>_. []) demo_trail) \<or>
     broken_on (\<lambda>x. x) (set (chain_of ''org_a'' demo_trail) \<union> set (chain_of ''org_a'' (upd_requests (\<lambda>_. []) demo_trail))))"
proof -
  have h: "head_of ''org_a'' demo_trail = Some (advance_head demo_event 0 (hd (heads demo_tables)))"
    by (simp add: demo_trail_def upd_defs head_of_def put_row_def demo_tables_def advance_head_def)
  have f: "head_of ''org_a'' (upd_requests (\<lambda>_. []) demo_trail) = head_of ''org_a'' demo_trail"
    "chain_of ''org_a'' (upd_requests (\<lambda>_. []) demo_trail) = chain_of ''org_a'' demo_trail"
    by (simp_all add: upd_defs head_of_def chain_of_def)
  have "valid_chain (\<lambda>x. x) ''org_a'' (upd_requests (\<lambda>_. []) demo_trail)" using demo_trail_valid by (simp only: valid_chain_def f)
  moreover have "length (chain_of ''org_a'' demo_trail) = 1"
    by (simp add: demo_trail_def upd_defs chain_of_def demo_tables_def demo_event_def new_event_def Let_def)
  ultimately show ?thesis using tampering_is_evident [OF demo_trail_valid _ h, of "''org_a''" "upd_requests (\<lambda>_. []) demo_trail"] h
    by (simp add: f)
qed

text \<open>
  C33. A payload survives its text: the canonical text of an accepted payload parses back to the payload,
  its keys in order.
\<close>

theorem payload_survives_text:
  assumes "closed_payload p = Inr p" and "distinct (map fst p)"
  shows "loads (canonical_text p) = Some (JObj (sort_key fst p))"
  using assms by (rule loads_canonical_text)

lemma payload_survives_text_witness: "loads (canonical_text demo_payload) = Some (JObj (sort_key fst demo_payload))"
  by (rule payload_survives_text [OF demo_payload_closed]) (simp add: demo_payload_def audit_payload_def)


subsection \<open>Risk and the vault\<close>

text \<open>
  C35. The parameter hash binds action and parameters: two classifications with the same hash are of the same
  action with the same validated parameters, up to the order of keys, unless their two texts collide.
\<close>

theorem parameter_hash_binds_action:
  assumes "evaluate_risk sha a p facts = Inr e" and "evaluate_risk sha a' p' facts' = Inr e'"
    and "re_parameter_hash e = re_parameter_hash e'"
  shows "(a = a' \<and> sort_keys (JObj (re_validated_parameters e)) = sort_keys (JObj (re_validated_parameters e'))) \<or>
    collide sha (canonical_json_bytes (action_binding a (re_validated_parameters e)))
      (canonical_json_bytes (action_binding a' (re_validated_parameters e')))"
  using evaluate_risk_cases [OF assms(1)] evaluate_risk_cases [OF assms(2)] assms(3) by (intro action_binding_determined) simp

lemma parameter_hash_binds_action_witness:
  "\<exists>e. evaluate_risk (\<lambda>x. x) ''close_ticket'' [(''employee_id'', JInt 7)] False = Inr e \<and>
     evaluate_risk (\<lambda>x. x) ''close_ticket'' [(''employee_id'', JInt 7)] True = Inr e \<and> re_risk_level e = L2 \<and>
     ((''close_ticket'' = ''close_ticket'' \<and> sort_keys (JObj (re_validated_parameters e)) = sort_keys (JObj (re_validated_parameters e))) \<or>
      collide (\<lambda>x. x) (canonical_json_bytes (action_binding ''close_ticket'' (re_validated_parameters e)))
        (canonical_json_bytes (action_binding ''close_ticket'' (re_validated_parameters e))))"
proof -
  have "\<exists>e. evaluate_risk (\<lambda>x. x) ''close_ticket'' [(''employee_id'', JInt 7)] False = Inr e \<and>
      evaluate_risk (\<lambda>x. x) ''close_ticket'' [(''employee_id'', JInt 7)] True = Inr e \<and> re_risk_level e = L2"
    by (simp add: evaluate_risk_def ACTION_PARAMETER_MODELS_def ACTION_RISKS_def EmployeeMutationParameters_def validate_parameters_def
        employee_reference_ok_def Let_def)
  then show ?thesis using parameter_hash_binds_action [where sha = "\<lambda>x. x"] by blast
qed

text \<open>
  C36. The vault stays within its capacity, with one credential for a grant, after any sequence of calls.
\<close>

theorem vault_stays_bounded:
  assumes "length (vault s) \<le> capacity s" and "distinct (map fst (vault s))"
  shows "let s' = perform_all v cs s in length (vault s') \<le> capacity s' \<and> distinct (map fst (vault s'))"
  using perform_all_vault [of s v cs] assms by (simp add: vault_ok_def Let_def)

lemma vault_stays_bounded_witness:
  "let s' = perform_all demo_env demo_calls demo_session in length (vault s') \<le> capacity s' \<and> distinct (map fst (vault s'))"
  by (rule vault_stays_bounded) (simp_all add: demo_session_def)

end
