(* ===== verification/Directory_Props.thy ===== *)
theory Directory_Props
  imports Directory Control_Props
begin

section \<open>Properties of the directory\<close>

text \<open>
  What an ETag's version means for the resources of \<open>repository.py\<close>, that no update is lost, and that a
  disabled user stays locked out. The witnesses run on the database of \<open>Control_Props\<close>.
\<close>

definition demo_admin :: actor_context where
  "demo_admin = demo_actor\<lparr>a_user_id := ''usr_m'', a_membership_id := ''mbr_m'', a_role := OrganizationAdmin\<rparr>"

text \<open>Two administrators change the same user, both having read version one.\<close>

definition demo_writes :: "directory_event list" where
  "demo_writes = [DirectoryCalled demo_env demo_admin ''org_a'' (UpdateUser ''usr_o'' 1 ''q''),
     DirectoryCalled demo_env demo_admin ''org_a'' (UpdateUser ''usr_o'' 1 ''r'')]"



text \<open>
  C38. No update is lost: among any sequence of calls and other commits, at most one write that expects a
  given version of a given resource succeeds.
\<close>

theorem no_update_is_lost:
  assumes "tables_valid (committed s)"
  shows "writes_granted org res n es s \<le> 1"
  using assms by (rule writes_granted_bound)

lemma no_update_is_lost_witness: "writes_granted ''org_a'' (TheUser ''usr_o'') 1 demo_writes demo_session \<le> 1"
  by (rule no_update_is_lost) (simp add: demo_valid)

text \<open>
  C39. A disabled user is locked out for good: once \<open>disable_user\<close> has returned, no verified identity resolves to
  an actor that is this user, whatever calls and other commits follow.
\<close>

theorem disabled_user_is_locked_out:
  assumes "tables_valid (committed s)" and "directory v actor org (DisableUser i n) s = (Inr u, s1)"
  shows "case in_session (resolve_actor v' vi) (directory_events es s1) of (Inl e, s2) \<Rightarrow> True | (Inr a, s2) \<Rightarrow> a_user_id a \<noteq> i"
proof -
  have valid: "tables_valid (committed s1)" using directory_result [OF assms(2,1)] by (auto simp: moves_def)
  let ?s = "directory_events es s1"
  have valid': "tables_valid (committed ?s)" using events_advance [OF valid] by simp
  obtain r where r: "r \<in> set (users (committed ?s))" "us_user_id r = i" "us_status r = Disabled"
    using events_stay_disabled [OF valid disable_user_disables [OF assms(2)], of es] by blast
  have unique: "distinct (map us_user_id (users (committed ?s)))" using valid' by (simp add: tables_valid_def users_keys_ok_def unique_on_def)
  have "a_user_id a \<noteq> i" if "resolve_actor v' vi (?s\<lparr>current := committed ?s\<rparr>) = (Inr a, s2)" for a s2
    using resolved_user_active [OF that] r unique by (auto simp: distinct_map inj_on_def)
  then show ?thesis by (auto simp: in_session_def split: prod.split sum.split)
qed

definition demo_identity :: verified_identity where
  "demo_identity = \<lparr>vi_issuer_id = ''local_keycloak'', vi_issuer_hash = demo_hash, vi_subject_hash = demo_hash, vi_claimed_role = Operator\<rparr>"

definition demo_disabled :: tables where
  "demo_disabled = upd_users (\<lambda>_. [(demo_user ''usr_o'')\<lparr>us_status := Disabled, us_version := 2\<rparr>, demo_user ''usr_m'']) demo_tables"

lemma demo_disabled_valid: "tables_valid demo_disabled"
  by (simp add: demo_disabled_def upd_defs demo_defs tables_valid_def rows_ok_def organization_row_ok_def user_row_ok_def membership_row_ok_def
      authority_row_ok_def request_row_ok_def decision_row_ok_def grant_row_ok_def head_row_ok_def hash_or_null_def users_keys_ok_def
      memberships_keys_ok_def memories_keys_ok_def authorities_keys_ok_def requests_keys_ok_def decisions_keys_ok_def grants_keys_ok_def
      audit_keys_ok_def runs_keys_ok_def queue_keys_ok_def admission_keys_ok_def unique_on_def unique_present_def references_def L2_ACTIONS_def L3_ACTIONS_def GENESIS_HASH_def)

lemma demo_disable:
  "directory demo_env demo_admin ''org_a'' (DisableUser ''usr_o'' 1) demo_session =
     (Inr (), demo_session\<lparr>current := demo_disabled, committed := demo_disabled\<rparr>)"
proof -
  have users: "users demo_tables = [demo_user ''usr_o'', demo_user ''usr_m'']" by (simp add: demo_tables_def)
  have update: "upd_users (update_rows (\<lambda>r. us_organization_id r = ''org_a'' \<and> us_user_id r = ''usr_o'' \<and> us_version r = 1 \<and> us_status r = Active)
       (\<lambda>r. r\<lparr>us_status := Disabled, us_version := us_version r + 1, us_updated_at := v_db_now demo_env\<rparr>)) demo_tables = demo_disabled"
    by (simp add: demo_disabled_def upd_defs update_rows_def users) (simp add: demo_user_def demo_env_def)
  have actor: "a_organization_id demo_admin = ''org_a''" by (simp add: demo_admin_def demo_actor_def)
  show ?thesis
    using demo_disabled_valid
    by (simp add: directory_def in_session_def disable_user_def require_actor_organization_def require_def update_expected_def
        update_returning_def andthen_def ret_def query_def store_def modify_def one_or_none_def commit_def actor users update)
      (simp add: demo_user_def)
qed

lemma disabled_user_is_locked_out_witness:
  "case in_session (resolve_actor demo_env demo_identity)
     (directory_events demo_writes (demo_session\<lparr>current := demo_disabled, committed := demo_disabled\<rparr>)) of
     (Inl e, s2) \<Rightarrow> True | (Inr a, s2) \<Rightarrow> a_user_id a \<noteq> ''usr_o''"
  by (rule disabled_user_is_locked_out [OF _ demo_disable]) (simp add: demo_valid)

end
