(* ===== verification/Traces.thy ===== *)
theory Traces
  imports Risk
begin

section \<open>Run traces\<close>

text \<open>
  \<open>observability.py\<close>: the closed attributes of a trace event, the numbered events of a run, and the
  export of a run's trace with its replay steps, costs and dashboard. The workflow worker writes events
  of the same shape (\<open>WorkQueue\<close>). A \<open>TraceAttributes\<close> object is the list of the fields its dump has; a
  pydantic \<open>ValidationError\<close> is a \<open>ValueError\<close>.
\<close>

subsection \<open>Attributes\<close>

definition int_from :: "int \<Rightarrow> json \<Rightarrow> bool" where
  "int_from lo j = (case j of JInt i \<Rightarrow> lo \<le> i | _ \<Rightarrow> False)"

definition int_between :: "int \<Rightarrow> int \<Rightarrow> json \<Rightarrow> bool" where
  "int_between lo hi j = (case j of JInt i \<Rightarrow> lo \<le> i \<and> i \<le> hi | _ \<Rightarrow> False)"

definition receipt_text_ok :: "string \<Rightarrow> bool" where
  "receipt_text_ok s = (8 \<le> length s \<and> length s \<le> 80 \<and> list_all token_char s)"

definition run_status_names :: "string list" where
  "run_status_names = map run_status_name [RunWaitingApproval, RunQueued, RunLeased, RunRunning, RunRecovering, RunVerifying,
     RunFinishedUngraded, RunFailed, RunCancelled, RunExpired]"

definition outbox_status_names :: "string list" where
  "outbox_status_names = map outbox_status_name [OutboxReady, OutboxLeased, OutboxDispatched, OutboxClosed, OutboxCancelled,
     OutboxExpired, OutboxFailed]"

text \<open>The optional fields of \<open>TraceAttributes\<close> in their order.\<close>

definition trace_attribute_fields :: "(string \<times> (json \<Rightarrow> bool)) list" where
  "trace_attribute_fields = [
     (''run_status'', str_ok (\<lambda>s. s \<in> set run_status_names)),
     (''approval_request_id'', str_ok (opaque_ok ''apr_'' 8 64)),
     (''grant_id'', str_ok (opaque_ok ''grt_'' 8 64)),
     (''execution_id'', str_ok (opaque_ok ''exe_'' 8 64)),
     (''authorization_hash'', str_ok sha256_ok),
     (''approval_set_hash'', str_ok sha256_ok),
     (''outbox_id'', str_ok (opaque_ok ''out_'' 8 64)),
     (''outbox_status'', str_ok (\<lambda>s. s \<in> set outbox_status_names)),
     (''lease_status'', str_ok (\<lambda>s. s \<in> {''active'', ''released'', ''expired'', ''completed'', ''failed''})),
     (''workflow_hash'', str_ok sha256_ok),
     (''worker_reference'', str_ok sha256_ok),
     (''receipt_reference'', str_ok receipt_text_ok),
     (''checkpoint_hash'', str_ok sha256_ok),
     (''audit_sequence'', int_from 1),
     (''version'', int_from 1),
     (''fencing_token'', int_from 0),
     (''lease_version'', int_from 0),
     (''attempt_count'', int_between 0 3),
     (''count'', int_between 0 1000000),
     (''event_count'', int_between 0 1000000),
     (''step_count'', int_between 0 64),
     (''checkpoint_count'', int_between 0 64),
     (''activity_attempts'', int_between 0 64),
     (''retries'', int_between 0 64),
     (''session_recoveries'', int_between 0 8),
     (''replans'', int_between 0 8),
     (''route_decisions'', int_between 0 1000000),
     (''dom_observations'', int_between 0 1000000),
     (''images'', int_between 0 1000000),
     (''duration_ms'', int_between 0 3600000),
     (''latency_ms'', int_between 0 3600000),
     (''model_calls'', int_between 0 1000000),
     (''input_tokens'', int_between 0 1000000000),
     (''output_tokens'', int_between 0 1000000000),
     (''fake_cost_microusd'', int_between 0 1000000000),
     (''real_cost_microusd'', int_between 0 0),
     (''step_id'', str_ok step_reference_ok)]"

definition step_list_ok :: "json \<Rightarrow> bool" where
  "step_list_ok j = (case j of JArr xs \<Rightarrow> length xs \<le> 16 \<and> list_all (str_ok step_reference_ok) xs | _ \<Rightarrow> False)"

definition optional_field_ok :: "json_dict \<Rightarrow> string \<times> (json \<Rightarrow> bool) \<Rightarrow> bool" where
  "optional_field_ok d f = (case map_of d (fst f) of None \<Rightarrow> True | Some JNull \<Rightarrow> True | Some j \<Rightarrow> snd f j)"

definition default_field :: "json_dict \<Rightarrow> string \<Rightarrow> json \<Rightarrow> json" where
  "default_field d k j = (case map_of d k of None \<Rightarrow> j | Some j' \<Rightarrow> j')"

definition present_field :: "json_dict \<Rightarrow> string \<Rightarrow> json_dict" where
  "present_field d k = (case map_of d k of None \<Rightarrow> [] | Some JNull \<Rightarrow> [] | Some j \<Rightarrow> [(k, j)])"

text \<open>\<open>TraceAttributes.model_validate(d).model_dump(mode="json", exclude_none=True)\<close>\<close>

definition validate_attributes :: "json_dict \<Rightarrow> json_dict option" where
  "validate_attributes d =
     (let version = default_field d ''schema_version'' (JStr ''w13-trace-attributes/1.0'');
          steps = default_field d ''completed_step_ids'' (JArr []);
          sensitive = default_field d ''sensitive_fields_present'' (JBool False) in
      if list_all (\<lambda>k. k \<in> set ([''schema_version''] @ map fst trace_attribute_fields @
           [''completed_step_ids'', ''sensitive_fields_present''])) (map fst d) \<and>
         version = JStr ''w13-trace-attributes/1.0'' \<and> list_all (optional_field_ok d) trace_attribute_fields \<and>
         step_list_ok steps \<and> sensitive = JBool False
      then Some ((''schema_version'', version) # concat (map (present_field d \<circ> fst) trace_attribute_fields) @
           [(''completed_step_ids'', steps), (''sensitive_fields_present'', sensitive)])
      else None)"

definition FORBIDDEN_ATTRIBUTE_KEYS :: "string list" where
  "FORBIDDEN_ATTRIBUTE_KEYS = [''token'', ''access_token'', ''credential'', ''nonce'', ''claims'', ''authorization_code'', ''cookie'',
     ''password'', ''private_key'', ''name'', ''email'', ''username'', ''parameters'', ''task'', ''page'', ''dom'', ''image'',
     ''ocr'', ''model_content'', ''dsn'', ''secret'', ''machine_path'']"

definition FORBIDDEN_TEXT :: "string list" where
  "FORBIDDEN_TEXT = [''bearer '', ''access_token'', ''authorization_code'', ''credential'', ''nonce'', ''cookie'', ''password'',
     ''private_key'', ''@'', ''postgresql://'', ''sqlite+pysqlite://'', ''%systemdrive%'', [CHR '':'', CHR 0x5C]]"

text \<open>\<open>marker in text\<close>, and \<open>str.lower\<close> on the characters below 256.\<close>

fun occurs_in :: "string \<Rightarrow> string \<Rightarrow> bool" where
  "occurs_in m [] = (m = [])"
| "occurs_in m (c # s) = (take (length m) (c # s) = m \<or> occurs_in m s)"

definition lower_of :: "char \<Rightarrow> char" where
  "lower_of c = (let n = code c in
     if (65 \<le> n \<and> n \<le> 90) \<or> (192 \<le> n \<and> n \<le> 222 \<and> n \<noteq> 215) then char_of (n + 32) else c)"

definition lowercase :: "string \<Rightarrow> string" where
  "lowercase = map lower_of"

definition forbidden_text :: "string \<Rightarrow> bool" where
  "forbidden_text s = list_ex (\<lambda>m. occurs_in m (lowercase s)) FORBIDDEN_TEXT"

definition safe_attributes :: "json_dict option \<Rightarrow> control_error + json_dict" where
  "safe_attributes attrs = (case validate_attributes (case attrs of None \<Rightarrow> [] | Some d \<Rightarrow> d) of
       None \<Rightarrow> Inl ObservabilityPayloadRejected
     | Some clean \<Rightarrow>
         if list_ex (\<lambda>k. k \<in> set FORBIDDEN_ATTRIBUTE_KEYS) (map fst clean) then Inl ObservabilityPayloadRejected
         else if forbidden_text (canonical_ascii_json_bytes (JObj clean)) then Inl ObservabilityPayloadRejected
         else if 2048 < length (canonical_json_bytes (JObj clean)) then Inl ObservabilityPayloadRejected
         else Inr clean)"

subsection \<open>Events\<close>

definition trace_id_for_run :: "(string \<Rightarrow> string) \<Rightarrow> string \<Rightarrow> string \<Rightarrow> string" where
  "trace_id_for_run sha org run = take 32 (stable_hash sha (JObj [
     (''schema_version'', JStr ''w13-trace-id/1.0''),
     (''organization_id'', JStr org),
     (''run_id'', JStr run)]))"

definition span_id :: "(string \<Rightarrow> string) \<Rightarrow> string \<Rightarrow> string \<Rightarrow> int \<Rightarrow> string \<Rightarrow> string \<Rightarrow> string" where
  "span_id sha org run n phase reason = take 16 (stable_hash sha (JObj [
     (''schema_version'', JStr ''w13-span-id/1.0''),
     (''organization_id'', JStr org),
     (''run_id'', JStr run),
     (''event_sequence'', JInt n),
     (''phase'', JStr phase),
     (''reason'', JStr reason)]))"

definition json_opt :: "string option \<Rightarrow> json" where
  "json_opt x = (case x of None \<Rightarrow> JNull | Some s \<Rightarrow> JStr s)"

definition trace_event_fields :: "string \<Rightarrow> string \<Rightarrow> string \<Rightarrow> int \<Rightarrow> string \<Rightarrow> string \<Rightarrow> string option \<Rightarrow> string \<Rightarrow> string \<Rightarrow> string
    \<Rightarrow> string \<Rightarrow> json_dict \<Rightarrow> string \<Rightarrow> datetime \<Rightarrow> json" where
  "trace_event_fields event_id org run n trace sp parent phase status failure reason attrs attrs_hash observed = JObj [
     (''schema_version'', JStr ''w13-observability-event/1.0''),
     (''event_id'', JStr event_id),
     (''organization_id'', JStr org),
     (''run_id'', JStr run),
     (''event_sequence'', JInt n),
     (''trace_id'', JStr trace),
     (''span_id'', JStr sp),
     (''parent_span_id'', json_opt parent),
     (''phase'', JStr phase),
     (''status'', JStr status),
     (''failure_category'', JStr failure),
     (''reason'', JStr reason),
     (''attributes'', JObj attrs),
     (''attributes_hash'', JStr attrs_hash),
     (''observed_at'', JStr (isoformat observed))]"

definition run_traces :: "string \<Rightarrow> string \<Rightarrow> tables \<Rightarrow> observability_event list" where
  "run_traces org run t = filter (\<lambda>e. oe_organization_id e = org \<and> oe_run_id e = run) (traces t)"

fun max_sequence :: "observability_event list \<Rightarrow> int" where
  "max_sequence [] = 0"
| "max_sequence (e # es) = max (oe_event_sequence e) (max_sequence es)"

definition next_trace_sequence :: "string \<Rightarrow> string \<Rightarrow> tables \<Rightarrow> int" where
  "next_trace_sequence org run t = max_sequence (run_traces org run t) + 1"

definition parent_span :: "string \<Rightarrow> string \<Rightarrow> int \<Rightarrow> tables \<Rightarrow> string option" where
  "parent_span org run n t =
     (if 1 < n then map_option oe_span_id (find (\<lambda>e. oe_event_sequence e = 1) (run_traces org run t)) else None)"

definition new_trace :: "(string \<Rightarrow> string) \<Rightarrow> string \<Rightarrow> string \<Rightarrow> string \<Rightarrow> string \<Rightarrow> string \<Rightarrow> string \<Rightarrow> json_dict \<Rightarrow> datetime
    \<Rightarrow> string \<Rightarrow> int \<Rightarrow> string option \<Rightarrow> observability_event" where
  "new_trace sha org run phase status failure reason attrs now i n parent =
     (let trace = trace_id_for_run sha org run;
          sp = span_id sha org run n phase reason;
          attrs_hash = stable_hash sha (JObj attrs) in
      \<lparr>oe_event_id = i, oe_organization_id = org, oe_run_id = run, oe_event_sequence = n, oe_trace_id = trace, oe_span_id = sp,
       oe_parent_span_id = parent, oe_phase = phase, oe_status = status, oe_failure_category = failure, oe_reason = reason,
       oe_attributes_json = canonical_text attrs, oe_attributes_hash = attrs_hash,
       oe_event_hash = stable_hash sha (trace_event_fields i org run n trace sp parent phase status failure reason attrs attrs_hash now),
       oe_observed_at = now\<rparr>)"

definition find_run :: "string \<Rightarrow> string \<Rightarrow> production_run option control" where
  "find_run org run = scalar runs (\<lambda>r. pr_organization_id r = org \<and> pr_run_id r = run)"

definition append_observability_event :: "env \<Rightarrow> string \<Rightarrow> string \<Rightarrow> string \<Rightarrow> string \<Rightarrow> string \<Rightarrow> string \<Rightarrow> json_dict option \<Rightarrow> datetime
    \<Rightarrow> observability_event control" where
  "append_observability_event v org run phase status reason failure attrs now =
     andthen (find_run org run) (\<lambda>found.
     andthen (require (found \<noteq> None) ObservabilityPayloadRejected) (\<lambda>_.
     andthen (query (next_trace_sequence org run)) (\<lambda>n.
     andthen (require (n \<le> 256) ObservabilityPayloadRejected) (\<lambda>_.
     andthen (query (parent_span org run n)) (\<lambda>parent.
     andthen (opaque_id v ''obs'') (\<lambda>i.
     case safe_attributes attrs of
       Inl e \<Rightarrow> raise e
     | Inr clean \<Rightarrow>
         let e = new_trace (v_sha v) org run phase status failure reason clean now i n parent in
         andthen (store (upd_traces (\<lambda>es. es @ [e]))) (\<lambda>_.
         andthen flush (\<lambda>_. ret e))))))))"

subsection \<open>Reading\<close>

record trace_read =
  tr_event :: observability_event
  tr_attributes :: json_dict

definition hex_ok :: "nat \<Rightarrow> string \<Rightarrow> bool" where
  "hex_ok n s = (length s = n \<and> list_all hex_char s)"

text \<open>The field constraints of \<open>ObservabilityEventRead\<close>, with the closed enumerations.\<close>

definition trace_shape_ok :: "observability_event \<Rightarrow> bool" where
  "trace_shape_ok e = (opaque_ok ''obs_'' 8 64 (oe_event_id e) \<and> organization_id_ok (oe_organization_id e) \<and>
     opaque_ok ''run_'' 8 64 (oe_run_id e) \<and> 1 \<le> oe_event_sequence e \<and> oe_event_sequence e \<le> 256 \<and> hex_ok 32 (oe_trace_id e) \<and>
     hex_ok 16 (oe_span_id e) \<and> (case oe_parent_span_id e of None \<Rightarrow> True | Some i \<Rightarrow> hex_ok 16 i) \<and>
     oe_phase e \<in> set trace_phases \<and> oe_status e \<in> set trace_statuses \<and> oe_failure_category e \<in> set failure_categories \<and>
     oe_reason e \<in> set trace_reasons \<and> sha256_ok (oe_attributes_hash e) \<and> sha256_ok (oe_event_hash e))"

definition trace_read_of :: "observability_event \<Rightarrow> control_error + trace_read" where
  "trace_read_of e = (case loads (oe_attributes_json e) of
       Some (JObj d) \<Rightarrow> (case validate_attributes d of
           Some clean \<Rightarrow> if trace_shape_ok e then Inr \<lparr>tr_event = e, tr_attributes = clean\<rparr> else Inl ValueError
         | None \<Rightarrow> Inl ValueError)
     | _ \<Rightarrow> Inl ValueError)"

fun map_reads :: "observability_event list \<Rightarrow> control_error + trace_read list" where
  "map_reads [] = Inr []"
| "map_reads (e # es) = (case trace_read_of e of Inl err \<Rightarrow> Inl err | Inr r \<Rightarrow>
     (case map_reads es of Inl err \<Rightarrow> Inl err | Inr rs \<Rightarrow> Inr (r # rs)))"

definition contiguous :: "trace_read list \<Rightarrow> bool" where
  "contiguous rs = (map (oe_event_sequence \<circ> tr_event) rs = map int [1..<Suc (length rs)])"

definition list_observability_events :: "string \<Rightarrow> string \<Rightarrow> trace_read list control" where
  "list_observability_events org run =
     andthen (query (\<lambda>t. take 256 (sort_key oe_event_sequence (run_traces org run t)))) (\<lambda>es.
     case map_reads es of
       Inl err \<Rightarrow> raise err
     | Inr rs \<Rightarrow> andthen (require (contiguous rs) ObservabilityPayloadRejected) (\<lambda>_. ret rs))"

subsection \<open>Exporting\<close>

text \<open>The field constraints of \<open>ProductionRunRead\<close>; the types of a row give the closed fields.\<close>

definition optional_ok :: "('a \<Rightarrow> bool) \<Rightarrow> 'a option \<Rightarrow> bool" where
  "optional_ok P x = (case x of None \<Rightarrow> True | Some y \<Rightarrow> P y)"

definition run_read_ok :: "production_run \<Rightarrow> bool" where
  "run_read_ok r = (opaque_ok ''run_'' 8 64 (pr_run_id r) \<and> organization_id_ok (pr_organization_id r) \<and>
     user_id_ok (pr_requester_user_id r) \<and> user_id_ok (pr_executor_user_id r) \<and>
     pr_task_id r \<in> set (JOINER_TASKS @ MOVER_TASKS @ LEAVER_TASKS) \<and>
     optional_ok (opaque_ok ''apr_'' 8 64) (pr_approval_request_id r) \<and> optional_ok (opaque_ok ''grt_'' 8 64) (pr_grant_id r) \<and>
     optional_ok (opaque_ok ''exe_'' 8 64) (pr_execution_id r) \<and> action_candidate_ok (pr_action_type r) \<and>
     sha256_ok (pr_parameter_hash r) \<and> sha256_ok (pr_authorization_hash r) \<and> optional_ok sha256_ok (pr_approval_set_hash r) \<and>
     sha256_ok (pr_payload_hash r) \<and> 1 \<le> pr_version r \<and> sha256_ok (pr_workflow_hash r) \<and> 0 \<le> pr_fencing_token r \<and>
     optional_ok receipt_text_ok (pr_receipt_reference r) \<and> 1 \<le> pr_audit_sequence r)"

definition run_read :: "production_run \<Rightarrow> control_error + production_run" where
  "run_read r = (if run_read_ok r then Inr r else Inl ValueError)"

definition json_time :: "datetime option \<Rightarrow> json" where
  "json_time x = (case x of None \<Rightarrow> JNull | Some t \<Rightarrow> JStr (isoformat t))"

definition run_json :: "production_run \<Rightarrow> json" where
  "run_json r = JObj [
     (''schema_version'', JStr ''w12-production-run/1.0''),
     (''run_id'', JStr (pr_run_id r)),
     (''organization_id'', JStr (pr_organization_id r)),
     (''requester_user_id'', JStr (pr_requester_user_id r)),
     (''executor_user_id'', JStr (pr_executor_user_id r)),
     (''task_id'', JStr (pr_task_id r)),
     (''process'', JStr (production_process_name (pr_run_process r))),
     (''category'', JStr (production_category_name (pr_run_category r))),
     (''approval_request_id'', json_opt (pr_approval_request_id r)),
     (''grant_id'', json_opt (pr_grant_id r)),
     (''execution_id'', json_opt (pr_execution_id r)),
     (''action_type'', JStr (pr_action_type r)),
     (''parameter_hash'', JStr (pr_parameter_hash r)),
     (''authorization_hash'', JStr (pr_authorization_hash r)),
     (''approval_set_hash'', json_opt (pr_approval_set_hash r)),
     (''payload_hash'', JStr (pr_payload_hash r)),
     (''status'', JStr (run_status_name (pr_status r))),
     (''version'', JInt (pr_version r)),
     (''workflow_hash'', JStr (pr_workflow_hash r)),
     (''fencing_token'', JInt (pr_fencing_token r)),
     (''accepted_at'', JStr (isoformat (pr_accepted_at r))),
     (''queued_at'', json_time (pr_queued_at r)),
     (''started_at'', json_time (pr_started_at r)),
     (''finished_at'', json_time (pr_finished_at r)),
     (''terminal_reason'', json_opt (map_option terminal_reason_name (pr_terminal_reason r))),
     (''receipt_reference'', json_opt (pr_receipt_reference r)),
     (''audit_sequence'', JInt (pr_audit_sequence r))]"

text \<open>A dump that keeps the fields that are \<open>None\<close>.\<close>

definition attributes_json :: "json_dict \<Rightarrow> json" where
  "attributes_json a = JObj (map (\<lambda>k. (k, default_field a k JNull))
     ([''schema_version''] @ map fst trace_attribute_fields @ [''completed_step_ids'', ''sensitive_fields_present'']))"

definition trace_json :: "trace_read \<Rightarrow> json" where
  "trace_json r = (let e = tr_event r in JObj [
     (''schema_version'', JStr ''w13-observability-event/1.0''),
     (''event_id'', JStr (oe_event_id e)),
     (''organization_id'', JStr (oe_organization_id e)),
     (''run_id'', JStr (oe_run_id e)),
     (''event_sequence'', JInt (oe_event_sequence e)),
     (''trace_id'', JStr (oe_trace_id e)),
     (''span_id'', JStr (oe_span_id e)),
     (''parent_span_id'', json_opt (oe_parent_span_id e)),
     (''phase'', JStr (oe_phase e)),
     (''status'', JStr (oe_status e)),
     (''failure_category'', JStr (oe_failure_category e)),
     (''reason'', JStr (oe_reason e)),
     (''attributes'', attributes_json (tr_attributes r)),
     (''attributes_hash'', JStr (oe_attributes_hash e)),
     (''event_hash'', JStr (oe_event_hash e)),
     (''observed_at'', JStr (isoformat (oe_observed_at e)))])"

record replay_step =
  rs_ordinal :: nat
  rs_phase :: string
  rs_status :: string
  rs_failure_category :: string
  rs_reason :: string
  rs_reference_hash :: string
  rs_observed_at :: datetime

definition replay_step_of :: "nat \<times> trace_read \<Rightarrow> replay_step" where
  "replay_step_of p = (let e = tr_event (snd p) in
     \<lparr>rs_ordinal = fst p, rs_phase = oe_phase e, rs_status = oe_status e, rs_failure_category = oe_failure_category e,
      rs_reason = oe_reason e, rs_reference_hash = oe_event_hash e, rs_observed_at = oe_observed_at e\<rparr>)"

definition replay_json :: "replay_step \<Rightarrow> json" where
  "replay_json r = JObj [
     (''schema_version'', JStr ''w13-replay-step/1.0''),
     (''ordinal'', JInt (int (rs_ordinal r))),
     (''phase'', JStr (rs_phase r)),
     (''status'', JStr (rs_status r)),
     (''failure_category'', JStr (rs_failure_category r)),
     (''reason'', JStr (rs_reason r)),
     (''reference_hash'', JStr (rs_reference_hash r)),
     (''observed_at'', JStr (isoformat (rs_observed_at r)))]"

record cost_summary =
  co_model_calls :: int
  co_input_tokens :: int
  co_output_tokens :: int
  co_fake_cost_microusd :: int
  co_real_cost_microusd :: int

definition cost_summary_ok :: "cost_summary \<Rightarrow> bool" where
  "cost_summary_ok c = (0 \<le> co_model_calls c \<and> co_model_calls c \<le> 1000000 \<and> 0 \<le> co_input_tokens c \<and>
     co_input_tokens c \<le> 1000000000 \<and> 0 \<le> co_output_tokens c \<and> co_output_tokens c \<le> 1000000000 \<and>
     0 \<le> co_fake_cost_microusd c \<and> co_fake_cost_microusd c \<le> 1000000000 \<and> co_real_cost_microusd c = 0)"

definition cost_json :: "cost_summary \<Rightarrow> json" where
  "cost_json c = JObj [
     (''schema_version'', JStr ''w13-cost-summary/1.0''),
     (''model_calls'', JInt (co_model_calls c)),
     (''input_tokens'', JInt (co_input_tokens c)),
     (''output_tokens'', JInt (co_output_tokens c)),
     (''fake_cost_microusd'', JInt (co_fake_cost_microusd c)),
     (''real_cost_microusd'', JInt (co_real_cost_microusd c))]"

record trace_dashboard =
  td_event_count :: nat
  td_replay_step_count :: nat
  td_terminal_status :: production_run_status
  td_failure_category :: string
  td_model_calls :: int
  td_fake_cost_microusd :: int
  td_dashboard_hash :: string

definition dashboard_fields :: "nat \<Rightarrow> nat \<Rightarrow> production_run_status \<Rightarrow> string \<Rightarrow> int \<Rightarrow> int \<Rightarrow> json_dict" where
  "dashboard_fields n m status failure calls cost = [
     (''schema_version'', JStr ''w13-trace-dashboard/1.0''),
     (''event_count'', JInt (int n)),
     (''replay_step_count'', JInt (int m)),
     (''terminal_status'', JStr (run_status_name status)),
     (''failure_category'', JStr failure),
     (''model_calls'', JInt calls),
     (''fake_cost_microusd'', JInt cost),
     (''real_cost_microusd'', JInt 0),
     (''sensitive_fields_present'', JBool False)]"

definition dashboard_json :: "trace_dashboard \<Rightarrow> json" where
  "dashboard_json d = JObj (dashboard_fields (td_event_count d) (td_replay_step_count d) (td_terminal_status d)
     (td_failure_category d) (td_model_calls d) (td_fake_cost_microusd d) @ [(''dashboard_hash'', JStr (td_dashboard_hash d))])"

record run_trace_export =
  rx_run :: production_run
  rx_trace_id :: string
  rx_events :: "trace_read list"
  rx_replay_steps :: "replay_step list"
  rx_cost :: cost_summary
  rx_dashboard :: trace_dashboard
  rx_export_hash :: string

definition export_fields :: "production_run \<Rightarrow> string \<Rightarrow> trace_read list \<Rightarrow> replay_step list \<Rightarrow> cost_summary \<Rightarrow> trace_dashboard \<Rightarrow> json" where
  "export_fields run trace es steps c d = JObj [
     (''schema_version'', JStr ''w13-run-trace-export/1.0''),
     (''run'', run_json run),
     (''trace_id'', JStr trace),
     (''events'', JArr (map trace_json es)),
     (''replay_steps'', JArr (map replay_json steps)),
     (''cost'', cost_json c),
     (''dashboard'', dashboard_json d)]"

definition event_failure :: "trace_read list \<Rightarrow> string" where
  "event_failure rs = (case find (\<lambda>r. oe_failure_category (tr_event r) \<noteq> ''none'') rs of
       None \<Rightarrow> ''none'' | Some r \<Rightarrow> oe_failure_category (tr_event r))"

definition terminal_failures :: "(production_terminal_reason \<times> string) list" where
  "terminal_failures = [(AuthorizationInvalid, ''authz''), (QueueExpired, ''queue_expiry''), (LeaseExhausted, ''lease_fence''),
     (WorkflowRejected, ''workflow_rejected''), (ReceiptInvalid, ''receipt_invalid''), (WorkerDrained, ''lease_fence''),
     (DependencyUnavailable, ''dependency_unavailable''), (AgentFailed, ''recovery_failure''), (CancelledByActor, ''none'')]"

definition terminal_failure :: "production_run \<Rightarrow> control_error + string" where
  "terminal_failure r =
     (if pr_status r = RunFinishedUngraded then Inr ''none''
      else (case pr_terminal_reason r of None \<Rightarrow> Inr ''none''
        | Some why \<Rightarrow> (case map_of terminal_failures why of None \<Rightarrow> Inl KeyError | Some c \<Rightarrow> Inr c)))"

definition attribute_int :: "string \<Rightarrow> trace_read \<Rightarrow> int" where
  "attribute_int k r = (case map_of (tr_attributes r) k of Some (JInt i) \<Rightarrow> i | _ \<Rightarrow> 0)"

definition total :: "string \<Rightarrow> trace_read list \<Rightarrow> int" where
  "total k rs = sum_list (map (attribute_int k) rs)"

definition evaluated_failure :: "trace_read list \<Rightarrow> production_run \<Rightarrow> control_error + string" where
  "evaluated_failure rs run = (if event_failure rs = ''none'' then terminal_failure run else Inr (event_failure rs))"

definition dashboard_of :: "(string \<Rightarrow> string) \<Rightarrow> nat \<Rightarrow> production_run_status \<Rightarrow> string \<Rightarrow> cost_summary \<Rightarrow> trace_dashboard" where
  "dashboard_of sha n status failure c = \<lparr>td_event_count = n, td_replay_step_count = n, td_terminal_status = status,
     td_failure_category = failure, td_model_calls = co_model_calls c, td_fake_cost_microusd = co_fake_cost_microusd c,
     td_dashboard_hash = stable_hash sha (JObj (dashboard_fields n n status failure (co_model_calls c) (co_fake_cost_microusd c)))\<rparr>"

definition build_run_trace_export :: "env \<Rightarrow> production_run \<Rightarrow> run_trace_export control" where
  "build_run_trace_export v run =
     andthen (list_observability_events (pr_organization_id run) (pr_run_id run)) (\<lambda>es.
     let steps = map replay_step_of (zip [1..<Suc (length es)] es);
         c = \<lparr>co_model_calls = total ''model_calls'' es, co_input_tokens = total ''input_tokens'' es,
              co_output_tokens = total ''output_tokens'' es, co_fake_cost_microusd = total ''fake_cost_microusd'' es,
              co_real_cost_microusd = 0\<rparr> in
     andthen (require (total ''real_cost_microusd'' es = 0 \<and>
       \<not> list_ex (\<lambda>r. map_of (tr_attributes r) ''sensitive_fields_present'' \<noteq> Some (JBool False)) es) ObservabilityPayloadRejected) (\<lambda>_.
     andthen (require (cost_summary_ok c) ValueError) (\<lambda>_.
     case evaluated_failure es run of
       Inl err \<Rightarrow> raise err
     | Inr failure \<Rightarrow>
         let d = dashboard_of (v_sha v) (length es) (pr_status run) failure c;
             trace = (case es of [] \<Rightarrow> trace_id_for_run (v_sha v) (pr_organization_id run) (pr_run_id run) | e # _ \<Rightarrow> oe_trace_id (tr_event e)) in
         ret \<lparr>rx_run = run, rx_trace_id = trace, rx_events = es, rx_replay_steps = steps, rx_cost = c, rx_dashboard = d,
           rx_export_hash = stable_hash (v_sha v) (export_fields run trace es steps c d)\<rparr>)))"

subsection \<open>Validated attributes\<close>

abbreviation "attribute_keys \<equiv> [''schema_version''] @ map fst trace_attribute_fields @ [''completed_step_ids'', ''sensitive_fields_present'']"

lemma attribute_keys_distinct: "distinct attribute_keys"
  by (simp add: trace_attribute_fields_def)

lemma special_keys [simp]:
  "''schema_version'' \<notin> fst ` set trace_attribute_fields" "''completed_step_ids'' \<notin> fst ` set trace_attribute_fields"
  "''sensitive_fields_present'' \<notin> fst ` set trace_attribute_fields"
  by (simp_all add: trace_attribute_fields_def)

lemma present_field_keys: "map fst (present_field d k) = (if map_of d k \<in> {None, Some JNull} then [] else [k])"
  by (cases "map_of d k") (auto simp: present_field_def split: json.splits)

lemma present_fields_keys: "map fst (concat (map (present_field d) ks)) = filter (\<lambda>k. map_of d k \<notin> {None, Some JNull}) ks"
  by (induction ks) (simp_all add: present_field_keys)

lemma map_of_present:
  "map_of (concat (map (present_field d) ks) @ r) k =
     (if k \<in> set ks \<and> map_of d k \<notin> {None, Some JNull} then map_of d k else map_of r k)"
proof (induction ks)
  case (Cons x ks)
  then show ?case by (cases "map_of d x") (auto simp: present_field_def split: json.splits)
qed simp

lemma present_field_again:
  "map_of d' k = (if map_of d k \<notin> {None, Some JNull} then map_of d k else None) \<Longrightarrow> present_field d' k = present_field d k"
  by (auto simp: present_field_def split: option.splits json.splits)

lemma optional_field_again:
  "map_of d' (fst f) = (if map_of d (fst f) \<notin> {None, Some JNull} then map_of d (fst f) else None) \<Longrightarrow>
     optional_field_ok d f \<Longrightarrow> optional_field_ok d' f"
  by (auto simp: optional_field_ok_def split: option.splits json.splits)

text \<open>Validation depends on the mapping only, and its result is a fixed point with distinct keys.\<close>

lemma validate_attributes_cong:
  assumes "set (map fst d) = set (map fst d')" and "map_of d = map_of d'"
  shows "validate_attributes d = validate_attributes d'"
proof -
  have "present_field d = present_field d'" "default_field d = default_field d'" "optional_field_ok d = optional_field_ok d'"
    using assms(2) by (auto simp: present_field_def default_field_def optional_field_ok_def fun_eq_iff)
  moreover have "list_all P (map fst d) = list_all P (map fst d')" for P
    using assms(1) by (simp only: list_all_iff)
  ultimately show ?thesis by (simp add: validate_attributes_def del: set_append cong: if_cong)
qed

lemma validated_shape:
  assumes "validate_attributes d = Some a"
  shows "a = (''schema_version'', JStr ''w13-trace-attributes/1.0'') # concat (map (present_field d) (map fst trace_attribute_fields)) @
       [(''completed_step_ids'', default_field d ''completed_step_ids'' (JArr [])), (''sensitive_fields_present'', JBool False)]"
    and "list_all (optional_field_ok d) trace_attribute_fields" and "step_list_ok (default_field d ''completed_step_ids'' (JArr []))"
  using assms by (auto simp: validate_attributes_def Let_def split: if_splits)

lemma validated_keys:
  assumes "validate_attributes d = Some a"
  shows "distinct (map fst a)" and "set (map fst a) \<subseteq> set attribute_keys"
proof -
  let ?ks = "filter (\<lambda>k. map_of d k \<notin> {None, Some JNull}) (map fst trace_attribute_fields)"
  have keys: "map fst a = [''schema_version''] @ ?ks @ [''completed_step_ids'', ''sensitive_fields_present'']"
    using present_fields_keys [of d "map fst trace_attribute_fields"] by (simp add: validated_shape(1) [OF assms])
  show "distinct (map fst a)" using attribute_keys_distinct unfolding keys by (auto simp del: map_append)
  show "set (map fst a) \<subseteq> set attribute_keys" unfolding keys by auto
qed

lemma validated_map:
  assumes "validate_attributes d = Some a" and "k \<in> set (map fst trace_attribute_fields)"
  shows "map_of a k = (if map_of d k \<notin> {None, Some JNull} then map_of d k else None)"
proof -
  have "k \<noteq> ''schema_version''" "k \<noteq> ''completed_step_ids''" "k \<noteq> ''sensitive_fields_present''"
    using assms(2) special_keys by (metis list.set_map)+
  then show ?thesis using assms(2) by (simp add: validated_shape(1) [OF assms(1)] map_of_present del: map_map map_of_append)
qed

lemma validated_special:
  assumes "validate_attributes d = Some a"
  shows "map_of a ''schema_version'' = Some (JStr ''w13-trace-attributes/1.0'')"
    and "map_of a ''completed_step_ids'' = Some (default_field d ''completed_step_ids'' (JArr []))"
    and "map_of a ''sensitive_fields_present'' = Some (JBool False)"
proof -
  show "map_of a ''schema_version'' = Some (JStr ''w13-trace-attributes/1.0'')" by (simp add: validated_shape(1) [OF assms])
  show "map_of a ''completed_step_ids'' = Some (default_field d ''completed_step_ids'' (JArr []))"
    by (simp add: validated_shape(1) [OF assms] map_of_present del: map_map map_of_append)
  show "map_of a ''sensitive_fields_present'' = Some (JBool False)"
    by (simp add: validated_shape(1) [OF assms] map_of_present del: map_map map_of_append)
qed

lemma validate_again:
  assumes "validate_attributes d = Some a"
  shows "validate_attributes a = Some a"
proof -
  note shape = validated_shape [OF assms] and special = validated_special [OF assms]
  have p: "map (present_field a) (map fst trace_attribute_fields) = map (present_field d) (map fst trace_attribute_fields)"
    using validated_map [OF assms] present_field_again by (intro map_cong) (simp_all only: refl)
  have o: "list_all (optional_field_ok a) trace_attribute_fields"
    using shape(2) validated_map [OF assms] optional_field_again unfolding list_all_iff by (metis list.set_map imageI)
  have k: "list_all (\<lambda>k. k \<in> set attribute_keys) (map fst a)"
    using validated_keys(2) [OF assms] by (auto simp: list_all_iff)
  have "default_field a ''schema_version'' (JStr ''w13-trace-attributes/1.0'') = JStr ''w13-trace-attributes/1.0''"
    and steps: "default_field a ''completed_step_ids'' (JArr []) = default_field d ''completed_step_ids'' (JArr [])"
    and "default_field a ''sensitive_fields_present'' (JBool False) = JBool False"
    using special by (simp_all add: default_field_def)
  then have "validate_attributes a = Some ((''schema_version'', JStr ''w13-trace-attributes/1.0'') #
      concat (map (present_field a \<circ> fst) trace_attribute_fields) @
      [(''completed_step_ids'', default_field a ''completed_step_ids'' (JArr [])), (''sensitive_fields_present'', JBool False)])"
    using k o shape(3) unfolding validate_attributes_def Let_def by (simp del: set_append)
  also have "\<dots> = Some a"
    unfolding steps p [unfolded map_map] by (simp add: shape(1))
  finally show ?thesis .
qed

subsection \<open>What is appended is read back\<close>

lemma find_run_iff [simp]:
  "find_run org run s = (Inr r, s') \<longleftrightarrow> r = find (\<lambda>r. pr_organization_id r = org \<and> pr_run_id r = run) (runs (current s)) \<and> s' = s"
  "find_run org run s = (Inl e, s') \<longleftrightarrow> False"
  by (auto simp: find_run_def scalar_def)

lemma flush_iff [simp]:
  "flush s = (Inr u, s') \<longleftrightarrow> tables_valid (current s) \<and> s' = s"
  "flush s = (Inl e, s') \<longleftrightarrow> \<not> tables_valid (current s) \<and> s' = s \<and> e = IntegrityError"
  by (auto simp: flush_def)

lemma append_trace_Inr:
  "append_observability_event v org run phase status reason failure attrs now s = (Inr e, s') \<longleftrightarrow>
     find (\<lambda>r. pr_organization_id r = org \<and> pr_run_id r = run) (runs (current s)) \<noteq> None \<and>
     next_trace_sequence org run (current s) \<le> 256 \<and>
     (\<exists>clean. safe_attributes attrs = Inr clean \<and>
        e = new_trace (v_sha v) org run phase status failure reason clean now (''obs_'' @ v_token_hex v (drawn s))
          (next_trace_sequence org run (current s)) (parent_span org run (next_trace_sequence org run (current s)) (current s))) \<and>
     tables_valid (upd_traces (\<lambda>es. es @ [e]) (current s)) \<and>
     s' = s\<lparr>drawn := Suc (drawn s), current := upd_traces (\<lambda>es. es @ [e]) (current s)\<rparr>"
  by (cases "safe_attributes attrs") (auto simp: append_observability_event_def run_iff opaque_id_def Let_def)

lemma trace_attribute_atomic:
  "f \<in> set trace_attribute_fields \<Longrightarrow> snd f j \<Longrightarrow> sort_keys j = j \<and> distinct_keys j"
  by (cases j) (auto simp: trace_attribute_fields_def str_ok_def int_from_def int_between_def)

lemma step_list_flat: "step_list_ok j \<Longrightarrow> sort_keys j = j \<and> distinct_keys j"
proof (cases j)
  case (JArr xs)
  assume "step_list_ok j"
  then have "sort_keys x = x \<and> distinct_keys x" if "x \<in> set xs" for x
    using that JArr by (cases x) (auto simp: step_list_ok_def str_ok_def list_all_iff)
  with JArr show ?thesis by (auto simp: list_all_iff intro: map_idI)
qed (auto simp: step_list_ok_def)

lemma validated_flat:
  assumes "validate_attributes d = Some a" and "p \<in> set a"
  shows "sort_keys (snd p) = snd p \<and> distinct_keys (snd p)"
proof -
  have "sort_keys (snd p) = snd p \<and> distinct_keys (snd p)" if f: "f \<in> set trace_attribute_fields" and q: "p \<in> set (present_field d (fst f))" for f
  proof -
    obtain j where j: "map_of d (fst f) = Some j" "j \<noteq> JNull" "snd p = j"
      using q by (cases "the (map_of d (fst f))"; cases "map_of d (fst f)") (auto simp: present_field_def)
    have "optional_field_ok d f" using validated_shape(2) [OF assms(1)] f by (auto simp: list_all_iff)
    with j have "snd f j" by (cases j) (simp_all add: optional_field_ok_def)
    with f j(3) show ?thesis using trace_attribute_atomic by blast
  qed
  moreover note step_list_flat [OF validated_shape(3) [OF assms(1)]]
  ultimately show ?thesis using assms(2) unfolding validated_shape(1) [OF assms(1)] by auto
qed

lemma sort_keys_flat:
  assumes "\<And>p. p \<in> set kvs \<Longrightarrow> sort_keys (snd p) = snd p"
  shows "sort_keys (JObj kvs) = JObj (sort_key fst kvs)"
proof -
  have "map (\<lambda>(k, v). (k, sort_keys v)) kvs = kvs"
    using assms by (intro map_idI) auto
  then show ?thesis by simp
qed

lemma map_of_sort_key:
  assumes "distinct (map fst kvs)"
  shows "map_of (sort_key fst kvs) = map_of kvs"
proof -
  have "distinct (map fst (sort_key fst kvs))"
    using assms by (metis distinct_map distinct_sort set_sort)
  then show ?thesis using assms map_of_inject_set [of "sort_key fst kvs" kvs] by simp
qed

lemma loads_attributes:
  assumes "validate_attributes d = Some a"
  shows "loads (canonical_text a) = Some (JObj (sort_key fst a))" and "validate_attributes (sort_key fst a) = Some a"
proof -
  note flat = validated_flat [OF assms] and keys = validated_keys(1) [OF assms]
  have d: "distinct (map fst (sort_key fst a))" using keys by (metis distinct_map distinct_sort set_sort)
  have "distinct_keys (JObj (sort_key fst a))" using flat d by (auto simp: list_all_iff)
  then show "loads (canonical_text a) = Some (JObj (sort_key fst a))"
    unfolding canonical_text_def using flat sort_keys_flat [of a] loads_render by metis
  show "validate_attributes (sort_key fst a) = Some a"
    using validate_attributes_cong [of "sort_key fst a" a] map_of_sort_key [OF keys] validate_again [OF assms] by simp
qed

lemma safe_attributes_valid: "safe_attributes attrs = Inr a \<Longrightarrow> \<exists>d. validate_attributes d = Some a"
  by (auto simp: safe_attributes_def split: option.splits if_splits)

lemma new_trace_read:
  assumes "safe_attributes attrs = Inr a" and "e = new_trace sha org run phase status failure reason a now i n parent" and "trace_shape_ok e"
  shows "trace_read_of e = Inr \<lparr>tr_event = e, tr_attributes = a\<rparr>"
proof -
  obtain d where d: "validate_attributes d = Some a" using safe_attributes_valid [OF assms(1)] ..
  have "oe_attributes_json e = canonical_text a" by (simp add: assms(2) new_trace_def Let_def)
  then show ?thesis using loads_attributes [OF d] assms(3) by (simp add: trace_read_of_def)
qed

text \<open>The log of a run: its events in the order of their numbers, and that this numbering has no gap.\<close>

definition trace_log :: "string \<Rightarrow> string \<Rightarrow> tables \<Rightarrow> observability_event list" where
  "trace_log org run t = sort_key oe_event_sequence (run_traces org run t)"

lemma map_reads_Inr: "map_reads es = Inr rs \<longleftrightarrow> list_all2 (\<lambda>e r. trace_read_of e = Inr r) es rs"
proof (induction es arbitrary: rs)
  case (Cons e es)
  then show ?case by (cases rs) (auto split: sum.splits simp flip: Cons.IH)
qed auto

lemma trace_read_event: "trace_read_of e = Inr r \<Longrightarrow> tr_event r = e \<and> trace_shape_ok e"
  by (auto simp: trace_read_of_def split: option.splits json.splits if_splits)

lemma map_reads_events: "map_reads es = Inr rs \<Longrightarrow> map tr_event rs = es"
  unfolding map_reads_Inr by (induction rule: list_all2_induct) (auto dest: trace_read_event)

lemma max_sequence_upper: "e \<in> set es \<Longrightarrow> oe_event_sequence e \<le> max_sequence es"
  by (induction es) auto

lemma max_sequence_in: "max_sequence es = 0 \<or> (\<exists>e \<in> set es. oe_event_sequence e = max_sequence es)"
  by (induction es) (auto simp: max_def)

lemma run_traces_append:
  "run_traces org run (upd_traces (\<lambda>es. es @ [e]) t) =
     run_traces org run t @ (if oe_organization_id e = org \<and> oe_run_id e = run then [e] else [])"
  by (simp add: run_traces_def upd_traces_def)

text \<open>The numbering of a log that was listed completely decides the next number.\<close>

lemma listed_log:
  assumes "list_observability_events org run s = (Inr rs, s1)" and n: "next_trace_sequence org run (current s) \<le> 256"
  shows "trace_log org run (current s) = map tr_event rs" and "s1 = s" and "contiguous rs"
    and "next_trace_sequence org run (current s) = int (length rs) + 1"
proof -
  let ?L = "trace_log org run (current s)"
  have reads: "map_reads (take 256 ?L) = Inr rs" and c: "contiguous rs" and s1: "s1 = s"
    using assms(1) by (auto simp: list_observability_events_def run_iff trace_log_def split: sum.splits)
  note ev = map_reads_events [OF reads]
  have seq: "map oe_event_sequence (take 256 ?L) = map int [1..<Suc (length rs)]"
    using c by (simp add: contiguous_def flip: ev map_map)
  have set: "set ?L = set (run_traces org run (current s))" by (simp add: trace_log_def)
  have short: "length ?L < 256"
  proof (rule ccontr)
    assume "\<not> length ?L < 256"
    then have len: "length rs = 256" "length (take 256 ?L) = 256" using arg_cong [OF ev, of length] by simp_all
    then have "oe_event_sequence (?L ! 255) = 256"
      using arg_cong [OF seq, of "\<lambda>xs. xs ! 255"] by (simp add: nth_append del: upt_Suc)
    moreover have "?L ! 255 \<in> set (run_traces org run (current s))" using \<open>\<not> length ?L < 256\<close> set nth_mem [of 255 ?L] by simp
    ultimately have "256 \<le> max_sequence (run_traces org run (current s))" using max_sequence_upper by metis
    then show False using n by (simp add: next_trace_sequence_def)
  qed
  then show L: "?L = map tr_event rs" using ev by simp
  show "s1 = s" "contiguous rs" by (fact s1, fact c)
  have "max_sequence (run_traces org run (current s)) = int (length rs)"
  proof -
    have vals: "oe_event_sequence ` set (run_traces org run (current s)) = int ` {1..length rs}"
      using arg_cong [OF seq, of set] short set by (simp add: atLeastLessThanSuc_atLeastAtMost del: upt_Suc)
    have le: "i \<le> int (length rs)" if "i \<in> oe_event_sequence ` set (run_traces org run (current s))" for i
      using that unfolding vals by auto
    have up: "max_sequence (run_traces org run (current s)) \<le> int (length rs)"
      using max_sequence_in [of "run_traces org run (current s)"] le by (metis imageI of_nat_0_le_iff)
    show ?thesis
    proof (cases "rs = []")
      case False
      then have "int (length rs) \<in> oe_event_sequence ` set (run_traces org run (current s))" unfolding vals by (intro imageI) (cases rs, auto)
      then show ?thesis using up max_sequence_upper by fastforce
    next
      case True
      then have "run_traces org run (current s) = []" using L set by simp
      then show ?thesis using True by simp
    qed
  qed
  then show "next_trace_sequence org run (current s) = int (length rs) + 1" by (simp add: next_trace_sequence_def)
qed

lemma span_of_first:
  assumes "list_observability_events org run s = (Inr rs, s1)" and "next_trace_sequence org run (current s) \<le> 256"
  shows "parent_span org run (int (length rs) + 1) (current s) = (case rs of [] \<Rightarrow> None | r # _ \<Rightarrow> Some (oe_span_id (tr_event r)))"
proof (cases rs)
  case (Cons r rs')
  note l = listed_log [OF assms]
  have seqs: "map (oe_event_sequence \<circ> tr_event) rs = map int [1..<Suc (length rs)]" using l(3) by (simp add: contiguous_def)
  then have d: "distinct (map oe_event_sequence (trace_log org run (current s)))"
    unfolding l(1) by (simp add: distinct_map inj_on_def del: upt_Suc)
  have "oe_event_sequence (tr_event r) = 1" using arg_cong [OF seqs, of hd] Cons by (simp add: hd_map del: upt_Suc)
  moreover have "set (trace_log org run (current s)) = set (run_traces org run (current s))" by (simp add: trace_log_def)
  ultimately have r: "tr_event r \<in> set (run_traces org run (current s))" "oe_event_sequence (tr_event r) = 1"
    unfolding l(1) Cons by auto
  have "find (\<lambda>e. oe_event_sequence e = 1) (run_traces org run (current s)) = Some (tr_event r)"
  proof (cases "find (\<lambda>e. oe_event_sequence e = 1) (run_traces org run (current s))")
    case None
    then show ?thesis using r by (auto simp: find_None_iff)
  next
    case (Some e)
    then have "e \<in> set (run_traces org run (current s))" "oe_event_sequence e = 1"
      by (auto simp: find_Some_iff)
    then have "e = tr_event r" using d r by (simp add: trace_log_def distinct_map inj_on_def)
    with Some show ?thesis by simp
  qed
  then show ?thesis using Cons by (simp add: parent_span_def)
qed (simp add: parent_span_def)

lemma read_shape:
  assumes "list_observability_events org run s = (Inr rs, s1)" and "r \<in> set rs"
  shows "trace_shape_ok (tr_event r)"
proof -
  obtain es where "list_all2 (\<lambda>e r. trace_read_of e = Inr r) es rs"
    using assms(1) by (auto simp: list_observability_events_def run_iff map_reads_Inr [symmetric] split: sum.splits)
  then show ?thesis using assms(2) by (induction rule: list_all2_induct) (auto dest: trace_read_event)
qed

lemma hex_token: "hex_char c \<Longrightarrow> token_char c"
  by (auto simp: hex_char_def token_char_def is_alpha_def)

text \<open>Hashes and secrets are hexadecimal.\<close>

definition hex_env :: "env \<Rightarrow> bool" where
  "hex_env v \<longleftrightarrow> (\<forall>x. sha256_ok (v_sha v x)) \<and> (\<forall>n. hex_ok 32 (v_token_hex v n))"

lemma new_trace_shape:
  assumes v: "hex_env v" and ids: "organization_id_ok org" "opaque_ok ''run_'' 8 64 run"
    and e: "e = new_trace (v_sha v) org run phase status failure reason a now (''obs_'' @ v_token_hex v k) n parent"
    and row: "trace_row_ok e" and parent: "\<And>p. parent = Some p \<Longrightarrow> hex_ok 16 p"
  shows "trace_shape_ok e"
proof -
  have h: "sha256_ok (stable_hash (v_sha v) j)" "hex_ok 32 (v_token_hex v k)" for j using v by (simp_all add: hex_env_def stable_hash_def)
  then have "hex_ok m (take m (stable_hash (v_sha v) j))" if "m \<le> 64" for m j
    using that by (auto simp: hex_ok_def sha256_ok_def list_all_iff dest: in_set_takeD)
  moreover have "opaque_ok ''obs_'' 8 64 (''obs_'' @ v_token_hex v k)"
    using h(2) by (auto simp: opaque_ok_def hex_ok_def list_all_iff hex_token)
  ultimately show ?thesis
    using ids row parent h by (auto simp: trace_shape_ok_def trace_row_ok_def e new_trace_def Let_def trace_id_for_run_def span_id_def split: option.splits)
qed

lemma appended_is_listed:
  assumes v: "hex_env v" and ids: "organization_id_ok org" "opaque_ok ''run_'' 8 64 run"
    and l: "list_observability_events org run s = (Inr rs, s1)"
    and a: "append_observability_event v org run phase status reason failure attrs now s = (Inr e, s')"
  shows "\<exists>clean. safe_attributes attrs = Inr clean \<and>
     list_observability_events org run s' = (Inr (rs @ [\<lparr>tr_event = e, tr_attributes = clean\<rparr>]), s') \<and>
     oe_event_sequence e = int (length rs) + 1 \<and>
     oe_parent_span_id e = (case rs of [] \<Rightarrow> None | r # _ \<Rightarrow> Some (oe_span_id (tr_event r)))"
proof -
  let ?n = "next_trace_sequence org run (current s)" and ?t = "upd_traces (\<lambda>es. es @ [e]) (current s)"
  from a obtain clean where n: "?n \<le> 256" and clean: "safe_attributes attrs = Inr clean" and valid: "tables_valid ?t"
    and e: "e = new_trace (v_sha v) org run phase status failure reason clean now (''obs_'' @ v_token_hex v (drawn s)) ?n
          (parent_span org run ?n (current s))"
    and s': "s' = s\<lparr>drawn := Suc (drawn s), current := ?t\<rparr>"
    by (auto simp: append_trace_Inr)
  note log = listed_log [OF l n] and first = span_of_first [OF l n]
  have eq: "oe_organization_id e = org" "oe_run_id e = run" "oe_event_sequence e = int (length rs) + 1"
    "oe_parent_span_id e = (case rs of [] \<Rightarrow> None | r # _ \<Rightarrow> Some (oe_span_id (tr_event r)))"
    using log(4) first by (simp_all add: e new_trace_def Let_def)
  have "trace_row_ok e" using valid by (simp add: tables_valid_def rows_ok_def upd_traces_def)
  moreover have "hex_ok 16 p" if "parent_span org run ?n (current s) = Some p" for p
    using that first log(4) read_shape [OF l] by (auto simp: trace_shape_ok_def split: list.splits)
  ultimately have "trace_shape_ok e" using new_trace_shape [OF v ids e] by blast
  note read = new_trace_read [OF clean e this]
  have "trace_log org run ?t = trace_log org run (current s) @ [e]"
    unfolding trace_log_def run_traces_append
  proof (simp add: eq(1,2), rule sort_key_snoc_max)
    fix y assume "y \<in> set (run_traces org run (current s))"
    then show "oe_event_sequence y \<le> oe_event_sequence e"
      using max_sequence_upper [of y "run_traces org run (current s)"] log(4) eq(3) by (simp add: next_trace_sequence_def)
  qed
  moreover have "map_reads (map tr_event rs) = Inr rs"
    using l map_reads_events by (fastforce simp: list_observability_events_def run_iff split: sum.splits)
  ultimately have "map_reads (trace_log org run ?t) = Inr (rs @ [\<lparr>tr_event = e, tr_attributes = clean\<rparr>])"
    using read by (simp add: map_reads_Inr log(1) list_all2_appendI)
  moreover have "length (trace_log org run ?t) \<le> 256" using n log(4)
    by (simp add: \<open>trace_log org run ?t = _\<close> log(1))
  moreover have "contiguous (rs @ [\<lparr>tr_event = e, tr_attributes = clean\<rparr>])"
    using log(3) eq(3) by (simp add: contiguous_def)
  ultimately show ?thesis using clean eq s'
    by (simp add: list_observability_events_def andthen_def query_def require_def ret_def trace_log_def)
qed

end
