(* ===== verification/Production.thy ===== *)
theory Production
  imports Approval Traces
begin

section \<open>Production runs\<close>

text \<open>
  \<open>production.py\<close> with the policy of \<open>config.py\<close>: admission of a run under a rate limit, an idempotency
  key, a risk classification and the queue's capacity; reading; claiming a run that waited for its
  approval; cancelling. A run that is queued has a row in the dispatch outbox, which the workflow worker
  (\<open>WorkQueue\<close>) leases, and its organization's scheduler partition counts the open rows. The databases of
  \<open>config.py\<close> are the two dialects that \<open>_ensure_partition\<close> and \<open>_ensure_bucket\<close> know. A token bucket counts
  microtokens; the division of a deficit by a rate is exact here.
\<close>

subsection \<open>The policy\<close>

record token_bucket_policy =
  tb_actor_rate :: int
  tb_actor_burst :: int
  tb_organization_rate :: int
  tb_organization_burst :: int

record production_policy =
  pp_queue_total_capacity :: int
  pp_queue_organization_capacity :: int
  pp_queue_ttl_seconds :: nat
  pp_lease_ttl_seconds :: nat
  pp_heartbeat_seconds :: nat
  pp_drain_seconds :: nat
  pp_browser_slots :: int
  pp_maximum_lease_attempts :: int
  pp_retry_after_max_seconds :: int

definition default_policy :: production_policy where
  "default_policy = \<lparr>pp_queue_total_capacity = 64, pp_queue_organization_capacity = 32, pp_queue_ttl_seconds = 300,
     pp_lease_ttl_seconds = 30, pp_heartbeat_seconds = 10, pp_drain_seconds = 25, pp_browser_slots = 4,
     pp_maximum_lease_attempts = 3, pp_retry_after_max_seconds = 30\<rparr>"

fun bucket_policy :: "route_class \<Rightarrow> token_bucket_policy" where
  "bucket_policy RouteSubmit = \<lparr>tb_actor_rate = 5, tb_actor_burst = 10, tb_organization_rate = 50, tb_organization_burst = 100\<rparr>"
| "bucket_policy RouteRead = \<lparr>tb_actor_rate = 10, tb_actor_burst = 20, tb_organization_rate = 200, tb_organization_burst = 400\<rparr>"
| "bucket_policy RouteMutate = \<lparr>tb_actor_rate = 2, tb_actor_burst = 4, tb_organization_rate = 25, tb_organization_burst = 50\<rparr>"

definition MICROTOKEN :: int where "MICROTOKEN = 1000000"

definition seconds :: "nat \<Rightarrow> nat" where
  "seconds n = n * 1000000"

subsection \<open>Requests\<close>

record production_run_create =
  pc_task_id :: string
  pc_process :: production_process
  pc_category :: production_category
  pc_action_type :: string
  pc_parameters :: json_dict

definition production_run_create_ok :: "production_run_create \<Rightarrow> bool" where
  "production_run_create_ok p = (task_binding_ok (pc_process p) (pc_category p) (pc_task_id p) \<and>
     action_candidate_ok (pc_action_type p) \<and> bound_parameters (pc_parameters p))"

definition create_json :: "production_run_create \<Rightarrow> json" where
  "create_json p = JObj [
     (''schema_version'', JStr ''w12-production-run-create/1.0''),
     (''task_id'', JStr (pc_task_id p)),
     (''process'', JStr (production_process_name (pc_process p))),
     (''category'', JStr (production_category_name (pc_category p))),
     (''action_type'', JStr (pc_action_type p)),
     (''parameters'', JObj (pc_parameters p))]"

record production_run_claim =
  pl_action_type :: string
  pl_parameters :: json_dict

definition w12_payload :: "json_dict \<Rightarrow> json_dict" where
  "w12_payload extra = (''schema_version'', JStr ''w12-audit-payload/1.0'') # extra"

definition audit12 :: "env \<Rightarrow> actor_context \<Rightarrow> string \<Rightarrow> audit_event_type \<Rightarrow> string \<Rightarrow> json_dict \<Rightarrow> datetime \<Rightarrow> audit_event control" where
  "audit12 v actor org ty subject extra now = append_audit_event v org ty (a_authorization_hash actor) subject (w12_payload extra) now"

definition workflow_identity :: "(string \<Rightarrow> string) \<Rightarrow> string \<Rightarrow> string \<Rightarrow> string \<times> string" where
  "workflow_identity sha org run =
     (let h = stable_hash sha (JObj [
        (''schema_version'', JStr ''w12-workflow-identity/1.0''),
        (''organization_id'', JStr org),
        (''run_id'', JStr run)]) in (''w12-'' @ take 48 h, h))"

definition evaluate_production_risk :: "env \<Rightarrow> string \<Rightarrow> string \<Rightarrow> json_dict \<Rightarrow> risk_evaluation control" where
  "evaluate_production_risk v org action params =
     andthen (evaluated (evaluate_risk (v_sha v) action params False)) (\<lambda>validated.
     if \<not> re_known_action validated \<or> action \<noteq> ''create_account'' then ret validated
     else andthen (risk_facts org action (re_validated_parameters validated)) (\<lambda>facts.
          evaluated (evaluate_risk (v_sha v) action (re_validated_parameters validated) facts)))"

subsection \<open>Partitions\<close>

text \<open>\<open>INSERT ... ON CONFLICT (key) DO NOTHING\<close>; the statement checks the other constraints.\<close>

definition insert_new :: "('r \<Rightarrow> 'k) \<Rightarrow> 'r \<Rightarrow> 'r list \<Rightarrow> 'r list" where
  "insert_new key r rs = (if key r \<in> key ` set rs then rs else rs @ [r])"

definition ensure_scheduler_partitions :: "unit control" where
  "ensure_scheduler_partitions = andthen (query (\<lambda>t. length (partitions t))) (\<lambda>_. commit)"

definition new_partition :: "(string \<Rightarrow> string) \<Rightarrow> string \<Rightarrow> datetime \<Rightarrow> scheduler_partition" where
  "new_partition sha org now = \<lparr>pt_organization_id = org, pt_partition_id = ''prt_'' @ take 32 (stable_hash_str sha org),
     pt_ready_count = 0, pt_status = PartitionEmpty, pt_cursor_version = 1, pt_last_selected_at = None, pt_updated_at = now\<rparr>"

definition ensure_partition :: "env \<Rightarrow> string \<Rightarrow> datetime \<Rightarrow> scheduler_partition control" where
  "ensure_partition v org now =
     andthen (store (upd_partitions (insert_new pt_organization_id (new_partition (v_sha v) org now)))) (\<lambda>_.
     andthen flush (\<lambda>_.
     andthen (scalar partitions (\<lambda>p. pt_organization_id p = org)) (\<lambda>found.
     case found of None \<Rightarrow> raise (BackpressureExceeded 1) | Some p \<Rightarrow> ret p)))"

definition put_partition :: "scheduler_partition \<Rightarrow> unit control" where
  "put_partition p = store (upd_partitions (put_row pt_organization_id p))"

definition lock_capacity :: "env \<Rightarrow> string \<Rightarrow> production_policy \<Rightarrow> datetime \<Rightarrow> scheduler_partition control" where
  "lock_capacity v org policy now =
     andthen (ensure_partition v org now) (\<lambda>_.
     andthen (query (\<lambda>t. sort_key pt_partition_id (partitions t))) (\<lambda>ps.
     case find (\<lambda>p. pt_organization_id p = org) ps of
       None \<Rightarrow> raise (BackpressureExceeded 1)
     | Some p \<Rightarrow>
         if pp_queue_total_capacity policy \<le> sum_list (map pt_ready_count ps) \<or> pp_queue_organization_capacity policy \<le> pt_ready_count p
         then raise (BackpressureExceeded 1) else ret p))"

text \<open>What queueing and unqueueing write to the partition.\<close>

definition partition_queued :: "datetime \<Rightarrow> scheduler_partition \<Rightarrow> scheduler_partition" where
  "partition_queued now p = p\<lparr>pt_ready_count := pt_ready_count p + 1, pt_status := PartitionReady,
     pt_cursor_version := pt_cursor_version p + 1, pt_updated_at := now\<rparr>"

definition partition_unqueued :: "datetime \<Rightarrow> scheduler_partition \<Rightarrow> scheduler_partition" where
  "partition_unqueued now p = (let n = max 0 (pt_ready_count p - 1) in
     p\<lparr>pt_ready_count := n, pt_status := (if n \<noteq> 0 then PartitionReady else PartitionEmpty),
       pt_cursor_version := pt_cursor_version p + 1, pt_updated_at := now\<rparr>)"

subsection \<open>Rate limits\<close>

definition bucket_key :: "rate_limit_bucket \<Rightarrow> string \<times> string \<times> route_class" where
  "bucket_key b = (bk_organization_id b, bk_bucket_key_hash b, bk_route_class b)"

definition new_bucket :: "string \<Rightarrow> string \<Rightarrow> bucket_scope \<Rightarrow> route_class \<Rightarrow> int \<Rightarrow> datetime \<Rightarrow> rate_limit_bucket" where
  "new_bucket org h scope route burst now = \<lparr>bk_organization_id = org, bk_bucket_key_hash = h, bk_route_class = route,
     bk_scope_kind = scope, bk_tokens_micro = burst * MICROTOKEN, bk_last_refill_at = now, bk_status = BucketActive, bk_version = 1,
     bk_created_at = now, bk_updated_at = now\<rparr>"

definition ensure_bucket :: "string \<Rightarrow> string \<Rightarrow> bucket_scope \<Rightarrow> route_class \<Rightarrow> int \<Rightarrow> datetime \<Rightarrow> rate_limit_bucket control" where
  "ensure_bucket org h scope route burst now =
     andthen (store (upd_buckets (insert_new bucket_key (new_bucket org h scope route burst now)))) (\<lambda>_.
     andthen flush (\<lambda>_.
     andthen (scalar buckets (\<lambda>b. bk_organization_id b = org \<and> bk_bucket_key_hash b = h \<and> bk_route_class b = route \<and>
       bk_scope_kind b = scope \<and> bk_status b = BucketActive)) (\<lambda>found.
     case found of None \<Rightarrow> raise (BackpressureExceeded 1) | Some b \<Rightarrow> ret b)))"

text \<open>The elapsed microseconds are truncated at zero by the subtraction of \<open>nat\<close>.\<close>

definition refill :: "rate_limit_bucket \<Rightarrow> int \<Rightarrow> int \<Rightarrow> datetime \<Rightarrow> int" where
  "refill b rate burst now = min (burst * MICROTOKEN) (bk_tokens_micro b + int (now - bk_last_refill_at b) * rate)"

definition refilled :: "int \<Rightarrow> datetime \<Rightarrow> rate_limit_bucket \<Rightarrow> rate_limit_bucket" where
  "refilled tokens now b = b\<lparr>bk_tokens_micro := tokens, bk_last_refill_at := now, bk_version := bk_version b + 1, bk_updated_at := now\<rparr>"

definition put_bucket :: "rate_limit_bucket \<Rightarrow> unit control" where
  "put_bucket b = store (upd_buckets (put_row bucket_key b))"

text \<open>\<open>math.ceil\<close> of a quotient.\<close>

definition ceil_div :: "int \<Rightarrow> int \<Rightarrow> int" where
  "ceil_div a b = - ((- a) div b)"

definition retry_after :: "production_policy \<Rightarrow> token_bucket_policy \<Rightarrow> int \<Rightarrow> int \<Rightarrow> int" where
  "retry_after policy limits actor_deficit organization_deficit =
     min (pp_retry_after_max_seconds policy) (max 1 (max
       (ceil_div actor_deficit (tb_actor_rate limits * MICROTOKEN))
       (ceil_div organization_deficit (tb_organization_rate limits * MICROTOKEN))))"

definition consume_rate_limit :: "env \<Rightarrow> actor_context \<Rightarrow> route_class \<Rightarrow> production_policy \<Rightarrow> datetime \<Rightarrow> unit control" where
  "consume_rate_limit v actor route policy now =
     (let limits = bucket_policy route; org = a_organization_id actor in
      andthen (ensure_bucket org (stable_hash_str (v_sha v) (a_user_id actor)) ScopeActor route (tb_actor_burst limits) now) (\<lambda>ab.
      andthen (ensure_bucket org (stable_hash_str (v_sha v) org) ScopeOrganization route (tb_organization_burst limits) now) (\<lambda>ob.
      let a_tokens = refill ab (tb_actor_rate limits) (tb_actor_burst limits) now;
          o_tokens = refill ob (tb_organization_rate limits) (tb_organization_burst limits) now;
          a_deficit = max 0 (MICROTOKEN - a_tokens);
          o_deficit = max 0 (MICROTOKEN - o_tokens);
          ab' = refilled a_tokens now ab;
          ob' = refilled o_tokens now ob in
      andthen (put_bucket ab') (\<lambda>_.
      andthen (put_bucket ob') (\<lambda>_.
      if a_deficit \<noteq> 0 \<or> o_deficit \<noteq> 0 then raise (RateLimitExceeded (retry_after policy limits a_deficit o_deficit))
      else andthen (put_bucket (ab'\<lparr>bk_tokens_micro := a_tokens - MICROTOKEN\<rparr>)) (\<lambda>_.
           put_bucket (ob'\<lparr>bk_tokens_micro := o_tokens - MICROTOKEN\<rparr>)))))))"

definition consume_rate_limit_or_audit :: "env \<Rightarrow> actor_context \<Rightarrow> route_class \<Rightarrow> production_policy \<Rightarrow> string \<Rightarrow> datetime \<Rightarrow> unit control" where
  "consume_rate_limit_or_audit v actor route policy subject now = (\<lambda>s.
     case consume_rate_limit v actor route policy now s of
       (Inl (RateLimitExceeded n), s') \<Rightarrow>
         andthen (audit12 v actor (a_organization_id actor) EvRateLimited subject
           [(''reason'', JStr ''rate_limited''), (''http_status'', JInt 429), (''retry_after'', JInt n)] now) (\<lambda>_.
         andthen commit (\<lambda>_. raise (RateLimitExceeded n))) s'
     | r \<Rightarrow> r)"

subsection \<open>Admission\<close>

definition new_outbox :: "env \<Rightarrow> string \<Rightarrow> string \<Rightarrow> datetime \<Rightarrow> production_policy \<Rightarrow> dispatch_outbox control" where
  "new_outbox v org run now policy = andthen (opaque_id v ''out'') (\<lambda>i.
     ret \<lparr>ob_outbox_id = i, ob_organization_id = org, ob_run_id = run, ob_status = OutboxReady, ob_attempt_count = 0,
       ob_fencing_token = 0, ob_lease_owner_hash = None, ob_lease_version = 0, ob_leased_at = None, ob_lease_expires_at = None,
       ob_heartbeat_at = None, ob_available_at = now, ob_expires_at = now + seconds (pp_queue_ttl_seconds policy),
       ob_created_at = now, ob_updated_at = now\<rparr>)"

definition existing_idempotent_run :: "actor_context \<Rightarrow> string \<Rightarrow> string \<Rightarrow> production_run option control" where
  "existing_idempotent_run actor key_hash body_hash =
     andthen (scalar idempotency (\<lambda>i. ir_organization_id i = a_organization_id actor \<and> ir_actor_user_id i = a_user_id actor \<and>
       ir_key_hash i = key_hash)) (\<lambda>found.
     case found of None \<Rightarrow> ret None
     | Some i \<Rightarrow>
         andthen (require (ir_body_hash i = body_hash) IdempotencyConflict) (\<lambda>_.
         andthen (find_run (a_organization_id actor) (ir_run_id i)) (\<lambda>run.
         andthen (require (run \<noteq> None) ProductionStateConflict) (\<lambda>_. ret run))))"

text \<open>The two endings of an admission that does not reach the queue.\<close>

definition deny_admission :: "env \<Rightarrow> actor_context \<Rightarrow> string \<Rightarrow> production_run_create \<Rightarrow> risk_evaluation \<Rightarrow> datetime \<Rightarrow> 'a control" where
  "deny_admission v actor org p e now =
     andthen (audit12 v actor org EvAdmissionRejected (pc_action_type p)
       [(''action_type'', JStr (pc_action_type p)), (''risk_level'', JStr (risk_level_name L4)),
        (''parameter_hash'', JStr (re_parameter_hash e)), (''reason'', JStr ''risk_denied''), (''http_status'', JInt 403)] now) (\<lambda>_.
     andthen commit (\<lambda>_. raise RiskDenied))"

definition reject_backpressure :: "env \<Rightarrow> actor_context \<Rightarrow> string \<Rightarrow> production_run_create \<Rightarrow> risk_evaluation \<Rightarrow> int \<Rightarrow> datetime \<Rightarrow> 'a control" where
  "reject_backpressure v actor org p e n now =
     andthen (audit v actor org EvRiskClassified (pc_action_type p) (risk_fields (pc_action_type p) e) now) (\<lambda>_.
     andthen (audit12 v actor org EvBackpressureRejected (pc_action_type p)
       [(''reason'', JStr ''backpressure''), (''http_status'', JInt 503), (''retry_after'', JInt n)] now) (\<lambda>_.
     andthen commit (\<lambda>_. raise (BackpressureExceeded n))))"

definition lock_capacity_or_reject :: "env \<Rightarrow> actor_context \<Rightarrow> string \<Rightarrow> production_run_create \<Rightarrow> risk_evaluation \<Rightarrow> production_policy
    \<Rightarrow> datetime \<Rightarrow> scheduler_partition control" where
  "lock_capacity_or_reject v actor org p e policy now = (\<lambda>s. case lock_capacity v org policy now s of
       (Inl (BackpressureExceeded n), s') \<Rightarrow> reject_backpressure v actor org p e n now s' | r \<Rightarrow> r)"

definition admission_request :: "env \<Rightarrow> actor_context \<Rightarrow> string \<Rightarrow> production_run_create \<Rightarrow> risk_evaluation \<Rightarrow> datetime \<Rightarrow> string control" where
  "admission_request v actor org p e now =
     andthen (opaque_id v ''apr'') (\<lambda>i.
     andthen (audit v actor org EvApprovalRequested i
       (risk_fields (pc_action_type p) e @ [(''request_id'', JStr i),
         (''request_status'', JStr (request_status_name RequestPending)), (''version'', JInt 1)]) now) (\<lambda>requested.
     andthen (store (upd_requests (\<lambda>rs. rs @ [\<lparr>rq_request_id = i, rq_organization_id = org, rq_task_id = pc_task_id p,
          rq_step_id = ''production_run'', rq_action_type = pc_action_type p, rq_parameter_hash = re_parameter_hash e,
          rq_risk_level = re_risk_level e, rq_requester_user_id = a_user_id actor, rq_executor_user_id = a_user_id actor,
          rq_required_roles = re_required_roles e, rq_status = RequestPending, rq_version = 1, rq_expires_at = now + REQUEST_TTL,
          rq_closed_reason = None, rq_audit_sequence = ev_sequence requested, rq_created_at = now, rq_updated_at = now\<rparr>]))) (\<lambda>_.
     ret i)))"

definition payload_reference :: "(string \<Rightarrow> string) \<Rightarrow> production_run_create \<Rightarrow> string" where
  "payload_reference sha p = ''taskref_'' @ take 32 (stable_hash_str sha (pc_task_id p))"

definition payload_hash :: "(string \<Rightarrow> string) \<Rightarrow> production_run_create \<Rightarrow> string" where
  "payload_hash sha p = stable_hash sha (JObj [
     (''schema_version'', JStr ''w12-trusted-task-reference/1.0''),
     (''task_id'', JStr (pc_task_id p)),
     (''process'', JStr (production_process_name (pc_process p))),
     (''category'', JStr (production_category_name (pc_category p)))])"

definition new_run :: "(string \<Rightarrow> string) \<Rightarrow> actor_context \<Rightarrow> string \<Rightarrow> production_run_create \<Rightarrow> risk_evaluation \<Rightarrow> string \<Rightarrow> string option
    \<Rightarrow> production_run_status \<Rightarrow> string \<Rightarrow> string \<Rightarrow> int \<Rightarrow> datetime \<Rightarrow> production_run" where
  "new_run sha actor org p e run request status key_hash body_hash n now = \<lparr>pr_run_id = run, pr_organization_id = org,
     pr_requester_user_id = a_user_id actor, pr_executor_user_id = a_user_id actor, pr_task_id = pc_task_id p,
     pr_run_process = pc_process p, pr_run_category = pc_category p, pr_approval_request_id = request, pr_grant_id = None,
     pr_execution_id = None, pr_action_type = pc_action_type p, pr_parameter_hash = re_parameter_hash e,
     pr_authorization_hash = a_authorization_hash actor, pr_approval_set_hash = None, pr_payload_reference = payload_reference sha p,
     pr_payload_hash = payload_hash sha p, pr_status = status, pr_version = 1, pr_idempotency_hash = key_hash,
     pr_body_hash = body_hash, pr_workflow_id = fst (workflow_identity sha org run),
     pr_workflow_hash = snd (workflow_identity sha org run), pr_lease_owner_hash = None, pr_fencing_token = 0,
     pr_lease_expires_at = None, pr_accepted_at = now, pr_queued_at = (if status = RunQueued then Some now else None),
     pr_started_at = None, pr_finished_at = None, pr_terminal_reason = None, pr_receipt_reference = None, pr_audit_sequence = n,
     pr_created_at = now, pr_updated_at = now\<rparr>"

definition outbox_attributes :: "production_run \<Rightarrow> dispatch_outbox \<Rightarrow> int \<Rightarrow> json_dict" where
  "outbox_attributes r b n = [(''run_status'', JStr (run_status_name (pr_status r))), (''outbox_id'', JStr (ob_outbox_id b)),
     (''outbox_status'', JStr (outbox_status_name (ob_status b))), (''fencing_token'', JInt (ob_fencing_token b)),
     (''lease_version'', JInt (ob_lease_version b)), (''audit_sequence'', JInt n), (''version'', JInt (pr_version r)),
     (''sensitive_fields_present'', JBool False)]"

definition trace_admission :: "env \<Rightarrow> actor_context \<Rightarrow> production_run \<Rightarrow> datetime \<Rightarrow> observability_event control" where
  "trace_admission v actor r now =
     (let waiting = (pr_status r = RunWaitingApproval) in
      append_observability_event v (pr_organization_id r) (pr_run_id r) ''admission'' (if waiting then ''waiting'' else ''queued'')
        (if waiting then ''admitted_waiting_approval'' else ''admitted_queued'') ''none''
        (Some [(''run_status'', JStr (run_status_name (pr_status r))), (''approval_request_id'', json_opt (pr_approval_request_id r)),
          (''authorization_hash'', JStr (a_authorization_hash actor)), (''workflow_hash'', JStr (pr_workflow_hash r)),
          (''audit_sequence'', JInt (pr_audit_sequence r)), (''version'', JInt 1), (''sensitive_fields_present'', JBool False)]) now)"

definition trace_outbox :: "env \<Rightarrow> production_run \<Rightarrow> dispatch_outbox \<Rightarrow> datetime \<Rightarrow> observability_event control" where
  "trace_outbox v r b now = append_observability_event v (pr_organization_id r) (pr_run_id r) ''outbox'' ''queued'' ''outbox_ready'' ''none''
     (Some (outbox_attributes r b (pr_audit_sequence r))) now"

text \<open>The outbox row of a queued run, and its partition.\<close>

definition enqueue :: "env \<Rightarrow> string \<Rightarrow> string \<Rightarrow> scheduler_partition \<Rightarrow> production_policy \<Rightarrow> datetime \<Rightarrow> dispatch_outbox control" where
  "enqueue v org run p policy now =
     andthen (new_outbox v org run now policy) (\<lambda>b.
     andthen (store (upd_outbox (\<lambda>bs. bs @ [b]))) (\<lambda>_.
     andthen (put_partition (partition_queued now p)) (\<lambda>_. ret b)))"

text \<open>\<open>try: session.commit() except IntegrityError: ...\<close>, which looks for the run that won.\<close>

definition commit_or_winner :: "actor_context \<Rightarrow> string \<Rightarrow> string \<Rightarrow> production_run \<Rightarrow> production_run control" where
  "commit_or_winner actor key_hash body_hash run = (\<lambda>s. case commit s of
       (Inr u, s') \<Rightarrow> (Inr run, s')
     | (Inl e, s') \<Rightarrow> andthen rollback (\<lambda>_. andthen (existing_idempotent_run actor key_hash body_hash) (\<lambda>winner.
         case winner of None \<Rightarrow> raise IdempotencyConflict | Some r \<Rightarrow> ret r)) s')"

text \<open>The rows of an admitted run; the partition is that of a queued run.\<close>

definition record_run :: "env \<Rightarrow> actor_context \<Rightarrow> string \<Rightarrow> production_run_create \<Rightarrow> risk_evaluation \<Rightarrow> string \<Rightarrow> string \<Rightarrow> string
    \<Rightarrow> string option \<Rightarrow> scheduler_partition option \<Rightarrow> production_policy \<Rightarrow> datetime \<Rightarrow> production_run control" where
  "record_run v actor org p e key_hash body_hash run request slot policy now =
     (let status = (if request = None then RunQueued else RunWaitingApproval) in
      andthen (audit12 v actor org (if status = RunWaitingApproval then EvRunWaitingApproval else EvRunQueued) run
        [(''run_id'', JStr run), (''request_id'', json_opt request), (''run_status'', JStr (run_status_name status)),
         (''action_type'', JStr (pc_action_type p)), (''parameter_hash'', JStr (re_parameter_hash e)), (''version'', JInt 1)] now) (\<lambda>accepted.
      let r = new_run (v_sha v) actor org p e run request status key_hash body_hash (ev_sequence accepted) now in
      andthen (store (upd_runs (\<lambda>rs. rs @ [r]))) (\<lambda>_.
      andthen flush (\<lambda>_.
      andthen (opaque_id v ''idm'') (\<lambda>i.
      andthen (store (upd_idempotency (\<lambda>rs. rs @ [\<lparr>ir_idempotency_id = i, ir_organization_id = org, ir_actor_user_id = a_user_id actor,
        ir_key_hash = key_hash, ir_body_hash = body_hash, ir_run_id = run, ir_created_at = now\<rparr>]))) (\<lambda>_.
      andthen (case slot of None \<Rightarrow> ret None | Some q \<Rightarrow> andthen (enqueue v org run q policy now) (\<lambda>b. ret (Some b))) (\<lambda>outbox.
      andthen flush (\<lambda>_.
      andthen (trace_admission v actor r now) (\<lambda>_.
      andthen (case outbox of None \<Rightarrow> ret () | Some b \<Rightarrow> andthen (trace_outbox v r b now) (\<lambda>_. ret ())) (\<lambda>_.
      commit_or_winner actor key_hash body_hash r))))))))))"

definition admit_production_run :: "env \<Rightarrow> actor_context \<Rightarrow> string \<Rightarrow> string \<Rightarrow> production_run_create \<Rightarrow> production_policy \<Rightarrow> datetime
    \<Rightarrow> production_run control" where
  "admit_production_run v actor org key p policy now =
     andthen (require_actor_organization actor org) (\<lambda>_.
     let key_hash = stable_hash_str (v_sha v) key; body_hash = stable_hash (v_sha v) (create_json p) in
     andthen (existing_idempotent_run actor key_hash body_hash) (\<lambda>existing.
     case existing of Some r \<Rightarrow> ret r
     | None \<Rightarrow>
       andthen (evaluate_production_risk v org (pc_action_type p) (pc_parameters p)) (\<lambda>e.
       if re_risk_level e = L4 then deny_admission v actor org p e now
       else
         andthen (consume_rate_limit_or_audit v actor RouteSubmit policy (pc_action_type p) now) (\<lambda>_.
         let waiting = (re_risk_level e \<in> {L2, L3}) in
         andthen (if waiting then ret None
           else andthen (lock_capacity_or_reject v actor org p e policy now) (\<lambda>q. ret (Some q))) (\<lambda>slot.
         andthen (audit v actor org EvRiskClassified (pc_action_type p) (risk_fields (pc_action_type p) e) now) (\<lambda>_.
         andthen (opaque_id v ''run'') (\<lambda>run.
         andthen (if waiting then andthen (admission_request v actor org p e now) (\<lambda>i. ret (Some i)) else ret None) (\<lambda>request.
         record_run v actor org p e key_hash body_hash run request slot policy now))))))))"

subsection \<open>Reading\<close>

definition get_production_run :: "env \<Rightarrow> actor_context \<Rightarrow> string \<Rightarrow> string \<Rightarrow> production_policy \<Rightarrow> datetime \<Rightarrow> bool \<Rightarrow> production_run control" where
  "get_production_run v actor org run policy now charge_rate =
     andthen (require_actor_organization actor org) (\<lambda>_.
     andthen (if charge_rate then consume_rate_limit_or_audit v actor RouteRead policy run now else ret ()) (\<lambda>_.
     andthen (find_run org run) (\<lambda>found.
     case found of
       None \<Rightarrow> andthen (if charge_rate then commit else rollback) (\<lambda>_. raise ResourceNotFound)
     | Some r \<Rightarrow> andthen (if charge_rate then commit else ret ()) (\<lambda>_. ret r))))"

definition list_production_runs :: "env \<Rightarrow> actor_context \<Rightarrow> string \<Rightarrow> production_policy \<Rightarrow> datetime \<Rightarrow> production_run list control" where
  "list_production_runs v actor org policy now =
     andthen (require_actor_organization actor org) (\<lambda>_.
     andthen (consume_rate_limit_or_audit v actor RouteRead policy org now) (\<lambda>_.
     andthen (query (\<lambda>t. take 100 (sort_key (\<lambda>r. (pr_accepted_at r, pr_run_id r)) (filter (\<lambda>r. pr_organization_id r = org) (runs t))))) (\<lambda>rs.
     andthen commit (\<lambda>_. ret rs))))"

subsection \<open>Claiming a run that waited for its approval\<close>

definition put_run :: "production_run \<Rightarrow> unit control" where
  "put_run r = store (upd_runs (put_row pr_run_id r))"

definition run_claimed :: "datetime \<Rightarrow> approval_grant \<Rightarrow> execution_claim_read \<Rightarrow> production_run \<Rightarrow> production_run" where
  "run_claimed now g claim r = r\<lparr>pr_grant_id := Some (gr_grant_id g), pr_execution_id := Some (cl_execution_id claim),
     pr_authorization_hash := cl_authorization_hash claim, pr_approval_set_hash := Some (gr_approval_set_hash g),
     pr_status := RunQueued, pr_version := pr_version r + 1, pr_queued_at := Some now, pr_updated_at := now\<rparr>"

definition trace_handoff :: "env \<Rightarrow> production_run \<Rightarrow> approval_request \<Rightarrow> approval_grant \<Rightarrow> execution_claim_read \<Rightarrow> datetime
    \<Rightarrow> observability_event control" where
  "trace_handoff v r q g claim now =
     append_observability_event v (pr_organization_id r) (pr_run_id r) ''approval'' ''queued'' ''approval_handoff'' ''none''
       (Some [(''run_status'', JStr (run_status_name RunQueued)), (''approval_request_id'', JStr (rq_request_id q)),
         (''grant_id'', JStr (gr_grant_id g)), (''execution_id'', JStr (cl_execution_id claim)),
         (''authorization_hash'', JStr (cl_authorization_hash claim)), (''approval_set_hash'', JStr (gr_approval_set_hash g)),
         (''audit_sequence'', JInt (pr_audit_sequence r)), (''version'', JInt (pr_version r)),
         (''sensitive_fields_present'', JBool False)]) now"

text \<open>\<open>on_claim\<close>, with the locked partition of the enclosing call.\<close>

definition queue_claimed_run :: "env \<Rightarrow> actor_context \<Rightarrow> string \<Rightarrow> string \<Rightarrow> scheduler_partition \<Rightarrow> production_policy \<Rightarrow> datetime \<Rightarrow> claim_hook" where
  "queue_claimed_run v actor org run slot policy now q g claim =
     andthen (scalar runs (\<lambda>r. pr_organization_id r = org \<and> pr_run_id r = run \<and> pr_status r = RunWaitingApproval \<and>
       pr_approval_request_id r = Some (rq_request_id q) \<and> pr_parameter_hash r = rq_parameter_hash q \<and>
       pr_action_type r = rq_action_type q)) (\<lambda>found.
     case found of None \<Rightarrow> raise ProductionStateConflict
     | Some r0 \<Rightarrow>
       (let r = run_claimed now g claim r0 in
        andthen (put_run r) (\<lambda>_.
        andthen (enqueue v org run slot policy now) (\<lambda>b.
        andthen (audit12 v actor org EvRunQueued run
          [(''run_id'', JStr run), (''request_id'', JStr (rq_request_id q)), (''grant_id'', JStr (gr_grant_id g)),
           (''execution_id'', JStr (cl_execution_id claim)), (''run_status'', JStr (run_status_name RunQueued)),
           (''parameter_hash'', JStr (rq_parameter_hash q)), (''version'', JInt (pr_version r))] now) (\<lambda>queued.
        let r' = r\<lparr>pr_audit_sequence := ev_sequence queued\<rparr> in
        andthen (put_run r') (\<lambda>_.
        andthen flush (\<lambda>_.
        andthen (trace_handoff v r' q g claim now) (\<lambda>_.
        andthen (trace_outbox v r' b now) (\<lambda>_. ret ())))))))))"

definition claim_backpressure :: "env \<Rightarrow> actor_context \<Rightarrow> string \<Rightarrow> string \<Rightarrow> production_policy \<Rightarrow> datetime \<Rightarrow> scheduler_partition control" where
  "claim_backpressure v actor org run policy now = (\<lambda>s. case lock_capacity v org policy now s of
       (Inl (BackpressureExceeded n), s') \<Rightarrow>
         andthen (audit12 v actor org EvBackpressureRejected run
           [(''run_id'', JStr run), (''reason'', JStr ''backpressure''), (''http_status'', JInt 503), (''retry_after'', JInt n)] now) (\<lambda>_.
         andthen commit (\<lambda>_. raise (BackpressureExceeded n))) s'
     | r \<Rightarrow> r)"

definition claim_production_run :: "env \<Rightarrow> actor_context \<Rightarrow> string \<Rightarrow> string \<Rightarrow> int \<Rightarrow> production_run_claim \<Rightarrow> production_policy \<Rightarrow> datetime
    \<Rightarrow> production_run control" where
  "claim_production_run v actor org run expected p policy now =
     andthen (require_actor_organization actor org) (\<lambda>_.
     andthen (consume_rate_limit_or_audit v actor RouteMutate policy run now) (\<lambda>_.
     andthen (scalar runs (\<lambda>r. pr_organization_id r = org \<and> pr_run_id r = run \<and> pr_status r = RunWaitingApproval)) (\<lambda>found.
     case found of None \<Rightarrow> raise ProductionStateConflict
     | Some r \<Rightarrow>
       (case pr_approval_request_id r of None \<Rightarrow> raise ProductionStateConflict
        | Some request \<Rightarrow>
          if pr_version r \<noteq> expected then rollback_raise PreconditionFailed
          else
            andthen (claim_backpressure v actor org run policy now) (\<lambda>slot.
            andthen (claim_grant v actor org request
              \<lparr>gc_task_id = pr_task_id r, gc_step_id = ''production_run'', gc_action_type = pl_action_type p,
               gc_parameters = pl_parameters p\<rparr> now (Some (queue_claimed_run v actor org run slot policy now))) (\<lambda>_.
            andthen (find_run org run) (\<lambda>refreshed.
            case refreshed of None \<Rightarrow> raise ProductionStateConflict | Some r' \<Rightarrow> ret r')))))))"

subsection \<open>Cancelling\<close>

definition open_outbox :: "dispatch_outbox \<Rightarrow> bool" where
  "open_outbox b = (ob_status b \<in> {OutboxReady, OutboxLeased, OutboxDispatched})"

text \<open>The open row of the run leaves the queue.\<close>

definition unqueue :: "dispatch_outbox option \<Rightarrow> scheduler_partition option \<Rightarrow> datetime \<Rightarrow> unit control" where
  "unqueue row slot now = (case (row, slot) of
       (Some b, Some p) \<Rightarrow>
         andthen (store (upd_outbox (put_row ob_outbox_id (b\<lparr>ob_status := OutboxCancelled, ob_updated_at := now\<rparr>)))) (\<lambda>_.
         put_partition (partition_unqueued now p))
     | _ \<Rightarrow> rollback_raise ProductionStateConflict)"

definition cancel_request :: "env \<Rightarrow> actor_context \<Rightarrow> string \<Rightarrow> string \<Rightarrow> datetime \<Rightarrow> unit control" where
  "cancel_request v actor org request now =
     andthen (find_request org request) (\<lambda>found.
     case found of None \<Rightarrow> ret ()
     | Some q0 \<Rightarrow>
       if rq_status q0 \<notin> {RequestPending, RequestApproved, RequestClaimed} then ret ()
       else (let q = q0\<lparr>rq_status := RequestCancelled, rq_closed_reason := Some RequesterCancelled, rq_version := rq_version q0 + 1,
              rq_updated_at := now\<rparr> in
         andthen (put_request q) (\<lambda>_.
         andthen (audit v actor org EvRequestCancelled (rq_request_id q)
           [(''request_id'', JStr (rq_request_id q)), (''request_status'', JStr (request_status_name (rq_status q))),
            (''reason'', JStr ''requester_cancelled''), (''version'', JInt (rq_version q))] now) (\<lambda>e.
         put_request (q\<lparr>rq_audit_sequence := ev_sequence e\<rparr>)))))"

text \<open>The grant that is given up: its identifier, for the vault.\<close>

definition cancel_grant :: "env \<Rightarrow> actor_context \<Rightarrow> string \<Rightarrow> string \<Rightarrow> datetime \<Rightarrow> string option control" where
  "cancel_grant v actor org request now =
     andthen (find_grant org request) (\<lambda>found.
     case found of None \<Rightarrow> ret None
     | Some g0 \<Rightarrow>
       if gr_status g0 \<notin> {GrantIssued, GrantClaimed} then ret None
       else (let was_claimed = (gr_status g0 = GrantClaimed);
                 g = g0\<lparr>gr_status := (if was_claimed then GrantFailed else GrantRevoked), gr_version := gr_version g0 + 1, gr_updated_at := now\<rparr> in
         andthen (put_grant g) (\<lambda>_.
         andthen (if was_claimed
           then andthen (audit v actor org EvExecutionFailed
             (case gr_execution_id g of None \<Rightarrow> gr_grant_id g | Some [] \<Rightarrow> gr_grant_id g | Some x \<Rightarrow> x)
             [(''request_id'', JStr request), (''grant_id'', JStr (gr_grant_id g)), (''grant_status'', JStr (grant_status_name (gr_status g))),
              (''execution_id'', json_opt (gr_execution_id g)), (''reason'', JStr ''requester_cancelled'')] now) (\<lambda>_. ret ())
           else ret ()) (\<lambda>_.
         ret (Some (gr_grant_id g))))))"

definition run_cancelled :: "datetime \<Rightarrow> production_run \<Rightarrow> production_run" where
  "run_cancelled now r = r\<lparr>pr_status := RunCancelled, pr_version := pr_version r + 1, pr_finished_at := Some now,
     pr_terminal_reason := Some CancelledByActor, pr_updated_at := now\<rparr>"

text \<open>What a cancellation writes once the run, its outbox row and its partition are locked: the approval, the run
  and what is recorded about it, after the row has left the queue.\<close>

definition finish_cancel :: "env \<Rightarrow> actor_context \<Rightarrow> string \<Rightarrow> production_run \<Rightarrow> dispatch_outbox option \<Rightarrow> datetime \<Rightarrow> production_run control" where
  "finish_cancel v actor org r0 row now =
     andthen (case pr_approval_request_id r0 of None \<Rightarrow> ret None
       | Some request \<Rightarrow> andthen (cancel_request v actor org request now) (\<lambda>_. cancel_grant v actor org request now)) (\<lambda>grant.
     let r = run_cancelled now r0 in
     andthen (put_run r) (\<lambda>_.
     andthen (audit12 v actor org EvRunCancelled (pr_run_id r)
       [(''run_id'', JStr (pr_run_id r)), (''run_status'', JStr (run_status_name RunCancelled)),
        (''reason'', JStr (terminal_reason_name CancelledByActor)), (''version'', JInt (pr_version r))] now) (\<lambda>e.
     let r' = r\<lparr>pr_audit_sequence := ev_sequence e\<rparr> in
     andthen (put_run r') (\<lambda>_.
     andthen flush (\<lambda>_.
     andthen (append_observability_event v org (pr_run_id r) ''terminal'' ''cancelled'' ''run_cancelled'' ''none''
       (Some [(''run_status'', JStr (run_status_name RunCancelled)), (''approval_request_id'', json_opt (pr_approval_request_id r)),
         (''grant_id'', json_opt (pr_grant_id r)), (''execution_id'', json_opt (pr_execution_id r)),
         (''outbox_status'', (case row of None \<Rightarrow> JNull | Some b \<Rightarrow> JStr (outbox_status_name OutboxCancelled))),
         (''audit_sequence'', JInt (ev_sequence e)), (''version'', JInt (pr_version r)), (''sensitive_fields_present'', JBool False)]) now) (\<lambda>_.
     andthen commit (\<lambda>_.
     andthen (case grant of None \<Rightarrow> ret () | Some i \<Rightarrow> vault_discard i) (\<lambda>_. ret r'))))))))"

definition record_cancel :: "env \<Rightarrow> actor_context \<Rightarrow> string \<Rightarrow> production_run \<Rightarrow> dispatch_outbox option \<Rightarrow> scheduler_partition option
    \<Rightarrow> datetime \<Rightarrow> production_run control" where
  "record_cancel v actor org r0 row slot now =
     andthen (if pr_status r0 \<in> {RunQueued, RunLeased} then unqueue row slot now else ret ()) (\<lambda>_. finish_cancel v actor org r0 row now)"

definition cancel_production_run :: "env \<Rightarrow> actor_context \<Rightarrow> string \<Rightarrow> string \<Rightarrow> int \<Rightarrow> production_policy \<Rightarrow> datetime \<Rightarrow> production_run control" where
  "cancel_production_run v actor org run expected policy now =
     andthen (require_actor_organization actor org) (\<lambda>_.
     andthen (consume_rate_limit_or_audit v actor RouteMutate policy run now) (\<lambda>_.
     andthen (find_run org run) (\<lambda>found.
     case found of None \<Rightarrow> rollback_raise ResourceNotFound
     | Some current_run \<Rightarrow>
       if pr_version current_run \<noteq> expected then rollback_raise PreconditionFailed
       else if pr_status current_run \<notin> {RunWaitingApproval, RunQueued, RunLeased} then rollback_raise ProductionStateConflict
       else
         andthen (if pr_status current_run = RunWaitingApproval
           then andthen (scalar runs (\<lambda>r. pr_organization_id r = org \<and> pr_run_id r = run \<and> pr_version r = expected \<and>
             pr_status r = RunWaitingApproval)) (\<lambda>r. ret (None, None, r))
           else andthen (ensure_partition v org now) (\<lambda>slot.
             andthen (scalar outbox (\<lambda>b. ob_organization_id b = org \<and> ob_run_id b = run \<and> open_outbox b)) (\<lambda>b.
             andthen (scalar runs (\<lambda>r. pr_organization_id r = org \<and> pr_run_id r = run \<and> pr_version r = expected \<and>
               pr_status r \<in> {RunQueued, RunLeased})) (\<lambda>r. ret (b, Some slot, r))))) (\<lambda>(b, slot, locked).
         case locked of None \<Rightarrow> rollback_raise PreconditionFailed
         | Some r \<Rightarrow> record_cancel v actor org r b slot now))))"

end
