(* ===== verification/WorkQueue.thy ===== *)
theory WorkQueue
  imports Repository Production
begin

section \<open>The worker's queue\<close>

text \<open>
  \<open>workflow_worker/repository.py\<close>: how a workflow worker takes a run from the dispatch outbox, keeps its
  lease, rechecks the authorization the run was admitted with, and finishes, fails or gives back the run.
  Each claim raises the fencing token of the outbox row and of the run; what a worker does later names the
  token it holds. The worker is another process with its own statements on the tables of the control
  plane: a statement is checked when it is executed, a method is a transaction that is rolled back when
  it raises.
\<close>

subsection \<open>Statements\<close>

definition execute :: "(tables \<Rightarrow> tables) \<Rightarrow> unit control" where
  "execute f = andthen (store f) (\<lambda>_. flush)"

text \<open>An update with its \<open>rowcount\<close>.\<close>

definition update_count :: "(tables \<Rightarrow> 'r list) \<Rightarrow> (('r list \<Rightarrow> 'r list) \<Rightarrow> tables \<Rightarrow> tables) \<Rightarrow> ('r \<Rightarrow> bool) \<Rightarrow> ('r \<Rightarrow> 'r) \<Rightarrow> nat control" where
  "update_count tbl upd P f =
     andthen (query (\<lambda>t. length (filter P (tbl t)))) (\<lambda>n. andthen (execute (upd (update_rows P f))) (\<lambda>_. ret n))"

definition select_one :: "(tables \<Rightarrow> 'r list) \<Rightarrow> ('r \<Rightarrow> bool) \<Rightarrow> 'r option control" where
  "select_one tbl P = andthen (query (\<lambda>t. filter P (tbl t))) one_or_none"

text \<open>\<open>with engine.begin()\<close> and \<open>with engine.connect()\<close>\<close>

definition transaction :: "'a control \<Rightarrow> 'a control" where
  "transaction m = in_session (andthen m (\<lambda>x. andthen commit (\<lambda>_. ret x)))"

subsection \<open>Schemas and settings\<close>

record worker_settings =
  ws_worker_instance_id :: string
  ws_slots :: nat
  ws_lease_ttl_seconds :: nat
  ws_heartbeat_seconds :: nat
  ws_drain_seconds :: nat
  ws_maximum_attempts :: int
  ws_poll_milliseconds :: nat

definition default_settings :: worker_settings where
  "default_settings = \<lparr>ws_worker_instance_id = ''worker_w12_compose_0001'', ws_slots = 4, ws_lease_ttl_seconds = 30,
     ws_heartbeat_seconds = 10, ws_drain_seconds = 25, ws_maximum_attempts = 3, ws_poll_milliseconds = 250\<rparr>"

definition owner_hash :: "env \<Rightarrow> worker_settings \<Rightarrow> string" where
  "owner_hash v w = stable_hash_str (v_sha v) (ws_worker_instance_id w)"

record work_item =
  wi_organization_id :: string
  wi_outbox_id :: string
  wi_run_id :: string
  wi_executor_user_id :: string
  wi_task_id :: string
  wi_run_process :: production_process
  wi_run_category :: production_category
  wi_action_type :: string
  wi_parameter_hash :: string
  wi_authorization_hash :: string
  wi_approval_request_id :: "string option"
  wi_grant_id :: "string option"
  wi_execution_id :: "string option"
  wi_approval_set_hash :: "string option"
  wi_payload_reference :: string
  wi_payload_hash :: string
  wi_workflow_id :: string
  wi_workflow_hash :: string
  wi_worker_owner_hash :: string
  wi_fencing_token :: int
  wi_lease_version :: int
  wi_attempt_count :: int
  wi_leased_at :: datetime
  wi_lease_expires_at :: datetime

definition work_item_ok :: "work_item \<Rightarrow> bool" where
  "work_item_ok i = (task_reference_ok (wi_organization_id i) \<and> task_reference_ok (wi_outbox_id i) \<and> task_reference_ok (wi_run_id i) \<and>
     task_reference_ok (wi_executor_user_id i) \<and> wi_task_id i \<in> set (JOINER_TASKS @ MOVER_TASKS @ LEAVER_TASKS) \<and>
     action_candidate_ok (wi_action_type i) \<and> sha256_ok (wi_parameter_hash i) \<and> sha256_ok (wi_authorization_hash i) \<and>
     optional_ok task_reference_ok (wi_approval_request_id i) \<and> optional_ok task_reference_ok (wi_grant_id i) \<and>
     optional_ok task_reference_ok (wi_execution_id i) \<and> optional_ok sha256_ok (wi_approval_set_hash i) \<and>
     task_reference_ok (wi_payload_reference i) \<and> sha256_ok (wi_payload_hash i) \<and> task_reference_ok (wi_workflow_id i) \<and>
     sha256_ok (wi_workflow_hash i) \<and> sha256_ok (wi_worker_owner_hash i) \<and> 1 \<le> wi_fencing_token i \<and> 1 \<le> wi_lease_version i \<and>
     1 \<le> wi_attempt_count i \<and> wi_attempt_count i \<le> 3)"

record workflow_result =
  wr_workflow_id :: string
  wr_run_id :: string
  wr_task_id :: string
  wr_status :: string
  wr_terminal_reason :: string
  wr_plan_hash :: "string option"
  wr_revision :: int
  wr_session_epoch :: int
  wr_completed_step_ids :: "string list"
  wr_checkpoint_count :: int
  wr_latest_checkpoint_hash :: "string option"
  wr_usage :: json_dict

definition workflow_result_ok :: "workflow_result \<Rightarrow> bool" where
  "workflow_result_ok r = (task_reference_ok (wr_workflow_id r) \<and> task_reference_ok (wr_run_id r) \<and>
     wr_task_id r \<in> set (JOINER_TASKS @ MOVER_TASKS @ LEAVER_TASKS) \<and>
     wr_status r \<in> {''finished_ungraded'', ''escalated'', ''failed'', ''cancelled''} \<and>
     1 \<le> length (wr_terminal_reason r) \<and> length (wr_terminal_reason r) \<le> 80 \<and> optional_ok sha256_ok (wr_plan_hash r) \<and>
     1 \<le> wr_revision r \<and> wr_revision r \<le> 2 \<and> 1 \<le> wr_session_epoch r \<and> wr_session_epoch r \<le> 3 \<and>
     length (wr_completed_step_ids r) \<le> 16 \<and> list_all (\<lambda>s. length s \<le> 40) (wr_completed_step_ids r) \<and>
     0 \<le> wr_checkpoint_count r \<and> wr_checkpoint_count r \<le> 18 \<and> optional_ok sha256_ok (wr_latest_checkpoint_hash r))"

record temporal_outcome =
  to_result :: workflow_result
  to_deduplicated_start :: bool

definition result_json :: "workflow_result \<Rightarrow> json" where
  "result_json r = JObj [
     (''schema_version'', JStr ''w8-workflow-result/1.0''),
     (''workflow_id'', JStr (wr_workflow_id r)),
     (''run_id'', JStr (wr_run_id r)),
     (''task_id'', JStr (wr_task_id r)),
     (''status'', JStr (wr_status r)),
     (''terminal_reason'', JStr (wr_terminal_reason r)),
     (''plan_hash'', json_opt (wr_plan_hash r)),
     (''revision'', JInt (wr_revision r)),
     (''session_epoch'', JInt (wr_session_epoch r)),
     (''completed_step_ids'', JArr (map JStr (wr_completed_step_ids r))),
     (''checkpoint_count'', JInt (wr_checkpoint_count r)),
     (''latest_checkpoint_hash'', json_opt (wr_latest_checkpoint_hash r)),
     (''usage'', JObj (wr_usage r))]"

subsection \<open>Audit and trace\<close>

text \<open>The worker's own copy of the audit append; \<open>one()\<close> raises when the head is missing.\<close>

definition append_audit :: "env \<Rightarrow> string \<Rightarrow> audit_event_type \<Rightarrow> string \<Rightarrow> string \<Rightarrow> json_dict \<Rightarrow> datetime \<Rightarrow> int control" where
  "append_audit v org ty actor subject payload now =
     andthen (scalar organizations (\<lambda>o'. og_organization_id o' = org)) (\<lambda>owner.
     andthen (require (owner \<noteq> None) RuntimeError) (\<lambda>_.
     andthen (select_one heads (\<lambda>h. hd_organization_id h = org)) (\<lambda>found.
     case found of None \<Rightarrow> raise NoResultFound
     | Some h \<Rightarrow>
       andthen (opaque_id v ''aud'') (\<lambda>event_id.
       let e = new_event v org ty actor subject payload now h event_id in
       andthen (execute (upd_events (\<lambda>es. es @ [e]))) (\<lambda>_.
       andthen (execute (upd_heads (update_rows (\<lambda>x. hd_organization_id x = org) (advance_head e now)))) (\<lambda>_.
       ret (ev_sequence e)))))))"

definition TRACE_ALLOWED_ATTRIBUTE_KEYS :: "string list" where
  "TRACE_ALLOWED_ATTRIBUTE_KEYS = [''schema_version''] @ map fst trace_attribute_fields @
     [''completed_step_ids'', ''sensitive_fields_present'']"

text \<open>One attribute added to the safe ones.\<close>

definition add_attribute :: "string \<times> json \<Rightarrow> json_dict \<Rightarrow> control_error + json_dict" where
  "add_attribute kv safe = (let k = fst kv in
     if k \<notin> set TRACE_ALLOWED_ATTRIBUTE_KEYS then Inl RuntimeError
     else (case snd kv of
         JNull \<Rightarrow> Inr safe
       | JBool b \<Rightarrow> if k \<noteq> ''sensitive_fields_present'' \<or> b then Inl RuntimeError else Inr (dict_set k (JBool b) safe)
       | JInt i \<Rightarrow> if 0 \<le> i then Inr (dict_set k (JInt i) safe) else Inl RuntimeError
       | JStr s \<Rightarrow> if 1 \<le> length s \<and> length s \<le> 120
           then if forbidden_text s then Inl RuntimeError else Inr (dict_set k (JStr s) safe) else Inl RuntimeError
       | JArr xs \<Rightarrow> if length xs \<le> 16 \<and> list_all (str_ok (\<lambda>s. 1 \<le> length s \<and> length s \<le> 40)) xs
           then Inr (dict_set k (JArr xs) safe) else Inl RuntimeError
       | JObj _ \<Rightarrow> Inl RuntimeError))"

fun add_attributes :: "json_dict \<Rightarrow> json_dict \<Rightarrow> control_error + json_dict" where
  "add_attributes [] safe = Inr safe"
| "add_attributes (kv # kvs) safe = (case add_attribute kv safe of Inl e \<Rightarrow> Inl e | Inr safe' \<Rightarrow> add_attributes kvs safe')"

definition safe_trace_attributes :: "json_dict \<Rightarrow> control_error + json_dict" where
  "safe_trace_attributes attrs =
     (case add_attributes attrs [(''schema_version'', JStr ''w13-trace-attributes/1.0''), (''sensitive_fields_present'', JBool False)] of
        Inl e \<Rightarrow> Inl e
      | Inr safe \<Rightarrow> if 2048 < length (canonical_json_bytes (JObj safe)) then Inl RuntimeError else Inr safe)"

definition append_trace_event :: "env \<Rightarrow> string \<Rightarrow> string \<Rightarrow> string \<Rightarrow> string \<Rightarrow> string \<Rightarrow> string \<Rightarrow> json_dict \<Rightarrow> datetime \<Rightarrow> unit control" where
  "append_trace_event v org run phase status reason failure attrs now =
     andthen (find_run org run) (\<lambda>found.
     if found = None then ret ()
     else
       andthen (query (next_trace_sequence org run)) (\<lambda>n.
       andthen (require (n \<le> 256) RuntimeError) (\<lambda>_.
       andthen (query (parent_span org run n)) (\<lambda>parent.
       andthen (opaque_id v ''obs'') (\<lambda>i.
       case safe_trace_attributes attrs of
         Inl e \<Rightarrow> raise e
       | Inr safe \<Rightarrow> execute (upd_traces (\<lambda>es. es @ [new_trace (v_sha v) org run phase status failure reason safe now i n parent])))))))"

definition metric :: "json_dict \<Rightarrow> string \<Rightarrow> int" where
  "metric d k = (case map_of d k of Some (JInt i) \<Rightarrow> if 0 \<le> i then i else 0 | _ \<Rightarrow> 0)"

definition planning_usage :: "workflow_result \<Rightarrow> json_dict" where
  "planning_usage r = (case map_of (wr_usage r) ''planning_usage'' of Some (JObj d) \<Rightarrow> d | _ \<Rightarrow> [])"

fun terminal_failure_category :: "production_terminal_reason \<Rightarrow> string" where
  "terminal_failure_category AuthorizationInvalid = ''authz''"
| "terminal_failure_category QueueExpired = ''queue_expiry''"
| "terminal_failure_category LeaseExhausted = ''lease_fence''"
| "terminal_failure_category WorkflowRejected = ''workflow_rejected''"
| "terminal_failure_category ReceiptInvalid = ''receipt_invalid''"
| "terminal_failure_category WorkerDrained = ''lease_fence''"
| "terminal_failure_category DependencyUnavailable = ''dependency_unavailable''"
| "terminal_failure_category AgentFailed = ''recovery_failure''"
| "terminal_failure_category AgentFinished = ''none''"
| "terminal_failure_category CancelledByActor = ''none''"

definition outcome_failure_category :: "workflow_result \<Rightarrow> string" where
  "outcome_failure_category r =
     (if wr_status r = ''finished_ungraded'' then ''none''
      else (case map_of [(''idempotency_mismatch'', ''receipt_invalid''), (''checkpoint_invalid'', ''recovery_failure''),
          (''replan_disallowed'', ''planning_failure''), (''recovery_exhausted'', ''recovery_failure''),
          (''permanent_failure'', ''browser_error''), (''budget_exhausted'', ''recovery_failure''), (''cancelled'', ''none''),
          (''completed'', ''none'')] (wr_terminal_reason r) of
        Some c \<Rightarrow> c | None \<Rightarrow> ''recovery_failure''))"

subsection \<open>The trace of an outcome\<close>

definition outcome_common :: "work_item \<Rightarrow> string \<Rightarrow> int \<Rightarrow> json_dict" where
  "outcome_common item status version = [(''run_status'', JStr status), (''workflow_hash'', JStr (wi_workflow_hash item)),
     (''worker_reference'', JStr (wi_worker_owner_hash item)), (''fencing_token'', JInt (wi_fencing_token item)),
     (''attempt_count'', JInt (wi_attempt_count item)), (''version'', JInt version), (''sensitive_fields_present'', JBool False)]"

definition fake_cost :: "json_dict \<Rightarrow> int" where
  "fake_cost planning = metric planning ''cost_microusd'' + metric planning ''planning_cost_microusd'' + metric planning ''verifier_cost_microusd''"

definition usage_attributes :: "json_dict \<Rightarrow> json_dict" where
  "usage_attributes planning = [(''model_calls'', JInt (metric planning ''model_calls'')),
     (''input_tokens'', JInt (metric planning ''input_tokens'')), (''output_tokens'', JInt (metric planning ''output_tokens''))]"

text \<open>The rows in their order: phase, status, reason, failure category and attributes.\<close>

definition outcome_rows :: "work_item \<Rightarrow> workflow_result \<Rightarrow> bool \<Rightarrow> string \<Rightarrow> int \<Rightarrow> int
    \<Rightarrow> (string \<times> string \<times> string \<times> string \<times> json_dict) list" where
  "outcome_rows item r finished receipt sequence version =
     (let planning = planning_usage r;
          status = (if finished then ''succeeded'' else ''failed'');
          failure = outcome_failure_category r;
          common = outcome_common item (run_status_name (if finished then RunFinishedUngraded else RunFailed)) version;
          steps = JInt (int (length (wr_completed_step_ids r)));
          checkpoint = json_opt (wr_latest_checkpoint_hash r);
          cost = (''fake_cost_microusd'', JInt (fake_cost planning)) in
      [(''recovery'', status, ''recovery_summary'', failure, common @
          [(''activity_attempts'', JInt (metric (wr_usage r) ''activity_attempts'')), (''retries'', JInt (metric (wr_usage r) ''retries'')),
           (''session_recoveries'', JInt (metric (wr_usage r) ''session_recoveries'')), (''replans'', JInt (metric (wr_usage r) ''replans'')),
           (''checkpoint_count'', JInt (wr_checkpoint_count r)), (''checkpoint_hash'', checkpoint),
           (''completed_step_ids'', JArr (map JStr (wr_completed_step_ids r))), (''step_count'', steps)]),
       (''planning'', status, ''planning_summary'', (if failure = ''planning_failure'' then failure else ''none''), common @
          usage_attributes planning @
          [(''route_decisions'', JInt (metric planning ''route_decisions'')), (''duration_ms'', JInt (metric planning ''elapsed_ms'')),
           cost, (''real_cost_microusd'', JInt 0)])] @
      map (\<lambda>(i, step). (''browser'', ''succeeded'', ''browser_step'', ''none'', common @
          [(''step_id'', JStr step), (''count'', JInt (int i))]))
        (zip [1..<Suc (length (wr_completed_step_ids r))] (wr_completed_step_ids r)) @
      [(''browser'', status, ''browser_summary'', (if take 8 failure = ''browser_'' then failure else ''none''), common @
          [(''step_count'', steps), (''dom_observations'', JInt (metric planning ''dom_observations'')),
           (''images'', JInt (metric planning ''images'')), (''latency_ms'', JInt (metric planning ''capture_ms''))]),
       (''receipt'', status, ''receipt_recorded'', (if failure = ''receipt_invalid'' then failure else ''none''), common @
          [(''receipt_reference'', JStr receipt), (''checkpoint_hash'', checkpoint)]),
       (''cost'', ''succeeded'', ''fake_cost_accounted'', ''none'', common @ usage_attributes planning @ [cost, (''real_cost_microusd'', JInt 0)]),
       (''grader'', (if finished then ''pending'' else ''failed''), ''grader_pending'', (if finished then ''none'' else failure), common @
          [(''receipt_reference'', JStr receipt)]),
       (''audit'', ''succeeded'', ''audit_reference'', ''none'', common @ [(''audit_sequence'', JInt sequence)]),
       (''terminal'', status, (if finished then ''run_finished_ungraded'' else ''run_failed''), failure, common @
          [(''receipt_reference'', JStr receipt), (''checkpoint_hash'', checkpoint), (''audit_sequence'', JInt sequence)])])"

definition append_outcome_trace :: "env \<Rightarrow> work_item \<Rightarrow> workflow_result \<Rightarrow> bool \<Rightarrow> string \<Rightarrow> int \<Rightarrow> int \<Rightarrow> datetime \<Rightarrow> unit control" where
  "append_outcome_trace v item r finished receipt sequence version now =
     for_each (\<lambda>(phase, status, reason, failure, attrs).
       append_trace_event v (wi_organization_id item) (wi_run_id item) phase status reason failure attrs now)
       (outcome_rows item r finished receipt sequence version)"

subsection \<open>The recheck of the authorization\<close>

definition worker_authorization_hash :: "env \<Rightarrow> string \<Rightarrow> string \<Rightarrow> string option control" where
  "worker_authorization_hash v org uid =
     andthen (select_one organizations (\<lambda>o'. og_organization_id o' = org \<and> og_status o' = Active)) (\<lambda>organization.
     andthen (select_one users (\<lambda>u. us_organization_id u = org \<and> us_user_id u = uid \<and> us_status u = Active)) (\<lambda>user.
     andthen (select_one memberships (\<lambda>m. mb_organization_id m = org \<and> mb_user_id m = uid \<and> mb_status m = Active)) (\<lambda>membership.
     andthen (query (\<lambda>t. filter (\<lambda>i. id_organization_id i = org \<and> id_user_id i = uid \<and> id_status i = Active) (identities t))) (\<lambda>ids.
     case (organization, user, membership, ids) of
       (Some o', Some u, Some m, [i]) \<Rightarrow>
         andthen (query (active_authorities org uid)) (\<lambda>as. ret (Some (authorization_hash v i o' u m as)))
     | _ \<Rightarrow> ret None))))"

text \<open>A decision's authority and approver, while both are in force.\<close>

definition deciding_authority :: "string \<Rightarrow> approval_decision \<Rightarrow> approval_authority \<Rightarrow> bool" where
  "deciding_authority org d a = (au_organization_id a = org \<and> au_authority_id a = dc_authority_id d \<and> au_user_id a = dc_approver_user_id d \<and>
     au_role a = dc_approval_role d \<and> au_status a = AuthorityActive)"

definition approver_in_force :: "string \<Rightarrow> approval_decision \<Rightarrow> tables \<Rightarrow> bool" where
  "approver_in_force org d t = list_ex (\<lambda>u. us_organization_id u = org \<and> us_user_id u = dc_approver_user_id d \<and> us_status u = Active \<and>
     list_ex (\<lambda>m. mb_organization_id m = us_organization_id u \<and> mb_user_id m = us_user_id u \<and> mb_status m = Active \<and> mb_role m \<noteq> Auditor)
       (memberships t)) (users t)"

fun worker_approvals :: "string \<Rightarrow> approval_decision list \<Rightarrow> (string \<times> json) list option control" where
  "worker_approvals org [] = ret (Some [])"
| "worker_approvals org (d # ds) =
     andthen (select_one authorities (deciding_authority org d)) (\<lambda>authority.
     andthen (query (approver_in_force org d)) (\<lambda>approver.
     case authority of
       Some a \<Rightarrow> if \<not> approver then ret None
         else andthen (worker_approvals org ds) (\<lambda>rest.
              ret (map_option (\<lambda>items. (approval_role_name (dc_approval_role d), approval_item d a) # items) rest))
     | None \<Rightarrow> ret None))"

definition worker_approval_set_hash :: "env \<Rightarrow> string \<Rightarrow> string \<Rightarrow> string option control" where
  "worker_approval_set_hash v org request =
     andthen (query (approved_decisions org request)) (\<lambda>ds.
     andthen (worker_approvals org ds) (\<lambda>items.
     ret (map_option (\<lambda>is'. stable_hash (v_sha v) (JObj [(''schema_version'', JStr ''w11-required-approval-set/1.0''),
         (''approvals'', JArr (map snd (sort_key fst is')))])) items)))"

definition approval_rows_match :: "work_item \<Rightarrow> approval_request \<Rightarrow> approval_grant \<Rightarrow> bool" where
  "approval_rows_match i q g = (rq_status q = RequestClaimed \<and> gr_status g = GrantClaimed \<and>
     rq_task_id q = wi_task_id i \<and> rq_step_id q = ''production_run'' \<and> rq_action_type q = wi_action_type i \<and>
     rq_parameter_hash q = wi_parameter_hash i \<and> rq_executor_user_id q = wi_executor_user_id i \<and>
     gr_task_id g = wi_task_id i \<and> gr_step_id g = ''production_run'' \<and> gr_action_type g = wi_action_type i \<and>
     gr_parameter_hash g = wi_parameter_hash i \<and> gr_executor_user_id g = wi_executor_user_id i \<and>
     gr_authorization_hash g = Some (wi_authorization_hash i) \<and> Some (gr_approval_set_hash g) = wi_approval_set_hash i)"

text \<open>The length of \<open>required_roles.split(",")\<close>, which is one for the empty column.\<close>

definition check_binding :: "env \<Rightarrow> work_item \<Rightarrow> datetime \<Rightarrow> bool \<Rightarrow> bool control" where
  "check_binding v i now check_expiry =
     andthen (worker_authorization_hash v (wi_organization_id i) (wi_executor_user_id i)) (\<lambda>h.
     if h \<noteq> Some (wi_authorization_hash i) then ret False
     else (case wi_approval_request_id i of
       None \<Rightarrow> ret (wi_grant_id i = None \<and> wi_execution_id i = None)
     | Some request \<Rightarrow>
         andthen (select_one requests (\<lambda>q. rq_organization_id q = wi_organization_id i \<and> rq_request_id q = request)) (\<lambda>q.
         andthen (select_one grants (\<lambda>g. gr_organization_id g = wi_organization_id i \<and> Some (gr_grant_id g) = wi_grant_id i \<and>
           gr_request_id g = request \<and> gr_execution_id g = wi_execution_id i)) (\<lambda>g.
         case (q, g) of
           (Some q, Some g) \<Rightarrow>
             if check_expiry \<and> (rq_expires_at q \<le> now \<or> gr_expires_at g \<le> now) then ret False
             else if \<not> approval_rows_match i q g then ret False
             else
               andthen (worker_approval_set_hash v (wi_organization_id i) request) (\<lambda>set_hash.
               andthen (query (\<lambda>t. length (filter (\<lambda>d. dc_decision d = Approved) (decisions_of (wi_organization_id i) request t)))) (\<lambda>n.
               ret (set_hash = wi_approval_set_hash i \<and> n = max 1 (length (rq_required_roles q)))))
         | _ \<Rightarrow> ret False))))"

subsection \<open>Leases\<close>

definition lease_history :: "env \<Rightarrow> dispatch_outbox \<Rightarrow> lease_status \<Rightarrow> datetime \<Rightarrow> unit control" where
  "lease_history v b status now =
     (if ob_fencing_token b < 1 \<or> ob_leased_at b = None then ret ()
      else andthen (opaque_id v ''lse'') (\<lambda>i.
        execute (upd_leases (\<lambda>ls. ls @ [\<lparr>ls_lease_id = i, ls_organization_id = ob_organization_id b, ls_outbox_id = ob_outbox_id b,
          ls_run_id = ob_run_id b, ls_worker_owner_hash = ob_lease_owner_hash b, ls_lease_version = ob_lease_version b,
          ls_fencing_token = ob_fencing_token b, ls_leased_at = ob_leased_at b, ls_lease_expires_at = ob_lease_expires_at b,
          ls_heartbeat_at = (case ob_heartbeat_at b of None \<Rightarrow> ob_leased_at b | Some h \<Rightarrow> Some h),
          ls_attempt_count = ob_attempt_count b, ls_status = status, ls_closed_at = Some now\<rparr>]))))"

definition outbox_named :: "string \<Rightarrow> string \<Rightarrow> dispatch_outbox \<Rightarrow> bool" where
  "outbox_named org i b = (ob_organization_id b = org \<and> ob_outbox_id b = i)"

definition run_named :: "string \<Rightarrow> string \<Rightarrow> production_run \<Rightarrow> bool" where
  "run_named org i r = (pr_organization_id r = org \<and> pr_run_id r = i)"

definition update_outbox :: "(dispatch_outbox \<Rightarrow> bool) \<Rightarrow> (dispatch_outbox \<Rightarrow> dispatch_outbox) \<Rightarrow> unit control" where
  "update_outbox P f = execute (upd_outbox (update_rows P f))"

definition update_run :: "(production_run \<Rightarrow> bool) \<Rightarrow> (production_run \<Rightarrow> production_run) \<Rightarrow> unit control" where
  "update_run P f = execute (upd_runs (update_rows P f))"

definition update_partition :: "string \<Rightarrow> (scheduler_partition \<Rightarrow> scheduler_partition) \<Rightarrow> unit control" where
  "update_partition org f = execute (upd_partitions (update_rows (\<lambda>p. pt_organization_id p = org) f))"

definition set_audit_sequence :: "(production_run \<Rightarrow> bool) \<Rightarrow> int \<Rightarrow> unit control" where
  "set_audit_sequence P n = update_run P (\<lambda>r. r\<lparr>pr_audit_sequence := n\<rparr>)"

definition partition_left :: "datetime \<Rightarrow> scheduler_partition \<Rightarrow> scheduler_partition" where
  "partition_left now p = p\<lparr>pt_ready_count := pt_ready_count p - 1, pt_cursor_version := pt_cursor_version p + 1, pt_updated_at := now\<rparr>"

definition partition_selected :: "datetime \<Rightarrow> scheduler_partition \<Rightarrow> scheduler_partition" where
  "partition_selected now p = p\<lparr>pt_status := PartitionReady, pt_last_selected_at := Some now,
     pt_cursor_version := pt_cursor_version p + 1, pt_updated_at := now\<rparr>"

definition record_stale_fence :: "env \<Rightarrow> work_item \<Rightarrow> datetime \<Rightarrow> unit control" where
  "record_stale_fence v i now =
     andthen (select_one outbox (outbox_named (wi_organization_id i) (wi_outbox_id i))) (\<lambda>found.
     case found of None \<Rightarrow> ret ()
     | Some b \<Rightarrow>
       andthen (append_audit v (wi_organization_id i) EvStaleFenceRejected (wi_worker_owner_hash i) (ob_run_id b)
         (w12_payload [(''run_id'', JStr (ob_run_id b)), (''outbox_id'', JStr (ob_outbox_id b)),
           (''outbox_status'', JStr (outbox_status_name (ob_status b))), (''fencing_token'', JInt (ob_fencing_token b)),
           (''reason'', JStr ''stale_fence'')]) now) (\<lambda>_.
       append_trace_event v (wi_organization_id i) (ob_run_id b) ''lease'' ''rejected'' ''stale_fence_rejected'' ''lease_fence''
         [(''outbox_id'', JStr (ob_outbox_id b)), (''outbox_status'', JStr (outbox_status_name (ob_status b))),
          (''fencing_token'', JInt (ob_fencing_token b)), (''worker_reference'', JStr (wi_worker_owner_hash i)),
          (''sensitive_fields_present'', JBool False)] now))"

text \<open>The end of a run that fails, with its approval.\<close>

definition run_failed :: "production_terminal_reason \<Rightarrow> datetime \<Rightarrow> production_run \<Rightarrow> production_run" where
  "run_failed reason now r = r\<lparr>pr_status := RunFailed, pr_version := pr_version r + 1, pr_finished_at := Some now,
     pr_terminal_reason := Some reason, pr_updated_at := now\<rparr>"

definition fail_approval :: "env \<Rightarrow> string \<Rightarrow> production_run \<Rightarrow> production_terminal_reason \<Rightarrow> datetime \<Rightarrow> unit control" where
  "fail_approval v owner r reason now =
     (let org = pr_organization_id r in
      case (pr_approval_request_id r, pr_grant_id r, pr_execution_id r) of
        (Some request, Some grant, Some execution) \<Rightarrow>
          andthen (select_one requests (\<lambda>q. rq_organization_id q = org \<and> rq_request_id q = request)) (\<lambda>q.
          andthen (select_one grants (\<lambda>g. gr_organization_id g = org \<and> gr_grant_id g = grant \<and> gr_request_id g = request \<and>
            gr_execution_id g = Some execution)) (\<lambda>g.
          if map_option rq_status q = Some RequestClaimed \<and> map_option gr_status g = Some GrantClaimed
          then
            andthen (execute (upd_requests (update_rows
              (\<lambda>q. rq_organization_id q = org \<and> rq_request_id q = request \<and> rq_status q = RequestClaimed)
              (\<lambda>q. q\<lparr>rq_status := RequestFailed, rq_version := rq_version q + 1, rq_updated_at := now\<rparr>)))) (\<lambda>_.
            andthen (execute (upd_grants (update_rows
              (\<lambda>g. gr_organization_id g = org \<and> gr_grant_id g = grant \<and> gr_execution_id g = Some execution \<and> gr_status g = GrantClaimed)
              (\<lambda>g. g\<lparr>gr_status := GrantFailed, gr_version := gr_version g + 1, gr_updated_at := now\<rparr>)))) (\<lambda>_.
            andthen (append_audit v org EvExecutionFailed owner grant
              (audit_payload [(''request_id'', JStr request), (''grant_id'', JStr grant), (''grant_status'', JStr ''failed''),
                (''execution_id'', JStr execution), (''reason'', JStr (terminal_reason_name reason))]) now) (\<lambda>_. ret ())))
          else ret ()))
      | _ \<Rightarrow> ret ())"

definition fail_locked :: "env \<Rightarrow> string \<Rightarrow> production_run \<Rightarrow> dispatch_outbox \<Rightarrow> production_terminal_reason \<Rightarrow> datetime \<Rightarrow> bool control" where
  "fail_locked v owner r b reason now =
     (let org = pr_organization_id r in
      andthen (lease_history v b LeaseFailed now) (\<lambda>_.
      andthen (update_outbox (outbox_named org (ob_outbox_id b)) (\<lambda>b. b\<lparr>ob_status := OutboxFailed, ob_updated_at := now\<rparr>)) (\<lambda>_.
      andthen (update_run (run_named org (pr_run_id r)) (run_failed reason now)) (\<lambda>_.
      andthen (update_partition org (partition_left now)) (\<lambda>_.
      andthen (append_audit v org EvRunFailed owner (pr_run_id r)
        (w12_payload [(''run_id'', JStr (pr_run_id r)), (''run_status'', JStr ''failed''), (''reason'', JStr (terminal_reason_name reason)),
          (''fencing_token'', JInt (ob_fencing_token b)), (''version'', JInt (pr_version r + 1))]) now) (\<lambda>n.
      andthen (set_audit_sequence (run_named org (pr_run_id r)) n) (\<lambda>_.
      andthen (append_trace_event v org (pr_run_id r) ''terminal'' ''failed'' ''run_failed'' (terminal_failure_category reason)
        [(''run_status'', JStr ''failed''), (''outbox_id'', JStr (ob_outbox_id b)), (''outbox_status'', JStr ''failed''),
         (''workflow_hash'', JStr (pr_workflow_hash r)), (''worker_reference'', JStr owner), (''fencing_token'', JInt (ob_fencing_token b)),
         (''attempt_count'', JInt (ob_attempt_count b)), (''audit_sequence'', JInt n), (''version'', JInt (pr_version r + 1)),
         (''sensitive_fields_present'', JBool False)] now) (\<lambda>_.
      andthen (fail_approval v owner r reason now) (\<lambda>_. ret True)))))))))"

subsection \<open>Claiming\<close>

definition partition_order :: "scheduler_partition \<Rightarrow> nat \<times> nat \<times> string" where
  "partition_order p = (case pt_last_selected_at p of None \<Rightarrow> (0, 0, pt_partition_id p) | Some t \<Rightarrow> (1, t, pt_partition_id p))"

definition next_partition :: "tables \<Rightarrow> scheduler_partition option" where
  "next_partition t = (case sort_key partition_order
       (filter (\<lambda>p. pt_status p = PartitionReady \<and> 0 < pt_ready_count p) (partitions t)) of [] \<Rightarrow> None | p # _ \<Rightarrow> Some p)"

definition claimable :: "datetime \<Rightarrow> dispatch_outbox \<Rightarrow> bool" where
  "claimable now b = ((ob_status b = OutboxReady \<and> ob_available_at b \<le> now) \<or>
     (ob_status b \<in> {OutboxLeased, OutboxDispatched} \<and> (case ob_lease_expires_at b of None \<Rightarrow> False | Some t \<Rightarrow> t \<le> now)))"

definition next_outbox :: "string \<Rightarrow> datetime \<Rightarrow> tables \<Rightarrow> dispatch_outbox option" where
  "next_outbox org now t = (case sort_key (\<lambda>b. (ob_available_at b, ob_outbox_id b))
       (filter (\<lambda>b. ob_organization_id b = org \<and> claimable now b) (outbox t)) of [] \<Rightarrow> None | b # _ \<Rightarrow> Some b)"

definition expire_locked :: "env \<Rightarrow> string \<Rightarrow> production_run \<Rightarrow> dispatch_outbox \<Rightarrow> datetime \<Rightarrow> unit control" where
  "expire_locked v owner r b now =
     (let org = ob_organization_id b in
      andthen (lease_history v b LeaseExpired now) (\<lambda>_.
      andthen (update_outbox (outbox_named org (ob_outbox_id b)) (\<lambda>b. b\<lparr>ob_status := OutboxExpired, ob_updated_at := now\<rparr>)) (\<lambda>_.
      andthen (update_run (run_named org (pr_run_id r)) (\<lambda>r. r\<lparr>pr_status := RunExpired, pr_version := pr_version r + 1,
        pr_finished_at := Some now, pr_terminal_reason := Some QueueExpired, pr_updated_at := now\<rparr>)) (\<lambda>_.
      andthen (update_partition org (partition_left now)) (\<lambda>_.
      andthen (append_audit v org EvRunExpired owner (pr_run_id r)
        (w12_payload [(''run_id'', JStr (pr_run_id r)), (''run_status'', JStr ''expired''), (''reason'', JStr ''queue_expired''),
          (''version'', JInt (pr_version r + 1))]) now) (\<lambda>n.
      andthen (set_audit_sequence (run_named org (pr_run_id r)) n) (\<lambda>_.
      append_trace_event v org (pr_run_id r) ''terminal'' ''failed'' ''run_expired'' ''queue_expiry''
        [(''run_status'', JStr ''expired''), (''outbox_id'', JStr (ob_outbox_id b)), (''outbox_status'', JStr ''expired''),
         (''audit_sequence'', JInt n), (''version'', JInt (pr_version r + 1)), (''sensitive_fields_present'', JBool False)] now)))))))"

definition outbox_leased :: "string \<Rightarrow> datetime \<Rightarrow> datetime \<Rightarrow> dispatch_outbox \<Rightarrow> dispatch_outbox" where
  "outbox_leased owner now expires b = b\<lparr>ob_status := OutboxLeased, ob_attempt_count := ob_attempt_count b + 1,
     ob_fencing_token := ob_fencing_token b + 1, ob_lease_owner_hash := Some owner, ob_lease_version := ob_lease_version b + 1,
     ob_leased_at := Some now, ob_lease_expires_at := Some expires, ob_heartbeat_at := Some now, ob_updated_at := now\<rparr>"

definition work_item_of :: "production_run \<Rightarrow> dispatch_outbox \<Rightarrow> string \<Rightarrow> datetime \<Rightarrow> datetime \<Rightarrow> work_item" where
  "work_item_of r b owner leased expires = \<lparr>wi_organization_id = pr_organization_id r, wi_outbox_id = ob_outbox_id b,
     wi_run_id = pr_run_id r, wi_executor_user_id = pr_executor_user_id r, wi_task_id = pr_task_id r,
     wi_run_process = pr_run_process r, wi_run_category = pr_run_category r, wi_action_type = pr_action_type r,
     wi_parameter_hash = pr_parameter_hash r, wi_authorization_hash = pr_authorization_hash r,
     wi_approval_request_id = pr_approval_request_id r, wi_grant_id = pr_grant_id r, wi_execution_id = pr_execution_id r,
     wi_approval_set_hash = pr_approval_set_hash r, wi_payload_reference = pr_payload_reference r,
     wi_payload_hash = pr_payload_hash r, wi_workflow_id = pr_workflow_id r, wi_workflow_hash = pr_workflow_hash r,
     wi_worker_owner_hash = owner, wi_fencing_token = ob_fencing_token b, wi_lease_version = ob_lease_version b,
     wi_attempt_count = ob_attempt_count b, wi_leased_at = leased, wi_lease_expires_at = expires\<rparr>"

text \<open>The lease itself: the row, the run, the cursor of the partition and what is written about it.\<close>

definition lease_locked :: "env \<Rightarrow> worker_settings \<Rightarrow> production_run \<Rightarrow> dispatch_outbox \<Rightarrow> datetime \<Rightarrow> work_item option control" where
  "lease_locked v w r b now =
     (let org = ob_organization_id b; owner = owner_hash v w; reclaimed = (ob_status b \<noteq> OutboxReady);
          expires = now + seconds (ws_lease_ttl_seconds w); claimed = outbox_leased owner now expires b;
          status = (if reclaimed then RunRecovering else RunLeased) in
      andthen (if reclaimed then lease_history v b LeaseExpired now else ret ()) (\<lambda>_.
      andthen (update_count outbox upd_outbox (\<lambda>x. outbox_named org (ob_outbox_id b) x \<and> ob_status x = ob_status b \<and>
        ob_fencing_token x = ob_fencing_token b \<and> ob_lease_version x = ob_lease_version b)
        (\<lambda>x. x\<lparr>ob_status := OutboxLeased, ob_attempt_count := ob_attempt_count claimed, ob_fencing_token := ob_fencing_token claimed,
          ob_lease_owner_hash := Some owner, ob_lease_version := ob_lease_version claimed, ob_leased_at := Some now,
          ob_lease_expires_at := Some expires, ob_heartbeat_at := Some now, ob_updated_at := now\<rparr>)) (\<lambda>n.
      if n \<noteq> 1 then ret None
      else
        andthen (update_count runs upd_runs (\<lambda>x. run_named org (pr_run_id r) x \<and> pr_status x = pr_status r \<and>
          pr_version x = pr_version r \<and> pr_fencing_token x = pr_fencing_token r)
          (\<lambda>x. x\<lparr>pr_status := status, pr_version := pr_version x + 1, pr_lease_owner_hash := Some owner,
            pr_fencing_token := ob_fencing_token claimed, pr_lease_expires_at := Some expires, pr_updated_at := now\<rparr>)) (\<lambda>m.
        andthen (require (m = 1) RuntimeError) (\<lambda>_.
        andthen (update_partition org (partition_selected now)) (\<lambda>_.
        andthen (append_audit v org (if reclaimed then EvRunRecovered else EvRunLeased) owner (pr_run_id r)
          (w12_payload [(''run_id'', JStr (pr_run_id r)), (''outbox_id'', JStr (ob_outbox_id b)), (''run_status'', JStr (run_status_name status)),
            (''fencing_token'', JInt (ob_fencing_token claimed)), (''attempt_count'', JInt (ob_attempt_count claimed)),
            (''version'', JInt (pr_version r + 1))]) now) (\<lambda>k.
        andthen (set_audit_sequence (\<lambda>x. run_named org (pr_run_id r) x \<and> pr_fencing_token x = ob_fencing_token claimed) k) (\<lambda>_.
        andthen (append_trace_event v org (pr_run_id r) ''lease'' (if reclaimed then ''recovered'' else ''leased'')
          (if reclaimed then ''lease_recovered'' else ''lease_claimed'') ''none''
          [(''run_status'', JStr (run_status_name status)), (''outbox_id'', JStr (ob_outbox_id b)), (''outbox_status'', JStr ''leased''),
           (''workflow_hash'', JStr (pr_workflow_hash r)), (''worker_reference'', JStr owner),
           (''fencing_token'', JInt (ob_fencing_token claimed)), (''lease_version'', JInt (ob_lease_version claimed)),
           (''attempt_count'', JInt (ob_attempt_count claimed)), (''audit_sequence'', JInt k), (''version'', JInt (pr_version r + 1)),
           (''sensitive_fields_present'', JBool False)] now) (\<lambda>_.
        let item = work_item_of r claimed owner now expires in
        andthen (require (work_item_ok item) ValueError) (\<lambda>_. ret (Some item)))))))))))"

definition claim_next :: "env \<Rightarrow> worker_settings \<Rightarrow> datetime \<Rightarrow> work_item option control" where
  "claim_next v w now = transaction (
     andthen (query next_partition) (\<lambda>found.
     case found of None \<Rightarrow> ret None
     | Some p \<Rightarrow>
       (let org = pt_organization_id p in
        andthen (query (next_outbox org now)) (\<lambda>row.
        case row of
          None \<Rightarrow> andthen (update_partition org (partition_selected now)) (\<lambda>_. ret None)
        | Some b \<Rightarrow>
          andthen (select_one runs (run_named org (ob_run_id b))) (\<lambda>run.
          case run of None \<Rightarrow> ret None
          | Some r \<Rightarrow>
              if ob_expires_at b \<le> now then andthen (expire_locked v (owner_hash v w) r b now) (\<lambda>_. ret None)
              else if ws_maximum_attempts w \<le> ob_attempt_count b
              then andthen (fail_locked v (owner_hash v w) r b LeaseExhausted now) (\<lambda>_. ret None)
              else lease_locked v w r b now)))))"

subsection \<open>Working\<close>

text \<open>The row and the run as the holder of a lease names them.\<close>

definition held_outbox :: "work_item \<Rightarrow> dispatch_outbox \<Rightarrow> bool" where
  "held_outbox i b = (outbox_named (wi_organization_id i) (wi_outbox_id i) b \<and>
     ob_lease_owner_hash b = Some (wi_worker_owner_hash i) \<and> ob_fencing_token b = wi_fencing_token i)"

definition held_run :: "work_item \<Rightarrow> production_run \<Rightarrow> bool" where
  "held_run i r = (run_named (wi_organization_id i) (wi_run_id i) r \<and>
     pr_lease_owner_hash r = Some (wi_worker_owner_hash i) \<and> pr_fencing_token r = wi_fencing_token i)"

definition fenced_outbox :: "work_item \<Rightarrow> dispatch_outbox \<Rightarrow> bool" where
  "fenced_outbox i b = (outbox_named (wi_organization_id i) (wi_outbox_id i) b \<and> ob_fencing_token b = wi_fencing_token i)"

definition fenced_run :: "work_item \<Rightarrow> production_run \<Rightarrow> bool" where
  "fenced_run i r = (run_named (wi_organization_id i) (wi_run_id i) r \<and> pr_fencing_token r = wi_fencing_token i)"

definition unexpired :: "datetime \<Rightarrow> dispatch_outbox \<Rightarrow> bool" where
  "unexpired now b = (case ob_lease_expires_at b of None \<Rightarrow> False | Some t \<Rightarrow> now < t)"

definition reject_stale :: "env \<Rightarrow> work_item \<Rightarrow> datetime \<Rightarrow> bool control" where
  "reject_stale v i now = andthen (record_stale_fence v i now) (\<lambda>_. ret False)"

definition binding_valid :: "env \<Rightarrow> work_item \<Rightarrow> datetime \<Rightarrow> bool control" where
  "binding_valid v i now = in_session (check_binding v i now False)"

definition start_locked :: "env \<Rightarrow> work_item \<Rightarrow> production_run \<Rightarrow> datetime \<Rightarrow> bool control" where
  "start_locked v i r now =
     (let org = wi_organization_id i in
      andthen (update_outbox (fenced_outbox i) (\<lambda>b. b\<lparr>ob_status := OutboxDispatched, ob_updated_at := now\<rparr>)) (\<lambda>_.
      andthen (update_run (fenced_run i) (\<lambda>r. r\<lparr>pr_status := RunRunning, pr_version := pr_version r + 1,
        pr_started_at := (case pr_started_at r of None \<Rightarrow> Some now | Some t \<Rightarrow> Some t), pr_updated_at := now\<rparr>)) (\<lambda>_.
      andthen (append_audit v org EvRunStarted (wi_worker_owner_hash i) (wi_run_id i)
        (w12_payload [(''run_id'', JStr (wi_run_id i)), (''outbox_id'', JStr (wi_outbox_id i)), (''run_status'', JStr ''running''),
          (''fencing_token'', JInt (wi_fencing_token i)), (''version'', JInt (pr_version r + 1))]) now) (\<lambda>n.
      andthen (set_audit_sequence (fenced_run i) n) (\<lambda>_.
      andthen (append_trace_event v org (wi_run_id i) ''dispatch'' ''running'' ''worker_dispatched'' ''none''
        [(''run_status'', JStr ''running''), (''outbox_id'', JStr (wi_outbox_id i)), (''outbox_status'', JStr ''dispatched''),
         (''workflow_hash'', JStr (wi_workflow_hash i)), (''worker_reference'', JStr (wi_worker_owner_hash i)),
         (''fencing_token'', JInt (wi_fencing_token i)), (''lease_version'', JInt (wi_lease_version i)), (''audit_sequence'', JInt n),
         (''version'', JInt (pr_version r + 1)), (''sensitive_fields_present'', JBool False)] now) (\<lambda>_.
      andthen (append_trace_event v org (wi_run_id i) ''workflow'' ''running'' ''temporal_reference'' ''none''
        [(''run_status'', JStr ''running''), (''workflow_hash'', JStr (wi_workflow_hash i)),
         (''worker_reference'', JStr (wi_worker_owner_hash i)), (''fencing_token'', JInt (wi_fencing_token i)),
         (''sensitive_fields_present'', JBool False)] now) (\<lambda>_. ret True)))))))"

definition mark_started :: "env \<Rightarrow> worker_settings \<Rightarrow> work_item \<Rightarrow> datetime \<Rightarrow> bool control" where
  "mark_started v w i now = transaction (
     andthen (select_one outbox (\<lambda>b. held_outbox i b \<and> ob_status b = OutboxLeased \<and> unexpired now b)) (\<lambda>row.
     case row of None \<Rightarrow> reject_stale v i now
     | Some b \<Rightarrow>
       andthen (select_one runs (\<lambda>r. held_run i r \<and> pr_status r \<in> {RunLeased, RunRecovering})) (\<lambda>run.
       case run of None \<Rightarrow> reject_stale v i now
       | Some r \<Rightarrow>
         andthen (check_binding v i now False) (\<lambda>valid.
         if \<not> valid then andthen (fail_locked v (owner_hash v w) r b AuthorizationInvalid now) (\<lambda>_. ret False)
         else start_locked v i r now))))"

definition heartbeat :: "env \<Rightarrow> worker_settings \<Rightarrow> work_item \<Rightarrow> datetime \<Rightarrow> bool control" where
  "heartbeat v w i now = (let expires = now + seconds (ws_lease_ttl_seconds w); org = wi_organization_id i in transaction (
     andthen (update_count outbox upd_outbox (\<lambda>b. held_outbox i b \<and> ob_status b \<in> {OutboxLeased, OutboxDispatched} \<and>
       ob_lease_version b = wi_lease_version i \<and> unexpired now b)
       (\<lambda>b. b\<lparr>ob_heartbeat_at := Some now, ob_lease_expires_at := Some expires, ob_updated_at := now\<rparr>)) (\<lambda>n.
     if n \<noteq> 1 then reject_stale v i now
     else
       andthen (update_run (held_run i) (\<lambda>r. r\<lparr>pr_lease_expires_at := Some expires, pr_updated_at := now\<rparr>)) (\<lambda>_.
       andthen (append_audit v org EvLeaseHeartbeat (wi_worker_owner_hash i) (wi_run_id i)
         (w12_payload [(''run_id'', JStr (wi_run_id i)), (''outbox_id'', JStr (wi_outbox_id i)),
           (''fencing_token'', JInt (wi_fencing_token i))]) now) (\<lambda>_.
       andthen (append_trace_event v org (wi_run_id i) ''lease'' ''leased'' ''lease_heartbeat'' ''none''
         [(''run_status'', JStr ''running''), (''outbox_id'', JStr (wi_outbox_id i)), (''outbox_status'', JStr ''dispatched''),
          (''workflow_hash'', JStr (wi_workflow_hash i)), (''worker_reference'', JStr (wi_worker_owner_hash i)),
          (''fencing_token'', JInt (wi_fencing_token i)), (''lease_version'', JInt (wi_lease_version i)),
          (''sensitive_fields_present'', JBool False)] now) (\<lambda>_. ret True))))))"

definition record_deduplicated :: "env \<Rightarrow> work_item \<Rightarrow> datetime \<Rightarrow> bool control" where
  "record_deduplicated v i now = (let org = wi_organization_id i in transaction (
     andthen (query (\<lambda>t. length (filter (held_outbox i) (outbox t)))) (\<lambda>n.
     if n \<noteq> 1 then reject_stale v i now
     else
       andthen (append_audit v org EvWorkflowDeduplicated (wi_worker_owner_hash i) (wi_run_id i)
         (w12_payload [(''run_id'', JStr (wi_run_id i)), (''workflow_hash'', JStr (wi_workflow_hash i)),
           (''fencing_token'', JInt (wi_fencing_token i))]) now) (\<lambda>_.
       andthen (append_trace_event v org (wi_run_id i) ''workflow'' ''running'' ''temporal_deduplicated'' ''none''
         [(''run_status'', JStr ''running''), (''workflow_hash'', JStr (wi_workflow_hash i)),
          (''worker_reference'', JStr (wi_worker_owner_hash i)), (''fencing_token'', JInt (wi_fencing_token i)),
          (''sensitive_fields_present'', JBool False)] now) (\<lambda>_. ret True)))))"

definition fail :: "env \<Rightarrow> worker_settings \<Rightarrow> work_item \<Rightarrow> production_terminal_reason \<Rightarrow> datetime \<Rightarrow> bool control" where
  "fail v w i reason now = transaction (
     andthen (select_one outbox (\<lambda>b. held_outbox i b \<and> ob_status b \<in> {OutboxLeased, OutboxDispatched} \<and>
       ob_lease_version b = wi_lease_version i)) (\<lambda>row.
     andthen (select_one runs (\<lambda>r. held_run i r \<and> pr_status r \<in> {RunLeased, RunRecovering, RunRunning})) (\<lambda>run.
     case (row, run) of
       (Some b, Some r) \<Rightarrow> fail_locked v (owner_hash v w) r b reason now
     | _ \<Rightarrow> reject_stale v i now)))"

definition release :: "env \<Rightarrow> work_item \<Rightarrow> datetime \<Rightarrow> bool control" where
  "release v i now = (let org = wi_organization_id i in transaction (
     andthen (select_one outbox (\<lambda>b. held_outbox i b \<and> ob_status b \<in> {OutboxLeased, OutboxDispatched})) (\<lambda>row.
     case row of None \<Rightarrow> reject_stale v i now
     | Some b \<Rightarrow>
       andthen (lease_history v b LeaseReleased now) (\<lambda>_.
       andthen (update_outbox (fenced_outbox i) (\<lambda>b. b\<lparr>ob_status := OutboxReady, ob_lease_owner_hash := None,
         ob_lease_expires_at := None, ob_heartbeat_at := None, ob_updated_at := now\<rparr>)) (\<lambda>_.
       andthen (update_run (fenced_run i) (\<lambda>r. r\<lparr>pr_status := RunQueued, pr_version := pr_version r + 1,
         pr_lease_owner_hash := None, pr_lease_expires_at := None, pr_updated_at := now\<rparr>)) (\<lambda>_.
       andthen (append_audit v org EvLeaseReleased (wi_worker_owner_hash i) (wi_run_id i)
         (w12_payload [(''run_id'', JStr (wi_run_id i)), (''outbox_id'', JStr (wi_outbox_id i)), (''run_status'', JStr ''queued''),
           (''fencing_token'', JInt (wi_fencing_token i)), (''reason'', JStr ''worker_drained'')]) now) (\<lambda>_.
       andthen (append_trace_event v org (wi_run_id i) ''lease'' ''released'' ''lease_released'' ''none''
         [(''run_status'', JStr ''queued''), (''outbox_id'', JStr (wi_outbox_id i)), (''outbox_status'', JStr ''ready''),
          (''workflow_hash'', JStr (wi_workflow_hash i)), (''worker_reference'', JStr (wi_worker_owner_hash i)),
          (''fencing_token'', JInt (wi_fencing_token i)), (''lease_version'', JInt (wi_lease_version i)),
          (''sensitive_fields_present'', JBool False)] now) (\<lambda>_. ret True))))))))"

subsection \<open>Completing\<close>

definition receipt_of :: "env \<Rightarrow> workflow_result \<Rightarrow> string" where
  "receipt_of v r = (case wr_latest_checkpoint_hash r of
       Some (c # cs) \<Rightarrow> c # cs | _ \<Rightarrow> stable_hash (v_sha v) (result_json r))"

definition finished :: "workflow_result \<Rightarrow> bool" where
  "finished r = (wr_status r = ''finished_ungraded'')"

definition mark_verifying :: "env \<Rightarrow> work_item \<Rightarrow> production_run \<Rightarrow> string \<Rightarrow> datetime \<Rightarrow> unit control" where
  "mark_verifying v i r receipt now =
     andthen (update_run (fenced_run i) (\<lambda>r. r\<lparr>pr_status := RunVerifying, pr_version := pr_version r + 1, pr_updated_at := now\<rparr>)) (\<lambda>_.
     andthen (append_audit v (wi_organization_id i) EvRunVerifying (wi_worker_owner_hash i) (wi_run_id i)
       (w12_payload [(''run_id'', JStr (wi_run_id i)), (''run_status'', JStr ''verifying''), (''receipt_reference'', JStr receipt),
         (''fencing_token'', JInt (wi_fencing_token i)), (''version'', JInt (pr_version r + 1))]) now) (\<lambda>_. ret ()))"

text \<open>The approval of a completed run: its grant is consumed, or has failed; a run without one is only audited.\<close>

definition complete_approval :: "env \<Rightarrow> work_item \<Rightarrow> bool \<Rightarrow> string \<Rightarrow> datetime \<Rightarrow> unit control" where
  "complete_approval v i ok receipt now =
     (let org = wi_organization_id i in
      case (wi_grant_id i, wi_approval_request_id i) of
        (Some grant, Some request) \<Rightarrow>
          andthen (update_count grants upd_grants (\<lambda>g. gr_organization_id g = org \<and> gr_grant_id g = grant \<and>
              gr_execution_id g = wi_execution_id i \<and> gr_status g = GrantClaimed)
            (\<lambda>g. g\<lparr>gr_status := (if ok then GrantConsumed else GrantFailed), gr_version := gr_version g + 1,
              gr_receipt_reference := Some receipt, gr_consumed_at := (if ok then Some now else None), gr_updated_at := now\<rparr>)) (\<lambda>n.
          andthen (update_count requests upd_requests (\<lambda>q. rq_organization_id q = org \<and> rq_request_id q = request \<and>
              rq_status q = RequestClaimed)
            (\<lambda>q. q\<lparr>rq_status := (if ok then RequestConsumed else RequestFailed), rq_version := rq_version q + 1, rq_updated_at := now\<rparr>)) (\<lambda>m.
          andthen (require (n = 1 \<and> m = 1) RuntimeError) (\<lambda>_.
          andthen (append_audit v org (if ok then EvGrantConsumed else EvExecutionFailed) (wi_worker_owner_hash i) grant
            (audit_payload [(''request_id'', JStr request), (''grant_id'', JStr grant),
              (''grant_status'', JStr (grant_status_name (if ok then GrantConsumed else GrantFailed))),
              (''execution_id'', json_opt (wi_execution_id i)), (''receipt_reference'', JStr receipt)]) now) (\<lambda>_. ret ()))))
      | _ \<Rightarrow>
          andthen (append_audit v org (if ok then EvExecutionSucceeded else EvExecutionFailed) (wi_worker_owner_hash i) (wi_run_id i)
            (audit_payload [(''action_type'', JStr (wi_action_type i)), (''parameter_hash'', JStr (wi_parameter_hash i)),
              (''receipt_reference'', JStr receipt)]) now) (\<lambda>_. ret ()))"

definition complete_locked :: "env \<Rightarrow> work_item \<Rightarrow> production_run \<Rightarrow> dispatch_outbox \<Rightarrow> workflow_result \<Rightarrow> datetime \<Rightarrow> bool control" where
  "complete_locked v i r b result now =
     (let org = wi_organization_id i; receipt = receipt_of v result; ok = finished result;
          version = pr_version r + (if ok then 2 else 1);
          status = (if ok then RunFinishedUngraded else RunFailed);
          reason = (if ok then AgentFinished else AgentFailed) in
      andthen (if ok then mark_verifying v i r receipt now else ret ()) (\<lambda>_.
      andthen (lease_history v b (if ok then LeaseCompleted else LeaseFailed) now) (\<lambda>_.
      andthen (update_outbox (fenced_outbox i) (\<lambda>b. b\<lparr>ob_status := (if ok then OutboxClosed else OutboxFailed), ob_updated_at := now\<rparr>)) (\<lambda>_.
      andthen (update_run (fenced_run i) (\<lambda>r. r\<lparr>pr_status := status, pr_version := version, pr_finished_at := Some now,
        pr_terminal_reason := Some reason, pr_receipt_reference := Some receipt, pr_updated_at := now\<rparr>)) (\<lambda>_.
      andthen (update_partition org (partition_left now)) (\<lambda>_.
      andthen (append_audit v org (if ok then EvRunFinishedUngraded else EvRunFailed) (wi_worker_owner_hash i) (wi_run_id i)
        (w12_payload [(''run_id'', JStr (wi_run_id i)), (''run_status'', JStr (run_status_name status)),
          (''reason'', JStr (terminal_reason_name reason)), (''receipt_reference'', JStr receipt),
          (''fencing_token'', JInt (wi_fencing_token i)), (''version'', JInt version)]) now) (\<lambda>n.
      andthen (set_audit_sequence (fenced_run i) n) (\<lambda>_.
      andthen (append_outcome_trace v i result ok receipt n version now) (\<lambda>_.
      andthen (complete_approval v i ok receipt now) (\<lambda>_. ret True))))))))))"

definition complete :: "env \<Rightarrow> worker_settings \<Rightarrow> work_item \<Rightarrow> temporal_outcome \<Rightarrow> datetime \<Rightarrow> bool control" where
  "complete v w i outcome now = transaction (
     andthen (select_one outbox (\<lambda>b. held_outbox i b \<and> ob_status b = OutboxDispatched \<and> ob_lease_version b = wi_lease_version i)) (\<lambda>row.
     andthen (select_one runs (\<lambda>r. held_run i r \<and> pr_status r = RunRunning)) (\<lambda>run.
     case (row, run) of
       (Some b, Some r) \<Rightarrow>
         andthen (check_binding v i now False) (\<lambda>valid.
         if \<not> valid then fail_locked v (owner_hash v w) r b AuthorizationInvalid now
         else complete_locked v i r b (to_result outcome) now)
     | _ \<Rightarrow> reject_stale v i now)))"

end
