(* ===== verification/Queue_Protocol.thy ===== *)
theory Queue_Protocol
  imports WorkQueue
begin

section \<open>The protocol of the queue\<close>

text \<open>
  The abstract specification that the control API and the workers share: what they may do to the runs,
  the outbox rows and the scheduler partitions, without the monad, the audit trail, the traces and the
  approvals. \<open>queue_step\<close> is the step relation, \<open>queue_ok\<close> its invariant, \<open>lifecycle\<close> what a step does to a
  single run.
\<close>

subsection \<open>The state\<close>

type_synonym queue = "production_run list \<times> dispatch_outbox list \<times> scheduler_partition list"

text \<open>The audit sequence of a run is written separately and plays no role in the protocol.\<close>

definition norm_run :: "production_run \<Rightarrow> production_run" where
  "norm_run r = r\<lparr>pr_audit_sequence := 0\<rparr>"

definition queue_of :: "tables \<Rightarrow> queue" where
  "queue_of t = (map norm_run (runs t), outbox t, partitions t)"

text \<open>A run is live while its row is open; their states correspond.\<close>

definition live :: "production_run \<Rightarrow> bool" where
  "live r \<longleftrightarrow> pr_status r \<in> {RunQueued, RunLeased, RunRecovering, RunRunning}"

definition terminal :: "production_run_status \<Rightarrow> bool" where
  "terminal st \<longleftrightarrow> st \<in> {RunFinishedUngraded, RunFailed, RunCancelled, RunExpired}"

definition status_pair :: "production_run_status \<Rightarrow> outbox_status \<Rightarrow> bool" where
  "status_pair st ob \<longleftrightarrow> (st, ob) \<in> {(RunQueued, OutboxReady), (RunLeased, OutboxLeased), (RunRecovering, OutboxLeased),
     (RunRunning, OutboxDispatched)}"

definition in_step :: "production_run \<Rightarrow> dispatch_outbox \<Rightarrow> bool" where
  "in_step r b \<longleftrightarrow> org_run r = outbox_run b \<and> status_pair (pr_status r) (ob_status b) \<and> pr_fencing_token r = ob_fencing_token b \<and>
     (ob_status b \<noteq> OutboxReady \<longrightarrow> pr_lease_owner_hash r = ob_lease_owner_hash b)"

definition open_rows :: "string \<Rightarrow> dispatch_outbox list \<Rightarrow> nat" where
  "open_rows org bs = length (filter (\<lambda>b. ob_organization_id b = org \<and> open_outbox b) bs)"

definition queue_keys :: "queue \<Rightarrow> bool" where
  "queue_keys q = (case q of (rs, bs, ps) \<Rightarrow>
     distinct (map pr_run_id rs) \<and> distinct (map ob_outbox_id bs) \<and> distinct (map outbox_run bs) \<and> distinct (map pt_organization_id ps))"

definition queue_counts :: "queue \<Rightarrow> bool" where
  "queue_counts q = (case q of (rs, bs, ps) \<Rightarrow>
     ob_organization_id ` set bs \<subseteq> pt_organization_id ` set ps \<and>
     (\<forall>p \<in> set ps. pt_ready_count p = int (open_rows (pt_organization_id p) bs) \<and> (0 < pt_ready_count p \<longrightarrow> pt_status p = PartitionReady)))"

definition queue_runs :: "queue \<Rightarrow> bool" where
  "queue_runs q = (case q of (rs, bs, ps) \<Rightarrow>
     (\<forall>b \<in> set bs. open_outbox b \<longrightarrow> (\<exists>r \<in> set rs. in_step r b)) \<and>
     (\<forall>r \<in> set rs. live r \<longrightarrow> (\<exists>b \<in> set bs. open_outbox b \<and> outbox_run b = org_run r)) \<and>
     (\<forall>r \<in> set rs. pr_status r = RunWaitingApproval \<longrightarrow> pr_fencing_token r = 0))"

definition queue_ok :: "queue \<Rightarrow> bool" where
  "queue_ok q \<longleftrightarrow> queue_keys q \<and> queue_counts q \<and> queue_runs q"

subsection \<open>Steps\<close>

definition same_run :: "production_run \<Rightarrow> production_run \<Rightarrow> bool" where
  "same_run r' r \<longleftrightarrow> org_run r' = org_run r"

definition same_row :: "dispatch_outbox \<Rightarrow> dispatch_outbox \<Rightarrow> bool" where
  "same_row b' b \<longleftrightarrow> ob_outbox_id b' = ob_outbox_id b \<and> outbox_run b' = outbox_run b"

text \<open>The row a run gets when it is queued, and a partition with one row more or less, or only scanned.\<close>

definition fresh_row :: "dispatch_outbox list \<Rightarrow> production_run \<Rightarrow> dispatch_outbox \<Rightarrow> bool" where
  "fresh_row bs r b \<longleftrightarrow> ob_outbox_id b \<notin> ob_outbox_id ` set bs \<and> outbox_run b \<notin> outbox_run ` set bs \<and> outbox_run b = org_run r \<and>
     ob_status b = OutboxReady \<and> ob_fencing_token b = 0"

definition shifted :: "int \<Rightarrow> scheduler_partition \<Rightarrow> scheduler_partition \<Rightarrow> bool" where
  "shifted d p p' \<longleftrightarrow> pt_organization_id p' = pt_organization_id p \<and> pt_ready_count p' = pt_ready_count p + d \<and>
     (0 < pt_ready_count p' \<longrightarrow> pt_status p' = PartitionReady)"

inductive queue_step :: "queue \<Rightarrow> queue \<Rightarrow> bool" where
  opened: "pt_ready_count p = 0 \<Longrightarrow> pt_organization_id p \<notin> pt_organization_id ` set ps \<Longrightarrow> queue_step (rs, bs, ps) (rs, bs, ps @ [p])"
| scanned: "p \<in> set ps \<Longrightarrow> shifted 0 p p' \<Longrightarrow> queue_step (rs, bs, ps) (rs, bs, put_row pt_organization_id p' ps)"
| submitted: "pr_run_id r \<notin> pr_run_id ` set rs \<Longrightarrow> pr_status r = RunWaitingApproval \<Longrightarrow> pr_fencing_token r = 0 \<Longrightarrow>
    queue_step (rs, bs, ps) (rs @ [r], bs, ps)"
| admitted: "pr_run_id r \<notin> pr_run_id ` set rs \<Longrightarrow> pr_status r = RunQueued \<Longrightarrow> pr_fencing_token r = 0 \<Longrightarrow> fresh_row bs r b \<Longrightarrow>
    p \<in> set ps \<Longrightarrow> pt_organization_id p = ob_organization_id b \<Longrightarrow> shifted 1 p p' \<Longrightarrow>
    queue_step (rs, bs, ps) (rs @ [r], bs @ [b], put_row pt_organization_id p' ps)"
| handed_over: "r \<in> set rs \<Longrightarrow> pr_status r = RunWaitingApproval \<Longrightarrow> same_run r' r \<Longrightarrow> pr_status r' = RunQueued \<Longrightarrow>
    pr_fencing_token r' = pr_fencing_token r \<Longrightarrow> fresh_row bs r b \<Longrightarrow> p \<in> set ps \<Longrightarrow> pt_organization_id p = ob_organization_id b \<Longrightarrow>
    shifted 1 p p' \<Longrightarrow> queue_step (rs, bs, ps) (put_row pr_run_id r' rs, bs @ [b], put_row pt_organization_id p' ps)"
| withdrawn: "r \<in> set rs \<Longrightarrow> pr_status r = RunWaitingApproval \<Longrightarrow> same_run r' r \<Longrightarrow> pr_status r' = RunCancelled \<Longrightarrow>
    pr_fencing_token r' = pr_fencing_token r \<Longrightarrow> queue_step (rs, bs, ps) (put_row pr_run_id r' rs, bs, ps)"
| closed_run: "r \<in> set rs \<Longrightarrow> b \<in> set bs \<Longrightarrow> open_outbox b \<Longrightarrow> in_step r b \<Longrightarrow> same_run r' r \<Longrightarrow> same_row b' b \<Longrightarrow> \<not> open_outbox b' \<Longrightarrow>
    ob_fencing_token b' = ob_fencing_token b \<Longrightarrow> pr_fencing_token r' = pr_fencing_token r \<Longrightarrow> terminal (pr_status r') \<Longrightarrow>
    (pr_status r' = RunFinishedUngraded \<longrightarrow> pr_status r = RunRunning) \<Longrightarrow>
    (pr_status r' = RunCancelled \<longrightarrow> pr_status r \<in> {RunQueued, RunLeased}) \<Longrightarrow>
    p \<in> set ps \<Longrightarrow> pt_organization_id p = ob_organization_id b \<Longrightarrow> shifted (- 1) p p' \<Longrightarrow>
    queue_step (rs, bs, ps) (put_row pr_run_id r' rs, put_row ob_outbox_id b' bs, put_row pt_organization_id p' ps)"
| leased: "r \<in> set rs \<Longrightarrow> b \<in> set bs \<Longrightarrow> open_outbox b \<Longrightarrow> in_step r b \<Longrightarrow> same_run r' r \<Longrightarrow> same_row b' b \<Longrightarrow> ob_status b' = OutboxLeased \<Longrightarrow>
    pr_status r' = (if ob_status b = OutboxReady then RunLeased else RunRecovering) \<Longrightarrow>
    ob_fencing_token b' = ob_fencing_token b + 1 \<Longrightarrow> pr_fencing_token r' = pr_fencing_token r + 1 \<Longrightarrow>
    pr_lease_owner_hash r' = ob_lease_owner_hash b' \<Longrightarrow> p \<in> set ps \<Longrightarrow> shifted 0 p p' \<Longrightarrow>
    queue_step (rs, bs, ps) (put_row pr_run_id r' rs, put_row ob_outbox_id b' bs, put_row pt_organization_id p' ps)"
| held: "r \<in> set rs \<Longrightarrow> b \<in> set bs \<Longrightarrow> open_outbox b \<Longrightarrow> in_step r b \<Longrightarrow> same_run r' r \<Longrightarrow> same_row b' b \<Longrightarrow> open_outbox b' \<Longrightarrow> in_step r' b' \<Longrightarrow>
    pr_fencing_token r' = pr_fencing_token r \<Longrightarrow> ob_status b \<noteq> OutboxReady \<Longrightarrow>
    pr_status r' = pr_status r \<or> pr_status r' = RunQueued \<or> (pr_status r' = RunRunning \<and> pr_status r \<noteq> RunRunning) \<Longrightarrow>
    queue_step (rs, bs, ps) (put_row pr_run_id r' rs, put_row ob_outbox_id b' bs, ps)"

subsection \<open>Replacing a row\<close>

lemma put_row_absent: "key x \<notin> key ` set xs \<Longrightarrow> put_row key x xs = xs"
  unfolding put_row_def by (rule map_idI) (metis imageI)

lemma put_row_snoc: "put_row key x (xs @ [y]) = put_row key x xs @ [if key y = key x then x else y]"
  by (simp add: put_row_def)

lemma set_put_row_member:
  assumes "distinct (map key xs)" and "x \<in> set xs" and "key x' = key x"
  shows "set (put_row key x' xs) = insert x' (set xs - {x})"
proof -
  have "key y = key x' \<longleftrightarrow> y = x" if "y \<in> set xs" for y
    using assms that by (auto simp: distinct_map inj_on_def)
  then show ?thesis using assms(2) by (auto simp: put_row_def image_iff)
qed

lemma count_put_row:
  assumes "distinct (map key xs)" and "x \<in> set xs" and "key x' = key x"
  shows "int (length (filter P (put_row key x' xs))) = int (length (filter P xs)) - of_bool (P x) + of_bool (P x')"
  using assms
proof (induction xs)
  case (Cons y ys)
  show ?case
  proof (cases "y = x")
    case True
    then have "put_row key x' ys = ys" using Cons.prems by (intro put_row_absent) auto
    moreover have "put_row key x' (y # ys) = x' # put_row key x' ys" using True Cons.prems by (simp add: put_row_def)
    ultimately show ?thesis using True by simp
  next
    case False
    then have "key y \<noteq> key x'" using Cons.prems by auto
    then have "put_row key x' (y # ys) = y # put_row key x' ys" by (simp add: put_row_def)
    then show ?thesis using Cons False by auto
  qed
qed simp

text \<open>An update with a condition that only one row meets replaces that row.\<close>

lemma update_rows_put:
  assumes "distinct (map key xs)" and "x \<in> set xs" and "P x" and "\<And>y. y \<in> set xs \<Longrightarrow> P y \<Longrightarrow> key y = key x" and "key (f x) = key x"
  shows "update_rows P f xs = put_row key (f x) xs"
proof -
  have k: "key y = key x \<longleftrightarrow> y = x" if "y \<in> set xs" for y
    using assms(1,2) that by (auto simp: distinct_map inj_on_def)
  then have "P y \<longleftrightarrow> y = x" if "y \<in> set xs" for y
    using assms(3,4) that by metis
  note this k
  then show ?thesis unfolding update_rows_def put_row_def assms(5) by (intro map_cong refl) simp
qed

lemma update_rows_none: "(\<And>y. y \<in> set xs \<Longrightarrow> \<not> P y) \<Longrightarrow> update_rows P f xs = xs"
  unfolding update_rows_def by (rule map_idI) auto

subsection \<open>Steps keep the invariant\<close>

lemma in_step_status: "in_step r b \<Longrightarrow> open_outbox b \<Longrightarrow> live r"
  by (auto simp: in_step_def status_pair_def live_def)

lemma in_step_open: "in_step r b \<Longrightarrow> open_outbox b"
  by (auto simp: in_step_def status_pair_def open_outbox_def)

lemma open_rows_snoc: "open_rows org (bs @ [b]) = open_rows org bs + of_bool (ob_organization_id b = org \<and> open_outbox b)"
  by (simp add: open_rows_def)

lemma open_rows_put:
  assumes "distinct (map ob_outbox_id bs)" and "b \<in> set bs" and "same_row b' b"
  shows "int (open_rows org (put_row ob_outbox_id b' bs)) = int (open_rows org bs) +
     (if ob_organization_id b = org then of_bool (open_outbox b') - of_bool (open_outbox b) else 0)"
  using count_put_row [of ob_outbox_id bs b b' "\<lambda>b. ob_organization_id b = org \<and> open_outbox b"] assms
  by (auto simp: open_rows_def same_row_def)

text \<open>Counts: a row changes, and its partition is shifted by the difference.\<close>

lemma counts_put:
  assumes "queue_counts (rs, bs, ps)" and ps: "distinct (map pt_organization_id ps)" and p: "p \<in> set ps" and s: "shifted d p p'"
    and bs: "ob_organization_id ` set bs' \<subseteq> pt_organization_id ` set ps"
    and n: "\<And>org. int (open_rows org bs') = int (open_rows org bs) + (if org = pt_organization_id p then d else 0)"
  shows "queue_counts (rs', bs', put_row pt_organization_id p' ps)"
proof -
  have eq: "pt_organization_id p' = pt_organization_id p" using s by (simp add: shifted_def)
  have set: "set (put_row pt_organization_id p' ps) = insert p' (set ps - {p})" by (rule set_put_row_member [OF ps p eq])
  have "pt_organization_id ` set (put_row pt_organization_id p' ps) = pt_organization_id ` set ps"
    using arg_cong [OF put_row_keys [of pt_organization_id p' ps], of set] by (simp del: put_row_keys)
  moreover have "pt_ready_count x = int (open_rows (pt_organization_id x) bs') \<and> (0 < pt_ready_count x \<longrightarrow> pt_status x = PartitionReady)"
    if x: "x \<in> set (put_row pt_organization_id p' ps)" for x
  proof (cases "x = p'")
    case True
    then show ?thesis using assms(1) p s n [of "pt_organization_id p"] eq by (auto simp: queue_counts_def shifted_def)
  next
    case False
    then have "x \<in> set ps" "x \<noteq> p" using x set by auto
    then have "pt_organization_id x \<noteq> pt_organization_id p" using ps p by (auto simp: distinct_map inj_on_def)
    then show ?thesis using assms(1) n [of "pt_organization_id x"] \<open>x \<in> set ps\<close> by (auto simp: queue_counts_def)
  qed
  ultimately show ?thesis using bs by (simp add: queue_counts_def)
qed

text \<open>Runs and rows: one run and its row change together.\<close>

lemma runs_put:
  assumes "queue_runs (rs, bs, ps)" and keys: "queue_keys (rs, bs, ps)"
    and rb: "r \<in> set rs" "b \<in> set bs" "open_outbox b" "in_step r b" and same: "same_run r' r" "same_row b' b"
    and "in_step r' b' \<or> (\<not> open_outbox b' \<and> terminal (pr_status r'))"
  shows "queue_runs (put_row pr_run_id r' rs, put_row ob_outbox_id b' bs, ps')"
proof -
  have keys': "distinct (map pr_run_id rs)" "distinct (map ob_outbox_id bs)" "distinct (map outbox_run bs)"
    using keys by (simp_all add: queue_keys_def)
  have R: "set (put_row pr_run_id r' rs) = insert r' (set rs - {r})"
    using set_put_row_member [OF keys'(1) rb(1)] same by (simp add: same_run_def)
  have B: "set (put_row ob_outbox_id b' bs) = insert b' (set bs - {b})"
    using set_put_row_member [OF keys'(2) rb(2)] same by (simp add: same_row_def)
  have one: "x = b" if "x \<in> set bs" "outbox_run x = outbox_run b" for x
    using keys'(3) rb(2) that by (auto simp: distinct_map inj_on_def)
  have "\<exists>s \<in> set (put_row pr_run_id r' rs). in_step s x" if x: "x \<in> set (put_row ob_outbox_id b' bs)" "open_outbox x" for x
  proof (cases "x = b'")
    case False
    then have x': "x \<in> set bs" "x \<noteq> b" using x(1) B by auto
    then obtain s where s: "s \<in> set rs" "in_step s x" using assms(1) x(2) by (auto simp: queue_runs_def)
    then have "s \<noteq> r" using one [OF x'(1)] x'(2) rb(4) by (auto simp: in_step_def)
    with s R show ?thesis by auto
  qed (use x assms(9) R in auto)
  moreover have "\<exists>x \<in> set (put_row ob_outbox_id b' bs). open_outbox x \<and> outbox_run x = org_run s"
    if s: "s \<in> set (put_row pr_run_id r' rs)" "live s" for s
  proof (cases "s = r'")
    case True
    then have "in_step r' b'" using assms(9) s(2) by (auto simp: live_def terminal_def)
    then show ?thesis using B True in_step_open by (auto simp: in_step_def)
  next
    case False
    then have s': "s \<in> set rs" "s \<noteq> r" using s R by auto
    then obtain x where x: "x \<in> set bs" "open_outbox x" "outbox_run x = org_run s" using assms(1) s(2) by (auto simp: queue_runs_def)
    have "x \<noteq> b" using x(3) rb(1,4) s' keys'(1) by (auto simp: in_step_def distinct_map inj_on_def)
    with x B show ?thesis by auto
  qed
  moreover have "pr_fencing_token s = 0" if "s \<in> set (put_row pr_run_id r' rs)" "pr_status s = RunWaitingApproval" for s
    using that R assms(1,9) by (auto simp: queue_runs_def in_step_def status_pair_def terminal_def)
  ultimately show ?thesis by (auto simp: queue_runs_def)
qed

lemma same_row_keys:
  assumes "distinct (map ob_outbox_id bs)" and "b \<in> set bs" and "same_row b' b"
  shows "map outbox_run (put_row ob_outbox_id b' bs) = map outbox_run bs"
proof -
  have "outbox_run (if ob_outbox_id x = ob_outbox_id b' then b' else x) = outbox_run x" if x: "x \<in> set bs" for x
  proof (cases "ob_outbox_id x = ob_outbox_id b'")
    case True
    then have "ob_outbox_id x = ob_outbox_id b" using assms(3) by (simp add: same_row_def)
    then have "x = b" using x assms(1,2) by (auto simp: distinct_map inj_on_def)
    then show ?thesis using True assms(3) by (simp add: same_row_def)
  qed simp
  then show ?thesis by (simp add: put_row_def)
qed

lemma keys_put:
  assumes "queue_keys (rs, bs, ps)" and "b \<in> set bs" and "same_row b' b"
  shows "queue_keys (put_row pr_run_id r' rs, put_row ob_outbox_id b' bs, put_row pt_organization_id p' ps)"
  using assms same_row_keys [of bs b b'] by (simp add: queue_keys_def)

lemma queue_step_ok:
  assumes "queue_step q q'" and "queue_ok q"
  shows "queue_ok q'"
  using assms
proof (cases rule: queue_step.cases)
  case (opened p ps rs bs)
  have "p' \<in> set ps \<Longrightarrow> pt_organization_id p' \<noteq> pt_organization_id p" for p' using opened(4) by (metis imageI)
  moreover have "ob_organization_id ` set bs \<subseteq> pt_organization_id ` set ps"
    using assms(2) opened(1) by (simp add: queue_ok_def queue_counts_def)
  then have "ob_organization_id b \<noteq> pt_organization_id p" if "b \<in> set bs" for b using opened(4) that by (metis imageI subsetD)
  then have "open_rows (pt_organization_id p) bs = 0" by (simp add: open_rows_def filter_empty_conv)
  ultimately show ?thesis using assms(2) opened by (auto simp: queue_ok_def queue_keys_def queue_counts_def queue_runs_def)
next
  case (scanned p ps p' rs bs)
  have "queue_counts (rs, bs, put_row pt_organization_id p' ps)"
    using assms(2) scanned by (intro counts_put [of rs bs ps p 0]) (auto simp: queue_ok_def queue_keys_def queue_counts_def)
  then show ?thesis using assms(2) scanned by (auto simp: queue_ok_def queue_keys_def queue_runs_def)
next
  case (submitted r rs bs ps)
  then show ?thesis using assms(2) by (auto simp: queue_ok_def queue_keys_def queue_counts_def queue_runs_def live_def)
next
  case (admitted r rs bs b p ps p')
  have keys: "distinct (map pt_organization_id ps)" using assms(2) admitted(1) by (simp add: queue_ok_def queue_keys_def)
  have org: "pr_organization_id r \<in> pt_organization_id ` set ps" using admitted(6-8) by (simp add: fresh_row_def) (metis imageI)
  have "queue_counts (rs @ [r], bs @ [b], put_row pt_organization_id p' ps)"
    using assms(2) admitted org by (intro counts_put [of rs bs ps p 1] keys)
      (auto simp: queue_ok_def queue_counts_def open_rows_snoc fresh_row_def open_outbox_def)
  moreover have "in_step r b" using admitted by (simp add: fresh_row_def in_step_def status_pair_def)
  ultimately show ?thesis using assms(2) admitted
    by (auto simp: queue_ok_def queue_keys_def queue_runs_def fresh_row_def open_outbox_def live_def)
next
  case (handed_over r rs r' bs b p ps p')
  have keys: "distinct (map pt_organization_id ps)" "distinct (map pr_run_id rs)"
    using assms(2) handed_over(1) by (simp_all add: queue_ok_def queue_keys_def)
  have R: "set (put_row pr_run_id r' rs) = insert r' (set rs - {r})"
    using handed_over by (intro set_put_row_member keys) (auto simp: same_run_def)
  have org: "pr_organization_id r \<in> pt_organization_id ` set ps" using handed_over(8-10) by (simp add: fresh_row_def) (metis imageI)
  have "queue_counts (put_row pr_run_id r' rs, bs @ [b], put_row pt_organization_id p' ps)"
    using assms(2) handed_over org by (intro counts_put [of rs bs ps p 1] keys)
      (auto simp: queue_ok_def queue_counts_def open_rows_snoc fresh_row_def open_outbox_def)
  moreover have "in_step r' b" using handed_over assms(2)
    by (auto simp: fresh_row_def in_step_def status_pair_def same_run_def queue_ok_def queue_runs_def)
  moreover have "\<not> in_step r x" for x using handed_over(4) by (auto simp: in_step_def status_pair_def)
  then have "\<exists>s \<in> insert r' (set rs - {r}). in_step s x" if "x \<in> set bs" "open_outbox x" for x
    using assms(2) [unfolded handed_over(1) queue_ok_def queue_runs_def prod.case] that by blast
  moreover have "org_run r' = outbox_run b" using handed_over by (simp add: same_run_def fresh_row_def)
  ultimately show ?thesis using assms(2) handed_over
    by (auto simp: queue_ok_def queue_keys_def queue_runs_def R fresh_row_def open_outbox_def)
next
  case (withdrawn r rs r' bs ps)
  have R: "set (put_row pr_run_id r' rs) = insert r' (set rs - {r})"
    using assms(2) withdrawn by (intro set_put_row_member) (auto simp: same_run_def queue_ok_def queue_keys_def)
  have "\<not> in_step r x" for x using withdrawn(4) by (auto simp: in_step_def status_pair_def)
  then have "\<exists>s \<in> insert r' (set rs - {r}). in_step s x" if "x \<in> set bs" "open_outbox x" for x
    using assms(2) [unfolded withdrawn(1) queue_ok_def queue_runs_def prod.case] that by blast
  then show ?thesis using assms(2) withdrawn
    by (auto simp: queue_ok_def queue_keys_def queue_counts_def queue_runs_def R live_def)
next
  case (closed_run r rs b bs r' b' p ps p')
  have ok: "queue_keys (rs, bs, ps)" "queue_counts (rs, bs, ps)" "queue_runs (rs, bs, ps)"
    using assms(2) closed_run(1) by (simp_all add: queue_ok_def)
  have "queue_counts (put_row pr_run_id r' rs, put_row ob_outbox_id b' bs, put_row pt_organization_id p' ps)"
  proof (rule counts_put [OF ok(2) _ closed_run(15,17)])
    show "distinct (map pt_organization_id ps)" using ok(1) by (simp add: queue_keys_def)
    have B: "set (put_row ob_outbox_id b' bs) = insert b' (set bs - {b})"
      using ok(1) closed_run by (intro set_put_row_member) (auto simp: queue_keys_def same_row_def)
    show "ob_organization_id ` set (put_row ob_outbox_id b' bs) \<subseteq> pt_organization_id ` set ps"
      using ok(2) closed_run unfolding B by (auto simp: queue_counts_def same_row_def)
    show "int (open_rows org (put_row ob_outbox_id b' bs)) = int (open_rows org bs) + (if org = pt_organization_id p then - 1 else 0)" for org
      using open_rows_put [of bs b b' org] ok(1) closed_run by (auto simp: queue_keys_def)
  qed
  then show ?thesis
    using keys_put [OF ok(1)] runs_put [OF ok(3,1)] closed_run by (simp add: queue_ok_def)
next
  case (leased r rs b bs r' b' p ps p')
  have ok: "queue_keys (rs, bs, ps)" "queue_counts (rs, bs, ps)" "queue_runs (rs, bs, ps)"
    using assms(2) leased(1) by (simp_all add: queue_ok_def)
  have open': "open_outbox b'" using leased by (simp add: open_outbox_def)
  have "queue_counts (put_row pr_run_id r' rs, put_row ob_outbox_id b' bs, put_row pt_organization_id p' ps)"
  proof (rule counts_put [OF ok(2) _ leased(14,15)])
    show "distinct (map pt_organization_id ps)" using ok(1) by (simp add: queue_keys_def)
    have B: "set (put_row ob_outbox_id b' bs) = insert b' (set bs - {b})"
      using ok(1) leased by (intro set_put_row_member) (auto simp: queue_keys_def same_row_def)
    show "ob_organization_id ` set (put_row ob_outbox_id b' bs) \<subseteq> pt_organization_id ` set ps"
      using ok(2) leased unfolding B by (auto simp: queue_counts_def same_row_def)
    show "int (open_rows org (put_row ob_outbox_id b' bs)) = int (open_rows org bs) + (if org = pt_organization_id p then 0 else 0)" for org
      using open_rows_put [of bs b b' org] ok(1) leased open' by (auto simp: queue_keys_def)
  qed
  moreover have "in_step r' b'" using leased by (auto simp: in_step_def same_run_def same_row_def status_pair_def)
  ultimately show ?thesis
    using keys_put [OF ok(1)] runs_put [OF ok(3,1)] leased by (simp add: queue_ok_def)
next
  case (held r rs b bs r' b' ps)
  have ok: "queue_keys (rs, bs, ps)" "queue_counts (rs, bs, ps)" "queue_runs (rs, bs, ps)"
    using assms(2) held(1) by (simp_all add: queue_ok_def)
  have B: "set (put_row ob_outbox_id b' bs) = insert b' (set bs - {b})"
    using ok(1) held by (intro set_put_row_member) (auto simp: queue_keys_def same_row_def)
  have "int (open_rows org (put_row ob_outbox_id b' bs)) = int (open_rows org bs)" for org
    using open_rows_put [of bs b b' org] ok(1) held by (simp add: queue_keys_def)
  then have "queue_counts (put_row pr_run_id r' rs, put_row ob_outbox_id b' bs, ps)"
    using ok(2) held by (auto simp: queue_counts_def B same_row_def)
  moreover have "queue_keys (put_row pr_run_id r' rs, put_row ob_outbox_id b' bs, ps)"
    using keys_put [OF ok(1), of b b' r' undefined] held ok(1) by (simp add: queue_keys_def)
  ultimately show ?thesis using runs_put [OF ok(3,1)] held by (simp add: queue_ok_def)
qed

lemma queue_steps_ok: "queue_step\<^sup>*\<^sup>* q q' \<Longrightarrow> queue_ok q \<Longrightarrow> queue_ok q'"
  by (induction rule: rtranclp_induct) (auto intro: queue_step_ok)

subsection \<open>The life of a run\<close>

text \<open>A state is the status of a run with its fencing token.\<close>

definition leased_status :: "production_run_status \<Rightarrow> bool" where
  "leased_status st \<longleftrightarrow> st \<in> {RunLeased, RunRecovering, RunRunning}"

inductive lifecycle :: "production_run_status \<times> int \<Rightarrow> production_run_status \<times> int \<Rightarrow> bool" where
  life_queue: "lifecycle (RunWaitingApproval, f) (RunQueued, f)"
| life_withdraw: "lifecycle (RunWaitingApproval, f) (RunCancelled, f)"
| life_lease: "lifecycle (RunQueued, f) (RunLeased, f + 1)"
| life_reclaim: "leased_status st \<Longrightarrow> lifecycle (st, f) (RunRecovering, f + 1)"
| life_start: "st \<in> {RunLeased, RunRecovering} \<Longrightarrow> lifecycle (st, f) (RunRunning, f)"
| life_release: "leased_status st \<Longrightarrow> lifecycle (st, f) (RunQueued, f)"
| life_finish: "lifecycle (RunRunning, f) (RunFinishedUngraded, f)"
| life_cancel: "st \<in> {RunQueued, RunLeased} \<Longrightarrow> lifecycle (st, f) (RunCancelled, f)"
| life_fail: "st = RunQueued \<or> leased_status st \<Longrightarrow> st' \<in> {RunFailed, RunExpired} \<Longrightarrow> lifecycle (st, f) (st', f)"

inductive_cases lifecycleE: "lifecycle (st, f) (st', f')"

definition life_of :: "production_run \<Rightarrow> production_run_status \<times> int" where
  "life_of r = (pr_status r, pr_fencing_token r)"

definition runs_move :: "production_run list \<Rightarrow> production_run list \<Rightarrow> bool" where
  "runs_move rs rs' \<longleftrightarrow> (\<forall>r \<in> set rs. \<exists>r' \<in> set rs'. same_run r' r \<and> lifecycle\<^sup>*\<^sup>* (life_of r) (life_of r'))"

definition rows_grow :: "dispatch_outbox list \<Rightarrow> dispatch_outbox list \<Rightarrow> bool" where
  "rows_grow bs bs' \<longleftrightarrow> (\<forall>b \<in> set bs. \<exists>b' \<in> set bs'. same_row b' b \<and> ob_fencing_token b \<le> ob_fencing_token b')"

lemma runs_move_trans: "runs_move rs rs' \<Longrightarrow> runs_move rs' rs'' \<Longrightarrow> runs_move rs rs''"
proof (unfold runs_move_def, rule ballI)
  fix r assume a: "\<forall>r \<in> set rs. \<exists>r' \<in> set rs'. same_run r' r \<and> lifecycle\<^sup>*\<^sup>* (life_of r) (life_of r')"
    "\<forall>r \<in> set rs'. \<exists>r' \<in> set rs''. same_run r' r \<and> lifecycle\<^sup>*\<^sup>* (life_of r) (life_of r')" and "r \<in> set rs"
  then obtain r' where r': "r' \<in> set rs'" "same_run r' r" "lifecycle\<^sup>*\<^sup>* (life_of r) (life_of r')" by blast
  then obtain r'' where "r'' \<in> set rs''" "same_run r'' r'" "lifecycle\<^sup>*\<^sup>* (life_of r') (life_of r'')" using a(2) by blast
  with r' show "\<exists>r' \<in> set rs''. same_run r' r \<and> lifecycle\<^sup>*\<^sup>* (life_of r) (life_of r')"
    by (intro bexI [of _ r'']) (auto simp: same_run_def)
qed

lemma rows_grow_trans: "rows_grow bs bs' \<Longrightarrow> rows_grow bs' bs'' \<Longrightarrow> rows_grow bs bs''"
  unfolding rows_grow_def same_row_def by (metis order_trans)

lemma runs_move_append: "runs_move rs (rs @ xs)" and rows_grow_append: "rows_grow bs (bs @ ys)"
  by (auto simp: runs_move_def rows_grow_def same_run_def same_row_def)

lemma runs_move_put:
  assumes "distinct (map pr_run_id rs)" and "r \<in> set rs" and "same_run r' r" and "lifecycle\<^sup>=\<^sup>= (life_of r) (life_of r')"
  shows "runs_move rs (put_row pr_run_id r' rs)"
proof -
  have "set (put_row pr_run_id r' rs) = insert r' (set rs - {r})"
    using set_put_row_member [OF assms(1,2)] assms(3) by (simp add: same_run_def)
  moreover have "lifecycle\<^sup>*\<^sup>* (life_of r) (life_of r')" using assms(4) by auto
  ultimately show ?thesis using assms(3) unfolding runs_move_def same_run_def by (metis DiffI insertE insertI1 insertI2 rtranclp.rtrancl_refl singletonD)
qed

lemma rows_grow_put:
  assumes "distinct (map ob_outbox_id bs)" and "b \<in> set bs" and "same_row b' b" and "ob_fencing_token b \<le> ob_fencing_token b'"
  shows "rows_grow bs (put_row ob_outbox_id b' bs)"
proof -
  have "set (put_row ob_outbox_id b' bs) = insert b' (set bs - {b})"
    using set_put_row_member [OF assms(1,2)] assms(3) by (simp add: same_row_def)
  then show ?thesis using assms(3,4) unfolding rows_grow_def same_row_def by (metis DiffI insertI1 insertI2 order_refl singletonD)
qed

lemma in_step_life: "in_step r b \<Longrightarrow> ob_status b \<noteq> OutboxReady \<Longrightarrow> leased_status (pr_status r)"
  "in_step r b \<Longrightarrow> pr_status r = RunQueued \<or> leased_status (pr_status r)"
  "in_step r b \<Longrightarrow> ob_status b = OutboxReady \<Longrightarrow> pr_status r = RunQueued"
  by (auto simp: in_step_def status_pair_def leased_status_def)

lemma queue_step_moves:
  assumes "queue_step q q'" and "queue_ok q"
  shows "runs_move (fst q) (fst q') \<and> rows_grow (fst (snd q)) (fst (snd q'))"
  using assms
proof (cases rule: queue_step.cases)
  case (handed_over r rs r' bs b p ps p')
  have "lifecycle (life_of r) (life_of r')" using handed_over life_queue by (simp add: life_of_def)
  then show ?thesis using assms(2) handed_over runs_move_put [of rs r r'] rows_grow_append
    by (simp add: queue_ok_def queue_keys_def)
next
  case (withdrawn r rs r' bs ps)
  have "lifecycle (life_of r) (life_of r')" using withdrawn life_withdraw by (simp add: life_of_def)
  then show ?thesis using assms(2) withdrawn runs_move_put [of rs r r'] rows_grow_append [of bs "[]"]
    by (simp add: queue_ok_def queue_keys_def)
next
  case (closed_run r rs b bs r' b' p ps p')
  have "lifecycle (life_of r) (life_of r')"
    using closed_run in_step_life(2) [OF closed_run(6)] life_finish life_cancel [of "pr_status r"] life_fail [of "pr_status r" "pr_status r'"]
    by (auto simp: life_of_def terminal_def)
  then show ?thesis using assms(2) closed_run runs_move_put [of rs r r'] rows_grow_put [of bs b b']
    by (simp add: queue_ok_def queue_keys_def)
next
  case (leased r rs b bs r' b' p ps p')
  have "lifecycle (life_of r) (life_of r')"
    using leased in_step_life(1,3) [OF leased(6)] life_lease life_reclaim [of "pr_status r"] by (auto simp: life_of_def)
  then show ?thesis using assms(2) leased runs_move_put [of rs r r'] rows_grow_put [of bs b b']
    by (simp add: queue_ok_def queue_keys_def)
next
  case (held r rs b bs r' b' ps)
  have "lifecycle\<^sup>=\<^sup>= (life_of r) (life_of r')"
    using held in_step_life(1) [OF held(6)] life_release [of "pr_status r"] life_start [of "pr_status r"]
    by (auto simp: life_of_def leased_status_def)
  moreover have "ob_fencing_token b' = ob_fencing_token b" using held by (simp add: in_step_def)
  ultimately show ?thesis using assms(2) held runs_move_put [of rs r r'] rows_grow_put [of bs b b']
    by (simp add: queue_ok_def queue_keys_def)
qed (use runs_move_append [of _ "[]"] runs_move_append rows_grow_append [of _ "[]"] rows_grow_append in \<open>simp_all\<close>)

lemma queue_steps_move:
  "queue_step\<^sup>*\<^sup>* q q' \<Longrightarrow> queue_ok q \<Longrightarrow> queue_ok q' \<and> runs_move (fst q) (fst q') \<and> rows_grow (fst (snd q)) (fst (snd q'))"
proof (induction rule: rtranclp_induct)
  case base
  then show ?case using runs_move_append [of _ "[]"] rows_grow_append [of _ "[]"] by simp
next
  case (step q' q'')
  then show ?case using queue_step_ok queue_step_moves runs_move_trans rows_grow_trans by meson
qed

lemma lifecycle_terminal: "lifecycle x y \<Longrightarrow> \<not> terminal (fst x)"
  by (cases rule: lifecycle.cases) (auto simp: terminal_def leased_status_def)

lemma lifecycle_fence: "lifecycle x y \<Longrightarrow> snd x \<le> snd y"
  by (cases rule: lifecycle.cases) auto

lemma lifecycles:
  assumes "lifecycle\<^sup>*\<^sup>* x y"
  shows "snd x \<le> snd y" and "terminal (fst x) \<Longrightarrow> y = x"
proof -
  show "snd x \<le> snd y" using assms by (induction rule: rtranclp_induct) (auto dest: lifecycle_fence)
  show "terminal (fst x) \<Longrightarrow> y = x" using assms by (induction rule: rtranclp_induct) (auto dest: lifecycle_terminal)
qed

end
