(* ===== verification/Queue_Worker.thy ===== *)
theory Queue_Worker
  imports Queue_Protocol Approval_Effects
begin

section \<open>The worker follows the protocol\<close>

text \<open>
  Each method of the worker's repository is one transaction; the lemmas \<open>*_steps\<close> show that what it
  commits is a sequence of steps of the protocol. They are proved with the rules of \<open>returns\<close>, which
  execute a method symbolically on the queue and pass over the statements that do not touch it.
\<close>

subsection \<open>Symbolic execution on the queue\<close>

text \<open>Whenever the method returns, the value and the queue it leaves satisfy \<open>E\<close>.\<close>

definition returns :: "('a \<Rightarrow> queue \<Rightarrow> bool) \<Rightarrow> queue \<Rightarrow> 'a control \<Rightarrow> bool" where
  "returns E q m \<longleftrightarrow> (\<forall>s x s'. queue_of (current s) = q \<longrightarrow> m s = (Inr x, s') \<longrightarrow> E x (queue_of (current s')))"

definition quiet :: "'a control \<Rightarrow> bool" where
  "quiet m \<longleftrightarrow> (\<forall>s x s'. m s = (Inr x, s') \<longrightarrow> queue_of (current s') = queue_of (current s))"

named_theorems quiet_rules

lemma returns_ret: "E x q \<Longrightarrow> returns E q (ret x)" and returns_raise: "returns E q (raise e)"
  by (auto simp: returns_def)

lemma returns_andthen: "returns (\<lambda>x q'. returns E q' (f x)) q m \<Longrightarrow> returns E q (andthen m f)"
  unfolding returns_def run_iff by blast

lemma returns_quiet: "quiet m \<Longrightarrow> (\<And>x. returns E q (f x)) \<Longrightarrow> returns E q (andthen m f)"
  unfolding returns_def quiet_def run_iff by metis

lemma returns_require: "(b \<Longrightarrow> returns E q (f ())) \<Longrightarrow> returns E q (andthen (require b e) f)"
  unfolding returns_def run_iff by auto

lemma returns_if: "(b \<Longrightarrow> returns E q m) \<Longrightarrow> (\<not> b \<Longrightarrow> returns E q m') \<Longrightarrow> returns E q (if b then m else m')"
  by simp

lemma returns_mono: "returns E q m \<Longrightarrow> (\<And>x q'. E x q' \<Longrightarrow> E' x q') \<Longrightarrow> returns E' q m"
  unfolding returns_def by blast

lemma returns_of_quiet: "quiet m \<Longrightarrow> (\<And>x. E x q) \<Longrightarrow> returns E q m"
  unfolding returns_def quiet_def by metis

lemma quiet_simps [quiet_rules]: "quiet (ret x)" "quiet (raise e)" "quiet (query g)" "quiet (scalar tbl P)" "quiet (draw h)" "quiet (require b e)"
  "quiet (opaque_id v pre)" "quiet (find_run org i)" "quiet flush"
  by (auto simp: quiet_def scalar_def opaque_id_def)

lemma quiet_andthen [quiet_rules]: "quiet m \<Longrightarrow> (\<And>x. quiet (f x)) \<Longrightarrow> quiet (andthen m f)"
  unfolding quiet_def run_iff by metis

lemma quiet_if [quiet_rules]: "quiet m \<Longrightarrow> quiet m' \<Longrightarrow> quiet (if b then m else m')"
  by simp

lemma quiet_option [quiet_rules]: "quiet m \<Longrightarrow> (\<And>y. quiet (f y)) \<Longrightarrow> quiet (case x of None \<Rightarrow> m | Some y \<Rightarrow> f y)"
  by (cases x) simp_all

lemma quiet_sum [quiet_rules]: "(\<And>y. quiet (f y)) \<Longrightarrow> (\<And>y. quiet (g y)) \<Longrightarrow> quiet (case x of Inl y \<Rightarrow> f y | Inr y \<Rightarrow> g y)"
  by (cases x) simp_all

lemma quiet_list [quiet_rules]: "quiet m \<Longrightarrow> (\<And>y ys. quiet (f y ys)) \<Longrightarrow> quiet (case xs of [] \<Rightarrow> m | y # ys \<Rightarrow> f y ys)"
  by (cases xs) simp_all

lemma quiet_prod [quiet_rules]: "(\<And>y z. quiet (f y z)) \<Longrightarrow> quiet (case x of (y, z) \<Rightarrow> f y z)"
  by (cases x) simp_all

lemma quiet_store: "(\<And>t. queue_of (f t) = queue_of t) \<Longrightarrow> quiet (store f)"
  by (simp add: quiet_def)

lemma quiet_execute: "(\<And>t. queue_of (f t) = queue_of t) \<Longrightarrow> quiet (execute f)"
  unfolding execute_def by (intro quiet_rules quiet_store)

lemma queue_of_upd [simp]:
  "queue_of (upd_events f1 t) = queue_of t" "queue_of (upd_heads f2 t) = queue_of t" "queue_of (upd_traces f3 t) = queue_of t"
  "queue_of (upd_leases f4 t) = queue_of t" "queue_of (upd_requests f5 t) = queue_of t" "queue_of (upd_grants f6 t) = queue_of t"
  "queue_of (upd_buckets f7 t) = queue_of t" "queue_of (upd_idempotency f8 t) = queue_of t" "queue_of (upd_decisions f9 t) = queue_of t"
  by (simp_all add: queue_of_def upd_defs)

lemma quiet_one_or_none [quiet_rules]: "quiet (one_or_none rs)"
  by (auto simp: quiet_def one_or_none_def split: list.splits)

lemma quiet_select_one [quiet_rules]: "quiet (select_one tbl P)"
  unfolding select_one_def by (intro quiet_rules)

lemma quiet_append_audit [quiet_rules]: "quiet (append_audit v org ty actor subject p now)"
  unfolding append_audit_def Let_def by (intro quiet_rules quiet_execute queue_of_upd)

lemma quiet_append_trace [quiet_rules]: "quiet (append_trace_event v org run phase status reason failure attrs now)"
  unfolding append_trace_event_def by (intro quiet_rules quiet_execute queue_of_upd)

lemma quiet_for_each [quiet_rules]: "(\<And>x. quiet (f x)) \<Longrightarrow> quiet (for_each f xs)"
  by (induction xs) (auto intro: quiet_rules)

lemma quiet_lease_history [quiet_rules]: "quiet (lease_history v b st now)"
  unfolding lease_history_def by (intro quiet_rules quiet_execute queue_of_upd)

lemma quiet_update_count: "(\<And>t. queue_of (upd (update_rows P f) t) = queue_of t) \<Longrightarrow> quiet (update_count tbl upd P f)"
  unfolding update_count_def by (intro quiet_rules quiet_execute)

lemma quiet_fail_approval [quiet_rules]: "quiet (fail_approval v owner r reason now)"
  unfolding fail_approval_def Let_def
  by (intro quiet_rules quiet_execute queue_of_upd)

lemma quiet_complete_approval [quiet_rules]: "quiet (complete_approval v i ok receipt now)"
  unfolding complete_approval_def Let_def
  by (intro quiet_rules quiet_update_count queue_of_upd)

lemma quiet_outcome_trace [quiet_rules]: "quiet (append_outcome_trace v i r ok receipt n version now)"
  unfolding append_outcome_trace_def by (intro quiet_rules)

lemma quiet_record_stale [quiet_rules]: "quiet (record_stale_fence v i now)"
  unfolding record_stale_fence_def by (intro quiet_rules)

lemma quiet_reject_stale [quiet_rules]: "quiet (reject_stale v i now)"
  unfolding reject_stale_def by (intro quiet_rules)

lemma quiet_approvals [quiet_rules]: "quiet (worker_approvals org ds)"
  by (induction ds) (auto intro!: quiet_rules split: option.split)

lemma quiet_check_binding [quiet_rules]: "quiet (check_binding v i now check)"
  unfolding check_binding_def worker_authorization_hash_def worker_approval_set_hash_def by (intro quiet_rules)

lemma norm_named [simp]: "run_named org i (norm_run r) = run_named org i r" "held_run w (norm_run r) = held_run w r"
  "fenced_run w (norm_run r) = fenced_run w r"
  by (simp_all add: norm_run_def run_named_def held_run_def fenced_run_def)

lemma norm_run_fields [simp]:
  "pr_run_id (norm_run r) = pr_run_id r" "pr_organization_id (norm_run r) = pr_organization_id r" "pr_status (norm_run r) = pr_status r"
  "pr_fencing_token (norm_run r) = pr_fencing_token r" "pr_lease_owner_hash (norm_run r) = pr_lease_owner_hash r"
  "pr_version (norm_run r) = pr_version r"
  by (simp_all add: norm_run_def)

lemma map_update_rows: "(\<And>r. P (h r) = P r) \<Longrightarrow> (\<And>r. h (f r) = g (h r)) \<Longrightarrow> map h (update_rows P f rs) = update_rows P g (map h rs)"
  by (simp add: update_rows_def)

lemma quiet_set_audit [quiet_rules]: "quiet (set_audit_sequence P n)"
proof -
  have "map norm_run (update_rows P (\<lambda>r. r\<lparr>pr_audit_sequence := n\<rparr>) rs) = map norm_run rs" for rs
    by (simp add: update_rows_def norm_run_def)
  then show ?thesis
    unfolding set_audit_sequence_def update_run_def by (intro quiet_execute) (simp add: queue_of_def upd_runs_def)
qed

subsection \<open>Statements on the queue\<close>

lemma returns_execute:
  assumes "\<And>t. queue_of t = q \<Longrightarrow> queue_of (g t) = q'" and "returns E q' (k ())"
  shows "returns E q (andthen (execute g) k)"
  unfolding returns_def
proof (intro allI impI)
  fix s x s' assume "queue_of (current s) = q" and "andthen (execute g) k s = (Inr x, s')"
  then have "queue_of (current (s\<lparr>current := g (current s)\<rparr>)) = q'" "k () (s\<lparr>current := g (current s)\<rparr>) = (Inr x, s')"
    using assms(1) by (auto simp: execute_def run_iff)
  then show "E x (queue_of (current s'))" using assms(2) unfolding returns_def by blast
qed

lemma returns_update_outbox:
  "returns E (rs, update_rows P f bs, ps) (k ()) \<Longrightarrow> returns E (rs, bs, ps) (andthen (update_outbox P f) k)"
  unfolding update_outbox_def by (erule returns_execute [rotated]) (auto simp: queue_of_def upd_outbox_def)

lemma returns_update_run:
  assumes "\<And>r. P (norm_run r) = P r" and "\<And>r. norm_run (f r) = f (norm_run r)" and "returns E (update_rows P f rs, bs, ps) (k ())"
  shows "returns E (rs, bs, ps) (andthen (update_run P f) k)"
  unfolding update_run_def
  by (rule returns_execute [where q' = "(update_rows P f rs, bs, ps)"])
    (use assms(3) in \<open>auto simp: queue_of_def upd_runs_def map_update_rows [where h = norm_run and g = f] assms(1,2)\<close>)

lemma returns_update_partition:
  "returns E (rs, bs, update_rows (\<lambda>p. pt_organization_id p = org) f ps) (k ()) \<Longrightarrow> returns E (rs, bs, ps) (andthen (update_partition org f) k)"
  unfolding update_partition_def by (erule returns_execute [rotated]) (auto simp: queue_of_def upd_partitions_def)

lemma returns_query:
  assumes "\<And>t. queue_of t = q \<Longrightarrow> returns E q (k (g t))"
  shows "returns E q (andthen (query g) k)"
  using assms unfolding returns_def by (auto simp: run_iff)

lemma returns_count_outbox:
  assumes "returns E (rs, update_rows P f bs, ps) (k (length (filter P bs)))"
  shows "returns E (rs, bs, ps) (andthen (update_count outbox upd_outbox P f) k)"
  unfolding update_count_def method_assoc
proof (rule returns_query)
  fix t assume "queue_of t = (rs, bs, ps)"
  then have "outbox t = bs" by (simp add: queue_of_def)
  then show "returns E (rs, bs, ps) (andthen (execute (upd_outbox (update_rows P f))) (\<lambda>_. andthen (ret (length (filter P (outbox t)))) k))"
    using assms by (intro returns_execute [where q' = "(rs, update_rows P f bs, ps)"]) (auto simp: queue_of_def upd_outbox_def returns_def run_iff)
qed

lemma returns_count_runs:
  assumes "\<And>r. P (norm_run r) = P r" and "\<And>r. norm_run (f r) = f (norm_run r)"
    and "returns E (update_rows P f rs, bs, ps) (k (length (filter P rs)))"
  shows "returns E (rs, bs, ps) (andthen (update_count runs upd_runs P f) k)"
  unfolding update_count_def method_assoc
proof (rule returns_query)
  fix t assume t: "queue_of t = (rs, bs, ps)"
  have "rs = map norm_run (runs t)" using t by (simp add: queue_of_def)
  then have n: "length (filter P (runs t)) = length (filter P rs)" using assms(1) by (simp add: filter_map o_def)
  have "returns E (update_rows P f rs, bs, ps) (andthen (ret (length (filter P (runs t)))) k)"
    using assms(3) n by (auto simp: returns_def run_iff)
  then show "returns E (rs, bs, ps) (andthen (execute (upd_runs (update_rows P f))) (\<lambda>_. andthen (ret (length (filter P (runs t)))) k))"
    by (rule returns_execute [rotated])
      (auto simp: queue_of_def upd_runs_def map_update_rows [where h = norm_run and g = f] assms(1,2))
qed

lemma returns_select:
  assumes "\<And>t r. queue_of t = q \<Longrightarrow> filter P (tbl t) = [r] \<Longrightarrow> returns E q (k (Some r))"
    and "\<And>t. queue_of t = q \<Longrightarrow> filter P (tbl t) = [] \<Longrightarrow> returns E q (k None)"
  shows "returns E q (andthen (select_one tbl P) k)"
  unfolding select_one_def method_assoc
proof (rule returns_query)
  fix t assume t: "queue_of t = q"
  show "returns E q (andthen (one_or_none (filter P (tbl t))) k)"
    using assms [OF t] by (auto simp: one_or_none_def returns_def run_iff split: list.splits)
qed

lemma returns_select_outbox:
  assumes "\<And>b. b \<in> set bs \<Longrightarrow> P b \<Longrightarrow> returns E (rs, bs, ps) (k (Some b))" and "returns E (rs, bs, ps) (k None)"
  shows "returns E (rs, bs, ps) (andthen (select_one outbox P) k)"
  using assms by (intro returns_select) (auto simp: queue_of_def dest!: filter_single)

lemma returns_select_run:
  assumes "\<And>r. norm_run r \<in> set rs \<Longrightarrow> P r \<Longrightarrow> returns E (rs, bs, ps) (k (Some r))" and "returns E (rs, bs, ps) (k None)"
  shows "returns E (rs, bs, ps) (andthen (select_one runs P) k)"
  using assms by (intro returns_select) (auto simp: queue_of_def dest!: filter_single)

subsection \<open>Transactions\<close>

lemma transaction_Inr:
  assumes "transaction m s = (Inr x, s')"
  obtains s1 where "m (s\<lparr>current := committed s\<rparr>) = (Inr x, s1)" and "tables_valid (current s1)"
    and "committed s' = current s1" and "current s' = current s1"
  using assms by (auto simp: transaction_def in_session_def run_iff commit_def split: prod.splits if_splits)

lemma transaction_returns:
  assumes "returns E (queue_of (committed s)) m" and "transaction m s = (Inr x, s')"
  shows "E x (queue_of (committed s'))"
proof -
  obtain s1 where s1: "m (s\<lparr>current := committed s\<rparr>) = (Inr x, s1)" "committed s' = current s1"
    using assms(2) by (rule transaction_Inr)
  have "queue_of (current (s\<lparr>current := committed s\<rparr>)) = queue_of (committed s)" by simp
  then show ?thesis using assms(1) [unfolded returns_def, rule_format, OF _ s1(1)] s1(2) by simp
qed

text \<open>A transaction that raises commits nothing, because its statements do not commit.\<close>

lemma settled_execute [intro]: "settled (execute f)" and settled_flush [intro]: "settled flush"
  and settled_find_run [intro]: "settled (find_run org i)"
  and settled_one [intro]: "settled (one_or_none rs)"
  by (auto simp: settled_def execute_def andthen_def store_def modify_def flush_def find_run_def scalar_def query_def one_or_none_def ret_def raise_def
    split: list.splits)

lemma transaction_Inl:
  assumes "settled m" and "transaction m s = (Inl e, s')"
  shows "committed s' = committed s"
proof -
  have "committed (snd (m (s\<lparr>current := committed s\<rparr>))) = committed s" using assms(1) by (simp add: settled_def)
  then show ?thesis using assms(2)
    by (auto simp: transaction_def in_session_def run_iff commit_def split: prod.splits if_splits)
qed

subsection \<open>Updates as steps\<close>

lemma update_rows_twice: "(\<And>x. P x \<Longrightarrow> P (f x)) \<Longrightarrow> update_rows P g (update_rows P f xs) = update_rows P (\<lambda>x. g (f x)) xs"
  by (simp add: update_rows_def)

lemma the_run:
  assumes "queue_ok (rs, bs, ps)" and "b \<in> set bs" and "open_outbox b" and "r \<in> set rs" and "pr_run_id r = ob_run_id b"
  shows "in_step r b"
proof -
  obtain r' where r': "r' \<in> set rs" "in_step r' b" using assms(1-3) by (auto simp: queue_ok_def queue_runs_def)
  then have "pr_run_id r' = pr_run_id r" using assms(5) by (simp add: in_step_def)
  then have "r' = r" using assms(1,4) r'(1) by (auto simp: queue_ok_def queue_keys_def distinct_map inj_on_def)
  then show ?thesis using r'(2) by simp
qed

lemma the_partition:
  assumes "queue_ok (rs, bs, ps)" and "b \<in> set bs" and "open_outbox b"
  obtains p where "p \<in> set ps" and "pt_organization_id p = ob_organization_id b" and "0 < pt_ready_count p" and "pt_status p = PartitionReady"
proof -
  obtain p where p: "p \<in> set ps" "pt_organization_id p = ob_organization_id b"
    using assms(1,2) by (auto simp: queue_ok_def queue_counts_def)
  have "b \<in> set (filter (\<lambda>x. ob_organization_id x = pt_organization_id p \<and> open_outbox x) bs)" using assms(2,3) p(2) by simp
  then have "0 < open_rows (pt_organization_id p) bs" unfolding open_rows_def by (rule length_pos_if_in_set)
  then show thesis using assms(1) p that by (auto simp: queue_ok_def queue_counts_def)
qed

lemma update_one_partition:
  assumes "queue_ok (rs, bs, ps)" and "p \<in> set ps" and "pt_organization_id (f p) = pt_organization_id p"
  shows "update_rows (\<lambda>x. pt_organization_id x = pt_organization_id p) f ps = put_row pt_organization_id (f p) ps"
  using assms by (intro update_rows_put) (auto simp: queue_ok_def queue_keys_def)

text \<open>The run and the row of a lease, and the updates \<open>g\<close> and \<open>f\<close> whose conditions \<open>R\<close> and \<open>P\<close> pick them out.\<close>

definition picks :: "queue \<Rightarrow> production_run \<Rightarrow> dispatch_outbox \<Rightarrow> (production_run \<Rightarrow> bool) \<Rightarrow> (dispatch_outbox \<Rightarrow> bool)
    \<Rightarrow> (production_run \<Rightarrow> production_run) \<Rightarrow> (dispatch_outbox \<Rightarrow> dispatch_outbox) \<Rightarrow> bool" where
  "picks q r b R P g f \<longleftrightarrow> (case q of (rs, bs, ps) \<Rightarrow> queue_ok q \<and> b \<in> set bs \<and> open_outbox b \<and> r \<in> set rs \<and> in_step r b \<and>
     (\<forall>x. P x \<longrightarrow> ob_outbox_id x = ob_outbox_id b) \<and> (\<forall>x. R x \<longrightarrow> pr_run_id x = pr_run_id r) \<and> P b \<and> R r \<and>
     same_row (f b) b \<and> same_run (g r) r)"

lemma picks_rows:
  assumes "picks (rs, bs, ps) r b R P g f"
  shows "update_rows P f bs = put_row ob_outbox_id (f b) bs" and "update_rows R g rs = put_row pr_run_id (g r) rs"
proof -
  have p: "distinct (map ob_outbox_id bs)" "distinct (map pr_run_id rs)" "b \<in> set bs" "r \<in> set rs" "P b" "R r"
    "ob_outbox_id (f b) = ob_outbox_id b" "pr_run_id (g r) = pr_run_id r"
    and P: "P x \<Longrightarrow> ob_outbox_id x = ob_outbox_id b" and R: "R y \<Longrightarrow> pr_run_id y = pr_run_id r" for x y
    using assms unfolding picks_def prod.case queue_ok_def queue_keys_def same_row_def same_run_def by blast+
  show "update_rows P f bs = put_row ob_outbox_id (f b) bs" using p by (intro update_rows_put) (auto dest: P)
  show "update_rows R g rs = put_row pr_run_id (g r) rs" using p by (intro update_rows_put) (auto dest: R)
qed

lemma close_step:
  assumes "picks (rs, bs, ps) r b R P g f" and "org = ob_organization_id b"
    and "\<not> open_outbox (f b)" and "ob_fencing_token (f b) = ob_fencing_token b" and "pr_fencing_token (g r) = pr_fencing_token r"
    and "pr_status (g r) \<in> {RunFailed, RunExpired} \<or> (pr_status (g r) = RunFinishedUngraded \<and> pr_status r = RunRunning)"
  shows "queue_step (rs, bs, ps) (update_rows R g rs, update_rows P f bs, update_rows (\<lambda>p. pt_organization_id p = org) (partition_left now) ps)"
proof -
  have ok: "queue_ok (rs, bs, ps)" and b: "b \<in> set bs" "open_outbox b" using assms(1) by (simp_all add: picks_def)
  obtain p where p: "p \<in> set ps" "pt_organization_id p = ob_organization_id b" "0 < pt_ready_count p" "pt_status p = PartitionReady"
    using the_partition [OF ok b] .
  have "update_rows (\<lambda>x. pt_organization_id x = org) (partition_left now) ps = put_row pt_organization_id (partition_left now p) ps"
    using update_one_partition [OF ok p(1)] p(2) assms(2) by (simp add: partition_left_def)
  then show ?thesis unfolding picks_rows [OF assms(1)] using p assms
    by (auto intro!: queue_step.closed_run [where r = r and b = b and p = p] simp: picks_def terminal_def shifted_def partition_left_def)
qed

lemma lease_step:
  assumes "picks (rs, bs, ps) r b R P g f" and "org = ob_organization_id b"
    and "ob_status (f b) = OutboxLeased" and "pr_status (g r) = (if ob_status b = OutboxReady then RunLeased else RunRecovering)"
    and "ob_fencing_token (f b) = ob_fencing_token b + 1" and "pr_fencing_token (g r) = pr_fencing_token r + 1"
    and "pr_lease_owner_hash (g r) = ob_lease_owner_hash (f b)"
  shows "queue_step (rs, bs, ps) (update_rows R g rs, update_rows P f bs, update_rows (\<lambda>p. pt_organization_id p = org) (partition_selected now) ps)"
proof -
  have ok: "queue_ok (rs, bs, ps)" and b: "b \<in> set bs" "open_outbox b" using assms(1) by (simp_all add: picks_def)
  obtain p where p: "p \<in> set ps" "pt_organization_id p = ob_organization_id b" "0 < pt_ready_count p" "pt_status p = PartitionReady"
    using the_partition [OF ok b] .
  have "update_rows (\<lambda>x. pt_organization_id x = org) (partition_selected now) ps = put_row pt_organization_id (partition_selected now p) ps"
    using update_one_partition [OF ok p(1)] p(2) assms(2) by (simp add: partition_selected_def)
  then show ?thesis unfolding picks_rows [OF assms(1)] using p assms
    by (auto intro!: queue_step.leased [where r = r and b = b and p = p] simp: picks_def shifted_def partition_selected_def)
qed

lemma hold_step:
  assumes "picks (rs, bs, ps) r b R P g f"
    and "open_outbox (f b)" and "in_step (g r) (f b)" and "pr_fencing_token (g r) = pr_fencing_token r" and "ob_status b \<noteq> OutboxReady"
    and "pr_status (g r) = pr_status r \<or> pr_status (g r) = RunQueued \<or> (pr_status (g r) = RunRunning \<and> pr_status r \<noteq> RunRunning)"
  shows "queue_step (rs, bs, ps) (update_rows R g rs, update_rows P f bs, ps)"
  unfolding picks_rows [OF assms(1)] using assms by (intro queue_step.held [where r = r and b = b]) (auto simp: picks_def)

subsection \<open>The rows behind a work item\<close>

text \<open>The row a work item was issued for, at the token it was given or a later one.\<close>

definition issued :: "queue \<Rightarrow> work_item \<Rightarrow> bool" where
  "issued q i = (case q of (rs, bs, ps) \<Rightarrow> \<exists>b \<in> set bs. ob_outbox_id b = wi_outbox_id i \<and>
     outbox_run b = (wi_organization_id i, wi_run_id i) \<and> wi_fencing_token i \<le> ob_fencing_token b)"

text \<open>The row and the run of a leased item, from which the item is read.\<close>

definition leases_out :: "work_item \<Rightarrow> queue \<Rightarrow> bool" where
  "leases_out i q = (case q of (rs, bs, ps) \<Rightarrow> \<exists>b \<in> set bs. \<exists>r \<in> set rs.
     i = work_item_of r b (wi_worker_owner_hash i) (wi_leased_at i) (wi_lease_expires_at i) \<and>
     held_outbox i b \<and> ob_status b = OutboxLeased \<and> outbox_run b = (wi_organization_id i, wi_run_id i) \<and>
     ob_lease_expires_at b = Some (wi_lease_expires_at i) \<and> held_run i r \<and> pr_status r \<in> {RunLeased, RunRecovering})"

definition fresh_lease :: "queue \<Rightarrow> work_item \<Rightarrow> queue \<Rightarrow> bool" where
  "fresh_lease q i q' = ((case q of (rs, bs, ps) \<Rightarrow> \<exists>b \<in> set bs. ob_outbox_id b = wi_outbox_id i \<and>
       outbox_run b = (wi_organization_id i, wi_run_id i) \<and> wi_fencing_token i = ob_fencing_token b + 1) \<and>
     work_item_ok i \<and> leases_out i q')"

lemma issued_grow: "issued q i \<Longrightarrow> rows_grow (fst (snd q)) (fst (snd q')) \<Longrightarrow> issued q' i"
  unfolding issued_def rows_grow_def same_row_def by (cases q; cases q') (auto, metis order_trans)

lemma issued_fresh: "fresh_lease q i q' \<Longrightarrow> issued q' i"
  by (cases q') (auto simp: fresh_lease_def leases_out_def issued_def held_outbox_def outbox_named_def)

text \<open>The row that an issued item names belongs to the run it names.\<close>

lemma issued_row:
  assumes "issued (rs, bs, ps) i" and "queue_ok (rs, bs, ps)" and "b \<in> set bs" and "outbox_named (wi_organization_id i) (wi_outbox_id i) b"
  shows "outbox_run b = (wi_organization_id i, wi_run_id i)"
proof -
  obtain b' where b': "b' \<in> set bs" "ob_outbox_id b' = wi_outbox_id i" "outbox_run b' = (wi_organization_id i, wi_run_id i)"
    using assms(1) by (auto simp: issued_def)
  then have "b' = b" using assms(2-4) by (auto simp: queue_ok_def queue_keys_def distinct_map inj_on_def outbox_named_def)
  then show ?thesis using b' by simp
qed

subsection \<open>Failing, expiring, leasing\<close>

lemma fail_locked_step:
  assumes "queue_ok (rs, bs, ps)" and "b \<in> set bs" and "open_outbox b" and "norm_run r \<in> set rs" and "in_step (norm_run r) b"
  shows "returns (\<lambda>_. queue_step (rs, bs, ps)) (rs, bs, ps) (fail_locked v owner r b reason now)"
proof -
  have step: "queue_step (rs, bs, ps) (update_rows (run_named (pr_organization_id r) (pr_run_id r)) (run_failed reason now) rs,
      update_rows (outbox_named (pr_organization_id r) (ob_outbox_id b)) (\<lambda>b. b\<lparr>ob_status := OutboxFailed, ob_updated_at := now\<rparr>) bs,
      update_rows (\<lambda>p. pt_organization_id p = pr_organization_id r) (partition_left now) ps)"
    using assms by (intro close_step [where r = "norm_run r" and b = b])
      (auto simp: picks_def in_step_def outbox_named_def run_named_def same_row_def same_run_def run_failed_def open_outbox_def)
  show ?thesis
    unfolding fail_locked_def Let_def
    by (rule step returns_update_outbox returns_update_partition returns_ret
        | (rule returns_update_run, (simp add: run_named_def; fail), (simp add: run_failed_def norm_run_def; fail))
        | (rule returns_quiet, (intro quiet_rules; fail)))+
qed

lemma expire_locked_step:
  assumes "queue_ok (rs, bs, ps)" and "b \<in> set bs" and "open_outbox b" and "norm_run r \<in> set rs" and "in_step (norm_run r) b"
  shows "returns (\<lambda>_. queue_step (rs, bs, ps)) (rs, bs, ps) (expire_locked v owner r b now)"
proof -
  let ?g = "\<lambda>r. r\<lparr>pr_status := RunExpired, pr_version := pr_version r + 1, pr_finished_at := Some now,
    pr_terminal_reason := Some QueueExpired, pr_updated_at := now\<rparr>"
  have step: "queue_step (rs, bs, ps) (update_rows (run_named (ob_organization_id b) (pr_run_id r)) ?g rs,
      update_rows (outbox_named (ob_organization_id b) (ob_outbox_id b)) (\<lambda>b. b\<lparr>ob_status := OutboxExpired, ob_updated_at := now\<rparr>) bs,
      update_rows (\<lambda>p. pt_organization_id p = ob_organization_id b) (partition_left now) ps)"
    using assms by (intro close_step [where r = "norm_run r" and b = b])
      (auto simp: picks_def in_step_def outbox_named_def run_named_def same_row_def same_run_def open_outbox_def)
  show ?thesis
    unfolding expire_locked_def Let_def
    by (rule step returns_update_outbox returns_update_partition returns_ret
        | (rule returns_update_run, (simp add: run_named_def; fail), (simp add: norm_run_def; fail))
        | (rule returns_quiet, (intro quiet_rules; fail))
        | (rule returns_of_quiet, (intro quiet_rules; fail)))+
qed

lemma only_row:
  assumes "distinct (map key xs)" and "x \<in> set xs" and "P x" and "\<And>y. P y \<Longrightarrow> key y = key x"
  shows "length (filter P xs) = 1"
proof -
  have "set (filter P xs) = {x}" using assms by (auto simp: distinct_map inj_on_def dest: assms(4))
  moreover have "distinct (filter P xs)" using assms(1) by (auto simp: distinct_map)
  ultimately show ?thesis using distinct_card by fastforce
qed

definition leased_by :: "queue \<Rightarrow> work_item option \<Rightarrow> queue \<Rightarrow> bool" where
  "leased_by q x q' = (case x of None \<Rightarrow> queue_step\<^sup>=\<^sup>= q q' | Some i \<Rightarrow> queue_step q q' \<and> fresh_lease q i q')"

lemma lease_locked_step:
  assumes q: "queue_ok (rs, bs, ps)" and b: "b \<in> set bs" "open_outbox b" and r: "norm_run r \<in> set rs" "in_step (norm_run r) b"
  shows "returns (leased_by (rs, bs, ps)) (rs, bs, ps) (lease_locked v w r b now)"
proof -
  define org where "org = ob_organization_id b"
  define c where "c = outbox_leased (owner_hash v w) now (now + seconds (ws_lease_ttl_seconds w)) b"
  define P where "P = (\<lambda>x :: dispatch_outbox. outbox_named org (ob_outbox_id b) x \<and> ob_status x = ob_status b \<and>
    ob_fencing_token x = ob_fencing_token b \<and> ob_lease_version x = ob_lease_version b)"
  define f where "f = (\<lambda>x :: dispatch_outbox. x\<lparr>ob_status := OutboxLeased, ob_attempt_count := ob_attempt_count c, ob_fencing_token := ob_fencing_token c,
    ob_lease_owner_hash := Some (owner_hash v w), ob_lease_version := ob_lease_version c, ob_leased_at := Some now,
    ob_lease_expires_at := Some (now + seconds (ws_lease_ttl_seconds w)), ob_heartbeat_at := Some now, ob_updated_at := now\<rparr>)"
  define R where "R = (\<lambda>x :: production_run. run_named org (pr_run_id r) x \<and> pr_status x = pr_status r \<and>
    pr_version x = pr_version r \<and> pr_fencing_token x = pr_fencing_token r)"
  define g where "g = (\<lambda>x :: production_run. x\<lparr>pr_status := (if ob_status b \<noteq> OutboxReady then RunRecovering else RunLeased), pr_version := pr_version x + 1,
    pr_lease_owner_hash := Some (owner_hash v w), pr_fencing_token := ob_fencing_token c,
    pr_lease_expires_at := Some (now + seconds (ws_lease_ttl_seconds w)), pr_updated_at := now\<rparr>)"
  have picks: "picks (rs, bs, ps) (norm_run r) b R P g f"
    using assms by (auto simp: picks_def P_def R_def f_def g_def org_def in_step_def outbox_named_def run_named_def same_row_def same_run_def)
  have step: "queue_step (rs, bs, ps) (update_rows R g rs, update_rows P f bs,
      update_rows (\<lambda>p. pt_organization_id p = org) (partition_selected now) ps)"
    using r by (intro lease_step [OF picks]) (auto simp: org_def f_def g_def c_def outbox_leased_def in_step_def)
  have n: "length (filter P bs) = 1"
    using q b by (intro only_row [where x = b and key = ob_outbox_id]) (auto simp: P_def org_def outbox_named_def queue_ok_def queue_keys_def)
  have m: "length (filter R rs) = 1"
    using q r by (intro only_row [where x = "norm_run r" and key = pr_run_id]) (auto simp: R_def org_def run_named_def queue_ok_def queue_keys_def in_step_def)
  define i where "i = work_item_of r c (owner_hash v w) now (now + seconds (ws_lease_ttl_seconds w))"
  have fb: "f b \<in> set (update_rows P f bs)" using b(1) by (auto simp: update_rows_def P_def org_def outbox_named_def image_iff)
  have gr: "g (norm_run r) \<in> set (update_rows R g rs)"
    using r by (auto simp: update_rows_def R_def org_def run_named_def in_step_def image_iff)
  have out: "leases_out i (update_rows R g rs, update_rows P f bs, ps')" for ps'
    unfolding leases_out_def prod.case using r(2)
    by (intro bexI [OF _ fb] bexI [OF _ gr])
      (simp add: i_def work_item_of_def c_def outbox_leased_def f_def g_def in_step_def norm_run_def held_outbox_def held_run_def
        outbox_named_def run_named_def)
  have fresh: "work_item_ok i \<Longrightarrow> fresh_lease (rs, bs, ps) i (update_rows R g rs, update_rows P f bs, ps')" for ps'
    unfolding fresh_lease_def prod.case using b(1) r(2) out
    by (intro conjI bexI [of _ b]) (simp_all add: i_def work_item_of_def c_def outbox_leased_def in_step_def)
  have leased: "returns (leased_by (rs, bs, ps)) (update_rows R g rs, update_rows P f bs,
      update_rows (\<lambda>p. pt_organization_id p = org) (partition_selected now) ps)
      (andthen (require (work_item_ok i) ValueError) (\<lambda>_. ret (Some i)))"
    by (intro returns_require returns_ret) (simp add: leased_by_def step fresh)
  show ?thesis
    unfolding lease_locked_def Let_def org_def [symmetric] c_def [symmetric] P_def [symmetric] f_def [symmetric]
      R_def [symmetric] g_def [symmetric] i_def [symmetric]
    by (rule leased returns_count_outbox returns_update_partition returns_ret
        | (rule returns_count_runs, (simp add: R_def; fail), (simp add: g_def norm_run_def; fail))
        | (rule returns_quiet, (intro quiet_rules; fail))
        | (simp only: n m simp_thms if_False))+
qed

subsection \<open>Claiming\<close>

lemma leased_by_None: "leased_by q None q' \<longleftrightarrow> q' = q \<or> queue_step q q'"
  by (auto simp: leased_by_def)

lemma sorted_head: "sort_key f xs = x # ys \<Longrightarrow> x \<in> set xs"
  using set_sort [of f xs] by auto

lemma next_partition_Some: "next_partition t = Some p \<Longrightarrow> p \<in> set (partitions t) \<and> pt_status p = PartitionReady \<and> 0 < pt_ready_count p"
  by (auto simp: next_partition_def split: list.splits dest!: sorted_head)

lemma next_outbox_Some: "next_outbox org now t = Some b \<Longrightarrow> b \<in> set (outbox t) \<and> ob_organization_id b = org \<and> claimable now b"
  by (auto simp: next_outbox_def split: list.splits dest!: sorted_head)

lemma claimable_open: "claimable now b \<Longrightarrow> open_outbox b"
  by (auto simp: claimable_def open_outbox_def)

lemma scan_step:
  assumes "queue_ok (rs, bs, ps)" and "p \<in> set ps" and "pt_status p = PartitionReady"
  shows "queue_step (rs, bs, ps) (rs, bs, update_rows (\<lambda>x. pt_organization_id x = pt_organization_id p) (partition_selected now) ps)"
  using assms update_one_partition [OF assms(1,2), of "partition_selected now"]
  by (auto intro!: queue_step.scanned [where p = p] simp: partition_selected_def shifted_def)

lemma returns_option:
  "(x = None \<Longrightarrow> returns E q m) \<Longrightarrow> (\<And>y. x = Some y \<Longrightarrow> returns E q (f y)) \<Longrightarrow> returns E q (case x of None \<Rightarrow> m | Some y \<Rightarrow> f y)"
  by (cases x) simp_all

lemma claim_next_steps:
  assumes "queue_ok (queue_of (committed s))" and "claim_next v w now s = (Inr x, s')"
  shows "leased_by (queue_of (committed s)) x (queue_of (committed s'))"
proof (rule transaction_returns [OF _ assms(2) [unfolded claim_next_def Let_def]])
  obtain rs bs ps where q: "queue_of (committed s) = (rs, bs, ps)" by (cases "queue_of (committed s)")
  have ok: "queue_ok (rs, bs, ps)" using assms(1) q by simp
  let ?k = "\<lambda>b r. if ob_expires_at b \<le> now then andthen (expire_locked v (owner_hash v w) r b now) (\<lambda>_. ret None)
      else if ws_maximum_attempts w \<le> ob_attempt_count b
      then andthen (fail_locked v (owner_hash v w) r b LeaseExhausted now) (\<lambda>_. ret None)
      else lease_locked v w r b now"
  have claim: "returns (leased_by (rs, bs, ps)) (rs, bs, ps) (?k b r)"
    if b: "b \<in> set bs" "open_outbox b" and r: "norm_run r \<in> set rs" "pr_run_id r = ob_run_id b" for r b
  proof -
    have "in_step (norm_run r) b" using the_run [OF ok b r(1)] r(2) by simp
    note locked = ok b r(1) this
    show ?thesis
      by (intro returns_if lease_locked_step [OF locked] returns_andthen [OF returns_mono, OF expire_locked_step [OF locked]]
          returns_andthen [OF returns_mono, OF fail_locked_step [OF locked]] returns_ret) (simp_all add: leased_by_None)
  qed
  show "returns (leased_by (queue_of (committed s))) (queue_of (committed s)) (andthen (query next_partition) (\<lambda>found.
     case found of None \<Rightarrow> ret None
     | Some p \<Rightarrow> andthen (query (next_outbox (pt_organization_id p) now)) (\<lambda>row.
        case row of None \<Rightarrow> andthen (update_partition (pt_organization_id p) (partition_selected now)) (\<lambda>_. ret None)
        | Some b \<Rightarrow> andthen (select_one runs (run_named (pt_organization_id p) (ob_run_id b))) (\<lambda>run.
          case run of None \<Rightarrow> ret None | Some r \<Rightarrow> ?k b r))))"
    unfolding q
  proof (rule returns_query, rule returns_option, goal_cases)
    case (1 t)
    show ?case by (rule returns_ret) (simp add: leased_by_None)
  next
    case (2 t p)
    then have p: "p \<in> set ps" "pt_status p = PartitionReady" using next_partition_Some by (auto simp: queue_of_def)
    show ?case
    proof (rule returns_query, rule returns_option, goal_cases)
      case (1 t)
      show ?case by (rule returns_update_partition, rule returns_ret) (simp add: leased_by_None scan_step [OF ok p])
    next
      case (2 t b)
      then have b: "b \<in> set bs" "open_outbox b"
        using next_outbox_Some [OF 2(2)] by (auto simp: queue_of_def intro: claimable_open)
      show ?case
      proof (rule returns_select_run, goal_cases)
        case (1 r)
        then have "pr_run_id r = ob_run_id b" by (simp add: run_named_def)
        then show ?case unfolding option.case by (rule claim [OF b 1(1)])
      next
        case 2
        then show ?case unfolding option.case by (rule returns_ret) (simp add: leased_by_None)
      qed
    qed
  qed
qed

subsection \<open>Working on an item\<close>

abbreviation moved :: "queue \<Rightarrow> 'a \<Rightarrow> queue \<Rightarrow> bool" where
  "moved q x q' \<equiv> queue_step\<^sup>=\<^sup>= q q'"

lemma holder:
  assumes "queue_ok (rs, bs, ps)" and "issued (rs, bs, ps) i" and "b \<in> set bs" and "held_outbox i b" and "ob_status b \<in> {OutboxLeased, OutboxDispatched}"
  obtains r where "r \<in> set rs" and "in_step r b" and "held_run i r"
proof -
  have "open_outbox b" using assms(5) by (auto simp: open_outbox_def)
  then obtain r where r: "r \<in> set rs" "in_step r b" using assms(1,3) by (auto simp: queue_ok_def queue_runs_def)
  have "outbox_run b = (wi_organization_id i, wi_run_id i)"
    using issued_row [OF assms(2,1,3)] assms(4) by (simp add: held_outbox_def)
  then have "held_run i r" using r(2) assms(4,5) by (auto simp: in_step_def held_run_def held_outbox_def run_named_def)
  then show thesis using that r by blast
qed

lemma held_fenced: "held_run i r \<Longrightarrow> fenced_run i r" "held_outbox i b \<Longrightarrow> fenced_outbox i b"
  by (simp_all add: held_run_def fenced_run_def held_outbox_def fenced_outbox_def)

lemma picks_held:
  assumes "queue_ok (rs, bs, ps)" and "b \<in> set bs" and "held_outbox i b" and "ob_status b \<in> {OutboxLeased, OutboxDispatched}"
    and "r \<in> set rs" and "in_step r b" and "held_run i r" and "\<And>x. P x \<Longrightarrow> outbox_named (wi_organization_id i) (wi_outbox_id i) x"
    and "\<And>x. R x \<Longrightarrow> run_named (wi_organization_id i) (wi_run_id i) x" and "P b" and "R r" and "same_row (f b) b" and "same_run (g r) r"
  shows "picks (rs, bs, ps) r b R P g f"
proof -
  have "P x \<Longrightarrow> ob_outbox_id x = ob_outbox_id b" for x using assms(3) assms(8) [of x] by (simp add: held_outbox_def outbox_named_def)
  moreover have "R x \<Longrightarrow> pr_run_id x = pr_run_id r" for x using assms(7) assms(9) [of x] by (simp add: held_run_def run_named_def)
  moreover have "open_outbox b" using assms(4) by (auto simp: open_outbox_def)
  ultimately show ?thesis unfolding picks_def prod.case using assms(1,2,5,6,10-) by blast
qed

lemma quiet_False: "returns (moved q) q (reject_stale v i now)"
  by (rule returns_of_quiet) (intro quiet_rules, simp)

lemma start_step:
  assumes "queue_ok (rs, bs, ps)" and "b \<in> set bs" and "held_outbox i b" and "ob_status b = OutboxLeased"
    and "norm_run r \<in> set rs" and "in_step (norm_run r) b" and "held_run i r" and "pr_status r \<in> {RunLeased, RunRecovering}"
  shows "returns (moved (rs, bs, ps)) (rs, bs, ps) (start_locked v i r now)"
proof -
  have step: "queue_step (rs, bs, ps) (update_rows (fenced_run i) (\<lambda>r. r\<lparr>pr_status := RunRunning, pr_version := pr_version r + 1,
        pr_started_at := (case pr_started_at r of None \<Rightarrow> Some now | Some t \<Rightarrow> Some t), pr_updated_at := now\<rparr>) rs,
      update_rows (fenced_outbox i) (\<lambda>b. b\<lparr>ob_status := OutboxDispatched, ob_updated_at := now\<rparr>) bs, ps)"
    using assms held_fenced
    by (intro hold_step [where r = "norm_run r" and b = b] picks_held [where i = i])
      (auto simp: fenced_run_def fenced_outbox_def held_run_def held_outbox_def same_row_def same_run_def in_step_def status_pair_def open_outbox_def)
  then have go: "moved (rs, bs, ps) x (update_rows (fenced_run i) (\<lambda>r. r\<lparr>pr_status := RunRunning, pr_version := pr_version r + 1,
        pr_started_at := (case pr_started_at r of None \<Rightarrow> Some now | Some t \<Rightarrow> Some t), pr_updated_at := now\<rparr>) rs,
      update_rows (fenced_outbox i) (\<lambda>b. b\<lparr>ob_status := OutboxDispatched, ob_updated_at := now\<rparr>) bs, ps)" for x :: bool by simp
  show ?thesis
    unfolding start_locked_def Let_def
    by (rule go returns_update_outbox returns_ret
        | (rule returns_update_run, (simp; fail), (simp add: norm_run_def; fail))
        | (rule returns_quiet, (intro quiet_rules; fail)))+
qed

lemma mark_started_steps:
  assumes "queue_ok (queue_of (committed s))" and "issued (queue_of (committed s)) i" and "mark_started v w i now s = (Inr x, s')"
  shows "queue_step\<^sup>=\<^sup>= (queue_of (committed s)) (queue_of (committed s'))"
proof -
  obtain rs bs ps where q: "queue_of (committed s) = (rs, bs, ps)" by (cases "queue_of (committed s)")
  have ok: "queue_ok (rs, bs, ps)" and i: "issued (rs, bs, ps) i" using assms(1,2) q by simp_all
  show ?thesis
  proof (rule transaction_returns [where E = "moved (queue_of (committed s))", OF _ assms(3) [unfolded mark_started_def]],
      unfold q, rule returns_select_outbox, goal_cases)
    case (1 b)
    then have b: "b \<in> set bs" "held_outbox i b" "ob_status b = OutboxLeased" "open_outbox b" by (simp_all add: open_outbox_def)
    have "ob_run_id b = wi_run_id i" using issued_row [OF i ok b(1)] b(2) by (simp add: held_outbox_def)
    then have r: "in_step (norm_run r) b" if "norm_run r \<in> set rs" "held_run i r" for r
      using the_run [OF ok b(1,4) that(1)] that(2) by (simp add: held_run_def run_named_def)
    show ?case unfolding option.case
    proof (rule returns_select_run, goal_cases)
      case (1 r)
      note r = 1(1) r [OF 1(1)]
      show ?case unfolding option.case
        apply (rule returns_quiet, intro quiet_rules, rule returns_if)
         apply (rule returns_andthen [OF returns_mono, OF fail_locked_step [OF ok b(1,4) r]], use 1 in simp, rule returns_ret, simp)
        by (rule start_step [OF ok b(1-3) r]) (use 1 in simp_all)
    qed (unfold option.case, rule quiet_False)
  qed (unfold option.case, rule quiet_False)
qed

lemma heartbeat_steps:
  assumes "queue_ok (queue_of (committed s))" and "issued (queue_of (committed s)) i" and "heartbeat v w i now s = (Inr x, s')"
  shows "queue_step\<^sup>=\<^sup>= (queue_of (committed s)) (queue_of (committed s'))"
proof -
  obtain rs bs ps where q: "queue_of (committed s) = (rs, bs, ps)" by (cases "queue_of (committed s)")
  have ok: "queue_ok (rs, bs, ps)" and i: "issued (rs, bs, ps) i" using assms(1,2) q by simp_all
  define expires where "expires = now + seconds (ws_lease_ttl_seconds w)"
  define P where "P = (\<lambda>b. held_outbox i b \<and> ob_status b \<in> {OutboxLeased, OutboxDispatched} \<and>
    ob_lease_version b = wi_lease_version i \<and> unexpired now b)"
  define f where "f = (\<lambda>b :: dispatch_outbox. b\<lparr>ob_heartbeat_at := Some now, ob_lease_expires_at := Some expires, ob_updated_at := now\<rparr>)"
  define g where "g = (\<lambda>r :: production_run. r\<lparr>pr_lease_expires_at := Some expires, pr_updated_at := now\<rparr>)"
  have one: "queue_step (rs, bs, ps) (update_rows (held_run i) g rs, update_rows P f bs, ps)" if n: "length (filter P bs) = 1"
  proof -
    obtain b where "filter P bs = [b]" using n by (auto simp: length_Suc_conv)
    then have b: "b \<in> set bs" "P b" using filter_single by fast+
    then have held: "held_outbox i b" "ob_status b \<in> {OutboxLeased, OutboxDispatched}" by (simp_all add: P_def)
    obtain r where r: "r \<in> set rs" "in_step r b" "held_run i r" using holder [OF ok i b(1) held] .
    have picks: "picks (rs, bs, ps) r b (held_run i) P g f"
      by (rule picks_held [where P = P and R = "held_run i", OF ok b(1) held r _ _ b(2) r(3)])
        (auto simp: P_def held_outbox_def held_run_def f_def g_def same_row_def same_run_def)
    show ?thesis
      by (rule hold_step [OF picks]) (use r(2) held(2) in \<open>auto simp: f_def g_def open_outbox_def in_step_def\<close>)
  qed
  have none: "update_rows P f bs = bs" if n: "length (filter P bs) \<noteq> 1"
  proof (rule update_rows_none)
    fix y assume y: "y \<in> set bs"
    show "\<not> P y"
    proof
      assume "P y"
      then have "length (filter P bs) = 1"
        using ok y by (intro only_row [where x = y and key = ob_outbox_id]) (auto simp: P_def held_outbox_def outbox_named_def queue_ok_def queue_keys_def)
      then show False using n by simp
    qed
  qed
  show ?thesis
  proof (rule transaction_returns [where E = "moved (queue_of (committed s))", OF _ assms(3) [unfolded heartbeat_def Let_def]],
      unfold q expires_def [symmetric] P_def [symmetric] f_def [symmetric] g_def [symmetric],
      rule returns_count_outbox, rule returns_if, goal_cases)
    case 1
    then show ?case using none quiet_False [of "(rs, bs, ps)"] by simp
  next
    case 2
    then have go: "moved (rs, bs, ps) True (update_rows (held_run i) g rs, update_rows P f bs, ps)" using one by simp
    show ?case
      by (rule go returns_ret | (rule returns_update_run, (simp; fail), (simp add: g_def norm_run_def; fail))
          | (rule returns_quiet, (intro quiet_rules; fail)))+
  qed
qed

lemma record_deduplicated_steps:
  assumes "record_deduplicated v i now s = (Inr x, s')"
  shows "queue_of (committed s') = queue_of (committed s)"
proof (rule transaction_returns [where E = "\<lambda>_ q'. q' = queue_of (committed s)", OF _ assms [unfolded record_deduplicated_def Let_def]])
qed (rule returns_of_quiet, intro quiet_rules, rule refl)

lemma held_pair:
  assumes "queue_ok (rs, bs, ps)" and "issued (rs, bs, ps) i" and "b \<in> set bs" and "held_outbox i b" and "open_outbox b"
    and "norm_run r \<in> set rs" and "held_run i r"
  shows "in_step (norm_run r) b"
proof -
  have "ob_run_id b = wi_run_id i" using issued_row [OF assms(2,1,3)] assms(4) by (simp add: held_outbox_def)
  then show ?thesis using the_run [OF assms(1,3,5,6)] assms(7) by (simp add: held_run_def run_named_def)
qed

lemma fail_steps:
  assumes "queue_ok (queue_of (committed s))" and "issued (queue_of (committed s)) i" and "fail v w i reason now s = (Inr x, s')"
  shows "queue_step\<^sup>=\<^sup>= (queue_of (committed s)) (queue_of (committed s'))"
proof -
  obtain rs bs ps where q: "queue_of (committed s) = (rs, bs, ps)" by (cases "queue_of (committed s)")
  have ok: "queue_ok (rs, bs, ps)" and i: "issued (rs, bs, ps) i" using assms(1,2) q by simp_all
  show ?thesis
  proof (rule transaction_returns [where E = "moved (queue_of (committed s))", OF _ assms(3) [unfolded fail_def]],
      unfold q, rule returns_select_outbox, goal_cases)
    case (1 b)
    then have b: "b \<in> set bs" "held_outbox i b" "open_outbox b" by (auto simp: open_outbox_def)
    show ?case
    proof (rule returns_select_run, goal_cases)
      case (1 r)
      have "in_step (norm_run r) b" using held_pair [OF ok i b 1(1)] 1 by simp
      then show ?case unfolding option.case prod.case
        by (rule returns_mono [OF fail_locked_step [OF ok b(1,3) 1(1)]]) simp
    qed (unfold option.case prod.case, rule quiet_False)
  next
    case 2
    show ?case by (rule returns_select_run; unfold option.case prod.case; rule quiet_False)
  qed
qed

text \<open>A run that completes passes through verifying within the transaction.\<close>

lemma complete_locked_step:
  assumes ok: "queue_ok (rs, bs, ps)" and b: "b \<in> set bs" "held_outbox i b" "ob_status b = OutboxDispatched"
    and r: "norm_run r \<in> set rs" "in_step (norm_run r) b" "held_run i r" "pr_status r = RunRunning"
  shows "returns (moved (rs, bs, ps)) (rs, bs, ps) (complete_locked v i r b result now)"
proof -
  have step: "moved (rs, bs, ps) True (update_rows (fenced_run i) g rs, update_rows (fenced_outbox i) f bs,
      update_rows (\<lambda>p. pt_organization_id p = wi_organization_id i) (partition_left now) ps)"
    if g: "\<And>x. org_run (g x) = org_run x \<and> pr_fencing_token (g x) = pr_fencing_token x \<and> pr_status (g x) \<in> {RunFinishedUngraded, RunFailed}"
      and f: "\<And>x. same_row (f x) x \<and> ob_fencing_token (f x) = ob_fencing_token x \<and> \<not> open_outbox (f x)" for g f
  proof -
    have picks: "picks (rs, bs, ps) (norm_run r) b (fenced_run i) (fenced_outbox i) g f"
      by (rule picks_held [where P = "fenced_outbox i" and R = "fenced_run i", OF ok b(1,2) _ r(1,2)])
        (use b r g f held_fenced in \<open>auto simp: fenced_run_def fenced_outbox_def same_run_def\<close>)
    show ?thesis
      by (rule predicate2I [THEN predicate2D, rotated], rule close_step [OF picks])
        (use b r g f in \<open>auto simp: held_outbox_def outbox_named_def\<close>)
  qed
  have steps: "moved (rs, bs, ps) True (update_rows (fenced_run i) g (update_rows (fenced_run i) h rs), update_rows (fenced_outbox i) f bs,
      update_rows (\<lambda>p. pt_organization_id p = wi_organization_id i) (partition_left now) ps)"
    if "\<And>x. org_run (g x) = org_run x \<and> pr_fencing_token (g x) = pr_fencing_token x \<and> pr_status (g x) \<in> {RunFinishedUngraded, RunFailed}"
      and "\<And>x. same_row (f x) x \<and> ob_fencing_token (f x) = ob_fencing_token x \<and> \<not> open_outbox (f x)"
      and "\<And>x. org_run (h x) = org_run x \<and> pr_fencing_token (h x) = pr_fencing_token x" for g f h
  proof -
    have "update_rows (fenced_run i) g (update_rows (fenced_run i) h rs) = update_rows (fenced_run i) (\<lambda>x. g (h x)) rs"
      using that(3) by (intro update_rows_twice) (simp add: fenced_run_def run_named_def)
    then show ?thesis using step [of "\<lambda>x. g (h x)" f] that by simp
  qed
  show ?thesis
    unfolding complete_locked_def mark_verifying_def Let_def
    by (cases "finished result"; simp only: if_True if_False method_assoc;
      (rule returns_update_outbox returns_update_partition
        | (rule returns_update_run, (simp; fail), (simp add: norm_run_def; fail))
        | (rule returns_quiet, (intro quiet_rules; fail))
        | (rule returns_ret, (rule steps step; simp add: same_row_def open_outbox_def; fail)))+)
qed

lemma complete_steps:
  assumes "queue_ok (queue_of (committed s))" and "issued (queue_of (committed s)) i" and "complete v w i outcome now s = (Inr x, s')"
  shows "queue_step\<^sup>=\<^sup>= (queue_of (committed s)) (queue_of (committed s'))"
proof -
  obtain rs bs ps where q: "queue_of (committed s) = (rs, bs, ps)" by (cases "queue_of (committed s)")
  have ok: "queue_ok (rs, bs, ps)" and i: "issued (rs, bs, ps) i" using assms(1,2) q by simp_all
  show ?thesis
  proof (rule transaction_returns [where E = "moved (queue_of (committed s))", OF _ assms(3) [unfolded complete_def]],
      unfold q, rule returns_select_outbox, goal_cases)
    case (1 b)
    then have b: "b \<in> set bs" "held_outbox i b" "ob_status b = OutboxDispatched" "open_outbox b" by (auto simp: open_outbox_def)
    show ?case
    proof (rule returns_select_run, goal_cases)
      case (1 r)
      have r: "norm_run r \<in> set rs" "in_step (norm_run r) b" "held_run i r" "pr_status r = RunRunning"
        using held_pair [OF ok i b(1,2,4) 1(1)] 1 by simp_all
      show ?case unfolding option.case prod.case
        apply (rule returns_quiet, intro quiet_rules, rule returns_if)
         apply (rule returns_mono [OF fail_locked_step [OF ok b(1,4) r(1,2)]], simp)
        by (rule complete_locked_step [OF ok b(1-3) r])
    qed (unfold option.case prod.case, rule quiet_False)
  next
    case 2
    show ?case by (rule returns_select_run; unfold option.case prod.case; rule quiet_False)
  qed
qed

lemma release_steps:
  assumes "queue_ok (queue_of (committed s))" and "issued (queue_of (committed s)) i" and "release v i now s = (Inr x, s')"
  shows "queue_step\<^sup>=\<^sup>= (queue_of (committed s)) (queue_of (committed s'))"
proof -
  obtain rs bs ps where q: "queue_of (committed s) = (rs, bs, ps)" by (cases "queue_of (committed s)")
  have ok: "queue_ok (rs, bs, ps)" and i: "issued (rs, bs, ps) i" using assms(1,2) q by simp_all
  have step: "moved (rs, bs, ps) True (update_rows (fenced_run i) g rs, update_rows (fenced_outbox i) f bs, ps)"
    if b: "b \<in> set bs" "held_outbox i b" "ob_status b \<in> {OutboxLeased, OutboxDispatched}"
      and f: "\<And>x. same_row (f x) x \<and> ob_fencing_token (f x) = ob_fencing_token x \<and> ob_status (f x) = OutboxReady"
      and g: "\<And>x. org_run (g x) = org_run x \<and> pr_fencing_token (g x) = pr_fencing_token x \<and> pr_status (g x) = RunQueued" for b f g
  proof -
    obtain r where r: "r \<in> set rs" "in_step r b" "held_run i r" using holder [OF ok i b] .
    have picks: "picks (rs, bs, ps) r b (fenced_run i) (fenced_outbox i) g f"
      by (rule picks_held [where P = "fenced_outbox i" and R = "fenced_run i", OF ok b r])
        (use b r f g held_fenced in \<open>auto simp: fenced_run_def fenced_outbox_def same_run_def\<close>)
    have fb: "ob_fencing_token (f b) = ob_fencing_token b" "ob_status (f b) = OutboxReady" "outbox_run (f b) = outbox_run b"
      using f [of b] by (simp_all add: same_row_def)
    have "queue_step (rs, bs, ps) (update_rows (fenced_run i) g rs, update_rows (fenced_outbox i) f bs, ps)"
      by (rule hold_step [OF picks]) (use b r g [of r] fb in \<open>auto simp: open_outbox_def in_step_def status_pair_def\<close>)
    then show ?thesis by simp
  qed
  show ?thesis
  proof (rule transaction_returns [where E = "moved (queue_of (committed s))", OF _ assms(3) [unfolded release_def Let_def]],
      unfold q, rule returns_select_outbox, goal_cases)
    case (1 b)
    then have b: "b \<in> set bs" "held_outbox i b" "ob_status b \<in> {OutboxLeased, OutboxDispatched}" by simp_all
    show ?case unfolding option.case
      by (rule returns_update_outbox | (rule returns_update_run, (simp; fail), (simp add: norm_run_def; fail))
        | (rule returns_quiet, (intro quiet_rules; fail))
        | (rule returns_ret, (rule step [OF b]; simp add: same_row_def; fail)))+
  qed (unfold option.case, rule quiet_False)
qed

subsection \<open>A transaction that raises\<close>

named_theorems settles

lemmas [settles] = settled_andthen settled_statements settled_simps settled_for_each settled_cases settled_prod
  settled_execute settled_flush settled_find_run settled_methods

lemma settled_if [settles]: "settled m \<Longrightarrow> settled m' \<Longrightarrow> settled (if b then m else m')"
  by simp

lemma settled_sum [settles]: "(\<And>y. settled (f y)) \<Longrightarrow> (\<And>y. settled (g y)) \<Longrightarrow> settled (case x of Inl y \<Rightarrow> f y | Inr y \<Rightarrow> g y)"
  by (cases x) simp_all

lemma settled_list [settles]: "settled m \<Longrightarrow> (\<And>y ys. settled (h y ys)) \<Longrightarrow> settled (case xs of [] \<Rightarrow> m | y # ys \<Rightarrow> h y ys)"
  by (cases xs) simp_all

lemma settled_select_one [settles]: "settled (select_one tbl P)" and settled_update_count [settles]: "settled (update_count tbl' upd P' f)"
  and settled_updates [settles]: "settled (update_outbox Q g)" "settled (update_run R h)" "settled (update_partition org k)"
    "settled (set_audit_sequence R n)"
  and settled_worker_audit [settles]: "settled (append_audit v org ty actor subject p now)"
  and settled_trace [settles]: "settled (append_trace_event v org run phase status reason failure attrs now)"
  and settled_lease_history [settles]: "settled (lease_history v b st now)"
  unfolding select_one_def update_count_def update_outbox_def update_run_def update_partition_def set_audit_sequence_def
    append_audit_def append_trace_event_def lease_history_def Let_def
  by (intro settles)+

lemma settled_approvals [settles]: "settled (worker_approvals org ds)"
  by (induction ds) (auto intro!: settles split: option.split)

lemma settled_parts [settles]: "settled (fail_approval v owner r why now)" "settled (complete_approval v i ok receipt now)"
  "settled (append_outcome_trace v i res ok receipt n version now)" "settled (record_stale_fence v i now)"
  "settled (worker_authorization_hash v org uid)" "settled (worker_approval_set_hash v org request)"
  unfolding fail_approval_def complete_approval_def append_outcome_trace_def record_stale_fence_def
    worker_authorization_hash_def worker_approval_set_hash_def Let_def
  by (intro settles)+

lemma settled_locked [settles]: "settled (fail_locked v owner r b why now)" "settled (expire_locked v owner r b now)"
  "settled (lease_locked v w r b now)" "settled (start_locked v i r now)" "settled (complete_locked v i r b res now)"
  "settled (reject_stale v i now)" "settled (check_binding v i now check)"
  unfolding fail_locked_def expire_locked_def lease_locked_def start_locked_def complete_locked_def mark_verifying_def
    reject_stale_def check_binding_def Let_def
  by (intro settles)+

text \<open>The operations of a worker, and what they do to the committed queue, whatever they return.\<close>

datatype work =
    ClaimNext
  | MarkStarted work_item
  | Heartbeat work_item
  | RecordDeduplicated work_item
  | Fail work_item production_terminal_reason
  | Complete work_item temporal_outcome
  | Release work_item

definition returning :: "('a \<Rightarrow> work_item option) \<Rightarrow> 'a control \<Rightarrow> work_item option control" where
  "returning h m = andthen m (\<lambda>x. ret (h x))"

fun do_work :: "env \<Rightarrow> worker_settings \<Rightarrow> datetime \<Rightarrow> work \<Rightarrow> work_item option control" where
  "do_work v w now ClaimNext = claim_next v w now"
| "do_work v w now (MarkStarted i) = returning (\<lambda>_. None) (mark_started v w i now)"
| "do_work v w now (Heartbeat i) = returning (\<lambda>_. None) (heartbeat v w i now)"
| "do_work v w now (RecordDeduplicated i) = returning (\<lambda>_. None) (record_deduplicated v i now)"
| "do_work v w now (Fail i reason) = returning (\<lambda>_. None) (fail v w i reason now)"
| "do_work v w now (Complete i outcome) = returning (\<lambda>_. None) (complete v w i outcome now)"
| "do_work v w now (Release i) = returning (\<lambda>_. None) (release v i now)"

definition item_of :: "work \<Rightarrow> work_item option" where
  "item_of op = (case op of ClaimNext \<Rightarrow> None | MarkStarted i \<Rightarrow> Some i | Heartbeat i \<Rightarrow> Some i | RecordDeduplicated i \<Rightarrow> Some i
     | Fail i _ \<Rightarrow> Some i | Complete i _ \<Rightarrow> Some i | Release i \<Rightarrow> Some i)"

lemma returning_iff: "returning h m s = (Inr x, s') \<longleftrightarrow> (\<exists>y. m s = (Inr y, s') \<and> x = h y)"
  "returning h m s = (Inl e, s') \<longleftrightarrow> m s = (Inl e, s')"
  by (auto simp: returning_def run_iff)

lemma clean_transaction: "settled m \<Longrightarrow> fails_clean (transaction m)"
  unfolding fails_clean_def using transaction_Inl by blast

lemma clean_returning: "fails_clean m \<Longrightarrow> fails_clean (returning h m)"
  unfolding fails_clean_def returning_iff .

lemma work_clean: "fails_clean (do_work v w now op)"
  by (cases op; simp only: do_work.simps claim_next_def mark_started_def heartbeat_def record_deduplicated_def fail_def complete_def
    release_def Let_def; intro clean_returning clean_transaction settles)

lemma work_follows:
  assumes "queue_ok (queue_of (committed s))" and "\<And>i. item_of op = Some i \<Longrightarrow> issued (queue_of (committed s)) i"
    and "do_work v w now op s = (r, s')"
  shows "queue_step\<^sup>=\<^sup>= (queue_of (committed s)) (queue_of (committed s'))"
proof (cases r)
  case (Inl e)
  then have "committed s' = committed s" using work_clean assms(3) unfolding fails_clean_def by blast
  then show ?thesis by simp
next
  case (Inr x)
  show ?thesis
  proof (cases op)
    case ClaimNext
    then have "leased_by (queue_of (committed s)) x (queue_of (committed s'))"
      using claim_next_steps [OF assms(1)] assms(3) Inr by simp
    then show ?thesis by (auto simp: leased_by_def split: option.splits)
  next
    case (MarkStarted i)
    then show ?thesis using mark_started_steps [OF assms(1)] assms(2,3) Inr by (fastforce simp: returning_iff item_of_def)
  next
    case (Heartbeat i)
    then show ?thesis using heartbeat_steps [OF assms(1)] assms(2,3) Inr by (fastforce simp: returning_iff item_of_def)
  next
    case (RecordDeduplicated i)
    then show ?thesis using record_deduplicated_steps assms(3) Inr by (fastforce simp: returning_iff)
  next
    case (Fail i reason)
    then show ?thesis using fail_steps [OF assms(1)] assms(2,3) Inr by (fastforce simp: returning_iff item_of_def)
  next
    case (Complete i outcome)
    then show ?thesis using complete_steps [OF assms(1)] assms(2,3) Inr by (fastforce simp: returning_iff item_of_def)
  next
    case (Release i)
    then show ?thesis using release_steps [OF assms(1)] assms(2,3) Inr by (fastforce simp: returning_iff item_of_def)
  qed
qed

lemma work_issues:
  assumes "queue_ok (queue_of (committed s))" and "do_work v w now op s = (Inr (Some i), s')"
  shows "fresh_lease (queue_of (committed s)) i (queue_of (committed s'))"
proof -
  have "op = ClaimNext" using assms(2) by (cases op) (auto simp: returning_iff)
  then show ?thesis using claim_next_steps [OF assms(1)] assms(2) by (fastforce simp: leased_by_def)
qed

end
