(* ===== verification/Queue_Api.thy ===== *)
theory Queue_Api
  imports Queue_Worker
begin

section \<open>The API follows the protocol\<close>

text \<open>
  The operations of \<open>production.py\<close> on the queue. Unlike a worker they commit in the middle, roll back and
  go on, so the rules of \<open>goes\<close> keep track of the queue of the session and of what may be committed.
\<close>

subsection \<open>Statements that leave the queue alone\<close>

definition still :: "'a control \<Rightarrow> bool" where
  "still m \<longleftrightarrow> (\<forall>s. queue_of (current (snd (m s))) = queue_of (current s) \<and> committed (snd (m s)) = committed s)"

named_theorems stills

lemma still_run: "still m \<Longrightarrow> m s = (r, s') \<Longrightarrow> queue_of (current s') = queue_of (current s) \<and> committed s' = committed s"
  unfolding still_def by (metis snd_conv)

lemma still_simps [stills]: "still (ret x)" "still (raise e)" "still (query g)" "still (scalar tbl P)" "still (draw h)" "still (require b e)"
  "still (opaque_id v pre)" "still flush" "still (one_or_none rs)" "still (evaluated res)" "still (find_run org i)"
  "still (vault_peek i)" "still (vault_discard i)" "still (vault_put i c)"
  by (auto simp: still_def ret_def raise_def query_def scalar_def draw_def require_def opaque_id_def flush_def one_or_none_def evaluated_def
    find_run_def vault_peek_def vault_discard_def vault_put_def modify_def split: list.splits sum.splits)

lemma still_andthen [stills]: "still m \<Longrightarrow> (\<And>x. still (f x)) \<Longrightarrow> still (andthen m f)"
  by (auto simp: still_def andthen_def split: prod.splits sum.splits) (metis snd_conv)+

lemma still_if [stills]: "still m \<Longrightarrow> still m' \<Longrightarrow> still (if b then m else m')"
  by simp

lemma still_option [stills]: "still m \<Longrightarrow> (\<And>y. still (f y)) \<Longrightarrow> still (case x of None \<Rightarrow> m | Some y \<Rightarrow> f y)"
  by (cases x) simp_all

lemma still_sum [stills]: "(\<And>y. still (f y)) \<Longrightarrow> (\<And>y. still (g y)) \<Longrightarrow> still (case x of Inl y \<Rightarrow> f y | Inr y \<Rightarrow> g y)"
  by (cases x) simp_all

lemma still_prod [stills]: "(\<And>y z. still (f y z)) \<Longrightarrow> still (case x of (y, z) \<Rightarrow> f y z)"
  by (cases x) simp_all

lemma still_for_each [stills]: "(\<And>x. still (f x)) \<Longrightarrow> still (for_each f xs)"
  by (induction xs) (auto intro: stills)

lemma still_store: "(\<And>t. queue_of (f t) = queue_of t) \<Longrightarrow> still (store f)"
  by (simp add: still_def store_def modify_def)

lemma still_stores [stills]:
  "still (store (upd_events f1))" "still (store (upd_heads f2))" "still (store (upd_traces f3))" "still (store (upd_requests f5))"
  "still (store (upd_grants f6))" "still (store (upd_buckets f7))" "still (store (upd_idempotency f8))" "still (store (upd_decisions f9))"
  by (rule still_store, rule queue_of_upd)+

lemma still_updates [stills]: "still (update_returning grants upd_grants P h)" "still (update_returning requests upd_requests P' h')"
  "still (put_request r)" "still (put_grant g)" "still (put_bucket b)"
  unfolding update_returning_def put_request_def put_grant_def put_bucket_def by (intro stills)+

lemma still_audit [stills]: "still (append_audit_event v org ty actor subject p now)" "still (audit v a org ty subject p now)"
  "still (audit12 v a org ty subject p now)"
  unfolding append_audit_event_def audit_def audit12_def Let_def by (intro stills)+

lemma still_trace [stills]: "still (append_observability_event v org run phase status reason failure attrs now)"
  unfolding append_observability_event_def Let_def by (intro stills)

lemma still_json [stills]: "(\<And>x. still (f x)) \<Longrightarrow> still m \<Longrightarrow> still (case j of JStr x \<Rightarrow> f x | _ \<Rightarrow> m)"
  by (cases j) simp_all

lemma still_reads [stills]: "still (find_request org i)" "still (find_grant org i)" "still (risk_facts org action params)"
  "still (require_actor_organization actor org)" "still (existing_idempotent_run actor k b)" "still (approval_set_hash v org ds)"
  unfolding find_request_def find_grant_def risk_facts_def require_actor_organization_def existing_idempotent_run_def approval_set_hash_def
  by (intro stills)+

lemma still_evaluations [stills]: "still (active_approval_set v r)" "still (evaluate_production_risk v org action params)"
  "still (cancel_request v actor org i now)" "still (cancel_grant v actor org i now)" "still (admission_request v actor org pc e now)"
  unfolding active_approval_set_def evaluate_production_risk_def cancel_request_def cancel_grant_def admission_request_def Let_def
  by (intro stills)+

lemma still_bucket [stills]: "still (ensure_bucket org h scope route burst now)" "still (consume_rate_limit v actor route policy now)"
  unfolding consume_rate_limit_def ensure_bucket_def Let_def by (intro stills)+

subsection \<open>What a method commits\<close>

text \<open>
  In a session whose current queue is \<open>q\<close> and whose committed queue satisfies \<open>D\<close>, the committed queue
  satisfies \<open>D\<close> afterwards; a value comes with \<open>E\<close> and an error with \<open>X\<close>, both on the current queue.
\<close>

definition goes :: "(queue \<Rightarrow> bool) \<Rightarrow> ('a \<Rightarrow> queue \<Rightarrow> bool) \<Rightarrow> (queue \<Rightarrow> bool) \<Rightarrow> queue \<Rightarrow> 'a control \<Rightarrow> bool" where
  "goes D E X q m \<longleftrightarrow> (\<forall>s r s'. D (queue_of (committed s)) \<longrightarrow> queue_of (current s) = q \<longrightarrow> m s = (r, s') \<longrightarrow>
     D (queue_of (committed s')) \<and> (case r of Inl e \<Rightarrow> X (queue_of (current s')) | Inr x \<Rightarrow> E x (queue_of (current s'))))"

lemma goesD:
  assumes "goes D E X q m" and "D (queue_of (committed s))" and "queue_of (current s) = q" and "m s = (r, s')"
  shows "D (queue_of (committed s'))" and "r = Inl e \<Longrightarrow> X (queue_of (current s'))" and "r = Inr x \<Longrightarrow> E x (queue_of (current s'))"
  using assms unfolding goes_def by force+

lemma goes_ret: "E x q \<Longrightarrow> goes D E X q (ret x)" and goes_raise: "X q \<Longrightarrow> goes D E X q (raise e)"
  by (auto simp: goes_def ret_def raise_def)

lemma goes_andthen:
  assumes "goes D E' X q m" and "\<And>x q'. E' x q' \<Longrightarrow> goes D E X q' (f x)"
  shows "goes D E X q (andthen m f)"
  unfolding goes_def
proof (intro allI impI)
  fix s r s' assume s: "D (queue_of (committed s))" "queue_of (current s) = q" and run: "andthen m f s = (r, s')"
  obtain r1 s1 where m: "m s = (r1, s1)" by (cases "m s")
  show "D (queue_of (committed s')) \<and> (case r of Inl e \<Rightarrow> X (queue_of (current s')) | Inr x \<Rightarrow> E x (queue_of (current s')))"
  proof (cases r1)
    case (Inl e)
    then have "r = Inl e" "s' = s1" using run m by (auto simp: andthen_def)
    then show ?thesis using goesD(1,2) [OF assms(1) s m] Inl by simp
  next
    case (Inr x)
    then have "f x s1 = (r, s')" using run m by (simp add: andthen_def)
    moreover have "D (queue_of (committed s1))" "E' x (queue_of (current s1))" using goesD(1,3) [OF assms(1) s m] Inr by simp_all
    ultimately show ?thesis using assms(2) unfolding goes_def by blast
  qed
qed

lemma goes_mono:
  assumes "goes D E X q m" and "\<And>x q'. E x q' \<Longrightarrow> E' x q'" and "\<And>q'. X q' \<Longrightarrow> X' q'"
  shows "goes D E' X' q m"
  unfolding goes_def
proof (intro allI impI)
  fix s r s' assume s: "D (queue_of (committed s))" "queue_of (current s) = q" "m s = (r, s')"
  show "D (queue_of (committed s')) \<and> (case r of Inl e \<Rightarrow> X' (queue_of (current s')) | Inr x \<Rightarrow> E' x (queue_of (current s')))"
    using goesD [OF assms(1) s] assms(2,3) by (cases r) simp_all
qed

lemma goes_of_still: "still m \<Longrightarrow> (\<And>x. E x q) \<Longrightarrow> X q \<Longrightarrow> goes D E X q m"
  unfolding goes_def by (auto dest: still_run split: sum.split)

lemma goes_still: "still m \<Longrightarrow> X q \<Longrightarrow> (\<And>x. goes D E X q (f x)) \<Longrightarrow> goes D E X q (andthen m f)"
  by (rule goes_andthen [where E' = "\<lambda>_ q'. q' = q"]) (auto intro: goes_of_still)

lemma goes_option:
  "(x = None \<Longrightarrow> goes D E X q m) \<Longrightarrow> (\<And>y. x = Some y \<Longrightarrow> goes D E X q (f y)) \<Longrightarrow> goes D E X q (case x of None \<Rightarrow> m | Some y \<Rightarrow> f y)"
  by (cases x) simp_all

lemma goes_if: "(b \<Longrightarrow> goes D E X q m) \<Longrightarrow> (\<not> b \<Longrightarrow> goes D E X q m') \<Longrightarrow> goes D E X q (if b then m else m')"
  by simp

lemma tables_queue_keys: "tables_valid t \<Longrightarrow> queue_keys (queue_of t)"
  by (simp add: tables_valid_def runs_keys_ok_def queue_keys_ok_def unique_on_def queue_keys_def queue_of_def o_def)

lemma goes_statements:
  "(\<And>t. queue_of t = q \<Longrightarrow> queue_of (g t) = q') \<Longrightarrow> goes D (\<lambda>_ q''. q'' = q') X q (store g)"
  "X q \<Longrightarrow> goes D (\<lambda>_ q'. q' = q \<and> queue_keys q) X q flush"
  "X q \<Longrightarrow> (queue_keys q \<Longrightarrow> D q) \<Longrightarrow> goes D (\<lambda>_ q'. q' = q \<and> queue_keys q) X q commit"
  "goes D (\<lambda>_. D) X q rollback"
  by (auto simp: goes_def store_def modify_def flush_def commit_def rollback_def dest: tables_queue_keys split: if_splits)

lemma goes_store: "(\<And>t. queue_of t = q \<Longrightarrow> queue_of (g t) = q') \<Longrightarrow> goes D E X q' (f ()) \<Longrightarrow> goes D E X q (andthen (store g) f)"
  by (rule goes_andthen [OF goes_statements(1)]) auto

lemma goes_flush: "X q \<Longrightarrow> (queue_keys q \<Longrightarrow> goes D E X q (f ())) \<Longrightarrow> goes D E X q (andthen flush f)"
  by (rule goes_andthen [OF goes_statements(2)]) auto

lemma goes_commit: "X q \<Longrightarrow> (queue_keys q \<Longrightarrow> D q) \<Longrightarrow> (queue_keys q \<Longrightarrow> goes D E X q (f ())) \<Longrightarrow> goes D E X q (andthen commit f)"
  by (rule goes_andthen [OF goes_statements(3)]) auto

lemma goes_rollback: "(\<And>c. D c \<Longrightarrow> goes D E X c (f ())) \<Longrightarrow> goes D E X q (andthen rollback f)"
  by (rule goes_andthen [OF goes_statements(4)]) auto

lemma goes_rollback_raise: "(\<And>c. D c \<Longrightarrow> X c) \<Longrightarrow> goes D E X q (rollback_raise e)"
  unfolding rollback_raise_def by (rule goes_rollback) (rule goes_raise)

text \<open>\<open>try ... except\<close>: a handler of an error goes on with the queue of the session as the body left it.\<close>

lemma goes_try:
  assumes "goes D E X' q m" and "\<And>e q'. X' q' \<Longrightarrow> goes D E X q' (h e)"
    and "\<And>s. g s = (case m s of (Inl e, s') \<Rightarrow> h e s' | (Inr x, s') \<Rightarrow> (Inr x, s'))"
  shows "goes D E X q g"
  unfolding goes_def
proof (intro allI impI)
  fix s r s' assume s: "D (queue_of (committed s))" "queue_of (current s) = q" and run: "g s = (r, s')"
  obtain r1 s1 where m: "m s = (r1, s1)" by (cases "m s")
  note d = goesD [OF assms(1) s m]
  show "D (queue_of (committed s')) \<and> (case r of Inl e \<Rightarrow> X (queue_of (current s')) | Inr x \<Rightarrow> E x (queue_of (current s')))"
  proof (cases r1)
    case (Inl e)
    then have "h e s1 = (r, s')" using run m by (simp add: assms(3))
    then show ?thesis using assms(2) [OF d(2) [OF Inl], of e] d(1) unfolding goes_def by blast
  next
    case (Inr x)
    then show ?thesis using d run m by (auto simp: assms(3))
  qed
qed

subsection \<open>Rate limits and capacity\<close>

abbreviation anything :: "queue \<Rightarrow> bool" where
  "anything q \<equiv> True"

abbreviation unmoved :: "queue \<Rightarrow> 'a \<Rightarrow> queue \<Rightarrow> bool" where
  "unmoved q x q' \<equiv> q' = q"

lemma goes_rate_limit:
  assumes "D q"
  shows "goes D (unmoved q) anything q (consume_rate_limit_or_audit v actor route policy subject now)"
proof (rule goes_try [where X' = "unmoved q ()"])
  let ?h = "\<lambda>e. case e of RateLimitExceeded n \<Rightarrow>
      andthen (audit12 v actor (a_organization_id actor) EvRateLimited subject
        [(''reason'', JStr ''rate_limited''), (''http_status'', JInt 429), (''retry_after'', JInt n)] now) (\<lambda>_.
      andthen commit (\<lambda>_. raise (RateLimitExceeded n))) | _ \<Rightarrow> raise e"
  show "goes D (unmoved q) (unmoved q ()) q (consume_rate_limit v actor route policy now)"
    by (rule goes_of_still) (intro stills, simp_all)
  show "goes D (unmoved q) anything q' (?h e)" if "q' = q" for e q'
    using assms that by (cases e) (auto intro!: goes_raise goes_still [OF still_audit(3)] goes_commit)
  show "consume_rate_limit_or_audit v actor route policy subject now s =
      (case consume_rate_limit v actor route policy now s of (Inl e, s') \<Rightarrow> ?h e s' | (Inr x, s') \<Rightarrow> (Inr x, s'))" for s
    by (auto simp: consume_rate_limit_or_audit_def raise_def split: prod.splits sum.splits control_error.splits)
qed

text \<open>A partition is there, or is opened.\<close>

definition opened_at :: "queue \<Rightarrow> queue \<Rightarrow> bool" where
  "opened_at q q' \<longleftrightarrow> queue_step\<^sup>=\<^sup>= q q' \<and> fst q' = fst q \<and> fst (snd q') = fst (snd q)"

definition slot_at :: "queue \<Rightarrow> string \<Rightarrow> scheduler_partition \<Rightarrow> queue \<Rightarrow> bool" where
  "slot_at q org p q' \<longleftrightarrow> opened_at q q' \<and> p \<in> set (snd (snd q')) \<and> pt_organization_id p = org"

lemma opened_insert: "opened_at (rs, bs, ps) (rs, bs, insert_new pt_organization_id (new_partition sha org now) ps)"
  using queue_step.opened [of "new_partition sha org now" ps rs bs]
  by (simp add: opened_at_def insert_new_def new_partition_def)

lemma goes_query:
  assumes "X q" and "\<And>t. queue_of t = q \<Longrightarrow> goes D E X q (f (g t))"
  shows "goes D E X q (andthen (query g) f)"
  using assms(2) unfolding goes_def by (fastforce simp: andthen_def query_def)

lemma goes_ensure_partition: "goes D (slot_at q org) (opened_at q) q (ensure_partition v org now)"
proof -
  obtain rs bs ps where q: "q = (rs, bs, ps)" by (cases q)
  let ?ps = "insert_new pt_organization_id (new_partition (v_sha v) org now) ps"
  have o: "opened_at q (rs, bs, ?ps)" unfolding q by (rule opened_insert)
  show ?thesis
    unfolding ensure_partition_def scalar_def
  proof (rule goes_store [where q' = "(rs, bs, ?ps)"], goal_cases)
    case (1 t)
    then show ?case by (simp add: q queue_of_def upd_partitions_def)
  next
    case 2
    show ?case
    proof (rule goes_flush [where X = "opened_at q", OF o], rule goes_query [where X = "opened_at q", OF o], rule goes_option, goal_cases)
      case (1 t)
      show ?case by (rule goes_raise) (rule o)
    next
      case (2 t p)
      then have "p \<in> set ?ps" "pt_organization_id p = org" by (auto simp: queue_of_def find_Some_iff)
      then show ?case using o by (intro goes_ret) (simp add: slot_at_def)
    qed
  qed
qed

lemma goes_lock_capacity: "goes D (slot_at q org) (opened_at q) q (lock_capacity v org policy now)"
  unfolding lock_capacity_def
proof (rule goes_andthen [OF goes_ensure_partition], rule goes_query, goal_cases)
  case (1 p q')
  then show ?case by (simp add: slot_at_def)
next
  case (2 p q' t)
  then have o: "opened_at q q'" by (simp add: slot_at_def)
  show ?case
  proof (rule goes_option, goal_cases)
    case 1
    show ?case by (rule goes_raise) (rule o)
  next
    case (2 r)
    then have "r \<in> set (snd (snd q'))" "pt_organization_id r = org"
      using \<open>queue_of t = q'\<close> by (auto simp: find_Some_iff queue_of_def) (metis nth_mem set_sort length_sort)
    then show ?case using o
      by (intro goes_if goes_raise goes_ret) (simp_all add: slot_at_def)
  qed
qed

lemma goes_or_reject:
  assumes "D q" and "\<And>q'. queue_step q q' \<Longrightarrow> D q'"
  shows "goes D (slot_at q org) anything q (lock_capacity_or_reject v actor org p e policy now)"
    and "goes D (slot_at q org) anything q (claim_backpressure v actor org run policy now)"
proof -
  have D: "D q'" if "opened_at q q'" for q' using assms(1) assms(2) [of q'] that by (auto simp: opened_at_def)
  let ?h = "\<lambda>x. case x of BackpressureExceeded n \<Rightarrow> reject_backpressure v actor org p e n now | _ \<Rightarrow> raise x"
  let ?k = "\<lambda>x. case x of BackpressureExceeded n \<Rightarrow>
      andthen (audit12 v actor org EvBackpressureRejected run
        [(''run_id'', JStr run), (''reason'', JStr ''backpressure''), (''http_status'', JInt 503), (''retry_after'', JInt n)] now) (\<lambda>_.
      andthen commit (\<lambda>_. raise (BackpressureExceeded n))) | _ \<Rightarrow> raise x"
  have h: "goes D E anything q' (?h x)" if "opened_at q q'" for x q' and E :: "scheduler_partition \<Rightarrow> queue \<Rightarrow> bool"
    unfolding reject_backpressure_def using D [OF that]
    by (cases x) (auto intro!: goes_raise goes_still [OF still_audit(3)] goes_still [OF still_audit(2)] goes_commit)
  have k: "goes D E anything q' (?k x)" if "opened_at q q'" for x q' and E :: "scheduler_partition \<Rightarrow> queue \<Rightarrow> bool"
    using D [OF that] by (cases x) (auto intro!: goes_raise goes_still [OF still_audit(3)] goes_commit)
  show "goes D (slot_at q org) anything q (lock_capacity_or_reject v actor org p e policy now)"
    by (rule goes_try [where h = ?h and m = "lock_capacity v org policy now", OF goes_lock_capacity h])
      (simp_all add: lock_capacity_or_reject_def raise_def split: prod.split sum.split control_error.split)
  show "goes D (slot_at q org) anything q (claim_backpressure v actor org run policy now)"
    by (rule goes_try [where h = ?k and m = "lock_capacity v org policy now", OF goes_lock_capacity k])
      (simp_all add: claim_backpressure_def raise_def split: prod.split sum.split control_error.split)
qed

subsection \<open>Admission\<close>

text \<open>What may be committed is closed under the protocol and keeps its invariant.\<close>

definition along :: "(queue \<Rightarrow> bool) \<Rightarrow> bool" where
  "along D \<longleftrightarrow> (\<forall>q q'. D q \<longrightarrow> queue_step q q' \<longrightarrow> D q') \<and> (\<forall>q. D q \<longrightarrow> queue_ok q)"

lemma along_step: "along D \<Longrightarrow> D q \<Longrightarrow> queue_step q q' \<Longrightarrow> D q'" and along_ok: "along D \<Longrightarrow> D q \<Longrightarrow> queue_ok q"
  and along_opened: "along D \<Longrightarrow> D q \<Longrightarrow> opened_at q q' \<Longrightarrow> D q'"
  unfolding along_def opened_at_def by blast+

definition queued_row :: "string \<Rightarrow> string \<Rightarrow> dispatch_outbox \<Rightarrow> bool" where
  "queued_row org run b \<longleftrightarrow> outbox_run b = (org, run) \<and> ob_status b = OutboxReady \<and> ob_fencing_token b = 0"

lemma ret_and_then: "andthen (ret x) f = f x"
  by (simp add: andthen_def ret_def fun_eq_iff)

lemma queue_of_append:
  "queue_of t = (rs, bs, ps) \<Longrightarrow> queue_of (upd_runs (\<lambda>rs. rs @ [r]) t) = (rs @ [norm_run r], bs, ps)"
  "queue_of t = (rs, bs, ps) \<Longrightarrow> queue_of (upd_outbox (\<lambda>bs. bs @ [b]) t) = (rs, bs @ [b], ps)"
  by (auto simp: queue_of_def upd_runs_def upd_outbox_def)

lemma map_put_row: "(\<And>x. key (h x) = key x) \<Longrightarrow> map h (put_row key r rs) = put_row key (h r) (map h rs)"
  by (simp add: put_row_def)

lemma queue_of_put:
  "queue_of t = (rs, bs, ps) \<Longrightarrow> queue_of (upd_runs (put_row pr_run_id r) t) = (put_row pr_run_id (norm_run r) rs, bs, ps)"
  "queue_of t = (rs, bs, ps) \<Longrightarrow> queue_of (upd_outbox (put_row ob_outbox_id b) t) = (rs, put_row ob_outbox_id b bs, ps)"
  "queue_of t = (rs, bs, ps) \<Longrightarrow> queue_of (upd_partitions (put_row pt_organization_id p) t) = (rs, bs, put_row pt_organization_id p ps)"
  by (auto simp: queue_of_def upd_runs_def upd_outbox_def upd_partitions_def map_put_row)

lemma goes_enqueue:
  "goes D (\<lambda>b q'. q' = (rs, bs @ [b], put_row pt_organization_id (partition_queued now p) ps) \<and> queued_row org run b) anything
     (rs, bs, ps) (enqueue v org run p policy now)"
  unfolding enqueue_def new_outbox_def put_partition_def method_assoc ret_and_then
  by (rule goes_still, intro stills, simp, rule goes_store [OF queue_of_append(2)], assumption,
    rule goes_store [OF queue_of_put(3)], assumption, rule goes_ret, simp add: queued_row_def)

lemma goes_commit_or_winner:
  assumes "queue_keys q \<Longrightarrow> D q"
  shows "goes D (\<lambda>_ _. True) anything q (commit_or_winner actor k b run)"
proof (rule goes_try [where m = "andthen commit (\<lambda>_. ret run)" and X' = anything and
      h = "\<lambda>_. andthen rollback (\<lambda>_. andthen (existing_idempotent_run actor k b) (\<lambda>winner.
         case winner of None \<Rightarrow> raise IdempotencyConflict | Some r \<Rightarrow> ret r))"])
  show "goes D (\<lambda>_ _. True) anything q (andthen commit (\<lambda>_. ret run))"
    using assms by (intro goes_commit goes_ret) auto
  show "goes D (\<lambda>_ _. True) anything q' (andthen rollback (\<lambda>_. andthen (existing_idempotent_run actor k b) (\<lambda>winner.
         case winner of None \<Rightarrow> raise IdempotencyConflict | Some r \<Rightarrow> ret r)))" for q'
    by (rule goes_rollback, rule goes_of_still) (intro stills, simp_all)
  show "commit_or_winner actor k b run s = (case andthen commit (\<lambda>_. ret run) s of
      (Inl e, s') \<Rightarrow> andthen rollback (\<lambda>_. andthen (existing_idempotent_run actor k b) (\<lambda>winner.
         case winner of None \<Rightarrow> raise IdempotencyConflict | Some r \<Rightarrow> ret r)) s'
    | (Inr x, s') \<Rightarrow> (Inr x, s'))" for s
    by (auto simp: commit_or_winner_def andthen_def ret_def split: prod.splits sum.splits)
qed

lemma admitted_row:
  assumes "queue_keys (rs @ [r], bs @ [b], ps')" and "queued_row (pr_organization_id r) (pr_run_id r) b"
    and "pr_status r = RunQueued" and "pr_fencing_token r = 0" and "p \<in> set ps" and "pt_organization_id p = pr_organization_id r"
  shows "queue_step (rs, bs, ps) (rs @ [r], bs @ [b], put_row pt_organization_id (partition_queued now p) ps)"
  using assms
  by (intro queue_step.admitted [where p = p]) (auto simp: queue_keys_def fresh_row_def queued_row_def shifted_def partition_queued_def)

lemma norm_new_run: "norm_run (new_run sha actor org p e run request status k b n now) = new_run sha actor org p e run request status k b 0 now"
  by (simp add: norm_run_def new_run_def)

lemma new_run_fields: "pr_run_id (new_run sha actor org p e run request status k b n now) = run"
  "pr_organization_id (new_run sha actor org p e run request status k b n now) = org"
  "pr_status (new_run sha actor org p e run request status k b n now) = status"
  "pr_fencing_token (new_run sha actor org p e run request status k b n now) = 0"
  by (simp_all add: new_run_def)

lemma goes_record_run:
  assumes D: "along D" "D (rs, bs, ps)"
    and slot: "(request = None \<and> slot = Some p' \<and> p' \<in> set ps \<and> pt_organization_id p' = org) \<or> (request \<noteq> None \<and> slot = None)"
  shows "goes D (\<lambda>_ _. True) anything (rs, bs, ps) (record_run v actor org p e k b run request slot policy now)"
proof -
  define st where "st = (if request = None then RunQueued else RunWaitingApproval)"
  define r where "r n = new_run (v_sha v) actor org p e run request st k b n now" for n
  have r: "norm_run (r n) = r 0" "pr_run_id (r n) = run" "pr_organization_id (r n) = org" "pr_status (r n) = st" "pr_fencing_token (r n) = 0" for n
    by (simp_all add: r_def norm_new_run new_run_fields)
  show ?thesis
    unfolding record_run_def Let_def st_def [symmetric] r_def [symmetric]
  proof (rule goes_still [OF still_audit(3)], simp, rule goes_store [OF queue_of_append(1)], assumption, rule goes_flush, simp,
      rule goes_still, intro stills, simp, rule goes_still, intro stills, simp, unfold r(1), goal_cases)
    case (1 accepted i)
    note keys = 1
    show ?case
    proof (cases slot)
      case None
      then have waits: "st = RunWaitingApproval" using slot by (auto simp: st_def)
      have "D (rs @ [r 0], bs, ps)"
        by (rule along_step [OF D], rule queue_step.submitted) (use keys r [of 0] waits in \<open>auto simp: queue_keys_def\<close>)
      then show ?thesis unfolding None option.case ret_and_then trace_admission_def Let_def
        by (auto intro!: goes_flush goes_commit_or_winner goes_still [OF still_trace])
    next
      case (Some q)
      then have s: "q \<in> set ps" "pt_organization_id q = org" "st = RunQueued" using slot by (auto simp: st_def)
      show ?thesis unfolding Some option.case method_assoc
      proof (rule goes_andthen [OF goes_enqueue], goal_cases)
        case (1 x q')
        then have q': "q' = (rs @ [r 0], bs @ [x], put_row pt_organization_id (partition_queued now q) ps)" and x: "queued_row org run x" by simp_all
        have "D q'" if "queue_keys q'"
          using along_step [OF D admitted_row [where b = x and p = q]] that q' x s r [of 0] by simp
        then show ?case unfolding ret_and_then option.case trace_admission_def trace_outbox_def Let_def method_assoc
          by (auto intro!: goes_flush goes_commit_or_winner goes_still [OF still_trace])
      qed
    qed
  qed
qed

abbreviation serves :: "(queue \<Rightarrow> bool) \<Rightarrow> queue \<Rightarrow> 'a control \<Rightarrow> bool" where
  "serves D q m \<equiv> goes D (\<lambda>_ _. True) anything q m"

lemma goes_admit:
  assumes D: "along D" "D q"
  shows "serves D q (admit_production_run v actor org key pc policy now)"
  unfolding admit_production_run_def Let_def
proof (rule goes_still, intro stills, simp, rule goes_still, intro stills, simp, rule goes_option, goal_cases)
  case (1 _ existing)
  show ?case
  proof (rule goes_still, intro stills, simp, rule goes_if, goal_cases)
    case (1 e)
    show ?case unfolding deny_admission_def using D by (auto intro!: goes_still [OF still_audit(3)] goes_commit goes_raise)
  next
    case (2 e)
    show ?case
    proof (rule goes_andthen [OF goes_rate_limit [of D, OF D(2)]], hypsubst, goal_cases)
      case 1
      show ?case
      proof (cases "re_risk_level e \<in> {L2, L3}")
        case True
        obtain rs bs ps where q: "q = (rs, bs, ps)" by (cases q)
        show ?thesis unfolding if_P [OF True] method_assoc ret_and_then using D unfolding q
          by (intro goes_still [OF still_audit(2)] goes_still [OF still_simps(7)] goes_still [OF still_evaluations(5)] goes_record_run) simp_all
      next
        case False
        show ?thesis unfolding if_not_P [OF False] method_assoc ret_and_then
        proof (rule goes_andthen [OF goes_or_reject(1)], rule D, rule along_step [OF D], assumption, goal_cases)
          case (1 slot q')
          obtain rs bs ps where q': "q' = (rs, bs, ps)" by (cases q')
          have "D q'" using along_opened [OF D] 1 by (simp add: slot_at_def)
          then show ?case using D 1 unfolding q'
            by (intro goes_still [OF still_audit(2)] goes_still [OF still_simps(7)] goes_record_run [where p' = slot]) (simp_all add: slot_at_def)
        qed
      qed
    qed
  qed
next
  case (2 _ existing y)
  show ?case by (rule goes_ret) simp
qed

lemma goes_get: "D q \<Longrightarrow> serves D q (get_production_run v actor org run policy now charge)"
  unfolding get_production_run_def
  by (cases charge; simp only: if_True if_False ret_and_then)
    (auto intro!: goes_still [OF still_reads(4)] goes_andthen [OF goes_rate_limit] goes_still [OF still_simps(11)] goes_option goes_commit
      goes_raise goes_ret goes_rollback)

lemma goes_list: "D q \<Longrightarrow> serves D q (list_production_runs v actor org policy now)"
  unfolding list_production_runs_def
  by (auto intro!: goes_still [OF still_reads(4)] goes_andthen [OF goes_rate_limit] goes_still [OF still_simps(3)] goes_commit goes_ret)

subsection \<open>Claiming\<close>

lemma goes_claim_grant:
  assumes "D q" and hook: "\<And>r g c. goes D (\<lambda>_ q'. queue_keys q' \<longrightarrow> D q') anything q (hook r g c)"
  shows "serves D q (claim_grant v actor org i p now (Some hook))"
proof -
  have reject: "serves D q' (reject_claim v actor org subject extra now)" if "D q'" for q' subject extra
    unfolding reject_claim_def using that by (auto intro!: goes_still [OF still_audit(2)] goes_commit goes_raise)
  have recorded: "serves D q (record_claim v actor org r c x now (Some hook))" for r c x
    unfolding record_claim_def Let_def option.case
    by (intro goes_still [OF still_updates(3)] goes_still [OF still_audit(2)] goes_andthen [OF hook] goes_commit goes_still [OF still_simps(13)] goes_ret)
      simp_all
  have body: "serves D q (claim_body v actor org r g p now (Some hook))" for r g
    unfolding claim_body_def
  proof (rule goes_still, intro stills, simp, rule goes_option, goal_cases)
    case (1 found)
    show ?case by (rule goes_raise) simp
  next
    case (2 found credential)
    show ?case
      by (rule goes_still, intro stills, simp, unfold case_prod_beta,
        (rule goes_still, (intro stills; fail), (simp; fail), (unfold case_prod_beta)?)+, rule goes_option)
        (auto intro: goes_raise recorded)
  qed
  have failed: "serves D q' (claim_failed v actor org i g now e)" for q' g e
    unfolding claim_failed_def
  proof (rule goes_rollback, rule goes_if, goal_cases)
    case (1 c)
    show ?case
    proof (rule goes_still, intro stills, simp, rule goes_andthen [where E' = "\<lambda>_ _. True"], goal_cases)
      case 1
      show ?case
        by (rule goes_try [where m = "andthen (audit v actor org EvGrantRejected (gr_grant_id g) (rejection_fields i g) now) (\<lambda>_. commit)"
              and X' = anything and h = "\<lambda>_. rollback"])
          (auto intro!: goes_still [OF still_audit(2)] goes_mono [OF goes_statements(3)] goes_mono [OF goes_statements(4)] simp: \<open>D c\<close>
            split: prod.split sum.split)
    next
      case 2
      show ?case by (rule goes_raise) simp
    qed
  next
    case (2 c)
    show ?case by (rule goes_raise) simp
  qed
  have tried: "serves D q (\<lambda>s. case claim_body v actor org r g p now (Some hook) s of
      (Inr c, s') \<Rightarrow> (Inr c, s') | (Inl err, s') \<Rightarrow> claim_failed v actor org i g now err s')" for r g
    by (rule goes_try [where m = "claim_body v actor org r g p now (Some hook)" and X' = anything and h = "claim_failed v actor org i g now"])
      (auto intro: body failed split: prod.split sum.split)
  show ?thesis
    unfolding claim_grant_def
  proof (rule goes_still, intro stills, simp, rule goes_still, intro stills, simp, rule goes_still, intro stills, simp, goal_cases)
    case (1 _ request grant)
    show ?case using tried reject [OF assms(1)]
      by (cases request; cases grant) (auto intro!: goes_still [OF still_simps(4)])
  qed
qed

lemma goes_find:
  assumes "goes D E X (rs, bs, ps) (f None)" and "\<And>x. x \<in> S \<Longrightarrow> P x \<Longrightarrow> goes D E X (rs, bs, ps) (f (Some x))"
    and "X (rs, bs, ps)" and "\<And>t. queue_of t = (rs, bs, ps) \<Longrightarrow> set (tbl t) \<subseteq> S"
  shows "goes D E X (rs, bs, ps) (andthen (scalar tbl P) f)"
  unfolding scalar_def
proof (rule goes_query [where X = X, OF assms(3)])
  fix t assume t: "queue_of t = (rs, bs, ps)"
  show "goes D E X (rs, bs, ps) (f (find P (tbl t)))"
  proof (cases "find P (tbl t)")
    case (Some x)
    then have "x \<in> S" "P x" using assms(4) [OF t] by (auto simp: find_Some_iff)
    then show ?thesis using assms(2) Some by simp
  qed (simp add: assms(1))
qed

lemma goes_find_run:
  assumes "goes D E X (rs, bs, ps) (f None)" and "\<And>r. norm_run r \<in> set rs \<Longrightarrow> P r \<Longrightarrow> goes D E X (rs, bs, ps) (f (Some r))" and "X (rs, bs, ps)"
  shows "goes D E X (rs, bs, ps) (andthen (scalar runs P) f)"
  by (rule goes_find [where S = "{r. norm_run r \<in> set rs}"]) (use assms in \<open>auto simp: queue_of_def\<close>)

lemma put_row_twice: "key x = key y \<Longrightarrow> put_row key x (put_row key y xs) = put_row key x xs"
  by (auto simp: put_row_def)

lemma norm_audit: "norm_run (r\<lparr>pr_audit_sequence := n\<rparr>) = norm_run r"
  by (simp add: norm_run_def)

lemma goes_queue_claimed:
  assumes D: "along D" "D q" and slot: "slot \<in> set (snd (snd q))" "pt_organization_id slot = org"
  shows "goes D (\<lambda>_ q'. queue_keys q' \<longrightarrow> D q') anything q (queue_claimed_run v actor org run slot policy now rq g c)"
proof -
  obtain rs bs ps where q: "q = (rs, bs, ps)" by (cases q)
  show ?thesis
    unfolding queue_claimed_run_def put_run_def q
  proof (rule goes_find_run, goal_cases)
    case 1
    show ?case unfolding option.case by (rule goes_raise) simp
  next
    case (2 r)
    define r' where "r' = norm_run (run_claimed now g c r)"
    have r: "norm_run r \<in> set rs" "org_run r = (org, run)" "pr_status r = RunWaitingApproval" using 2 by simp_all
    have r': "pr_run_id r' = pr_run_id r" "pr_organization_id r' = pr_organization_id r" "pr_status r' = RunQueued" "pr_fencing_token r' = pr_fencing_token r"
      by (simp_all add: r'_def run_claimed_def norm_run_def)
    have handed: "D (put_row pr_run_id r' rs, bs @ [b], put_row pt_organization_id (partition_queued now slot) ps)"
      if b: "queued_row org run b" and keys: "queue_keys (put_row pr_run_id r' rs, bs @ [b], put_row pt_organization_id (partition_queued now slot) ps)" for b
      by (rule along_step [OF D, unfolded q], rule queue_step.handed_over [where r = "norm_run r" and p = slot])
        (use r r' b keys slot q in \<open>auto simp: same_run_def fresh_row_def queued_row_def queue_keys_def shifted_def partition_queued_def\<close>)
    show ?case unfolding option.case Let_def
    proof (rule goes_store [OF queue_of_put(1)], assumption, rule goes_andthen [OF goes_enqueue], elim conjE, hypsubst,
        rule goes_still, intro stills, simp, rule goes_store [OF queue_of_put(1)], assumption, goal_cases)
      case (1 b _ queued)
      have "put_row pr_run_id (norm_run (run_claimed now g c r\<lparr>pr_audit_sequence := ev_sequence queued\<rparr>))
          (put_row pr_run_id (norm_run (run_claimed now g c r)) rs) = put_row pr_run_id r' rs"
        unfolding norm_audit r'_def by (rule put_row_twice) simp
      then show ?case using handed 1 unfolding trace_handoff_def trace_outbox_def
        by (auto intro!: goes_flush goes_still [OF still_trace] goes_ret)
    qed
  qed simp
qed

lemma goes_claim_run:
  assumes D: "along D" "D q"
  shows "serves D q (claim_production_run v actor org run expected pl policy now)"
  unfolding claim_production_run_def
proof (rule goes_still, intro stills, simp, rule goes_andthen [OF goes_rate_limit [of D, OF D(2)]], hypsubst,
    rule goes_still, intro stills, simp, rule goes_option, goal_cases)
  case (2 u u' found r)
  show ?case
  proof (rule goes_option, goal_cases)
    case (2 request)
    show ?case
    proof (rule goes_if, rule goes_rollback_raise, simp, rule goes_andthen [OF goes_or_reject(2)], rule D, rule along_step [OF D], assumption, goal_cases)
      case (1 slot q')
      then have "D q'" using along_opened [OF D] by (simp add: slot_at_def)
      then show ?case using 1 D(1)
        by (auto intro!: goes_andthen [OF goes_claim_grant [of D]] goes_queue_claimed goes_still [OF still_simps(11)] goes_option goes_raise goes_ret
          simp: slot_at_def)
    qed
  qed (rule goes_raise, simp)
qed (rule goes_raise, simp)

subsection \<open>Cancelling\<close>

text \<open>What the locks of a cancellation give it.\<close>

definition cancellable :: "string \<Rightarrow> string \<Rightarrow> dispatch_outbox option \<Rightarrow> scheduler_partition option \<Rightarrow> production_run \<Rightarrow> queue \<Rightarrow> bool" where
  "cancellable org run row slot r q \<longleftrightarrow> (case q of (rs, bs, ps) \<Rightarrow> norm_run r \<in> set rs \<and> org_run r = (org, run) \<and>
     pr_status r \<in> {RunWaitingApproval, RunQueued, RunLeased} \<and>
     (\<forall>b. row = Some b \<longrightarrow> b \<in> set bs \<and> outbox_run b = (org, run) \<and> open_outbox b) \<and>
     (\<forall>p. slot = Some p \<longrightarrow> p \<in> set ps \<and> pt_organization_id p = org))"

lemma cancel_step:
  assumes ok: "queue_ok (rs, bs, ps)" and c: "cancellable org run (Some b) (Some p) r (rs, bs, ps)"
    and b': "same_row b' b" "\<not> open_outbox b'" "ob_fencing_token b' = ob_fencing_token b"
    and r': "same_run r' r" "pr_status r' = RunCancelled" "pr_fencing_token r' = pr_fencing_token r" and st: "pr_status r \<in> {RunQueued, RunLeased}"
  shows "queue_step (rs, bs, ps) (put_row pr_run_id r' rs, put_row ob_outbox_id b' bs, put_row pt_organization_id (partition_unqueued now p) ps)"
proof -
  have mem: "norm_run r \<in> set rs" "b \<in> set bs" "open_outbox b" "outbox_run b = org_run r" "p \<in> set ps" "pt_organization_id p = ob_organization_id b"
    using c by (auto simp: cancellable_def)
  have "in_step (norm_run r) b" using the_run [OF ok mem(2,3,1)] mem(4) by simp
  obtain p' where p': "p' \<in> set ps" "pt_organization_id p' = ob_organization_id b" "0 < pt_ready_count p'"
    using the_partition [OF ok mem(2,3)] .
  then have "p' = p" using ok mem(5,6) by (auto simp: queue_ok_def queue_keys_def distinct_map inj_on_def)
  then have "shifted (- 1) p (partition_unqueued now p)" using p'(3) by (simp add: shifted_def partition_unqueued_def Let_def)
  then show ?thesis
    using mem \<open>in_step _ b\<close> b' r' st
    by (intro queue_step.closed_run [where r = "norm_run r" and b = b and p = p]) (auto simp: same_run_def terminal_def)
qed

lemma goes_record_cancel:
  assumes D: "along D" "D q" and c: "cancellable org run row slot r q"
  shows "serves D q (record_cancel v actor org r row slot now)"
proof -
  obtain rs bs ps where q: "q = (rs, bs, ps)" by (cases q)
  define r' where "r' = norm_run (run_cancelled now r)"
  have r: "norm_run r \<in> set rs" "org_run r = (org, run)" using c by (simp_all add: cancellable_def q)
  have r': "same_run r' r" "pr_status r' = RunCancelled" "pr_fencing_token r' = pr_fencing_token r"
    by (simp_all add: r'_def run_cancelled_def same_run_def norm_run_def)
  have tail: "serves D (rs, bs', ps') (finish_cancel v actor org r row now)"
    if done': "D (put_row pr_run_id r' rs, bs', ps')" for bs' ps'
    unfolding finish_cancel_def Let_def put_run_def
  proof (rule goes_still, intro stills, simp, rule goes_store [OF queue_of_put(1)], assumption, rule goes_still [OF still_audit(3)], simp,
      rule goes_store [OF queue_of_put(1)], assumption, goal_cases)
    case (1 grant e)
    have "put_row pr_run_id (norm_run (run_cancelled now r\<lparr>pr_audit_sequence := ev_sequence e\<rparr>))
        (put_row pr_run_id (norm_run (run_cancelled now r)) rs) = put_row pr_run_id r' rs"
      unfolding norm_audit r'_def by (rule put_row_twice) simp
    then show ?case using done'
      by (auto intro!: goes_flush goes_still [OF still_trace] goes_commit goes_ret intro: stills
        intro!: goes_still [OF still_option [OF still_simps(1) still_simps(13)]])
  qed
  show ?thesis
  proof (cases "pr_status r \<in> {RunQueued, RunLeased}")
    case False
    then have "pr_status (norm_run r) = RunWaitingApproval" using c by (auto simp: cancellable_def q)
    then have "D (put_row pr_run_id r' rs, bs, ps)"
      by (intro along_step [OF D, unfolded q] queue_step.withdrawn [where r = "norm_run r"]) (use r r' q in \<open>auto simp: same_run_def\<close>)
    then show ?thesis unfolding record_cancel_def if_not_P [OF False] ret_and_then q by (rule tail)
  next
    case True
    show ?thesis
    proof (cases "row = None \<or> slot = None")
      case none: True
      have "unqueue row slot now = rollback_raise ProductionStateConflict" using none by (auto simp: unqueue_def split: option.splits)
      then show ?thesis unfolding record_cancel_def if_P [OF True]
        by (auto intro!: goes_andthen [OF goes_rollback_raise, where E' = "\<lambda>_ _. False"])
    next
      case False
      then obtain b p where bp: "row = Some b" "slot = Some p" by auto
      let ?b = "b\<lparr>ob_status := OutboxCancelled, ob_updated_at := now\<rparr>"
      have "queue_step (rs, bs, ps) (put_row pr_run_id r' rs, put_row ob_outbox_id ?b bs, put_row pt_organization_id (partition_unqueued now p) ps)"
        by (rule cancel_step [where r = r and b = b and p = p and org = org and run = run])
          (use along_ok [OF D] c bp q r' True in \<open>auto simp: same_row_def open_outbox_def\<close>)
      then have closed: "D (put_row pr_run_id r' rs, put_row ob_outbox_id ?b bs, put_row pt_organization_id (partition_unqueued now p) ps)"
        using along_step D q by blast
      show ?thesis
        unfolding record_cancel_def if_P [OF True] unqueue_def put_partition_def bp q prod.case option.case method_assoc
        by (rule goes_store [OF queue_of_put(2)], assumption, rule goes_store [OF queue_of_put(3)], assumption,
          rule tail [OF closed, unfolded bp])
    qed
  qed
qed

lemma goes_cancel:
  assumes D: "along D" "D q"
  shows "serves D q (cancel_production_run v actor org run expected policy now)"
proof -
  define picked where "picked = (\<lambda>(b, slot, r) q'. opened_at q q' \<and>
    (case r of None \<Rightarrow> True | Some r \<Rightarrow> cancellable org run b slot r q'))"
  obtain rs bs ps where q: "q = (rs, bs, ps)" by (cases q)
  have waiting: "goes D picked anything q (andthen (scalar runs (\<lambda>r. pr_organization_id r = org \<and> pr_run_id r = run \<and> pr_version r = expected \<and>
      pr_status r = RunWaitingApproval)) (\<lambda>r. ret (None, None, r)))"
    unfolding q by (rule goes_find_run; (rule goes_ret)?) (auto simp: picked_def q opened_at_def cancellable_def)
  have queued: "goes D picked anything q (andthen (ensure_partition v org now) (\<lambda>slot.
      andthen (scalar outbox (\<lambda>b. ob_organization_id b = org \<and> ob_run_id b = run \<and> open_outbox b)) (\<lambda>b.
      andthen (scalar runs (\<lambda>r. pr_organization_id r = org \<and> pr_run_id r = run \<and> pr_version r = expected \<and>
        pr_status r \<in> {RunQueued, RunLeased})) (\<lambda>r. ret (b, Some slot, r)))))"
  proof (rule goes_andthen [OF goes_mono [OF goes_ensure_partition]], assumption, simp, goal_cases)
    case (1 slot q')
    obtain rs' bs' ps' where q': "q' = (rs', bs', ps')" by (cases q')
    show ?case unfolding q'
      by (rule goes_find [where S = "set bs'"]; (rule goes_find_run)?; (rule goes_ret)?)
        (use 1 in \<open>auto simp: picked_def slot_at_def q' cancellable_def queue_of_def\<close>)
  qed
  show ?thesis
    unfolding cancel_production_run_def
  proof (rule goes_still, intro stills, simp, rule goes_andthen [OF goes_rate_limit [of D, OF D(2)]], hypsubst,
      rule goes_still, intro stills, simp, rule goes_option, goal_cases)
    case 1
    show ?case by (rule goes_rollback_raise) simp
  next
    case (2 u u' found r)
    show ?case
    proof (rule goes_if, rule goes_rollback_raise, simp, rule goes_if, rule goes_rollback_raise, simp,
        rule goes_andthen [where E' = picked], rule goes_if, rule waiting, rule queued, goal_cases)
      case (1 picks q')
      obtain b slot locked where picks: "picks = (b, slot, locked)" by (cases picks)
      have "opened_at q q'" using 1 by (auto simp: picked_def)
      then have "D q'" by (rule along_opened [OF D])
      then show ?case using 1 D(1) unfolding picks prod.case
        by (intro goes_option goes_rollback_raise goes_record_cancel [where run = run]) (auto simp: picked_def)
    qed
  qed
qed

subsection \<open>Requests\<close>

text \<open>The requests of the API on production runs; each has a session of its own.\<close>

datatype request =
    Admit string string production_run_create
  | Get string string bool
  | ListRuns string
  | Claim string string int production_run_claim
  | Cancel string string int

fun serve :: "env \<Rightarrow> actor_context \<Rightarrow> production_policy \<Rightarrow> datetime \<Rightarrow> request \<Rightarrow> production_run list control" where
  "serve v actor policy now (Admit org key p) = andthen (admit_production_run v actor org key p policy now) (\<lambda>r. ret [r])"
| "serve v actor policy now (Get org run charge) = andthen (get_production_run v actor org run policy now charge) (\<lambda>r. ret [r])"
| "serve v actor policy now (ListRuns org) = list_production_runs v actor org policy now"
| "serve v actor policy now (Claim org run version p) = andthen (claim_production_run v actor org run version p policy now) (\<lambda>r. ret [r])"
| "serve v actor policy now (Cancel org run version) = andthen (cancel_production_run v actor org run version policy now) (\<lambda>r. ret [r])"

lemma goes_serve:
  assumes "along D" and "D q"
  shows "serves D q (serve v actor policy now op)"
  using assms
  by (cases op) (auto intro!: goes_andthen [OF goes_admit] goes_andthen [OF goes_get] goes_list goes_andthen [OF goes_claim_run]
    goes_andthen [OF goes_cancel] goes_ret)

lemma serve_follows:
  assumes "queue_ok (queue_of (committed s))" and "in_session (serve v actor policy now op) s = (r, s')"
  shows "queue_step\<^sup>*\<^sup>* (queue_of (committed s)) (queue_of (committed s'))"
proof -
  let ?D = "queue_step\<^sup>*\<^sup>* (queue_of (committed s))"
  have D: "along ?D" using queue_steps_ok assms(1) by (auto simp: along_def)
  obtain s1 where s1: "serve v actor policy now op (s\<lparr>current := committed s\<rparr>) = (r, s1)" "committed s' = committed s1"
    using assms(2) by (auto simp: in_session_def split: prod.splits)
  show ?thesis using goesD(1) [OF goes_serve [OF D, of "queue_of (committed s)"] _ _ s1(1)] s1(2) by simp
qed

end
