(* ===== verification/Queue_Replay.thy ===== *)
theory Queue_Replay
  imports Queue_Api
begin

section \<open>The memory of admissions\<close>

text \<open>
  The idempotency records are only ever added to: whatever a request or a worker does, a record that is found
  for an actor and a key is found again. An admission that returns has left its record and its run.
\<close>

subsection \<open>Statements that only write records\<close>

text \<open>The tables without the audit chain and the traces.\<close>

definition aside :: "tables \<Rightarrow> tables" where
  "aside t = t\<lparr>events := [], heads := [], traces := []\<rparr>"

definition only_records :: "'a control \<Rightarrow> bool" where
  "only_records m \<longleftrightarrow> (\<forall>s. aside (current (snd (m s))) = aside (current s) \<and> committed (snd (m s)) = committed s)"

named_theorems record_rules

lemma only_records_simps [record_rules]: "only_records (ret x)" "only_records (raise e)" "only_records (query g)" "only_records (scalar tbl P)"
  "only_records (draw h)" "only_records (require b e)" "only_records (opaque_id v pre)" "only_records flush" "only_records (one_or_none rs)"
  "only_records (find_run org i)"
  by (auto simp: only_records_def ret_def raise_def query_def scalar_def draw_def require_def opaque_id_def flush_def one_or_none_def find_run_def
    split: list.splits)

lemma only_records_andthen [record_rules]: "only_records m \<Longrightarrow> (\<And>x. only_records (f x)) \<Longrightarrow> only_records (andthen m f)"
  by (auto simp: only_records_def andthen_def split: prod.splits sum.splits) (metis snd_conv)+

lemma only_records_cases [record_rules]: "only_records m \<Longrightarrow> only_records m' \<Longrightarrow> only_records (if b then m else m')"
  "only_records m \<Longrightarrow> (\<And>y. only_records (g y)) \<Longrightarrow> only_records (case x of None \<Rightarrow> m | Some y \<Rightarrow> g y)"
  "(\<And>y. only_records (h y)) \<Longrightarrow> (\<And>y. only_records (k y)) \<Longrightarrow> only_records (case z of Inl y \<Rightarrow> h y | Inr y \<Rightarrow> k y)"
  by (simp, cases x, simp_all, cases z, simp_all)

lemma only_records_stores [record_rules]: "only_records (store (upd_events f1))" "only_records (store (upd_heads f2))"
  "only_records (store (upd_traces f3))"
  by (simp_all add: only_records_def store_def modify_def aside_def upd_defs)

lemma only_records_execute [record_rules]: "only_records (execute (upd_events f1))" "only_records (execute (upd_heads f2))"
  "only_records (execute (upd_traces f3))"
  unfolding execute_def by (intro record_rules)+

subsection \<open>A record is kept\<close>

definition known :: "(idempotency_record \<Rightarrow> bool) \<Rightarrow> idempotency_record \<Rightarrow> session \<Rightarrow> bool" where
  "known P i s \<longleftrightarrow> find P (idempotency (committed s)) = Some i \<and> find P (idempotency (current s)) = Some i"

definition remembers :: "(idempotency_record \<Rightarrow> bool) \<Rightarrow> idempotency_record \<Rightarrow> 'a control \<Rightarrow> bool" where
  "remembers P i m \<longleftrightarrow> (\<forall>s. known P i s \<longrightarrow> known P i (snd (m s)))"

named_theorems memory

lemma remembers_run: "remembers P i m \<Longrightarrow> m s = (r, s') \<Longrightarrow> known P i s \<Longrightarrow> known P i s'"
  unfolding remembers_def by (metis snd_conv)

lemma remembers_simps [memory]: "remembers P i (ret x)" "remembers P i (raise e)" "remembers P i (query g)" "remembers P i (scalar tbl R)"
  "remembers P i (draw h)" "remembers P i (require b e)" "remembers P i (opaque_id v pre)" "remembers P i flush"
  "remembers P i (one_or_none rs)" "remembers P i (evaluated res)" "remembers P i (find_run org n)" "remembers P i (vault_peek n)"
  "remembers P i (vault_discard n)" "remembers P i (vault_put n c)" "remembers P i commit" "remembers P i rollback"
  by (auto simp: remembers_def known_def ret_def raise_def query_def scalar_def draw_def require_def opaque_id_def flush_def one_or_none_def
    evaluated_def find_run_def vault_peek_def vault_discard_def vault_put_def modify_def commit_def rollback_def split: list.splits sum.splits)

lemma remembers_andthen [memory]: "remembers P i m \<Longrightarrow> (\<And>x. remembers P i (f x)) \<Longrightarrow> remembers P i (andthen m f)"
  by (auto simp: remembers_def andthen_def split: prod.splits sum.splits)

lemma remembers_cases [memory]:
  "remembers P i m \<Longrightarrow> remembers P i m' \<Longrightarrow> remembers P i (if b then m else m')"
  "remembers P i m \<Longrightarrow> (\<And>y. remembers P i (g y)) \<Longrightarrow> remembers P i (case x of None \<Rightarrow> m | Some y \<Rightarrow> g y)"
  "(\<And>y. remembers P i (h y)) \<Longrightarrow> (\<And>y. remembers P i (k y)) \<Longrightarrow> remembers P i (case z of Inl y \<Rightarrow> h y | Inr y \<Rightarrow> k y)"
  "(\<And>y z. remembers P i (l y z)) \<Longrightarrow> remembers P i (case p of (y, z) \<Rightarrow> l y z)"
  "remembers P i m \<Longrightarrow> (\<And>y ys. remembers P i (q y ys)) \<Longrightarrow> remembers P i (case xs of [] \<Rightarrow> m | y # ys \<Rightarrow> q y ys)"
  "(\<And>x. remembers P i (n x)) \<Longrightarrow> remembers P i m \<Longrightarrow> remembers P i (case j of JStr x \<Rightarrow> n x | _ \<Rightarrow> m)"
  by (simp, cases x, simp_all, cases z, simp_all, cases p, simp, cases xs, simp_all, cases j, simp_all)

lemma remembers_for_each [memory]: "(\<And>x. remembers P i (f x)) \<Longrightarrow> remembers P i (for_each f xs)"
  by (induction xs) (auto intro: memory)

lemma remembers_catch:
  assumes "remembers P i m" and "\<And>e. remembers P i (h e)" and "\<And>s. t s = (case m s of (Inl e, s') \<Rightarrow> h e s' | (Inr x, s') \<Rightarrow> f x s')"
    and "\<And>x. remembers P i (f x)"
  shows "remembers P i t"
  using assms by (auto simp: remembers_def split: prod.splits sum.splits)

lemma remembers_Pair [simp]: "remembers P i (Pair (Inr x))"
  by (simp add: remembers_def)

lemma remembers_store: "(\<And>t. idempotency (f t) = idempotency t) \<Longrightarrow> remembers P i (store f)"
  by (simp add: remembers_def known_def store_def modify_def)

lemma remembers_stores [memory]:
  "remembers P i (store (upd_events f1))" "remembers P i (store (upd_heads f2))" "remembers P i (store (upd_traces f3))"
  "remembers P i (store (upd_requests f4))" "remembers P i (store (upd_grants f5))" "remembers P i (store (upd_buckets f6))"
  "remembers P i (store (upd_decisions f7))" "remembers P i (store (upd_runs f8))" "remembers P i (store (upd_outbox f9))"
  "remembers P i (store (upd_partitions f10))" "remembers P i (store (upd_leases f11))"
  by (rule remembers_store, simp add: upd_defs)+

lemma find_append: "find P xs = Some i \<Longrightarrow> find P (xs @ ys) = Some i"
  by (induction xs) (auto split: if_splits)

lemma remembers_added [memory]: "remembers P i (store (upd_idempotency (\<lambda>rs. rs @ [r])))"
  by (auto simp: remembers_def known_def store_def modify_def upd_defs find_append)

lemma remembers_updates [memory]: "remembers P i (update_returning grants upd_grants R h)" "remembers P i (update_returning requests upd_requests R' h')"
  "remembers P i (put_request r)" "remembers P i (put_grant g)" "remembers P i (put_bucket b)" "remembers P i (put_partition p)"
  "remembers P i (put_run w)" "remembers P i (rollback_raise e)"
  unfolding update_returning_def put_request_def put_grant_def put_bucket_def put_partition_def put_run_def rollback_raise_def by (intro memory)+

lemma remembers_audit [memory]: "remembers P i (append_audit_event v org ty actor subject p now)" "remembers P i (audit v a org ty subject p now)"
  "remembers P i (audit12 v a org ty subject p now)" "remembers P i (append_observability_event v org run phase status reason failure attrs now)"
  unfolding append_audit_event_def audit_def audit12_def append_observability_event_def Let_def by (intro memory)+

subsection \<open>Requests keep every record\<close>

lemma remembers_reads [memory]: "remembers P i (find_request org n)" "remembers P i (find_grant org n)" "remembers P i (risk_facts org action params)"
  "remembers P i (require_actor_organization actor org)" "remembers P i (existing_idempotent_run actor k b)"
  "remembers P i (approval_set_hash v org ds)"
  unfolding find_request_def find_grant_def risk_facts_def require_actor_organization_def existing_idempotent_run_def approval_set_hash_def
  by (intro memory)+

lemma remembers_evaluations [memory]: "remembers P i (active_approval_set v r)" "remembers P i (evaluate_production_risk v org action params)"
  "remembers P i (cancel_request v actor org n now)" "remembers P i (cancel_grant v actor org n now)"
  "remembers P i (admission_request v actor org pc e now)" "remembers P i (ensure_bucket org h scope route burst now)"
  "remembers P i (consume_rate_limit v actor route policy now)" "remembers P i (ensure_partition v org now)"
  "remembers P i (lock_capacity v org policy now)" "remembers P i (enqueue v org run slot policy now)"
  unfolding active_approval_set_def evaluate_production_risk_def cancel_request_def cancel_grant_def admission_request_def
    consume_rate_limit_def ensure_bucket_def ensure_partition_def lock_capacity_def enqueue_def new_outbox_def Let_def
  by (intro memory)+

lemma remembers_rejections [memory]:
  "remembers P i (deny_admission v actor org p e now)" "remembers P i (reject_backpressure v actor org p e n now)"
  "remembers P i (reject_claim v actor org subject extra now)" "remembers P i (trace_admission v actor r now)"
  "remembers P i (trace_outbox v r b now)" "remembers P i (trace_handoff v r q g claim now)"
  unfolding deny_admission_def reject_backpressure_def reject_claim_def trace_admission_def trace_outbox_def trace_handoff_def Let_def
  by (intro memory)+

lemma remembers_except:
  assumes "remembers P i m" and "\<And>n. remembers P i (h n)"
  shows "remembers P i (\<lambda>s. case m s of (Inl (BackpressureExceeded n), s') \<Rightarrow> h n s' | r \<Rightarrow> r)"
    and "remembers P i (\<lambda>s. case m s of (Inl (RateLimitExceeded n), s') \<Rightarrow> h n s' | r \<Rightarrow> r)"
  using assms by (auto simp: remembers_def split: prod.splits sum.splits control_error.splits)

lemma remembers_limits [memory]: "remembers P i (consume_rate_limit_or_audit v actor route policy subject now)"
  "remembers P i (lock_capacity_or_reject v actor org p e policy now)" "remembers P i (claim_backpressure v actor org run policy now)"
  unfolding consume_rate_limit_or_audit_def lock_capacity_or_reject_def claim_backpressure_def by (intro remembers_except memory)+

lemma remembers_commit_or_winner [memory]: "remembers P i (commit_or_winner actor k b r)"
  by (rule remembers_catch [where m = commit and f = "\<lambda>_. ret r" and h = "\<lambda>_. andthen rollback (\<lambda>_.
      andthen (existing_idempotent_run actor k b) (\<lambda>winner. case winner of None \<Rightarrow> raise IdempotencyConflict | Some r \<Rightarrow> ret r))"])
    (intro memory, intro memory, simp add: commit_or_winner_def ret_def split: prod.splits sum.splits, intro memory)

lemma remembers_claim_grant:
  assumes hook: "\<And>q g c. remembers P i (hook q g c)"
  shows "remembers P i (claim_grant v actor org n p now (Some hook))"
proof -
  have body: "remembers P i (claim_body v actor org r g p now (Some hook))" for r g
    unfolding claim_body_def record_claim_def Let_def option.case by (intro memory hook)
  have failed: "remembers P i (claim_failed v actor org n g now e)" for g e
    unfolding claim_failed_def
    by (intro memory, rule remembers_catch [where m = "andthen (audit v actor org EvGrantRejected (gr_grant_id g) (rejection_fields n g) now) (\<lambda>_. commit)"
          and h = "\<lambda>_. rollback" and f = ret])
      (auto simp: ret_def split: prod.splits sum.splits intro: memory)
  have tried: "remembers P i (\<lambda>s. case claim_body v actor org r g p now (Some hook) s of
      (Inr c, s') \<Rightarrow> (Inr c, s') | (Inl err, s') \<Rightarrow> claim_failed v actor org n g now err s')" for r g
    by (rule remembers_catch [where m = "claim_body v actor org r g p now (Some hook)" and h = "claim_failed v actor org n g now" and f = ret])
      (auto simp: ret_def body failed split: prod.splits sum.splits)
  show ?thesis
    unfolding claim_grant_def by (intro memory tried)
qed

lemma serve_remembers: "remembers P i (serve v actor policy now op)"
proof -
  have "remembers P i (queue_claimed_run v actor org run slot policy now q g c)" for org run slot q g c
    unfolding queue_claimed_run_def Let_def by (intro memory)
  note claim = remembers_claim_grant [OF this]
  show ?thesis
    by (cases op; simp only: serve.simps admit_production_run_def record_run_def get_production_run_def list_production_runs_def
        claim_production_run_def cancel_production_run_def record_cancel_def finish_cancel_def unqueue_def Let_def;
      intro memory claim)
qed

subsection \<open>Workers keep every record\<close>

lemma remembers_execute [memory]: "remembers P i (execute (upd_events f1))" "remembers P i (execute (upd_heads f2))"
  "remembers P i (execute (upd_traces f3))" "remembers P i (execute (upd_leases f4))"
  "remembers P i (execute (upd_grants f5))" "remembers P i (execute (upd_requests f6))" "remembers P i (update_outbox R1 g1)" "remembers P i (update_run R2 g2)" "remembers P i (update_partition org g3)"
  "remembers P i (set_audit_sequence R4 n)" "remembers P i (update_count outbox upd_outbox R5 g5)"
  "remembers P i (update_count runs upd_runs R6 g6)" "remembers P i (update_count grants upd_grants R7 g7)"
  "remembers P i (update_count requests upd_requests R8 g8)" "remembers P i (select_one tbl R9)"
  unfolding execute_def update_outbox_def update_run_def update_partition_def set_audit_sequence_def update_count_def select_one_def
  by (intro memory)+

lemma remembers_statements [memory]: "remembers P i (append_audit v org ty actor subject p now)"
  "remembers P i (append_trace_event v org run phase status reason failure attrs now)"
  "remembers P i (append_outcome_trace v w r ok receipt n version now)" "remembers P i (lease_history v b st now)"
  "remembers P i (record_stale_fence v w now)" "remembers P i (worker_authorization_hash v org uid)"
  unfolding append_audit_def append_trace_event_def append_outcome_trace_def lease_history_def record_stale_fence_def
    worker_authorization_hash_def Let_def
  by (intro memory)+

lemma remembers_approvals [memory]: "remembers P i (worker_approvals org ds)"
  by (induction ds) (auto intro!: memory)

lemma remembers_parts [memory]: "remembers P i (fail_approval v owner r reason now)" "remembers P i (complete_approval v w ok receipt now)"
  "remembers P i (worker_approval_set_hash v org request)"
  unfolding fail_approval_def complete_approval_def worker_approval_set_hash_def Let_def prod.case
  by (intro memory)+

lemma remembers_session: "remembers P i m \<Longrightarrow> remembers P i (in_session m)"
  unfolding remembers_def in_session_def Let_def by (auto simp: known_def case_prod_beta)

lemma remembers_transaction: "remembers P i m \<Longrightarrow> remembers P i (transaction m)"
  unfolding transaction_def
proof -
  assume m: "remembers P i m"
  have "remembers P i (andthen m (\<lambda>x. andthen commit (\<lambda>_. ret x)))" by (intro memory m)
  then show "remembers P i (in_session (andthen m (\<lambda>x. andthen commit (\<lambda>_. ret x))))" by (rule remembers_session)
qed

lemma remembers_returning: "remembers P i m \<Longrightarrow> remembers P i (returning h m)"
  unfolding returning_def by (intro memory)

lemma work_remembers: "remembers P i (do_work v w now op)"
  by (cases op; simp only: do_work.simps claim_next_def mark_started_def heartbeat_def record_deduplicated_def fail_def complete_def
    release_def expire_locked_def fail_locked_def lease_locked_def start_locked_def complete_locked_def mark_verifying_def
    reject_stale_def check_binding_def Let_def prod.case; intro remembers_returning remembers_transaction memory)

subsection \<open>What an admission leaves\<close>

definition keyed :: "actor_context \<Rightarrow> string \<Rightarrow> idempotency_record \<Rightarrow> bool" where
  "keyed actor k i = (ir_organization_id i = a_organization_id actor \<and> ir_actor_user_id i = a_user_id actor \<and> ir_key_hash i = k)"

definition admitted :: "actor_context \<Rightarrow> string \<Rightarrow> string \<Rightarrow> production_run \<Rightarrow> tables \<Rightarrow> bool" where
  "admitted actor k b r t \<longleftrightarrow> (\<exists>i. find (keyed actor k) (idempotency t) = Some i \<and> ir_body_hash i = b \<and> r \<in> set (runs t) \<and>
     org_run r = (a_organization_id actor, ir_run_id i))"

lemma find_in: "find P xs = Some x \<Longrightarrow> x \<in> set xs \<and> P x"
  by (auto simp: find_Some_iff)

lemma existing_keyed: "existing_idempotent_run actor k b s = (case find (keyed actor k) (idempotency (current s)) of
    None \<Rightarrow> (Inr None, s)
  | Some i \<Rightarrow> if ir_body_hash i \<noteq> b then (Inl IdempotencyConflict, s)
      else (case find (\<lambda>r. pr_organization_id r = a_organization_id actor \<and> pr_run_id r = ir_run_id i) (runs (current s)) of
        None \<Rightarrow> (Inl ProductionStateConflict, s) | Some r \<Rightarrow> (Inr (Some r), s)))"
  unfolding keyed_def [abs_def]
  by (simp add: existing_idempotent_run_def andthen_def scalar_def query_def find_run_def require_def ret_def raise_def split: option.split)

lemma existing_Inr:
  "existing_idempotent_run actor k b s = (Inr (Some r), s') \<Longrightarrow> s' = s \<and> admitted actor k b r (current s)"
  by (auto simp: existing_keyed admitted_def split: option.splits if_splits dest!: find_in)

lemma only_records_appends [record_rules]: "only_records (append_observability_event v org run phase status reason failure attrs now)"
  "only_records (trace_admission v actor r now)" "only_records (trace_outbox v r b now)"
  unfolding trace_admission_def trace_outbox_def append_observability_event_def Let_def
  by (intro record_rules)+

lemma only_records_Inr:
  assumes "only_records m" and "m s = (x, s')"
  shows "runs (current s') = runs (current s) \<and> idempotency (current s') = idempotency (current s)"
proof -
  have "aside (current s') = aside (current s)" using assms unfolding only_records_def by (metis snd_conv)
  then have "runs (aside (current s')) = runs (aside (current s))" "idempotency (aside (current s')) = idempotency (aside (current s))"
    by simp_all
  then show ?thesis by (simp add: aside_def)
qed

lemma commit_or_winner_Inr:
  assumes "commit_or_winner actor k b r s = (Inr x, s')" and "r \<in> set (runs (current s))" and "i \<in> set (idempotency (current s))"
    and "keyed actor k i" "ir_body_hash i = b" "org_run r = (a_organization_id actor, ir_run_id i)"
  shows "admitted actor k b x (committed s')"
proof (cases "tables_valid (current s)")
  case True
  then have s': "x = r" "committed s' = current s" using assms(1) by (auto simp: commit_or_winner_def commit_def)
  obtain j where j: "find (keyed actor k) (idempotency (current s)) = Some j"
    using assms(3,4) by (cases "find (keyed actor k) (idempotency (current s))") (auto simp: find_None_iff)
  have "j \<in> set (idempotency (current s))" "keyed actor k j" using find_in [OF j] by simp_all
  moreover have "unique_on (\<lambda>i. (ir_organization_id i, ir_actor_user_id i, ir_key_hash i)) (idempotency (current s))"
    using True by (simp add: tables_valid_def admission_keys_ok_def)
  ultimately have "j = i" using assms(3,4) by (fastforce simp: unique_on_def distinct_map inj_on_def keyed_def)
  then show ?thesis using j s' assms by (auto simp: admitted_def)
next
  case False
  then have "andthen rollback (\<lambda>_. andthen (existing_idempotent_run actor k b) (\<lambda>winner.
      case winner of None \<Rightarrow> raise IdempotencyConflict | Some r \<Rightarrow> ret r)) s = (Inr x, s')"
    using assms(1) by (simp add: commit_or_winner_def commit_def)
  then have "existing_idempotent_run actor k b (s\<lparr>current := committed s\<rparr>) = (Inr (Some x), s')"
    by (auto simp: andthen_Inr_iff rollback_def modify_def split: option.splits)
  from existing_Inr [OF this] show ?thesis by simp
qed

lemma enqueue_same: "enqueue v org run slot policy now s = (x, s') \<Longrightarrow>
    runs (current s') = runs (current s) \<and> idempotency (current s') = idempotency (current s)"
  by (auto simp: enqueue_def new_outbox_def opaque_id_def put_partition_def andthen_def draw_def store_def modify_def ret_def upd_defs)

lemma record_tail:
  assumes "andthen (case slot of None \<Rightarrow> ret None | Some q \<Rightarrow> andthen (enqueue v org run q policy now) (\<lambda>b. ret (Some b))) (\<lambda>row.
      andthen flush (\<lambda>_.
      andthen (trace_admission v actor new now) (\<lambda>_.
      andthen (case row of None \<Rightarrow> ret () | Some b \<Rightarrow> andthen (trace_outbox v new b now) (\<lambda>_. ret ())) (\<lambda>_.
      commit_or_winner actor k b new)))) s = (Inr r, s')"
    and new: "new \<in> set (runs (current s))" "i \<in> set (idempotency (current s))"
      "keyed actor k i" "ir_body_hash i = b" "org_run new = (a_organization_id actor, ir_run_id i)"
  shows "admitted actor k b r (committed s')"
proof -
  obtain row s1 s2 x s3 s4
    where s1: "(case slot of None \<Rightarrow> ret None | Some q \<Rightarrow> andthen (enqueue v org run q policy now) (\<lambda>b. ret (Some b))) s = (Inr row, s1)"
      and s2: "flush s1 = (Inr (), s2)" and s3: "trace_admission v actor new now s2 = (Inr x, s3)"
      and s4: "(case row of None \<Rightarrow> ret () | Some b \<Rightarrow> andthen (trace_outbox v new b now) (\<lambda>_. ret ())) s3 = (Inr (), s4)"
      and last: "commit_or_winner actor k b new s4 = (Inr r, s')"
    using assms(1) unfolding andthen_Inr_iff by auto
  have same: "runs (current s1) = runs (current s) \<and> idempotency (current s1) = idempotency (current s)"
    using s1 by (auto simp: andthen_Inr_iff split: option.splits dest: enqueue_same)
  have "s2 = s1" using s2 by (simp add: flush_def split: if_splits)
  moreover note only_records_Inr [OF only_records_appends(2) s3]
  moreover have "runs (current s4) = runs (current s3) \<and> idempotency (current s4) = idempotency (current s3)"
    using s4 by (auto simp: andthen_Inr_iff split: option.splits dest: only_records_Inr [OF only_records_appends(3)])
  ultimately show ?thesis using commit_or_winner_Inr [OF last, of i] new same by simp
qed

text \<open>What holds when a method returns in a given session.\<close>

definition ensures :: "('a \<Rightarrow> session \<Rightarrow> bool) \<Rightarrow> 'a control \<Rightarrow> session \<Rightarrow> bool" where
  "ensures E m s \<longleftrightarrow> (\<forall>x s'. m s = (Inr x, s') \<longrightarrow> E x s')"

lemma ensures_rules:
  "(\<And>x s1. ensures E (f x) s1) \<Longrightarrow> ensures E (andthen m f) s"
  "ensures E' (g ()) (s\<lparr>current := h (current s)\<rparr>) \<Longrightarrow> ensures E' (andthen (store h) g) s"
  "ensures E' (g ()) s \<Longrightarrow> ensures E' (andthen flush g) s"
  by (auto simp: ensures_def andthen_Inr_iff flush_def split: if_splits)

lemma ensures_opaque: "(\<And>x s1. current s1 = current s \<Longrightarrow> ensures E (f x) s1) \<Longrightarrow> ensures E (andthen (opaque_id v pre) f) s"
proof -
  assume f: "\<And>x s1. current s1 = current s \<Longrightarrow> ensures E (f x) s1"
  have "ensures E (f (pre @ CHR ''_'' # v_token_hex v (drawn s))) (s\<lparr>drawn := Suc (drawn s)\<rparr>)" by (rule f) simp
  then show ?thesis by (simp add: ensures_def andthen_Inr_iff opaque_id_def)
qed

lemma record_run_Inr:
  assumes "record_run v actor (a_organization_id actor) p e k b run request slot policy now s = (Inr r, s')"
  shows "admitted actor k b r (committed s')"
proof -
  have "ensures (\<lambda>r s'. admitted actor k b r (committed s'))
      (record_run v actor (a_organization_id actor) p e k b run request slot policy now) s"
    unfolding record_run_def Let_def
  proof (rule ensures_rules(1), rule ensures_rules(2), rule ensures_rules(3), rule ensures_opaque, rule ensures_rules(2), goal_cases)
    case (1 accepted s1 i s2)
    show ?case unfolding ensures_def
      by (intro allI impI, rule record_tail [where i = "\<lparr>ir_idempotency_id = i, ir_organization_id = a_organization_id actor,
          ir_actor_user_id = a_user_id actor, ir_key_hash = k, ir_body_hash = b, ir_run_id = run, ir_created_at = now\<rparr>"], assumption)
        (simp_all add: 1 upd_defs keyed_def new_run_fields)
  qed
  then show ?thesis using assms by (simp add: ensures_def)
qed

lemma admit_leaves:
  assumes "admit_production_run v actor org key p policy now s = (Inr r, s')" and "current s = committed s"
  shows "org = a_organization_id actor \<and>
    admitted actor (stable_hash_str (v_sha v) key) (stable_hash (v_sha v) (create_json p)) r (committed s')"
proof -
  let ?k = "stable_hash_str (v_sha v) key" and ?b = "stable_hash (v_sha v) (create_json p)"
  have org: "org = a_organization_id actor"
    using assms(1) by (auto simp: admit_production_run_def require_actor_organization_def run_iff)
  obtain found s1 where found: "existing_idempotent_run actor ?k ?b s = (Inr found, s1)"
    using assms(1) by (auto simp: admit_production_run_def require_actor_organization_def run_iff Let_def)
  show ?thesis
  proof (cases found)
    case (Some x)
    then have "r = x" "s' = s1" using assms(1) found
      by (auto simp: admit_production_run_def require_actor_organization_def run_iff Let_def)
    then show ?thesis using existing_Inr found Some org assms(2) by fastforce
  next
    case None
    then obtain e run request slot s2 where "record_run v actor org p e ?k ?b run request slot policy now s2 = (Inr r, s')"
      using assms(1) found by (auto simp: admit_production_run_def require_actor_organization_def run_iff Let_def deny_admission_def split: if_splits)
    then show ?thesis using record_run_Inr org by simp
  qed
qed

end
