(* ===== verification/Queue_Props.thy ===== *)
theory Queue_Props
  imports Queue_Replay Control_Props
begin

section \<open>Properties of the queue\<close>

text \<open>
  A deployment: the API, the workers and everything else over one database. The properties say what all its
  executions keep (the accounting of the queue, the life of every run, the exclusive hold of a lease), what a
  worker without its lease can do, what a claimed item carries and what must hold for a run to start, what
  becomes of a released row, how admission answers a submission that is repeated, and how a trace reads back.
\<close>

subsection \<open>Deployments\<close>

text \<open>The database with the work items handed out so far, the latest first.\<close>

record deployment =
  dp_session :: session
  dp_items :: "work_item list"

text \<open>
  A request to the API, an operation of a worker on an item it was given, or anything else that leaves the
  queue and the idempotency records as they are: the other routes of the API do not write to them.
\<close>

datatype deployment_event =
    Request actor_context production_policy datetime request
  | Work worker_settings datetime work
  | Elsewhere session

abbreviation queue_at :: "deployment \<Rightarrow> queue" where
  "queue_at d \<equiv> queue_of (committed (dp_session d))"

fun happens :: "env \<Rightarrow> deployment_event \<Rightarrow> deployment \<Rightarrow> deployment" where
  "happens v (Request actor policy now op) d = d\<lparr>dp_session := snd (in_session (serve v actor policy now op) (dp_session d))\<rparr>"
| "happens v (Work w now op) d =
     (if case item_of op of None \<Rightarrow> True | Some i \<Rightarrow> i \<in> set (dp_items d)
      then (case do_work v w now op (dp_session d) of (r, s) \<Rightarrow>
        \<lparr>dp_session = s, dp_items = (case r of Inr (Some i) \<Rightarrow> i # dp_items d | _ \<Rightarrow> dp_items d)\<rparr>)
      else d)"
| "happens v (Elsewhere s) d = (if queue_of (committed s) = queue_at d \<and> idempotency (committed s) = idempotency (committed (dp_session d))
      then d\<lparr>dp_session := s\<rparr> else d)"

definition history :: "env \<Rightarrow> deployment_event list \<Rightarrow> deployment \<Rightarrow> deployment" where
  "history v evs d = fold (happens v) evs d"

definition token :: "work_item \<Rightarrow> string \<times> int" where
  "token i = (wi_outbox_id i, wi_fencing_token i)"

definition deployment_ok :: "deployment \<Rightarrow> bool" where
  "deployment_ok d \<longleftrightarrow> queue_ok (queue_at d) \<and> (\<forall>i \<in> set (dp_items d). issued (queue_at d) i) \<and> distinct (map token (dp_items d))"

lemma fresh_token:
  assumes "queue_ok q" and "issued q j" and "fresh_lease q i q'"
  shows "token j \<noteq> token i"
proof
  assume same: "token j = token i"
  obtain rs bs ps where q: "q = (rs, bs, ps)" by (cases q)
  obtain b where b: "b \<in> set bs" "ob_outbox_id b = wi_outbox_id j" "wi_fencing_token j \<le> ob_fencing_token b"
    using assms(2) by (auto simp: issued_def q)
  obtain b' where b': "b' \<in> set bs" "ob_outbox_id b' = wi_outbox_id i" "wi_fencing_token i = ob_fencing_token b' + 1"
    using assms(3) by (cases q') (auto simp: fresh_lease_def q)
  have "b' = b" using assms(1) b(1,2) b'(1,2) same by (auto simp: q queue_ok_def queue_keys_def distinct_map inj_on_def token_def)
  then show False using b(3) b'(3) same by (simp add: token_def)
qed

lemma issued_steps: "queue_step\<^sup>*\<^sup>* q q' \<Longrightarrow> queue_ok q \<Longrightarrow> issued q i \<Longrightarrow> issued q' i"
  using queue_steps_move issued_grow by blast

lemma happens_ok:
  assumes "deployment_ok d"
  shows "deployment_ok (happens v ev d) \<and> queue_step\<^sup>*\<^sup>* (queue_at d) (queue_at (happens v ev d))"
proof -
  have ok: "queue_ok (queue_at d)" using assms by (simp add: deployment_ok_def)
  have keep: "deployment_ok d'" if "queue_step\<^sup>*\<^sup>* (queue_at d) (queue_at d')" "dp_items d' = dp_items d" for d' :: deployment
    using assms that queue_steps_ok issued_steps unfolding deployment_ok_def by metis
  show ?thesis
  proof (cases ev)
    case (Request actor policy now op)
    have "queue_step\<^sup>*\<^sup>* (queue_at d) (queue_at (happens v ev d))"
      using serve_follows [OF ok, of v actor policy now op] by (simp add: Request) (metis prod.collapse)
    then show ?thesis using keep [of "happens v ev d"] by (simp add: Request)
  next
    case (Elsewhere s)
    then show ?thesis using keep [of "happens v ev d"] assms by auto
  next
    case (Work w now op)
    show ?thesis
    proof (cases "case item_of op of None \<Rightarrow> True | Some i \<Rightarrow> i \<in> set (dp_items d)")
      case False
      then show ?thesis using assms by (auto simp: Work)
    next
      case True
      obtain r s where run: "do_work v w now op (dp_session d) = (r, s)" by (cases "do_work v w now op (dp_session d)")
      have "issued (queue_at d) i" if "item_of op = Some i" for i using True that assms by (simp add: deployment_ok_def)
      then have "queue_step\<^sup>=\<^sup>= (queue_at d) (queue_of (committed s))" by (rule work_follows [OF ok _ run])
      then have steps: "queue_step\<^sup>*\<^sup>* (queue_at d) (queue_of (committed s))" by auto
      show ?thesis
      proof (cases "\<exists>i. r = Inr (Some i)")
        case False
        then have "happens v ev d = \<lparr>dp_session = s, dp_items = dp_items d\<rparr>"
          using True run by (auto simp: Work split: sum.splits option.splits)
        then show ?thesis using keep [of "happens v ev d"] steps by simp
      next
        case True
        then obtain i where r: "r = Inr (Some i)" by blast
        then have d': "happens v ev d = \<lparr>dp_session = s, dp_items = i # dp_items d\<rparr>"
          using \<open>case item_of op of None \<Rightarrow> _ | Some i \<Rightarrow> _ i\<close> run by (simp add: Work)
        have fresh: "fresh_lease (queue_at d) i (queue_of (committed s))" using work_issues [OF ok] run r by simp
        then have "issued (queue_of (committed s)) i" by (rule issued_fresh)
        moreover have "token i \<notin> token ` set (dp_items d)"
          using fresh_token [OF ok _ fresh] assms by (fastforce simp: deployment_ok_def)
        ultimately show ?thesis
          using assms steps queue_steps_ok [OF steps ok] issued_steps [OF steps ok] by (auto simp: deployment_ok_def d')
      qed
    qed
  qed
qed

lemma history_ok: "deployment_ok d \<Longrightarrow> deployment_ok (history v evs d) \<and> queue_step\<^sup>*\<^sup>* (queue_at d) (queue_at (history v evs d))"
  unfolding history_def
proof (induction evs arbitrary: d)
  case (Cons ev evs)
  then show ?case using happens_ok [OF Cons.prems, of v ev] by (auto intro: rtranclp_trans)
qed simp

subsection \<open>A small deployment\<close>

text \<open>One queued run with its row and its partition; every hash is the same, identifiers differ in length.\<close>

definition queue_env :: env where
  "queue_env = \<lparr>v_sha = (\<lambda>_. demo_hash), v_token_hex = (\<lambda>n. replicate (8 + n) (CHR ''0'')), v_token_urlsafe = (\<lambda>n k. ''t''), v_db_now = 0\<rparr>"

definition queued_demo :: production_run where
  "queued_demo = \<lparr>pr_run_id = ''run_a'', pr_organization_id = ''org_a'', pr_requester_user_id = ''usr_o'', pr_executor_user_id = ''usr_o'',
     pr_task_id = ''w7-jml-mover-001-v1'', pr_run_process = ProcessMover, pr_run_category = CategoryMover, pr_approval_request_id = None,
     pr_grant_id = None, pr_execution_id = None, pr_action_type = ''read_ticket'', pr_parameter_hash = demo_hash,
     pr_authorization_hash = demo_hash, pr_approval_set_hash = None, pr_payload_reference = ''taskref_a'', pr_payload_hash = demo_hash,
     pr_status = RunQueued, pr_version = 1, pr_idempotency_hash = demo_hash, pr_body_hash = demo_hash, pr_workflow_id = ''w12-a'',
     pr_workflow_hash = demo_hash, pr_lease_owner_hash = None, pr_fencing_token = 0, pr_lease_expires_at = None, pr_accepted_at = 0,
     pr_queued_at = Some 0, pr_started_at = None, pr_finished_at = None, pr_terminal_reason = None, pr_receipt_reference = None,
     pr_audit_sequence = 1, pr_created_at = 0, pr_updated_at = 0\<rparr>"

definition row_demo :: dispatch_outbox where
  "row_demo = \<lparr>ob_outbox_id = ''out_a'', ob_organization_id = ''org_a'', ob_run_id = ''run_a'', ob_status = OutboxReady, ob_attempt_count = 0,
     ob_fencing_token = 0, ob_lease_owner_hash = None, ob_lease_version = 0, ob_leased_at = None, ob_lease_expires_at = None,
     ob_heartbeat_at = None, ob_available_at = 0, ob_expires_at = 300, ob_created_at = 0, ob_updated_at = 0\<rparr>"

definition queue_session :: "dispatch_outbox \<Rightarrow> session" where
  "queue_session b = (let t = demo_tables\<lparr>runs := [queued_demo], outbox := [b],
       partitions := [\<lparr>pt_organization_id = ''org_a'', pt_partition_id = ''prt_a'', pt_ready_count = 1, pt_status = PartitionReady,
         pt_cursor_version = 1, pt_last_selected_at = None, pt_updated_at = 0\<rparr>]\<rparr> in
     demo_session\<lparr>committed := t, current := t\<rparr>)"

definition demo_deployment :: deployment where
  "demo_deployment = \<lparr>dp_session = queue_session row_demo, dp_items = []\<rparr>"

definition demo_submission :: production_run_create where
  "demo_submission = \<lparr>pc_task_id = ''w7-jml-mover-001-v1'', pc_process = ProcessMover, pc_category = CategoryMover,
     pc_action_type = ''read_ticket'', pc_parameters = []\<rparr>"

definition demo_history :: "deployment_event list" where
  "demo_history = [Work default_settings 10 ClaimNext, Request demo_actor default_policy 20 (Cancel ''org_a'' ''run_a'' 2),
     Request demo_actor default_policy 30 (Admit ''org_a'' ''key'' demo_submission), Work default_settings 40 ClaimNext]"

lemma demo_deployment_ok: "deployment_ok demo_deployment"
  by (simp add: demo_deployment_def deployment_ok_def queue_session_def Let_def queue_of_def queue_ok_def queue_keys_def queue_counts_def
      queue_runs_def norm_run_def queued_demo_def row_demo_def open_rows_def open_outbox_def in_step_def status_pair_def live_def)

subsection \<open>What every history keeps\<close>

text \<open>
  C3. The queue stays accounted for: after any interleaving of API requests, worker operations and other
  routes, the keys of runs, rows and partitions are unique, every partition counts exactly its open rows and
  is ready while it has one, every open row has its run in the matching state and at the same fencing token,
  and every live run has an open row.
\<close>

theorem queue_stays_accounted:
  assumes "deployment_ok d"
  shows "queue_ok (queue_at (history v evs d))"
  using history_ok [OF assms] by (simp add: deployment_ok_def)

theorem queue_stays_accounted_witness: "queue_ok (queue_at (history queue_env demo_history demo_deployment))"
  by (rule queue_stays_accounted) (rule demo_deployment_ok)

text \<open>
  C16. Every run moves along its life cycle: it never disappears, each change of its status and fencing token is
  a sequence of the transitions of \<open>lifecycle\<close>, the token never decreases, and a run that has ended keeps its
  status for good.
\<close>

theorem runs_follow_lifecycle:
  assumes "deployment_ok d" and "r \<in> set (runs (committed (dp_session d)))"
  shows "\<exists>r' \<in> set (runs (committed (dp_session (history v evs d)))). org_run r' = org_run r \<and>
    lifecycle\<^sup>*\<^sup>* (life_of r) (life_of r') \<and> pr_fencing_token r \<le> pr_fencing_token r' \<and>
    (if terminal (pr_status r) then pr_status r' = pr_status r else True)"
proof -
  have "runs_move (fst (queue_at d)) (fst (queue_at (history v evs d)))"
    using history_ok [OF assms(1)] queue_steps_move assms(1) by (auto simp: deployment_ok_def)
  then obtain r' where r': "r' \<in> set (runs (committed (dp_session (history v evs d))))"
      "org_run r' = org_run r" and life: "lifecycle\<^sup>*\<^sup>* (life_of r) (life_of r')"
    using assms(2) by (auto simp: runs_move_def queue_of_def same_run_def life_of_def norm_run_def)
  then show ?thesis using lifecycles [OF life] by (auto simp: life_of_def intro!: bexI [of _ r'])
qed

theorem runs_follow_lifecycle_witness:
  "\<exists>r' \<in> set (runs (committed (dp_session (history queue_env demo_history demo_deployment)))). org_run r' = (''org_a'', ''run_a'') \<and>
     lifecycle\<^sup>*\<^sup>* (RunQueued, 0) (life_of r')"
proof -
  have "queued_demo \<in> set (runs (committed (dp_session demo_deployment)))" by (simp add: demo_deployment_def queue_session_def Let_def)
  from runs_follow_lifecycle [OF demo_deployment_ok this, of queue_env demo_history] show ?thesis
    by (auto simp: life_of_def queued_demo_def)
qed



subsection \<open>A worker without its lease\<close>

lemma only_records_stale [record_rules]: "only_records (reject_stale v i now)"
  unfolding reject_stale_def record_stale_fence_def append_audit_def append_trace_event_def select_one_def Let_def
  by (intro record_rules)

lemma transaction_aside:
  assumes "m (s\<lparr>current := committed s\<rparr>) = n (s\<lparr>current := committed s\<rparr>)" and "only_records n"
  shows "aside (committed (snd (transaction m s))) = aside (committed s)"
proof -
  obtain r s1 where n: "n (s\<lparr>current := committed s\<rparr>) = (r, s1)" by (cases "n (s\<lparr>current := committed s\<rparr>)")
  have "aside (current s1) = aside (committed s)" "committed s1 = committed s"
    using assms(2) [unfolded only_records_def, rule_format, of "s\<lparr>current := committed s\<rparr>"] n by simp_all
  then show ?thesis using assms(1) n
    by (auto simp: transaction_def in_session_def andthen_def commit_def ret_def split: prod.splits sum.splits if_splits)
qed

lemma stale_row:
  assumes "list_all (\<lambda>b. \<not> held_outbox i b) (outbox (current s))" and "\<And>b. P b \<Longrightarrow> held_outbox i b"
  shows "andthen (select_one outbox P) f s = f None s"
    and "andthen (update_count outbox upd_outbox P g) h s = andthen flush (\<lambda>_. h 0) s"
    and "andthen (query (\<lambda>t. length (filter P (outbox t)))) h s = h 0 s"
proof -
  have none: "\<not> P b" if "b \<in> set (outbox (current s))" for b using assms that by (auto simp: list_all_iff)
  then have "filter P (outbox (current s)) = []" by (simp add: filter_empty_conv)
  then show "andthen (select_one outbox P) f s = f None s"
    and "andthen (query (\<lambda>t. length (filter P (outbox t)))) h s = h 0 s"
    by (simp_all add: select_one_def andthen_def query_def one_or_none_def ret_def)
  have "upd_outbox (update_rows P g) (current s) = current s" by (simp add: upd_outbox_def update_rows_none none)
  then show "andthen (update_count outbox upd_outbox P g) h s = andthen flush (\<lambda>_. h 0) s"
    using \<open>filter P _ = []\<close>
    by (auto simp: update_count_def execute_def andthen_def query_def store_def modify_def ret_def flush_def split: prod.splits sum.splits)
qed

text \<open>
  C9. A worker that has lost its lease changes nothing: when no row is held under the owner and the fencing token
  of its work item, starting, the heartbeat, completing, failing, releasing and recording a duplicate leave every
  table as it is, apart from the audit chain and the traces that record the rejection.
\<close>

theorem stale_worker_changes_nothing:
  assumes "item_of op = Some i" and "list_all (\<lambda>b. \<not> held_outbox i b) (outbox (committed s))"
  shows "aside (committed (snd (do_work v w now op s))) = aside (committed s)"
proof -
  let ?s = "s\<lparr>current := committed s\<rparr>"
  have same: "snd (returning h m s) = snd (m s)" for h :: "bool \<Rightarrow> work_item option" and m
    by (simp add: returning_def andthen_def ret_def split: prod.splits sum.splits)
  have "list_all (\<lambda>b. \<not> held_outbox i b) (outbox (current ?s))" using assms(2) by simp
  note row = stale_row [OF this]
  have missed: "(if (0::nat) \<noteq> 1 then m else m') = m" for m m' :: "bool control" by simp
  have read: "only_records (andthen (select_one runs R) (\<lambda>run. case (None, run) of (Some b, Some r) \<Rightarrow> k b r | _ \<Rightarrow> reject_stale v i now))"
    for R and k :: "dispatch_outbox \<Rightarrow> production_run \<Rightarrow> bool control"
    unfolding select_one_def prod.case option.case by (intro record_rules)
  show ?thesis
  proof (cases op)
    case (MarkStarted j)
    then have [simp]: "j = i" using assms(1) by (simp add: item_of_def)
    show ?thesis unfolding MarkStarted do_work.simps same mark_started_def
      by (rule transaction_aside, rule row(1), simp, unfold option.case, intro record_rules)
  next
    case (Heartbeat j)
    then have [simp]: "j = i" using assms(1) by (simp add: item_of_def)
    show ?thesis unfolding Heartbeat do_work.simps same heartbeat_def Let_def
      by (rule transaction_aside, rule row(2), simp, unfold missed, intro record_rules)
  next
    case (RecordDeduplicated j)
    then have [simp]: "j = i" using assms(1) by (simp add: item_of_def)
    show ?thesis unfolding RecordDeduplicated do_work.simps same record_deduplicated_def Let_def
      by (rule transaction_aside, rule row(3), simp, unfold missed, intro record_rules)
  next
    case (Fail j reason)
    then have j: "j = i" using assms(1) by (simp add: item_of_def)
    show ?thesis unfolding Fail j do_work.simps same fail_def
      by (rule transaction_aside, rule row(1), simp, rule read)
  next
    case (Complete j outcome)
    then have j: "j = i" using assms(1) by (simp add: item_of_def)
    show ?thesis unfolding Complete j do_work.simps same complete_def
      by (rule transaction_aside, rule row(1), simp, rule read)
  next
    case (Release j)
    then have [simp]: "j = i" using assms(1) by (simp add: item_of_def)
    show ?thesis unfolding Release do_work.simps same release_def Let_def
      by (rule transaction_aside, rule row(1), simp, unfold option.case, intro record_rules)
  qed (use assms(1) in \<open>simp add: item_of_def\<close>)
qed

definition demo_item :: work_item where
  "demo_item = work_item_of queued_demo (row_demo\<lparr>ob_fencing_token := 1\<rparr>) demo_hash 0 30"

theorem stale_worker_changes_nothing_witness:
  "aside (committed (snd (do_work queue_env default_settings 50 (Release demo_item) (queue_session row_demo)))) =
     aside (committed (queue_session row_demo))"
  by (rule stale_worker_changes_nothing [where i = demo_item])
    (simp_all add: item_of_def queue_session_def Let_def row_demo_def held_outbox_def)

subsection \<open>Claiming work\<close>



subsection \<open>Starting work\<close>

text \<open>The executor as the directory has it: in force, with one active identity, under the admitted authorization.\<close>

definition executor_in_force :: "env \<Rightarrow> string \<Rightarrow> string \<Rightarrow> string \<Rightarrow> tables \<Rightarrow> bool" where
  "executor_in_force v org uid h t \<longleftrightarrow> (\<exists>o' \<in> set (organizations t). \<exists>u \<in> set (users t). \<exists>m \<in> set (memberships t). \<exists>i.
     og_organization_id o' = org \<and> og_status o' = Active \<and>
     us_organization_id u = org \<and> us_user_id u = uid \<and> us_status u = Active \<and>
     mb_organization_id m = org \<and> mb_user_id m = uid \<and> mb_status m = Active \<and>
     filter (\<lambda>i. id_organization_id i = org \<and> id_user_id i = uid \<and> id_status i = Active) (identities t) = [i] \<and>
     h = authorization_hash v i o' u m (active_authorities org uid t))"

text \<open>The approvals of a request, each with the authority it was given under.\<close>

definition approvals_in_force :: "string \<Rightarrow> string \<Rightarrow> approval_authority list \<Rightarrow> tables \<Rightarrow> bool" where
  "approvals_in_force org request as t \<longleftrightarrow>
     list_all2 (\<lambda>d a. a \<in> set (authorities t) \<and> deciding_authority org d a \<and> approver_in_force org d t) (approved_decisions org request t) as"

definition approval_set_of :: "env \<Rightarrow> approval_decision list \<Rightarrow> approval_authority list \<Rightarrow> string" where
  "approval_set_of v ds as = stable_hash (v_sha v) (JObj [(''schema_version'', JStr ''w11-required-approval-set/1.0''),
     (''approvals'', JArr (map snd (sort_key fst (map2 (\<lambda>d a. (approval_role_name (dc_approval_role d), approval_item d a)) ds as))))])"

definition run_approved :: "env \<Rightarrow> work_item \<Rightarrow> tables \<Rightarrow> bool" where
  "run_approved v i t = (let org = wi_organization_id i in case wi_approval_request_id i of
     None \<Rightarrow> wi_grant_id i = None \<and> wi_execution_id i = None
   | Some request \<Rightarrow> (\<exists>q \<in> set (requests t). \<exists>g \<in> set (grants t). \<exists>as.
       rq_organization_id q = org \<and> rq_request_id q = request \<and> gr_organization_id g = org \<and> Some (gr_grant_id g) = wi_grant_id i \<and>
       gr_request_id g = request \<and> gr_execution_id g = wi_execution_id i \<and> approval_rows_match i q g \<and>
       approvals_in_force org request as t \<and> length as = max 1 (length (rq_required_roles q)) \<and>
       gr_approval_set_hash g = approval_set_of v (approved_decisions org request t) as))"

lemma select_one_Inr: "select_one tbl P s = (Inr x, s') \<longleftrightarrow> s' = s \<and> (case x of None \<Rightarrow> filter P (tbl (current s)) = []
    | Some r \<Rightarrow> filter P (tbl (current s)) = [r])"
  by (auto simp: select_one_def one_or_none_def run_iff split: list.splits option.splits)

lemma selected: "filter P xs = [x] \<Longrightarrow> x \<in> set xs \<and> P x"
proof -
  assume "filter P xs = [x]"
  then have "x \<in> set (filter P xs)" by simp
  then show ?thesis by simp
qed

lemma Some_map_option: "Some y = map_option f x \<longleftrightarrow> (\<exists>z. x = Some z \<and> y = f z)"
  by (cases x) auto

lemma worker_approvals_Inr:
  "worker_approvals org ds s = (Inr (Some items), s') \<Longrightarrow> s' = s \<and> (\<exists>as. list_all2 (\<lambda>d a. a \<in> set (authorities (current s)) \<and>
     deciding_authority org d a \<and> approver_in_force org d (current s)) ds as \<and>
     items = map2 (\<lambda>d a. (approval_role_name (dc_approval_role d), approval_item d a)) ds as)"
proof (induction ds arbitrary: items s')
  case (Cons d ds)
  from Cons.prems obtain a rest where a: "a \<in> set (authorities (current s))" "deciding_authority org d a" "approver_in_force org d (current s)"
      and rest: "worker_approvals org ds s = (Inr (Some rest), s')"
      and items: "items = (approval_role_name (dc_approval_role d), approval_item d a) # rest"
    by (auto simp: run_iff select_one_Inr Some_map_option dest!: selected split: option.splits if_splits)
  from Cons.IH [OF rest] obtain as where "s' = s" "list_all2 (\<lambda>d a. a \<in> set (authorities (current s)) \<and>
      deciding_authority org d a \<and> approver_in_force org d (current s)) ds as"
      "rest = map2 (\<lambda>d a. (approval_role_name (dc_approval_role d), approval_item d a)) ds as" by blast
  then show ?case using a items by (intro conjI exI [of _ "a # as"]) auto
qed (simp add: run_iff)

lemma worker_hash_Inr:
  assumes "worker_authorization_hash v org uid s = (Inr (Some h), s')"
  shows "s' = s \<and> executor_in_force v org uid h (current s)"
  using assms unfolding worker_authorization_hash_def executor_in_force_def
  by (fastforce simp: run_iff select_one_Inr dest!: selected split: option.splits list.splits)

lemma check_binding_True:
  assumes "check_binding v i now check s = (Inr True, s')"
  shows "executor_in_force v (wi_organization_id i) (wi_executor_user_id i) (wi_authorization_hash i) (current s) \<and> run_approved v i (current s)"
proof -
  let ?org = "wi_organization_id i"
  obtain s1 where h: "worker_authorization_hash v ?org (wi_executor_user_id i) s = (Inr (Some (wi_authorization_hash i)), s1)"
    using assms by (auto simp: check_binding_def run_iff split: if_splits)
  have s1: "s1 = s" using worker_hash_Inr [OF h] by simp
  have "run_approved v i (current s)"
  proof (cases "wi_approval_request_id i")
    case None
    then show ?thesis using assms h by (auto simp: check_binding_def run_iff run_approved_def)
  next
    case (Some request)
    obtain q g set_hash where q: "q \<in> set (requests (current s))" "rq_organization_id q = ?org" "rq_request_id q = request"
        and g: "g \<in> set (grants (current s))" "gr_organization_id g = ?org" "Some (gr_grant_id g) = wi_grant_id i"
          "gr_request_id g = request" "gr_execution_id g = wi_execution_id i"
        and rows: "approval_rows_match i q g" and hash: "worker_approval_set_hash v ?org request s = (Inr set_hash, s')"
        and same: "set_hash = wi_approval_set_hash i"
        and n: "length (filter (\<lambda>d. dc_decision d = Approved) (decisions_of ?org request (current s'))) = max 1 (length (rq_required_roles q))"
      using assms h by (auto simp: check_binding_def run_iff Some s1 select_one_Inr dest!: selected split: option.splits if_splits)
    have set_hash: "set_hash = Some (gr_approval_set_hash g)" using same rows by (simp add: approval_rows_match_def)
    obtain items where "worker_approvals ?org (approved_decisions ?org request (current s)) s = (Inr (Some items), s')"
      and code: "gr_approval_set_hash g = stable_hash (v_sha v) (JObj [(''schema_version'', JStr ''w11-required-approval-set/1.0''),
         (''approvals'', JArr (map snd (sort_key fst items)))])"
      using hash set_hash by (auto simp: worker_approval_set_hash_def run_iff Some_map_option)
    from worker_approvals_Inr [OF this(1)] obtain as where as: "s' = s" "approvals_in_force ?org request as (current s)"
        "items = map2 (\<lambda>d a. (approval_role_name (dc_approval_role d), approval_item d a)) (approved_decisions ?org request (current s)) as"
      unfolding approvals_in_force_def by blast
    have "length as = length (approved_decisions ?org request (current s))"
      using as(2) by (simp add: approvals_in_force_def list_all2_lengthD)
    then have "length as = max 1 (length (rq_required_roles q))" using n as(1) by (simp add: approved_decisions_def)
    moreover have "gr_approval_set_hash g = approval_set_of v (approved_decisions ?org request (current s)) as"
      using code as(3) by (simp add: approval_set_of_def)
    ultimately show ?thesis using q g rows as(2) by (auto simp: run_approved_def Some Let_def)
  qed
  then show ?thesis using worker_hash_Inr [OF h] by simp
qed

text \<open>
  C8. A run starts only under its authorization: \<open>mark_started\<close> answers true only when the item's row is leased and
  held with an unexpired lease, its run is leased or recovering under the same fence, the executor's organization, account
  and membership are active with the authorization hash of admission, and the run either needed no
  approval or its claimed request and grant match it, every approval of the request is still in force, they
  are as many as the required roles, and they hash to the set the grant was issued for.
\<close>

theorem started_run_is_authorized:
  "case mark_started v w i now s of
      (Inr True, s') \<Rightarrow> (\<exists>b \<in> set (outbox (committed s)). held_outbox i b \<and> ob_status b = OutboxLeased \<and> unexpired now b) \<and>
        (\<exists>r \<in> set (runs (committed s)). held_run i r \<and> pr_status r \<in> {RunLeased, RunRecovering}) \<and>
        executor_in_force v (wi_organization_id i) (wi_executor_user_id i) (wi_authorization_hash i) (committed s) \<and>
        run_approved v i (committed s)
    | _ \<Rightarrow> True"
proof -
  have "?thesis" if run: "mark_started v w i now s = (Inr True, s')" for s'
  proof -
    let ?s = "s\<lparr>current := committed s\<rparr>"
    have stale: "reject_stale v i now s1 \<noteq> (Inr True, s2)" for s1 s2 by (auto simp: reject_stale_def run_iff)
    obtain b r s1 s2 where "filter (\<lambda>b. held_outbox i b \<and> ob_status b = OutboxLeased \<and> unexpired now b) (outbox (committed s)) = [b]"
        "filter (\<lambda>r. held_run i r \<and> pr_status r \<in> {RunLeased, RunRecovering}) (runs (committed s)) = [r]"
        "check_binding v i now False ?s = (Inr True, s1)"
      using run [unfolded mark_started_def] stale
      by (elim transaction_Inr) (auto simp: run_iff select_one_Inr split: option.splits if_splits)
    then show ?thesis using run check_binding_True [of v i now False ?s] by (auto dest!: selected)
  qed
  then show ?thesis by (auto split: prod.splits sum.splits bool.splits)
qed

subsection \<open>A row given back\<close>

text \<open>A row that was leased and given back keeps the time of its lease, but has no owner.\<close>

definition given_back :: "dispatch_outbox \<Rightarrow> bool" where
  "given_back b = (ob_status b = OutboxReady \<and> 1 \<le> ob_fencing_token b \<and> ob_leased_at b \<noteq> None \<and> ob_lease_owner_hash b = None)"

lemma history_of_given_back:
  assumes "given_back b"
  shows "\<exists>s'. lease_history v b status now s = (Inl IntegrityError, s')"
proof -
  have "\<not> tables_valid (upd_leases (\<lambda>ls. ls @ [l]) t)" if "ls_worker_owner_hash l = None" for l t
    using that by (simp add: tables_valid_def rows_ok_def upd_defs lease_row_ok_def)
  then show ?thesis using assms
    by (auto simp: lease_history_def given_back_def opaque_id_def execute_def andthen_def draw_def store_def modify_def flush_def)
qed

text \<open>
  C23. A row given back and never taken again blocks the queue: when the row that is next has been released by a
  drained worker and has since expired, or has no attempt left, \<open>claim_next\<close> raises an integrity error, because it
  writes the closed lease without the owner the column requires, and commits nothing, so that the same partition
  and the same row are next again.
\<close>

theorem released_row_blocks_queue:
  assumes "next_partition (committed s) = Some p" and "next_outbox (pt_organization_id p) now (committed s) = Some b"
    and "filter (run_named (pt_organization_id p) (ob_run_id b)) (runs (committed s)) = [r]"
    and "given_back b" and "ob_expires_at b \<le> now \<or> ws_maximum_attempts w \<le> ob_attempt_count b"
  shows "fst (claim_next v w now s) = Inl IntegrityError \<and> committed (snd (claim_next v w now s)) = committed s"
proof -
  let ?s = "s\<lparr>current := committed s\<rparr>"
  have select: "select_one runs (run_named (pt_organization_id p) (ob_run_id b)) ?s = (Inr (Some r), ?s)"
    using assms(3) by (simp add: select_one_Inr)
  obtain s1 where expire: "expire_locked v (owner_hash v w) r b now ?s = (Inl IntegrityError, s1)"
    using history_of_given_back [OF assms(4), of v LeaseExpired now ?s] by (auto simp: expire_locked_def Let_def andthen_def)
  obtain s2 where exhaust: "fail_locked v (owner_hash v w) r b LeaseExhausted now ?s = (Inl IntegrityError, s2)"
    using history_of_given_back [OF assms(4), of v LeaseFailed now ?s] by (auto simp: fail_locked_def Let_def andthen_def)
  have "\<exists>s1. claim_next v w now s = (Inl IntegrityError, s1)"
    using assms(1,2,5) by (auto simp: claim_next_def transaction_def in_session_def andthen_def query_def Let_def select expire exhaust)
  moreover have "fails_clean (claim_next v w now)"
    using work_clean [of v w now ClaimNext] by simp
  ultimately show ?thesis unfolding fails_clean_def by fastforce
qed

theorem released_row_blocks_queue_witness:
  "fst (claim_next queue_env default_settings 300 (queue_session (row_demo\<lparr>ob_attempt_count := 1, ob_fencing_token := 1,
     ob_lease_version := 1, ob_leased_at := Some 10\<rparr>))) = Inl IntegrityError"
proof -
  let ?b = "row_demo\<lparr>ob_attempt_count := 1, ob_fencing_token := 1, ob_lease_version := 1, ob_leased_at := Some 10\<rparr>"
  let ?t = "committed (queue_session ?b)"
  have "next_partition ?t = Some (hd (partitions ?t))" by (simp add: queue_session_def Let_def next_partition_def)
  moreover have "next_outbox (pt_organization_id (hd (partitions ?t))) 300 ?t = Some ?b"
    by (simp add: queue_session_def Let_def next_outbox_def row_demo_def claimable_def)
  moreover have "filter (run_named (pt_organization_id (hd (partitions ?t))) (ob_run_id ?b)) (runs ?t) = [queued_demo]"
    by (simp add: queue_session_def Let_def row_demo_def queued_demo_def run_named_def)
  ultimately show ?thesis
    by (rule released_row_blocks_queue [THEN conjunct1]) (simp_all add: given_back_def row_demo_def)
qed

subsection \<open>Submitting again\<close>

lemma session_remembers:
  assumes "remembers P i m" and "find P (idempotency (committed s)) = Some i"
  shows "find P (idempotency (committed (snd (in_session m s)))) = Some i"
proof -
  have "known P i (s\<lparr>current := committed s\<rparr>)" using assms(2) by (simp add: known_def)
  then have "known P i (snd (m (s\<lparr>current := committed s\<rparr>)))" using assms(1) by (simp add: remembers_def)
  then show ?thesis by (simp add: in_session_def Let_def case_prod_beta known_def)
qed

lemma work_fresh: "do_work v w now op s = do_work v w now op (s\<lparr>current := committed s\<rparr>)"
  by (cases op; simp only: do_work.simps claim_next_def mark_started_def heartbeat_def record_deduplicated_def fail_def complete_def
    release_def Let_def transaction_def returning_def andthen_def in_session_def; simp)

lemma happens_remembers:
  assumes "find P (idempotency (committed (dp_session d))) = Some i"
  shows "find P (idempotency (committed (dp_session (happens v ev d)))) = Some i"
proof (cases ev)
  case (Request actor policy now op)
  then show ?thesis using session_remembers [OF serve_remembers assms] by simp
next
  case (Work w now op)
  let ?s = "dp_session d\<lparr>current := committed (dp_session d)\<rparr>"
  have "known P i (snd (do_work v w now op ?s))"
    using work_remembers [of P i v w now op] assms by (simp add: remembers_def known_def)
  then show ?thesis using assms unfolding Work happens.simps work_fresh [of v w now op "dp_session d"]
    by (auto simp: known_def split: prod.split)
next
  case (Elsewhere s)
  then show ?thesis using assms by simp
qed

lemma history_remembers: "find P (idempotency (committed (dp_session d))) = Some i \<Longrightarrow>
    find P (idempotency (committed (dp_session (history v evs d)))) = Some i"
  unfolding history_def by (induction evs arbitrary: d) (auto intro: happens_remembers)

lemma history_keeps_run:
  assumes "deployment_ok d" and "r \<in> set (runs (committed (dp_session d)))"
  shows "\<exists>r' \<in> set (runs (committed (dp_session (history v evs d)))). org_run r' = org_run r"
proof -
  have "runs_move (fst (queue_at d)) (fst (queue_at (history v evs d)))"
    using history_ok [OF assms(1)] queue_steps_move assms(1) by (auto simp: deployment_ok_def)
  then show ?thesis using assms(2) by (fastforce simp: runs_move_def queue_of_def same_run_def norm_run_def)
qed

lemma resubmitted:
  assumes "find (keyed actor (stable_hash_str (v_sha v) key)) (idempotency (committed s)) = Some i"
    and "find (\<lambda>r. pr_organization_id r = a_organization_id actor \<and> pr_run_id r = ir_run_id i) (runs (committed s)) = Some r"
  shows "in_session (serve v actor policy now (Admit (a_organization_id actor) key p)) s =
    (if stable_hash (v_sha v) (create_json p) = ir_body_hash i then Inr [r] else Inl IdempotencyConflict, s\<lparr>current := committed s\<rparr>)"
  using assms
  by (simp add: in_session_def admit_production_run_def require_actor_organization_def andthen_def existing_keyed require_def ret_def raise_def Let_def)



subsection \<open>The trace of a run\<close>

text \<open>
  C26. What is appended to a trace is what is read back: when the trace of a run lists and an event is appended, the
  trace then lists the earlier events unchanged followed by this one, with the safe attributes that were kept
  of those given, the next sequence number, and the span of the first event as its parent.
\<close>

theorem appended_event_reads_back:
  assumes "hex_env v" and "opaque_ok ''org_'' 8 64 org" and "opaque_ok ''run_'' 8 64 run"
  shows "case (list_observability_events org run s, append_observability_event v org run phase status reason failure attrs now s) of
      ((Inr rs, _), (Inr e, s')) \<Rightarrow> \<exists>clean. safe_attributes attrs = Inr clean \<and>
        list_observability_events org run s' = (Inr (rs @ [\<lparr>tr_event = e, tr_attributes = clean\<rparr>]), s') \<and>
        oe_event_sequence e = int (length rs) + 1 \<and>
        oe_parent_span_id e = (case rs of [] \<Rightarrow> None | r # _ \<Rightarrow> Some (oe_span_id (tr_event r)))
    | _ \<Rightarrow> True"
  using appended_is_listed [OF assms] by (simp split: prod.split sum.split) blast

text \<open>A run in a database of its own.\<close>

definition trace_env :: env where
  "trace_env = \<lparr>v_sha = (\<lambda>_. demo_hash), v_token_hex = (\<lambda>n. replicate 32 (CHR ''0'')), v_token_urlsafe = (\<lambda>n k. ''t''), v_db_now = 0\<rparr>"

definition traced_session :: session where
  "traced_session = (let t = \<lparr>organizations = [\<lparr>og_organization_id = ''org_00000000'', og_profile_code = ''p'', og_status = Active, og_version = 1,
       og_memory_version = 1, og_created_at = 0, og_updated_at = 0\<rparr>],
     users = [demo_user ''usr_o''\<lparr>us_organization_id := ''org_00000000''\<rparr>], identities = [], memberships = [], memories = [],
     authorities = [], requests = [], decisions = [], grants = [], heads = [], events = [],
     runs = [queued_demo\<lparr>pr_organization_id := ''org_00000000'', pr_run_id := ''run_00000000''\<rparr>],
     outbox = [], leases = [], partitions = [], buckets = [], idempotency = [], traces = []\<rparr> in
     demo_session\<lparr>committed := t, current := t\<rparr>)"

lemma zero_hex: "hex_char (CHR ''0'')"
  by code_simp

lemma traced_valid:
  assumes "trace_row_ok e" and "oe_organization_id e = ''org_00000000''" and "oe_run_id e = ''run_00000000''"
  shows "tables_valid (upd_traces (\<lambda>es. es @ [e]) (current traced_session))"
  using assms
  by (simp add: traced_session_def Let_def upd_defs demo_user_def queued_demo_def tables_valid_def rows_ok_def organization_row_ok_def
      user_row_ok_def production_run_row_ok_def task_binding_ok_def MOVER_TASKS_def hash_or_null_def users_keys_ok_def memberships_keys_ok_def
      memories_keys_ok_def authorities_keys_ok_def requests_keys_ok_def decisions_keys_ok_def grants_keys_ok_def audit_keys_ok_def
      runs_keys_ok_def queue_keys_ok_def admission_keys_ok_def unique_on_def unique_present_def references_def)

lemma no_attributes: "safe_attributes None = Inr [(''schema_version'', JStr ''w13-trace-attributes/1.0''), (''completed_step_ids'', JArr []),
    (''sensitive_fields_present'', JBool False)]"
  by code_simp

theorem appended_event_reads_back_witness:
  "\<exists>e s'. append_observability_event trace_env ''org_00000000'' ''run_00000000'' ''outbox'' ''queued'' ''outbox_ready'' ''none'' None 5
       traced_session = (Inr e, s') \<and>
     list_observability_events ''org_00000000'' ''run_00000000'' s' =
       (Inr [\<lparr>tr_event = e, tr_attributes = [(''schema_version'', JStr ''w13-trace-attributes/1.0''), (''completed_step_ids'', JArr []),
          (''sensitive_fields_present'', JBool False)]\<rparr>], s') \<and> oe_event_sequence e = 1"
proof -
  let ?append = "append_observability_event trace_env ''org_00000000'' ''run_00000000'' ''outbox'' ''queued'' ''outbox_ready'' ''none'' None 5
       traced_session"
  have env: "hex_env trace_env"
    by (simp add: hex_env_def trace_env_def hex_ok_def sha256_ok_def demo_hash_def zero_hex list_all_iff)
  have ids: "opaque_ok ''org_'' 8 64 ''org_00000000''" "opaque_ok ''run_'' 8 64 ''run_00000000''" by code_simp+
  have before: "list_observability_events ''org_00000000'' ''run_00000000'' traced_session = (Inr [], traced_session)"
    by (simp add: list_observability_events_def run_traces_def andthen_def query_def ret_def require_def contiguous_def traced_session_def Let_def)
  define clean where "clean = [(''schema_version'', JStr ''w13-trace-attributes/1.0''), (''completed_step_ids'', JArr []),
    (''sensitive_fields_present'', JBool False)]"
  define e where "e = new_trace (v_sha trace_env) ''org_00000000'' ''run_00000000'' ''outbox'' ''queued'' ''none'' ''outbox_ready'' clean 5
    (''obs_'' @ v_token_hex trace_env 0) 1 None"
  have "length (canonical_text clean) \<le> 2048" unfolding clean_def by code_simp
  then have row: "trace_row_ok e"
    by (simp add: e_def new_trace_def Let_def trace_row_ok_def trace_id_for_run_def span_id_def stable_hash_def trace_env_def
        trace_phases_def trace_statuses_def failure_categories_def trace_reasons_def)
  have next_is: "next_trace_sequence ''org_00000000'' ''run_00000000'' (current traced_session) = 1"
    by (simp add: next_trace_sequence_def run_traces_def traced_session_def Let_def)
  have "tables_valid (upd_traces (\<lambda>es. es @ [e]) (current traced_session))"
    by (rule traced_valid [OF row]) (simp_all add: e_def new_trace_def Let_def)
  then have "\<exists>e s'. ?append = (Inr e, s')"
    unfolding append_trace_Inr no_attributes next_is clean_def [symmetric]
    by (intro exI [of _ e]) (simp add: e_def parent_span_def traced_session_def Let_def demo_session_def queued_demo_def)
  then obtain e s' where "?append = (Inr e, s')" by blast
  then show ?thesis
    using appended_event_reads_back [OF env ids, where s = traced_session and phase = "''outbox''" and status = "''queued''"
        and reason = "''outbox_ready''" and failure = "''none''" and attrs = None and now = 5] before
    by (simp add: no_attributes)
qed

end
