(* ===== verification/Spec2Isabelle.thy ===== *)
theory Spec2Isabelle
  imports Executor_Runs Tools StepMachine Directory_Props Queue_Props
begin

text \<open>
  FlowPilot Arena: the planning agent, the control plane and the worker queue.

  The program. FlowPilot runs closed back-office workflows (joiner, mover, leaver) in a browser sandbox.
  The planning agent (\<open>apps/planning_agent\<close>) turns a request into a plan, a DAG of verified steps,
  and executes it over the browser worker under a total budget. The control plane (\<open>apps/control_api\<close>)
  keeps organizations, users, approvals, one-time grants and an audit chain in a relational database, and
  decides which action may run: by its risk level, by the approvals of distinct people, and once. It
  admits production runs into a queue of the same database, from which the workflow workers
  (\<open>apps/workflow_worker\<close>) lease them under fencing tokens and carry them to their end.

  The planning agent, theory by theory.
  \<^item> \<open>Prelude\<close>: methods over a state that return a value or raise (\<open>meth\<close>, \<open>ret\<close>, \<open>andthen\<close>, \<open>raise\<close>,
    \<open>modify\<close>), the locale \<open>invariant_system\<close> for step relations, and lists that several theories share.
  \<^item> \<open>Json\<close>: JSON values and \<open>json.dumps\<close> with sorted keys and compact separators, injective on values
    whose keys are distinct. \<open>PyText\<close>: the text checks of the schemas (regular expressions written out).
  \<^item> \<open>PlanTypes\<close> (\<open>schemas.py\<close>): vocabularies, steps, requests, results and their validators.
  \<^item> \<open>Dag\<close>, \<open>Dag_Correct\<close> (\<open>dag.py\<close>): \<open>validate_dag\<close> with Kahn's algorithm, depth, width and reachability;
    it accepts a plan exactly when the declarative contract holds, and its topology is a topological order.
  \<^item> \<open>StepMachine\<close> (\<open>dag.py\<close>): \<open>StepStateMachine\<close>; a step executes only after its dependencies.
  \<^item> \<open>Planner\<close> (\<open>planner.py\<close>, \<open>replan.py\<close>): the three fixed plans and the partial replan.
  \<^item> \<open>Budget\<close> (\<open>budget.py\<close>): every charge of the total budget ledger.
  \<^item> \<open>Tools\<close> (\<open>tools.py\<close>, \<open>verifier.py\<close>): tool matching and step verification.
  \<^item> \<open>WorkerTypes\<close> (\<open>worker_schemas.py\<close>, \<open>client.py\<close>): the exchanges with the browser worker. The worker
    itself is a parameter: a function from the request and its private state to a response or a failure.
  \<^item> \<open>Executor\<close>, \<open>Executor_Correct\<close>, \<open>Executor_Runs\<close> (\<open>executor.py\<close>): \<open>run\<close> and all its helpers; invariants of
    its event trace (only the opened session is spoken to, it is closed last, actions stay in the budget,
    a finished run verified every step), and that the default budget suffices over a willing worker.

  The control plane.
  \<^item> \<open>PyTime\<close>: datetimes as microseconds since 1970 and \<open>isoformat\<close>. \<open>JsonParse\<close>: \<open>json.loads\<close>, whose
    fuel, twice the length of the text plus one, is proved to be enough.
  \<^item> \<open>ControlTypes\<close> (\<open>schemas.py\<close>), \<open>Tables\<close> (\<open>models.py\<close>): the vocabulary, one record per table with its
    constraints. \<open>Sessions\<close> (\<open>database.py\<close>, \<open>TrustedGrantVault\<close>): transactions and the credential vault.
  \<^item> \<open>AuditLog\<close> (\<open>audit.py\<close>): appending to the hash chain and verifying it.
  \<^item> \<open>Rbac\<close> (\<open>rbac.py\<close>), \<open>Risk\<close> (\<open>risk.py\<close>): role permissions; parameter models, levels and binding hashes.
  \<^item> \<open>Approval\<close> (\<open>approval.py\<close>): authorities, the execution gate, decisions, closing, claiming, resuming and
    completing. \<open>Approval_Steps\<close> has the abstract effects of the workflow and the rules that say what a
    method commits; \<open>Approval_Effects\<close> shows that every operation commits one effect of its actor or none;
    \<open>Approval_Safety\<close> the invariant that every effect keeps.
  \<^item> \<open>Claim_Once\<close>: four eyes for every grant, and at most one successful claim. \<open>Audit_Trail\<close>: what all calls
    do to the trail and to the vault, through the locale \<open>control_invariant\<close>. \<open>Tenants\<close>: isolation of
    organizations. \<open>Control_Props\<close>: the properties, on a small database for their witnesses.
  \<^item> \<open>Etag\<close> (\<open>etag.py\<close>, \<open>w11_etag.py\<close>): entity tags and the \<open>If-Match\<close> header. \<open>Repository\<close> (\<open>repository.py\<close>,
    \<open>context_projection.py\<close>): every operation of the directory of organizations, users, memberships and
    memories, with optimistic versions. \<open>Directory\<close>: what each of them does to its row. \<open>Directory_Props\<close>: a
    version stands for one representation, no update is lost, a disabled user is locked out.

  The queue of production runs.
  \<^item> \<open>Traces\<close> (\<open>observability.py\<close>): the attribute schema, the hash-linked trace of a run, its reading and export.
  \<^item> \<open>Production\<close> (\<open>production.py\<close>): token buckets, capacity, idempotent admission, reading, claiming a run
    whose approval was granted (through \<open>claim_grant\<close> of \<open>Approval\<close>, whose hook queues it), cancelling.
  \<^item> \<open>WorkQueue\<close> (\<open>apps/workflow_worker\<close>, \<open>repository.py\<close>): \<open>claim_next\<close> (lease, reclaim, expire, give up),
    \<open>mark_started\<close> with the recheck of the authorization, \<open>heartbeat\<close>, \<open>record_deduplicated\<close>, \<open>complete\<close>,
    \<open>fail\<close> and \<open>release\<close>, each one transaction over the tables of the control plane.
  \<^item> \<open>Queue_Protocol\<close>: the abstract queue, its accounting \<open>queue_ok\<close>, the steps \<open>queue_step\<close> it may take and
    the life cycle of a run; the invariant by rule induction. \<open>Queue_Worker\<close>: every worker operation is at
    most one step, found by symbolic execution with the rules of \<open>returns\<close>. \<open>Queue_Api\<close>: every request follows
    steps, with the rules of \<open>goes\<close> for methods that commit and roll back in the middle. \<open>Queue_Replay\<close>:
    idempotency records are kept by everything. \<open>Queue_Props\<close>: histories of a deployment, in which
    requests and worker operations interleave, and the properties of the queue: it stays accounted for,
    runs follow their life cycle, leases are exclusive, a worker without its lease changes nothing, a run
    starts only under its authorization, admission is idempotent, and a released row can block the queue.

  Modelling decisions. SHA-256, the secrets, the clocks and the browser worker are parameters; a property
  that needs hashes to differ says instead which two texts collide otherwise. Transactions run one after
  another, so row locks do nothing and an update sees the latest commit; the constraints of the schema are
  enforced at commit, where the code also reports the errors of a flush. An \<open>UPDATE ... RETURNING\<close> gives the
  updated rows. JSON numbers are integers, since no payload of the modelled code has a fraction. Response
  models copy columns and are not validated again. A constraint that an autoflush would report is reported at
  the next flush or commit; a column with \<open>onupdate\<close> takes the time of its operation; a \<open>ValidationError\<close> of a
  model built from rows is \<open>ValueError\<close>; the seconds to retry after are the exact ceiling of the quotient the
  code computes in floating point. Since transactions are serial, the worker's compare-and-set updates meet
  the row they read, and the race between two first submissions of one key does not arise in the model. An event
  of a deployment that is not a request on runs or a worker operation is any change of the database that leaves the
  queue and the idempotency records alone. \<open>cancel_production_run\<close> gives up the approval of its run by updates of its
  own, outside the effects that \<open>Claim_Once\<close> covers. The only fuel is that of \<open>JsonParse\<close>.

  Not modelled. HTTP routing and dependency wiring (\<open>main.py\<close>), configuration, the engine and the
  migrations, the OpenTelemetry export, the browser runtime (Playwright), the sandbox pages and the web
  front ends: they are input and output, or libraries the sources only call. The process of the workflow worker
  around its repository (the asyncio loop, the encrypted envelopes, the Temporal client) and the recovery worker
  are driven by Temporal. The remaining agents are listed in the manifest with the reason.
\<close>

end
